(* ===== verification/Prelude.thy ===== *)
theory Prelude
  imports Main "HOL-Library.Sublist" "HOL-Library.List_Lexorder" "HOL-Library.Char_ord"
begin

text \<open>
  What every component shares: the state-and-exception operations that stand for a Python
  method (a method may change the state of its object and still raise, so the state is
  returned in both cases), the collections of facts the component proofs are driven by, and
  generic lemmas on lists, lexicographic order and stable sorting.
\<close>

named_theorems op_simps "unfolding of the state-and-exception operations"
named_theorems inv_intros "operations that preserve an invariant of a component"
named_theorems frame_simps "what an operation leaves unchanged"

section \<open>Operations on a state that may raise\<close>

type_synonym ('s, 'e, 'a) op = "'s \<Rightarrow> ('e + 'a) \<times> 's"

definition retM :: "'a \<Rightarrow> ('s, 'e, 'a) op" where
  "retM x = (\<lambda>s. (Inr x, s))"

definition raiseM :: "'e \<Rightarrow> ('s, 'e, 'a) op" where
  "raiseM e = (\<lambda>s. (Inl e, s))"

definition bindM :: "('s, 'e, 'a) op \<Rightarrow> ('a \<Rightarrow> ('s, 'e, 'b) op) \<Rightarrow> ('s, 'e, 'b) op" where
  "bindM m f = (\<lambda>s. case m s of (Inl e, s') \<Rightarrow> (Inl e, s') | (Inr x, s') \<Rightarrow> f x s')"

text \<open>\<open>try: body except C: handler\<close>, where \<open>matches\<close> says which exceptions the clause takes.\<close>

definition catchM ::
  "('s, 'e, 'a) op \<Rightarrow> ('e \<Rightarrow> bool) \<Rightarrow> ('e \<Rightarrow> ('s, 'e, 'a) op) \<Rightarrow> ('s, 'e, 'a) op" where
  "catchM body matches handler =
     (\<lambda>s. case body s of
        (Inl e, s') \<Rightarrow> if matches e then handler e s' else (Inl e, s')
      | (Inr x, s') \<Rightarrow> (Inr x, s'))"

text \<open>A pure computation that may raise, and an operation on one component of a larger state.\<close>

definition liftR :: "('e + 'a) \<Rightarrow> ('s, 'e, 'a) op" where
  "liftR r = (\<lambda>s. (r, s))"

definition focusM ::
  "('s \<Rightarrow> 't) \<Rightarrow> ('t \<Rightarrow> 's \<Rightarrow> 's) \<Rightarrow> ('t, 'e, 'a) op \<Rightarrow> ('s, 'e, 'a) op" where
  "focusM get put m = (\<lambda>s. case m (get s) of (r, t) \<Rightarrow> (r, put t s))"

text \<open>Pure computations that may raise, chained and mapped over a list (the first error wins).\<close>

definition bindR :: "('e + 'a) \<Rightarrow> ('a \<Rightarrow> 'e + 'b) \<Rightarrow> 'e + 'b" where
  "bindR r f = (case r of Inl e \<Rightarrow> Inl e | Inr x \<Rightarrow> f x)"

definition of_opt :: "'e \<Rightarrow> 'a option \<Rightarrow> 'e + 'a" where
  "of_opt e v = (case v of None \<Rightarrow> Inl e | Some x \<Rightarrow> Inr x)"

fun mapR :: "('a \<Rightarrow> 'e + 'b) \<Rightarrow> 'a list \<Rightarrow> 'e + 'b list" where
  "mapR f [] = Inr []"
| "mapR f (x # xs) = bindR (f x) (\<lambda>y. bindR (mapR f xs) (\<lambda>ys. Inr (y # ys)))"

lemma bindR_simps [simp]: "bindR (Inr x) f = f x" "bindR (Inl e) f = Inl e"
  by (simp_all add: bindR_def)

lemma of_opt_simps [simp]: "of_opt e (Some x) = Inr x" "of_opt e None = Inl e"
  by (simp_all add: of_opt_def)

lemma bindR_Inr_iff: "bindR r f = Inr y \<longleftrightarrow> (\<exists>x. r = Inr x \<and> f x = Inr y)"
  by (cases r) auto

lemma of_opt_Inr_iff [simp]: "of_opt e v = Inr x \<longleftrightarrow> v = Some x"
  by (cases v) auto

lemma mapR_Inr_map: "(\<And>x. x \<in> set xs \<Longrightarrow> f x = Inr (g x)) \<Longrightarrow> mapR f xs = Inr (map g xs)"
  by (induction xs) auto

lemma mapR_length: "mapR f xs = Inr ys \<Longrightarrow> length ys = length xs"
  by (induction xs arbitrary: ys) (auto simp: bindR_Inr_iff)

lemma retM_apply [op_simps]: "retM x s = (Inr x, s)"
  by (simp add: retM_def)

lemma raiseM_apply [op_simps]: "raiseM e s = (Inl e, s)"
  by (simp add: raiseM_def)

lemma liftR_apply [op_simps]: "liftR r s = (r, s)"
  by (simp add: liftR_def)

lemma bindM_apply [op_simps]:
  "bindM m f s = (case m s of (Inl e, s') \<Rightarrow> (Inl e, s') | (Inr x, s') \<Rightarrow> f x s')"
  by (simp add: bindM_def)

lemma catchM_apply [op_simps]:
  "catchM body matches handler s =
     (case body s of
        (Inl e, s') \<Rightarrow> if matches e then handler e s' else (Inl e, s')
      | (Inr x, s') \<Rightarrow> (Inr x, s'))"
  by (simp add: catchM_def)

lemma focusM_apply [op_simps]:
  "focusM get put m s = (case m (get s) of (r, t) \<Rightarrow> (r, put t s))"
  by (simp add: focusM_def)

lemma bindM_InrE:
  assumes "bindM m f s = (Inr y, t)"
  obtains x u where "m s = (Inr x, u)" and "f x u = (Inr y, t)"
  using assms by (auto simp: bindM_def split: prod.splits sum.splits)

text \<open>An operation that leaves a part of the state alone.\<close>

definition keeps :: "('s \<Rightarrow> 'b) \<Rightarrow> ('s, 'e, 'a) op \<Rightarrow> bool" where
  "keeps g m \<longleftrightarrow> (\<forall>s. g (snd (m s)) = g s)"

named_theorems keeps_intros

lemma keepsD: "keeps g m \<Longrightarrow> m s = (r, s') \<Longrightarrow> g s' = g s"
  by (auto simp: keeps_def dest: spec [of _ s])

lemma keeps_basic [simp, keeps_intros]: "keeps g (retM x)" "keeps g (raiseM e)" "keeps g (liftR r)"
  by (simp_all add: keeps_def op_simps)

lemma keeps_bind [keeps_intros]: "keeps g m \<Longrightarrow> (\<And>x. keeps g (f x)) \<Longrightarrow> keeps g (bindM m f)"
  by (auto simp: keeps_def bindM_apply split: prod.split sum.split) (metis snd_conv)+

lemma keeps_catch [keeps_intros]: "keeps g m \<Longrightarrow> (\<And>e. P e \<Longrightarrow> keeps g (f e)) \<Longrightarrow> keeps g (catchM m P f)"
  by (auto simp: keeps_def catchM_apply split: prod.split sum.split) (metis snd_conv)+

text \<open>A clause that cleans up and raises: when all went well it was not taken.\<close>

lemma catch_cleanup:
  "catchM m P (\<lambda>e. bindM (h e) (\<lambda>_. raiseM (k e))) s = (Inr x, s') \<Longrightarrow> m s = (Inr x, s')"
  by (auto simp: catchM_def bindM_def raiseM_def split: prod.splits sum.splits if_splits)

lemma bindM_retM [simp]: "bindM (retM x) f = f x"
  by (simp add: bindM_def retM_def)

lemma bindM_raiseM [simp]: "bindM (raiseM e) f = raiseM e"
  by (simp add: bindM_def raiseM_def)

lemma bindM_assoc: "bindM (bindM m f) g = bindM m (\<lambda>x. bindM (f x) g)"
  by (rule ext) (simp add: bindM_def split: prod.splits sum.splits)

text \<open>Paths of the host file system: their components below the root.\<close>

type_synonym path = "string list"

section \<open>Lists\<close>

lemma map_fst_filter_distinct:
  "distinct (map f xs) \<Longrightarrow> distinct (map f (filter P xs))"
  by (induction xs) auto

lemma find_append:
  "List.find P (xs @ ys) = (case List.find P xs of None \<Rightarrow> List.find P ys | Some x \<Rightarrow> Some x)"
  by (induction xs) auto

lemma find_SomeD: "List.find P xs = Some x \<Longrightarrow> P x \<and> x \<in> set xs"
  by (induction xs) (auto split: if_splits)

lemma find_None_conv: "List.find P xs = None \<longleftrightarrow> (\<forall>x \<in> set xs. \<not> P x)"
  by (induction xs) auto

lemma find_filter_same:
  "(\<And>x. P x \<Longrightarrow> Q x) \<Longrightarrow> List.find P (filter Q xs) = List.find P xs"
  by (induction xs) auto

lemma distinct_key_unique:
  "distinct (map f xs) \<Longrightarrow> x \<in> set xs \<Longrightarrow> y \<in> set xs \<Longrightarrow> f x = f y \<Longrightarrow> x = y"
  by (induction xs) (auto simp: image_iff)

text \<open>Two lists compare by their first parts when those have the same length.\<close>

lemma append_less_append:
  fixes xs ys as bs :: "'a::linorder list"
  shows "length xs = length ys \<Longrightarrow>
    xs @ as < ys @ bs \<longleftrightarrow> xs < ys \<or> xs = ys \<and> as < bs"
  by (induction xs ys rule: list_induct2) auto

lemma prefix_take_iff: "prefix xs ys \<longleftrightarrow> take (length xs) ys = xs"
  by (metis append_eq_conv_conj prefix_def)

text \<open>The removal of one occurrence from a list, as \<open>Queue.get\<close> of the head does.\<close>

lemma distinct_hd_notin_tl: "distinct (x # xs) \<Longrightarrow> x \<notin> set xs"
  by simp

lemma card_insert_fresh: "finite A \<Longrightarrow> x \<notin> A \<Longrightarrow> card (insert x A) = Suc (card A)"
  by simp

end
