(* ===== verification/Errors.thy ===== *)
theory Errors
  imports Prelude
begin

text \<open>
  The exception hierarchy of \<open>forge/errors.py\<close>, together with the exceptions of Python, of
  the database layer, of the Docker client, of the archive readers and of the HTTP transport that the modelled code lets through. An exception is modelled by its
  class; the text of its message is not (the HTTP layer carries the text separately).
\<close>

datatype exn =
    PyException
  | ForgeError
  | ConfigError
  | NotFoundError
  | ConflictError
  | WorkspaceError
  | PathEscapeError
  | RuntimeDriverError
  | ContainerStartError
  | ExecTimeoutError
  | PoolExhaustedError
  | PoolClosedError
  | SnapshotError
  | ArtifactError
  | ValueError
  | UnicodeError
  | ValidationError
  | OSError
  | TimeoutError
  | RuntimeError
  | IntegrityError
  | DockerError
  | TarError
  | ZstdError
  | TransportError

text \<open>The class statement of each exception: its direct base class.\<close>

fun base_class :: "exn \<Rightarrow> exn option" where
  "base_class PyException = None"
| "base_class ForgeError = Some PyException"
| "base_class ConfigError = Some ForgeError"
| "base_class NotFoundError = Some ForgeError"
| "base_class ConflictError = Some ForgeError"
| "base_class WorkspaceError = Some ForgeError"
| "base_class PathEscapeError = Some WorkspaceError"
| "base_class RuntimeDriverError = Some ForgeError"
| "base_class ContainerStartError = Some RuntimeDriverError"
| "base_class ExecTimeoutError = Some RuntimeDriverError"
| "base_class PoolExhaustedError = Some ForgeError"
| "base_class PoolClosedError = Some ForgeError"
| "base_class SnapshotError = Some ForgeError"
| "base_class ArtifactError = Some ForgeError"
| "base_class ValueError = Some PyException"
| "base_class UnicodeError = Some ValueError"
| "base_class ValidationError = Some ValueError"
| "base_class OSError = Some PyException"
| "base_class TimeoutError = Some OSError"
| "base_class RuntimeError = Some PyException"
| "base_class IntegrityError = Some PyException"
| "base_class DockerError = Some PyException"
| "base_class TarError = Some PyException"
| "base_class ZstdError = Some PyException"
| "base_class TransportError = Some PyException"

fun class_depth :: "exn \<Rightarrow> nat" where
  "class_depth PyException = 0"
| "class_depth PathEscapeError = 3"
| "class_depth ContainerStartError = 3"
| "class_depth ExecTimeoutError = 3"
| "class_depth ForgeError = 1"
| "class_depth ValueError = 1"
| "class_depth OSError = 1"
| "class_depth RuntimeError = 1"
| "class_depth IntegrityError = 1"
| "class_depth DockerError = 1"
| "class_depth _ = 2"

lemma base_class_depth: "base_class c = Some b \<Longrightarrow> class_depth b < class_depth c"
  by (cases c) auto

text \<open>The method resolution order: a class, then its bases up to the root.\<close>

function mro :: "exn \<Rightarrow> exn list" where
  "mro c = (case base_class c of None \<Rightarrow> [c] | Some b \<Rightarrow> c # mro b)"
  by pat_completeness auto
termination
  by (relation "measure class_depth") (auto intro: base_class_depth)

declare mro.simps [simp del]

definition is_instance :: "exn \<Rightarrow> exn \<Rightarrow> bool" where
  "is_instance e c \<longleftrightarrow> c \<in> set (mro e)"

lemma mro_self [simp]: "c \<in> set (mro c)"
  by (subst mro.simps) (simp split: option.split)

lemma is_instance_refl [simp]: "is_instance c c"
  by (simp add: is_instance_def)

lemma mro_root: "PyException \<in> set (mro c)"
proof (induction c rule: mro.induct)
  case (1 c)
  show ?case
  proof (cases "base_class c")
    case None
    then have "c = PyException" by (cases c) auto
    then show ?thesis by simp
  next
    case (Some b)
    with 1 show ?thesis by (subst mro.simps) simp
  qed
qed

text \<open>Every \<open>except Exception\<close> clause takes every exception of the model.\<close>

lemma is_instance_root [simp]: "is_instance e PyException"
  by (simp add: is_instance_def mro_root)

lemma mro_trans: "b \<in> set (mro a) \<Longrightarrow> set (mro b) \<subseteq> set (mro a)"
proof (induction a rule: mro.induct)
  case (1 c)
  show ?case
  proof (cases "base_class c")
    case None
    with 1 show ?thesis by (simp add: mro.simps [of c])
  next
    case (Some d)
    then have c: "mro c = c # mro d" by (subst mro.simps) simp
    from "1.prems" c consider "b = c" | "b \<in> set (mro d)" by auto
    then show ?thesis
    proof cases
      case 1
      then show ?thesis by simp
    next
      case 2
      with "1.IH" [OF Some] c show ?thesis by auto
    qed
  qed
qed

lemma is_instance_trans: "is_instance a b \<Longrightarrow> is_instance b c \<Longrightarrow> is_instance a c"
  using mro_trans by (auto simp: is_instance_def)

text \<open>The classes are ordered by inheritance, with the root at the top.\<close>

lemma mro_depth: "b \<in> set (mro a) \<Longrightarrow> b = a \<or> class_depth b < class_depth a"
proof (induction a rule: mro.induct)
  case (1 c)
  show ?case
  proof (cases "base_class c")
    case None
    with "1.prems" show ?thesis by (simp add: mro.simps [of c])
  next
    case (Some d)
    with "1.prems" "1.IH" [OF Some] base_class_depth [OF Some] show ?thesis by (fastforce simp: mro.simps [of c])
  qed
qed

instantiation exn :: order_top
begin

definition less_eq_exn :: "exn \<Rightarrow> exn \<Rightarrow> bool" where "less_eq_exn e c \<longleftrightarrow> is_instance e c"

definition less_exn :: "exn \<Rightarrow> exn \<Rightarrow> bool" where "less_exn e c \<longleftrightarrow> is_instance e c \<and> e \<noteq> c"

definition top_exn :: exn where "top_exn = PyException"

instance
proof
  fix a b c :: exn
  have anti: "a = b" if "is_instance a b" "is_instance b a"
    using that mro_depth [of b a] mro_depth [of a b] by (auto simp: is_instance_def)
  then show "a < b \<longleftrightarrow> a \<le> b \<and> \<not> b \<le> a" and "a \<le> b \<Longrightarrow> b \<le> a \<Longrightarrow> a = b"
    by (auto simp: less_eq_exn_def less_exn_def)
  show "a \<le> a" by (simp add: less_eq_exn_def)
  show "a \<le> b \<Longrightarrow> b \<le> c \<Longrightarrow> a \<le> c" unfolding less_eq_exn_def by (rule is_instance_trans)
  show "a \<le> top" by (simp add: less_eq_exn_def top_exn_def)
qed

end

end
