(* ===== verification/Iso_Time.thy ===== *)
theory Iso_Time
  imports Errors "HOL-Library.Monad_Syntax"
begin

text \<open>
  The timestamps of the metastore. A \<open>datetime\<close> is its fields and an optional UTC offset in
  whole minutes; \<open>isoformat\<close> prints the fields, \<open>fromisoformat\<close> reads that shape back (the
  other shapes the standard library accepts are never written by this program and are read as
  \<open>ValueError\<close> here). On top of them stand \<open>_iso\<close> and \<open>_parse_iso\<close> of
  \<open>forge/storage/meta_store.py\<close>. The theory shows the round trip and that the byte order of
  stored UTC timestamps is the order of time, which every \<open>ORDER BY created_at\<close> relies on.
\<close>

record datetime =
  dt_year :: nat
  dt_month :: nat
  dt_day :: nat
  dt_hour :: nat
  dt_minute :: nat
  dt_second :: nat
  dt_micro :: nat
  dt_tz :: "int option"

definition leap_year :: "nat \<Rightarrow> bool" where
  "leap_year y \<longleftrightarrow> y mod 4 = 0 \<and> (y mod 100 \<noteq> 0 \<or> y mod 400 = 0)"

definition days_in_month :: "nat \<Rightarrow> nat \<Rightarrow> nat" where
  "days_in_month y m =
     (if m = 2 then if leap_year y then 29 else 28
      else if m \<in> {4, 6, 9, 11} then 30 else 31)"

text \<open>What the constructor of \<open>datetime\<close> accepts.\<close>

definition valid_datetime :: "datetime \<Rightarrow> bool" where
  "valid_datetime d \<longleftrightarrow>
     1 \<le> dt_year d \<and> dt_year d \<le> 9999 \<and> 1 \<le> dt_month d \<and> dt_month d \<le> 12 \<and>
     1 \<le> dt_day d \<and> dt_day d \<le> days_in_month (dt_year d) (dt_month d) \<and>
     dt_hour d < 24 \<and> dt_minute d < 60 \<and> dt_second d < 60 \<and> dt_micro d < 1000000 \<and>
     (case dt_tz d of None \<Rightarrow> True | Some z \<Rightarrow> \<bar>z\<bar> < 1440)"

lemma days_in_month_le: "days_in_month y m \<le> 31"
  by (simp add: days_in_month_def)

section \<open>Decimal fields of a fixed width\<close>

definition digit :: "nat \<Rightarrow> char" where
  "digit n = char_of (48 + n)"

definition digit_value :: "char \<Rightarrow> nat option" where
  "digit_value c = (let n = of_char c in if 48 \<le> n \<and> n < 58 then Some (n - 48) else None)"

fun pad :: "nat \<Rightarrow> nat \<Rightarrow> string" where
  "pad 0 n = []"
| "pad (Suc k) n = pad k (n div 10) @ [digit (n mod 10)]"

fun num_from :: "nat \<Rightarrow> string \<Rightarrow> nat option" where
  "num_from acc [] = Some acc"
| "num_from acc (c # cs) =
     (case digit_value c of None \<Rightarrow> None | Some d \<Rightarrow> num_from (10 * acc + d) cs)"

lemma of_char_digit: "n < 10 \<Longrightarrow> of_char (digit n) = (48 + n :: nat)"
  by (simp add: digit_def)

lemma digit_value_digit [simp]: "n < 10 \<Longrightarrow> digit_value (digit n) = Some n"
  by (simp add: digit_value_def of_char_digit)

lemma digit_less [simp]: "m < 10 \<Longrightarrow> n < 10 \<Longrightarrow> digit m < digit n \<longleftrightarrow> m < n"
  by (simp add: less_char_def of_char_digit)

lemma digit_eq [simp]: "m < 10 \<Longrightarrow> n < 10 \<Longrightarrow> digit m = digit n \<longleftrightarrow> m = n"
  by (metis digit_value_digit option.inject)

lemma length_pad [simp]: "length (pad k n) = k"
  by (induction k arbitrary: n) auto

lemma num_from_append:
  "num_from acc (xs @ ys) =
     (case num_from acc xs of None \<Rightarrow> None | Some a \<Rightarrow> num_from a ys)"
  by (induction xs arbitrary: acc) (auto split: option.splits)

lemma num_from_pad: "n < 10 ^ k \<Longrightarrow> num_from 0 (pad k n) = Some n"
proof (induction k arbitrary: n)
  case 0
  then show ?case by simp
next
  case (Suc k)
  then have "n div 10 < 10 ^ k" by (simp add: less_mult_imp_div_less mult.commute)
  with Suc.IH show ?case by (simp add: num_from_append)
qed

lemma pad_inject: "m < 10 ^ k \<Longrightarrow> n < 10 ^ k \<Longrightarrow> pad k m = pad k n \<longleftrightarrow> m = n"
  by (metis num_from_pad option.inject)

lemma div_mod_ten_less:
  "m div 10 < n div 10 \<or> m div 10 = n div 10 \<and> m mod 10 < n mod 10 \<longleftrightarrow> m < (n::nat)"
proof -
  have "m = 10 * (m div 10) + m mod 10" "n = 10 * (n div 10) + n mod 10"
    and "m mod 10 < 10" "n mod 10 < 10" by simp_all
  then show ?thesis by linarith
qed

lemma pad_less: "m < 10 ^ k \<Longrightarrow> n < 10 ^ k \<Longrightarrow> pad k m < pad k n \<longleftrightarrow> m < n"
proof (induction k arbitrary: m n)
  case 0
  then show ?case by simp
next
  case (Suc k)
  then have m: "m div 10 < 10 ^ k" and n: "n div 10 < 10 ^ k"
    by (simp_all add: less_mult_imp_div_less mult.commute)
  have "pad (Suc k) m < pad (Suc k) n \<longleftrightarrow>
      m div 10 < n div 10 \<or> m div 10 = n div 10 \<and> m mod 10 < n mod 10"
    using Suc.IH [OF m n] pad_inject [OF m n] by (simp add: append_less_append)
  also have "\<dots> \<longleftrightarrow> m < n" by (rule div_mod_ten_less)
  finally show ?case .
qed

lemma pad_append_less:
  "m < 10 ^ k \<Longrightarrow> n < 10 ^ k \<Longrightarrow>
    pad k m @ xs < pad k n @ ys \<longleftrightarrow> m < n \<or> m = n \<and> xs < ys"
  by (simp add: append_less_append pad_less pad_inject)

section \<open>Printing and reading\<close>

definition iso_offset :: "int option \<Rightarrow> string" where
  "iso_offset z =
     (case z of None \<Rightarrow> []
      | Some m \<Rightarrow> (if m < 0 then ''-'' else ''+'') @
          pad 2 (nat \<bar>m\<bar> div 60) @ '':'' @ pad 2 (nat \<bar>m\<bar> mod 60))"

definition isoformat :: "datetime \<Rightarrow> string" where
  "isoformat d =
     pad 4 (dt_year d) @ ''-'' @ pad 2 (dt_month d) @ ''-'' @ pad 2 (dt_day d) @ ''T'' @
     pad 2 (dt_hour d) @ '':'' @ pad 2 (dt_minute d) @ '':'' @ pad 2 (dt_second d) @
     (if dt_micro d = 0 then [] else ''.'' @ pad 6 (dt_micro d)) @ iso_offset (dt_tz d)"

definition read_num :: "nat \<Rightarrow> string \<Rightarrow> (nat \<times> string) option" where
  "read_num k s =
     (if length s < k then None
      else map_option (\<lambda>n. (n, drop k s)) (num_from 0 (take k s)))"

fun read_char :: "char \<Rightarrow> string \<Rightarrow> string option" where
  "read_char c [] = None"
| "read_char c (x # xs) = (if x = c then Some xs else None)"

definition read_fraction :: "string \<Rightarrow> (nat \<times> string) option" where
  "read_fraction s =
     (case read_char (CHR ''.'') s of None \<Rightarrow> Some (0, s) | Some s' \<Rightarrow> read_num 6 s')"

definition read_offset :: "string \<Rightarrow> int option option" where
  "read_offset s =
     (case s of [] \<Rightarrow> Some None
      | c # cs \<Rightarrow>
          if c = CHR ''+'' \<or> c = CHR ''-'' then
            do { (h, s1) \<leftarrow> read_num 2 cs;
                 s2 \<leftarrow> read_char (CHR '':'') s1;
                 (m, s3) \<leftarrow> read_num 2 s2;
                 if s3 = [] then
                   (let z = int (60 * h + m)
                    in Some (Some (if c = CHR ''-'' then - z else z)))
                 else None }
          else None)"

definition fromisoformat :: "string \<Rightarrow> datetime option" where
  "fromisoformat s =
     do { (y, s) \<leftarrow> read_num 4 s;
          s \<leftarrow> read_char (CHR ''-'') s;
          (mo, s) \<leftarrow> read_num 2 s;
          s \<leftarrow> read_char (CHR ''-'') s;
          (d, s) \<leftarrow> read_num 2 s;
          s \<leftarrow> read_char (CHR ''T'') s;
          (h, s) \<leftarrow> read_num 2 s;
          s \<leftarrow> read_char (CHR '':'') s;
          (mi, s) \<leftarrow> read_num 2 s;
          s \<leftarrow> read_char (CHR '':'') s;
          (sec, s) \<leftarrow> read_num 2 s;
          (us, s) \<leftarrow> read_fraction s;
          z \<leftarrow> read_offset s;
          (let r = \<lparr>dt_year = y, dt_month = mo, dt_day = d, dt_hour = h, dt_minute = mi,
                    dt_second = sec, dt_micro = us, dt_tz = z\<rparr>
           in if valid_datetime r then Some r else None) }"

lemma read_num_pad: "n < 10 ^ k \<Longrightarrow> read_num k (pad k n @ s) = Some (n, s)"
  by (simp add: read_num_def num_from_pad)

lemma read_fraction_pad:
  "n < 1000000 \<Longrightarrow> read_fraction ((CHR ''.'') # pad 6 n @ s) = Some (n, s)"
  using read_num_pad [of n 6 s] by (simp add: read_fraction_def)

lemma read_fraction_offset: "read_fraction (iso_offset z) = Some (0, iso_offset z)"
  by (simp add: read_fraction_def iso_offset_def split: option.split)

lemma read_offset_pad:
  assumes "a < 1440" and c: "c = CHR ''+'' \<or> c = CHR ''-''"
  shows "read_offset (c # pad 2 (a div 60) @ CHR '':'' # pad 2 (a mod 60)) =
    Some (Some (if c = CHR ''-'' then - int a else int a))"
proof -
  from assms(1) have h: "a div 60 < 10 ^ 2" and r: "a mod 60 < 10 ^ 2"
    by (simp_all add: less_mult_imp_div_less)
  have s: "60 * (a div 60) + a mod 60 = a" by simp
  show ?thesis
    unfolding read_offset_def
    using c read_num_pad [OF h, of "CHR '':'' # pad 2 (a mod 60)"] read_num_pad [OF r, of "[]"]
    by (simp add: Let_def s del: of_nat_add of_nat_mult)
qed

lemma read_offset_iso:
  assumes "case z of None \<Rightarrow> True | Some m \<Rightarrow> \<bar>m\<bar> < 1440"
  shows "read_offset (iso_offset z) = Some z"
proof (cases z)
  case None
  then show ?thesis by (simp add: read_offset_def iso_offset_def)
next
  case (Some m)
  with assms have m: "nat \<bar>m\<bar> < 1440" by simp
  show ?thesis
    using read_offset_pad [OF m, of "CHR ''-''"] read_offset_pad [OF m, of "CHR ''+''"] Some
    by (cases "m < 0") (simp_all add: iso_offset_def)
qed

lemma fromisoformat_isoformat:
  assumes v: "valid_datetime d"
  shows "fromisoformat (isoformat d) = Some d"
proof -
  have b: "dt_year d < 10 ^ 4" "dt_month d < 10 ^ 2" "dt_day d < 10 ^ 2" "dt_hour d < 10 ^ 2"
    "dt_minute d < 10 ^ 2" "dt_second d < 10 ^ 2" "dt_micro d < 1000000"
    using v days_in_month_le [of "dt_year d" "dt_month d"] by (auto simp: valid_datetime_def)
  have z: "read_offset (iso_offset (dt_tz d)) = Some (dt_tz d)"
    using v by (intro read_offset_iso) (simp add: valid_datetime_def)
  have r: "\<lparr>dt_year = dt_year d, dt_month = dt_month d, dt_day = dt_day d, dt_hour = dt_hour d,
      dt_minute = dt_minute d, dt_second = dt_second d, dt_micro = dt_micro d, dt_tz = dt_tz d\<rparr> = d"
    by (cases d) simp
  have f: "read_fraction ((if dt_micro d = 0 then [] else ''.'' @ pad 6 (dt_micro d)) @
      iso_offset (dt_tz d)) = Some (dt_micro d, iso_offset (dt_tz d))"
    using b(7) by (simp add: read_fraction_pad read_fraction_offset)
  show ?thesis
    unfolding fromisoformat_def isoformat_def using v
    by (simp add: f z r Let_def read_num_pad [OF b(1)] read_num_pad [OF b(2)] read_num_pad [OF b(3)]
        read_num_pad [OF b(4)] read_num_pad [OF b(5)] read_num_pad [OF b(6)])
qed

section \<open>The columns of the metastore\<close>

text \<open>\<open>_iso\<close>: a missing timestamp stays missing, a naive one is refused.\<close>

definition iso_col :: "datetime option \<Rightarrow> exn + string option" where
  "iso_col dt =
     (case dt of None \<Rightarrow> Inr None
      | Some d \<Rightarrow> if dt_tz d = None then Inl ConfigError else Inr (Some (isoformat d)))"

text \<open>\<open>_parse_iso\<close>: a legacy row without an offset is read as UTC.\<close>

definition parse_iso_col :: "string option \<Rightarrow> exn + datetime option" where
  "parse_iso_col v =
     (case v of None \<Rightarrow> Inr None
      | Some s \<Rightarrow>
          (case fromisoformat s of None \<Rightarrow> Inl ValueError
           | Some d \<Rightarrow> Inr (Some (if dt_tz d = None then d\<lparr>dt_tz := Some 0\<rparr> else d))))"

lemma parse_iso_col_iso_col:
  "valid_datetime d \<Longrightarrow> iso_col (Some d) = Inr s \<Longrightarrow> parse_iso_col s = Inr (Some d)"
  by (auto simp: iso_col_def parse_iso_col_def fromisoformat_isoformat split: if_splits)

text \<open>The fields of a timestamp in the order in which they decide what is earlier.\<close>

definition dt_fields :: "datetime \<Rightarrow> nat list" where
  "dt_fields d = [dt_year d, dt_month d, dt_day d, dt_hour d, dt_minute d, dt_second d, dt_micro d]"

lemma iso_tail_less:
  assumes "m < 1000000" and "n < 1000000"
  shows "(if m = 0 then [] else ''.'' @ pad 6 m) @ iso_offset (Some 0)
       < (if n = 0 then [] else ''.'' @ pad 6 n) @ iso_offset (Some 0) \<longleftrightarrow> m < n"
  using assms pad_append_less [of m 6 n "iso_offset (Some 0)" "iso_offset (Some 0)"]
  by (auto simp: iso_offset_def less_char_def)

text \<open>
  The tail of a stored timestamp starts with \<open>+\<close> when the microseconds are zero and with
  \<open>.\<close> otherwise; \<open>+\<close> is the smaller byte, so the shorter form is not misplaced.
\<close>

lemma isoformat_less:
  assumes a: "valid_datetime a" "dt_tz a = Some 0" and b: "valid_datetime b" "dt_tz b = Some 0"
  shows "isoformat a < isoformat b \<longleftrightarrow> dt_fields a < dt_fields b"
proof -
  have "dt_year x < 10 ^ 4 \<and> dt_month x < 10 ^ 2 \<and> dt_day x < 10 ^ 2 \<and> dt_hour x < 10 ^ 2 \<and>
    dt_minute x < 10 ^ 2 \<and> dt_second x < 10 ^ 2 \<and> dt_micro x < 1000000"
    if "valid_datetime x" for x
    using that days_in_month_le [of "dt_year x" "dt_month x"] by (auto simp: valid_datetime_def)
  note bound = this [OF a(1)] this [OF b(1)]
  show ?thesis
    unfolding isoformat_def dt_fields_def a(2) b(2)
    using bound iso_tail_less [of "dt_micro a" "dt_micro b"]
    by (simp add: pad_append_less)
qed

end
