(* ===== verification/Py_Text.thy ===== *)
theory Py_Text
  imports Errors "HOL-Library.Word"
begin

text \<open>
  The text and byte operations of the standard library that the services use: UTF-8 with the
  \<open>strict\<close> and \<open>replace\<close> error handlers, \<open>str.splitlines\<close>, the newline translation of text-mode
  reads, \<open>str.count\<close>, \<open>str.replace\<close> and base64. A \<open>str\<close> that holds file content is its list of
  code points; a \<open>bytes\<close> value is a list of 8-bit words. Names, ids and paths are \<open>string\<close>s (the
  bytes of their UTF-8 form). Nothing here maps to a file of the repository; the lemmas are
  what the file service needs of these operations.
\<close>

type_synonym ustr = "nat list"
type_synonym bytes = "8 word list"

section \<open>UTF-8\<close>

definition scalar :: "nat \<Rightarrow> bool" where
  "scalar c \<longleftrightarrow> c \<le> 1114111 \<and> \<not> (55296 \<le> c \<and> c \<le> 57343)"

definition byte_of :: "nat \<Rightarrow> 8 word" where
  "byte_of n = word_of_nat n"

lemma unat_byte_of [simp]: "n < 256 \<Longrightarrow> unat (byte_of n) = n"
  by (simp add: byte_of_def unsigned_of_nat take_bit_nat_eq_self)

lemma byte_of_eq_iff: "m < 256 \<Longrightarrow> n < 256 \<Longrightarrow> byte_of m = byte_of n \<longleftrightarrow> m = n"
  by (metis unat_byte_of)

lemma unat_byte_less: "unat (b :: 8 word) < 256"
  using unsigned_less [of b] by simp

lemma byte_of_unat [simp]: "byte_of (unat b) = b"
  by (simp add: byte_of_def)

definition utf8_char :: "nat \<Rightarrow> bytes" where
  "utf8_char c =
     (if c < 128 then [byte_of c]
      else if c < 2048 then [byte_of (192 + c div 64), byte_of (128 + c mod 64)]
      else if c < 65536 then
        [byte_of (224 + c div 4096), byte_of (128 + c div 64 mod 64), byte_of (128 + c mod 64)]
      else
        [byte_of (240 + c div 262144), byte_of (128 + c div 4096 mod 64),
         byte_of (128 + c div 64 mod 64), byte_of (128 + c mod 64)])"

text \<open>\<open>s.encode("utf-8")\<close>: a surrogate (or a number that is no code point) cannot be encoded.\<close>

definition utf8_encode :: "ustr \<Rightarrow> bytes option" where
  "utf8_encode s = (if list_all scalar s then Some (concat (map utf8_char s)) else None)"

definition cont_count :: "nat \<Rightarrow> nat" where
  "cont_count b =
     (if 194 \<le> b \<and> b \<le> 223 then 1 else if 224 \<le> b \<and> b \<le> 239 then 2
      else if 240 \<le> b \<and> b \<le> 244 then 3 else 0)"

definition lead_payload :: "nat \<Rightarrow> nat" where
  "lead_payload b = (if b < 224 then b - 192 else if b < 240 then b - 224 else b - 240)"

definition second_range :: "nat \<Rightarrow> nat \<times> nat" where
  "second_range b =
     (if b = 224 then (160, 191) else if b = 237 then (128, 159)
      else if b = 240 then (144, 191) else if b = 244 then (128, 143) else (128, 191))"

fun utf8_conts :: "nat \<Rightarrow> nat \<times> nat \<Rightarrow> nat \<Rightarrow> nat \<Rightarrow> bytes \<Rightarrow> nat option \<times> nat" where
  "utf8_conts 0 r acc k bs = (Some acc, k)"
| "utf8_conts (Suc n) r acc k [] = (None, k)"
| "utf8_conts (Suc n) (lo, hi) acc k (b # bs) =
     (if lo \<le> unat b \<and> unat b \<le> hi
      then utf8_conts n (128, 191) (64 * acc + (unat b - 128)) (Suc k) bs else (None, k))"

text \<open>One step of the decoder: the code point, or none at a malformed subpart, and its length.\<close>

fun utf8_step :: "bytes \<Rightarrow> nat option \<times> nat" where
  "utf8_step [] = (None, 0)"
| "utf8_step (b # bs) =
     (if unat b < 128 then (Some (unat b), 1)
      else if cont_count (unat b) = 0 then (None, 1)
      else utf8_conts (cont_count (unat b)) (second_range (unat b)) (lead_payload (unat b)) 1 bs)"

lemma utf8_conts_ge: "k \<le> snd (utf8_conts n r acc k bs)"
  by (induction n r acc k bs rule: utf8_conts.induct) auto

lemma utf8_step_pos: "bs \<noteq> [] \<Longrightarrow> 0 < snd (utf8_step bs)"
  using utf8_conts_ge [of 1] by (cases bs) (auto simp: Suc_le_lessD)

function utf8_decode_replace :: "bytes \<Rightarrow> ustr" where
  "utf8_decode_replace bs =
     (if bs = [] then []
      else (case fst (utf8_step bs) of None \<Rightarrow> 65533 | Some c \<Rightarrow> c) #
           utf8_decode_replace (drop (snd (utf8_step bs)) bs))"
  by pat_completeness auto
termination
  by (relation "measure length") (auto simp: utf8_step_pos)

function utf8_decode :: "bytes \<Rightarrow> ustr option" where
  "utf8_decode bs =
     (if bs = [] then Some []
      else (case fst (utf8_step bs) of None \<Rightarrow> None
            | Some c \<Rightarrow> map_option (Cons c) (utf8_decode (drop (snd (utf8_step bs)) bs))))"
  by pat_completeness auto
termination
  by (relation "measure length") (auto simp: utf8_step_pos)

declare utf8_decode_replace.simps [simp del] utf8_decode.simps [simp del]

lemma utf8_char_nonempty [simp]: "utf8_char c \<noteq> []"
  by (simp add: utf8_char_def)

lemma utf8_conts_cont:
  assumes "q < 64" and "fst rg \<le> 128 + q" and "128 + q \<le> snd rg"
  shows "utf8_conts (Suc n) rg acc k (byte_of (128 + q) # bs) =
    utf8_conts n (128, 191) (64 * acc + q) (Suc k) bs"
  using assms by (cases rg) simp

lemma utf8_step_lead:
  assumes "b < 256" and "cont_count b = Suc n"
  shows "utf8_step (byte_of b # bs) = utf8_conts (Suc n) (second_range b) (lead_payload b) 1 bs"
  using assms by (simp add: cont_count_def split: if_splits)

lemma utf8_step_2:
  assumes "2 \<le> q" "q < 32" "r < 64"
  shows "utf8_step (byte_of (192 + q) # byte_of (128 + r) # rest) = (Some (64 * q + r), 2)"
proof -
  have "cont_count (192 + q) = Suc 0" and "second_range (192 + q) = (128, 191)"
    and "lead_payload (192 + q) = q"
    using assms by (simp_all add: cont_count_def second_range_def lead_payload_def)
  then show ?thesis
    using assms by (simp add: utf8_step_lead utf8_conts_cont del: utf8_step.simps)
qed

lemma utf8_step_3:
  assumes "p < 16" "q < 64" "r < 64" and lo: "p = 0 \<longrightarrow> 32 \<le> q" and hi: "p = 13 \<longrightarrow> q < 32"
  shows "utf8_step (byte_of (224 + p) # byte_of (128 + q) # byte_of (128 + r) # rest) =
    (Some (64 * (64 * p + q) + r), 3)"
proof -
  have c: "cont_count (224 + p) = Suc (Suc 0)" and l: "lead_payload (224 + p) = p"
    using assms by (simp_all add: cont_count_def lead_payload_def)
  have g: "fst (second_range (224 + p)) \<le> 128 + q" "128 + q \<le> snd (second_range (224 + p))"
    using assms by (auto simp: second_range_def)
  show ?thesis
    using assms(1-3) by (simp add: utf8_step_lead c l utf8_conts_cont [OF _ g] utf8_conts_cont
        del: utf8_step.simps utf8_conts.simps(3))
qed

lemma utf8_step_4:
  assumes "u < 5" "p < 64" "q < 64" "r < 64" and lo: "u = 0 \<longrightarrow> 16 \<le> p" and hi: "u = 4 \<longrightarrow> p < 16"
  shows "utf8_step (byte_of (240 + u) # byte_of (128 + p) # byte_of (128 + q) #
    byte_of (128 + r) # rest) = (Some (64 * (64 * (64 * u + p) + q) + r), 4)"
proof -
  have c: "cont_count (240 + u) = Suc (Suc (Suc 0))" and l: "lead_payload (240 + u) = u"
    using assms by (simp_all add: cont_count_def lead_payload_def)
  have g: "fst (second_range (240 + u)) \<le> 128 + p" "128 + p \<le> snd (second_range (240 + u))"
    using assms by (auto simp: second_range_def)
  show ?thesis
    using assms(1-4) by (simp add: utf8_step_lead c l utf8_conts_cont [OF _ g] utf8_conts_cont
        del: utf8_step.simps utf8_conts.simps(3))
qed

text \<open>A number in base 64, digit by digit.\<close>

lemma div_64_step: "(c div m) = 64 * (c div (m * 64)) + c div m mod (64 :: nat)"
  by (simp add: div_mult2_eq)

lemma utf8_step_char:
  assumes sc: "scalar c"
  shows "utf8_step (utf8_char c @ rest) = (Some c, length (utf8_char c))"
proof -
  define u p q r where "u = c div 262144" and "p = c div 4096" and "q = c div 64" and "r = c mod 64"
  note d = u_def [symmetric] p_def [symmetric] q_def [symmetric] r_def [symmetric]
  have c: "64 * q + r = c" and q: "64 * p + q mod 64 = q" and p: "64 * u + p mod 64 = p"
    and r: "r < 64"
    using div_64_step [of c 64] div_64_step [of c 4096] by (simp_all add: u_def p_def q_def r_def)
  have m: "q mod 64 < 64" "p mod 64 < 64" by simp_all
  consider "c < 128" | "128 \<le> c" "c < 2048" | "2048 \<le> c" "c < 65536" | "65536 \<le> c" by linarith
  then show ?thesis
  proof cases
    case 1
    then show ?thesis by (simp add: utf8_char_def)
  next
    case 2
    then have "2 \<le> q" "q < 32" using c r by linarith+
    then show ?thesis using 2 utf8_step_2 [of q r rest] r
      by (simp add: utf8_char_def d c del: utf8_step.simps)
  next
    case 3
    have "p < 16" "p = 0 \<longrightarrow> 32 \<le> q mod 64" "p = 13 \<longrightarrow> q mod 64 < 32"
      using 3 sc c q r m unfolding scalar_def by linarith+
    then show ?thesis using 3 utf8_step_3 [of p "q mod 64" r rest] r
      by (simp add: utf8_char_def d c q del: utf8_step.simps)
  next
    case 4
    have "u < 5" "u = 0 \<longrightarrow> 16 \<le> p mod 64" "u = 4 \<longrightarrow> p mod 64 < 16"
      using 4 sc c q p r m unfolding scalar_def by linarith+
    then show ?thesis using 4 utf8_step_4 [of u "p mod 64" "q mod 64" r rest] r
      by (simp add: utf8_char_def d c q p del: utf8_step.simps)
  qed
qed

lemma utf8_decode_replace_encode:
  "utf8_encode s = Some bs \<Longrightarrow> utf8_decode_replace bs = s"
proof (induction s arbitrary: bs)
  case Nil
  then show ?case by (simp add: utf8_encode_def utf8_decode_replace.simps)
next
  case (Cons c s)
  then have c: "scalar c" and bs: "bs = utf8_char c @ concat (map utf8_char s)"
    and "utf8_encode s = Some (concat (map utf8_char s))"
    by (auto simp: utf8_encode_def split: if_splits)
  with Cons.IH show ?case
    by (subst utf8_decode_replace.simps) (simp add: utf8_step_char [OF c])
qed

lemma utf8_decode_encode: "utf8_encode s = Some bs \<Longrightarrow> utf8_decode bs = Some s"
proof (induction s arbitrary: bs)
  case Nil
  then show ?case by (simp add: utf8_encode_def utf8_decode.simps)
next
  case (Cons c s)
  then have c: "scalar c" and bs: "bs = utf8_char c @ concat (map utf8_char s)"
    and "utf8_encode s = Some (concat (map utf8_char s))"
    by (auto simp: utf8_encode_def split: if_splits)
  with Cons.IH show ?case
    by (subst utf8_decode.simps) (simp add: utf8_step_char [OF c])
qed

lemma zero_in_utf8_char: "0 \<in> set (utf8_char c) \<longleftrightarrow> c = 0" if "scalar c"
proof -
  have "(0 :: 8 word) = byte_of 0" by (simp add: byte_of_def)
  then have z: "n < 256 \<Longrightarrow> (0 = byte_of n) \<longleftrightarrow> n = 0" for n
    using byte_of_eq_iff [of 0 n] by auto
  have d: "c div 262144 < 5" "c < 65536 \<Longrightarrow> c div 4096 < 16" "c < 2048 \<Longrightarrow> c div 64 < 32"
    using that by (auto simp: scalar_def less_mult_imp_div_less)
  have m: "c mod 64 < 64" "c div 64 mod 64 < 64" "c div 4096 mod 64 < 64" by simp_all
  then show ?thesis using d by (auto simp: utf8_char_def z)
qed

lemma zero_in_utf8_encode:
  "utf8_encode s = Some bs \<Longrightarrow> 0 \<in> set bs \<longleftrightarrow> 0 \<in> set s"
  by (auto simp: utf8_encode_def list_all_iff zero_in_utf8_char split: if_splits)

section \<open>Lines\<close>

definition line_break :: "nat \<Rightarrow> bool" where
  "line_break c \<longleftrightarrow> c \<in> {10, 11, 12, 13, 28, 29, 30, 133, 8232, 8233}"

text \<open>The first line with its line break, and the rest.\<close>

fun take_line :: "ustr \<Rightarrow> ustr \<times> ustr" where
  "take_line [] = ([], [])"
| "take_line (c # cs) =
     (if c = 13 \<and> cs \<noteq> [] \<and> hd cs = 10 then ([13, 10], tl cs)
      else if line_break c then ([c], cs)
      else (c # fst (take_line cs), snd (take_line cs)))"

lemma take_line_append: "fst (take_line s) @ snd (take_line s) = s"
  by (induction s rule: take_line.induct) (auto simp: neq_Nil_conv)

lemma take_line_shorter: "s \<noteq> [] \<Longrightarrow> length (snd (take_line s)) < length s"
proof (induction s rule: take_line.induct)
  case (2 c cs)
  then show ?case by (cases "cs = []") (auto simp: less_Suc_eq)
qed simp

text \<open>\<open>s.splitlines(keepends=True)\<close>.\<close>

function splitlines_keep :: "ustr \<Rightarrow> ustr list" where
  "splitlines_keep s =
     (if s = [] then [] else fst (take_line s) # splitlines_keep (snd (take_line s)))"
  by pat_completeness auto
termination
  by (relation "measure length") (auto simp: take_line_shorter)

declare splitlines_keep.simps [simp del]

definition strip_break :: "ustr \<Rightarrow> ustr" where
  "strip_break l =
     (if l = [] then []
      else if last l = 10 \<and> butlast l \<noteq> [] \<and> last (butlast l) = 13 then butlast (butlast l)
      else if line_break (last l) then butlast l else l)"

text \<open>\<open>s.splitlines()\<close>.\<close>

definition splitlines :: "ustr \<Rightarrow> ustr list" where
  "splitlines s = map strip_break (splitlines_keep s)"

lemma concat_splitlines_keep: "concat (splitlines_keep s) = s"
proof (induction s rule: splitlines_keep.induct)
  case (1 s)
  then show ?case by (subst splitlines_keep.simps) (simp add: take_line_append)
qed

text \<open>What a text-mode read does to line ends (universal newlines).\<close>

fun translate_newlines :: "ustr \<Rightarrow> ustr" where
  "translate_newlines [] = []"
| "translate_newlines (c # cs) =
     (if c = 13 then 10 # translate_newlines (if cs \<noteq> [] \<and> hd cs = 10 then tl cs else cs)
      else c # translate_newlines cs)"

lemma translate_newlines_id: "13 \<notin> set s \<Longrightarrow> translate_newlines s = s"
  by (induction s rule: translate_newlines.induct) auto

lemma translate_newlines_no_cr: "13 \<notin> set (translate_newlines s)"
  by (induction s rule: translate_newlines.induct) auto

section \<open>Counting and replacing\<close>

text \<open>\<open>s.count(pat)\<close>: occurrences that do not overlap, from the left.\<close>

function count_sub :: "ustr \<Rightarrow> ustr \<Rightarrow> nat" where
  "count_sub pat s =
     (if pat = [] then Suc (length s)
      else if s = [] then 0
      else if prefix pat s then Suc (count_sub pat (drop (length pat) s))
      else count_sub pat (tl s))"
  by pat_completeness auto
termination
  by (relation "measure (\<lambda>(pat, s). length s)") auto

declare count_sub.simps [simp del]

text \<open>\<open>s.replace(pat, new, n)\<close> with at most \<open>n\<close> replacements.\<close>

fun interleave :: "ustr \<Rightarrow> nat \<Rightarrow> ustr \<Rightarrow> ustr" where
  "interleave new 0 s = s"
| "interleave new (Suc n) [] = new"
| "interleave new (Suc n) (c # cs) = new @ c # interleave new n cs"

function replace_nonempty :: "ustr \<Rightarrow> ustr \<Rightarrow> nat \<Rightarrow> ustr \<Rightarrow> ustr" where
  "replace_nonempty pat new n s =
     (if pat = [] \<or> n = 0 \<or> s = [] then s
      else if prefix pat s then new @ replace_nonempty pat new (n - 1) (drop (length pat) s)
      else hd s # replace_nonempty pat new n (tl s))"
  by pat_completeness auto
termination
  by (relation "measure (\<lambda>(pat, new, n, s). length s)") auto

declare replace_nonempty.simps [simp del]

definition replace_n :: "ustr \<Rightarrow> ustr \<Rightarrow> nat \<Rightarrow> ustr \<Rightarrow> ustr" where
  "replace_n pat new n s =
     (if pat = [] then interleave new n s else replace_nonempty pat new n s)"

text \<open>\<open>s.replace(pat, new)\<close>: no limit, so as many as there are occurrences.\<close>

definition replace_every :: "ustr \<Rightarrow> ustr \<Rightarrow> ustr \<Rightarrow> ustr" where
  "replace_every pat new s = replace_n pat new (count_sub pat s) s"

text \<open>\<open>sep.join(pieces)\<close>.\<close>

fun join_text :: "ustr \<Rightarrow> ustr list \<Rightarrow> ustr" where
  "join_text sep [] = []"
| "join_text sep [p] = p"
| "join_text sep (p # q # ps) = p @ sep @ join_text sep (q # ps)"

lemma join_text_Cons: "ps \<noteq> [] \<Longrightarrow> join_text sep (p # ps) = p @ sep @ join_text sep ps"
  by (cases ps) auto

lemma join_text_push: "ps \<noteq> [] \<Longrightarrow> join_text sep ((c # hd ps) # tl ps) = c # join_text sep ps"
  by (cases ps; cases "tl ps") auto

lemma replace_nonempty_pieces:
  "pat \<noteq> [] \<Longrightarrow> n \<le> count_sub pat s \<Longrightarrow>
    \<exists>ps. length ps = Suc n \<and> s = join_text pat ps \<and> replace_nonempty pat new n s = join_text new ps"
proof (induction pat new n s rule: replace_nonempty.induct)
  case (1 pat new n s)
  note r = replace_nonempty.simps [of pat new n s] and c = count_sub.simps [of pat s]
  consider "n = 0 \<or> s = []" | m where "n = Suc m" "s \<noteq> []" "prefix pat s" | "n \<noteq> 0" "s \<noteq> []" "\<not> prefix pat s"
    by (cases n) auto
  then show ?case
  proof cases
    case 1
    with "1.prems" have "n = 0" by (auto simp: c)
    then show ?thesis by (intro exI [of _ "[s]"]) (simp add: replace_nonempty.simps [of pat new 0 s])
  next
    case (2 m)
    with "1.prems" "1.IH"(1) obtain ps where ps: "length ps = n" "drop (length pat) s = join_text pat ps"
      "replace_nonempty pat new m (drop (length pat) s) = join_text new ps" by (auto simp: c)
    then have "ps \<noteq> []" using 2(1) by auto
    moreover have "s = pat @ drop (length pat) s" using 2(3) by (auto simp: prefix_def)
    moreover have "replace_nonempty pat new n s = new @ join_text new ps"
      using 2 "1.prems"(1) ps(3) by (subst r) simp
    ultimately show ?thesis using ps(1,2)
      by (intro exI [of _ "[] # ps"]) (simp add: join_text_Cons)
  next
    case 3
    with "1.prems" "1.IH"(2) obtain ps where "length ps = Suc n" "tl s = join_text pat ps"
      "replace_nonempty pat new n (tl s) = join_text new ps" by (auto simp: c)
    moreover from this have "ps \<noteq> []" by auto
    moreover have "s = hd s # tl s" using 3 by simp
    moreover have "replace_nonempty pat new n s = hd s # replace_nonempty pat new n (tl s)"
      using 3 "1.prems"(1) by (subst r) simp
    ultimately show ?thesis
      by (intro exI [of _ "(hd s # hd ps) # tl ps"]) (simp add: join_text_push)
  qed
qed

lemma interleave_pieces:
  "n \<le> Suc (length s) \<Longrightarrow>
    \<exists>ps. length ps = Suc n \<and> s = join_text [] ps \<and> interleave new n s = join_text new ps"
proof (induction new n s rule: interleave.induct)
  case (1 new s)
  then show ?case by (intro exI [of _ "[s]"]) simp
next
  case (2 new n)
  then show ?case by (intro exI [of _ "[[], []]"]) simp
next
  case (3 new n c cs)
  then obtain ps where "length ps = Suc n" "cs = join_text [] ps" "interleave new n cs = join_text new ps" by auto
  moreover from this have "ps \<noteq> []" by auto
  ultimately show ?case
    by (intro exI [of _ "[] # (c # hd ps) # tl ps"]) (auto simp: join_text_push)
qed

text \<open>Replacing is splitting at the occurrences and joining the pieces again.\<close>

lemma replace_n_pieces:
  assumes "n \<le> count_sub pat s"
  shows "\<exists>ps. length ps = Suc n \<and> s = join_text pat ps \<and> replace_n pat new n s = join_text new ps"
  using assms replace_nonempty_pieces [of pat n s new] interleave_pieces [of n s new]
  by (auto simp: replace_n_def count_sub.simps [of "[]" s])

section \<open>Base64\<close>

text \<open>The alphabet \<open>A-Z a-z 0-9 + /\<close>, by position and by character.\<close>

definition b64_char :: "nat \<Rightarrow> char" where
  "b64_char n =
     char_of (if n < 26 then n + 65 else if n < 52 then n + 71 else if n < 62 then n - 4
              else if n = 62 then 43 else 47)"

definition b64_value :: "char \<Rightarrow> nat option" where
  "b64_value c =
     (let n = of_char c in
      if 65 \<le> n \<and> n \<le> 90 then Some (n - 65)
      else if 97 \<le> n \<and> n \<le> 122 then Some (n - 71)
      else if 48 \<le> n \<and> n \<le> 57 then Some (n + 4)
      else if n = 43 then Some 62
      else if n = 47 then Some 63 else None)"

fun b64encode :: "bytes \<Rightarrow> string" where
  "b64encode [] = []"
| "b64encode [a] =
     [b64_char (unat a div 4), b64_char (unat a mod 4 * 16), CHR ''='', CHR ''='']"
| "b64encode [a, b] =
     [b64_char (unat a div 4), b64_char (unat a mod 4 * 16 + unat b div 16),
      b64_char (unat b mod 16 * 4), CHR ''='']"
| "b64encode (a # b # c # bs) =
     b64_char (unat a div 4) # b64_char (unat a mod 4 * 16 + unat b div 16) #
     b64_char (unat b mod 16 * 4 + unat c div 64) # b64_char (unat c mod 64) # b64encode bs"

text \<open>
  \<open>b64decode(s, validate=True)\<close>: quartets of alphabet characters, padding only at the very
  end; anything else is a \<open>ValueError\<close>, here \<open>None\<close>.
\<close>

fun b64decode :: "string \<Rightarrow> bytes option" where
  "b64decode [] = Some []"
| "b64decode (p # q # r # t # rest) =
     (case (b64_value p, b64_value q) of
        (Some x, Some y) \<Rightarrow>
          (case b64_value r of
             None \<Rightarrow>
               if r = CHR ''='' \<and> t = CHR ''='' \<and> rest = []
               then Some [byte_of (x * 4 + y div 16)] else None
           | Some z \<Rightarrow>
               (case b64_value t of
                  None \<Rightarrow>
                    if t = CHR ''='' \<and> rest = []
                    then Some [byte_of (x * 4 + y div 16), byte_of (y mod 16 * 16 + z div 4)]
                    else None
                | Some w \<Rightarrow>
                    map_option (\<lambda>bs. byte_of (x * 4 + y div 16) #
                        byte_of (y mod 16 * 16 + z div 4) # byte_of (z mod 4 * 64 + w) # bs)
                      (b64decode rest)))
      | _ \<Rightarrow> None)"
| "b64decode _ = None"

lemma b64_value_char: "n < 64 \<Longrightarrow> b64_value (b64_char n) = Some n"
  by (simp add: b64_value_def b64_char_def Let_def) arith

lemma b64_value_eq [simp]: "b64_value (CHR ''='') = None"
  by (simp add: b64_value_def)

lemma b64_split_6_2: "b < 256 \<Longrightarrow> a div 4 * 4 + (a mod 4 * 16 + b div 16) div 16 = (a :: nat)"
  by (simp add: less_mult_imp_div_less)

lemma b64_split_4_4:
  assumes "b < 256" "c < 256"
  shows "(a mod 4 * 16 + b div 16) mod 16 * 16 + (b mod 16 * 4 + c div 64) div 4 = (b :: nat)"
proof -
  have "(a mod 4 * 16 + b div 16) mod 16 = b div 16" and "(b mod 16 * 4 + c div 64) div 4 = b mod 16"
    using assms by (simp_all add: less_mult_imp_div_less)
  then show ?thesis by simp
qed

lemma b64_split_2_6: "c < 256 \<Longrightarrow> (b mod 16 * 4 + c div 64) mod 4 * 64 + c mod 64 = (c :: nat)"
  by (simp add: less_mult_imp_div_less)

lemma b64_sextets:
  fixes a b c :: nat
  assumes "a < 256" "b < 256" "c < 256"
  shows "a div 4 < 64" and "a mod 4 * 16 + b div 16 < 64" and "b mod 16 * 4 + c div 64 < 64"
proof -
  have "a mod 4 \<le> 3" "b div 16 < 16" "b mod 16 \<le> 15" "c div 64 < 4"
    using assms by (simp_all add: less_mult_imp_div_less less_Suc_eq_le [symmetric])
  then show "a mod 4 * 16 + b div 16 < 64" and "b mod 16 * 4 + c div 64 < 64" by linarith+
  show "a div 4 < 64" using assms by (simp add: less_mult_imp_div_less)
qed

lemma b64decode_b64encode: "b64decode (b64encode bs) = Some bs"
proof (induction bs rule: b64encode.induct)
  case 1
  then show ?case by simp
next
  case (2 a)
  note u = unat_byte_less [of a]
  show ?case
    using b64_sextets [OF u, of 0 0] b64_split_6_2 [of 0 "unat a"] by (simp add: b64_value_char)
next
  case (3 a b)
  note u = unat_byte_less [of a] unat_byte_less [of b]
  show ?case
    using b64_sextets [OF u, of 0] b64_split_6_2 [OF u(2), of "unat a"]
      b64_split_4_4 [OF u(2), of 0 "unat a"] by (simp add: b64_value_char)
next
  case (4 a b c bs)
  note u = unat_byte_less [of a] unat_byte_less [of b] unat_byte_less [of c]
  show ?case
    using 4 b64_sextets [OF u] b64_split_6_2 [OF u(2), of "unat a"]
      b64_split_4_4 [OF u(2,3), of "unat a"] b64_split_2_6 [OF u(3), of "unat b"]
    by (simp add: b64_value_char)
qed

end
