(* ===== verification/Models.thy ===== *)
theory Models
  imports Complex_Main Iso_Time Py_Text
begin

text \<open>
  The data of \<open>forge/models.py\<close> and \<open>forge/config.py\<close>: one record per model class, one datatype
  per \<open>Literal\<close>, the field defaults as the constructors the code calls, and the JSON form of a
  \<open>WorkspaceSpec\<close> (the one model that is stored as JSON in the metastore). A \<open>dict[str, str]\<close> is
  its list of items in insertion order, a \<open>float\<close> a rational.
\<close>

section \<open>Statuses and kinds\<close>

datatype workspace_status = WsCreating | WsReady | WsDeleting | WsDeleted | WsFailed

datatype execution_status =
  ExQueued | ExRunning | ExSucceeded | ExFailed | ExCancelled | ExTimedOut

datatype environment_status = EnvCreating | EnvRunning | EnvStopped | EnvFailed

datatype isolation_kind = IsoProcess | IsoContainer | IsoMicrovm | IsoVm | IsoWasm

fun workspace_status_str :: "workspace_status \<Rightarrow> string" where
  "workspace_status_str WsCreating = ''creating''"
| "workspace_status_str WsReady = ''ready''"
| "workspace_status_str WsDeleting = ''deleting''"
| "workspace_status_str WsDeleted = ''deleted''"
| "workspace_status_str WsFailed = ''failed''"

fun execution_status_str :: "execution_status \<Rightarrow> string" where
  "execution_status_str ExQueued = ''queued''"
| "execution_status_str ExRunning = ''running''"
| "execution_status_str ExSucceeded = ''succeeded''"
| "execution_status_str ExFailed = ''failed''"
| "execution_status_str ExCancelled = ''cancelled''"
| "execution_status_str ExTimedOut = ''timed_out''"

text \<open>Validation of a \<open>Literal\<close> field: the member whose text it is, if there is one.\<close>

definition parse_workspace_status :: "string \<Rightarrow> workspace_status option" where
  "parse_workspace_status s =
     List.find (\<lambda>w. workspace_status_str w = s) [WsCreating, WsReady, WsDeleting, WsDeleted, WsFailed]"

definition parse_execution_status :: "string \<Rightarrow> execution_status option" where
  "parse_execution_status s =
     List.find (\<lambda>w. execution_status_str w = s)
       [ExQueued, ExRunning, ExSucceeded, ExFailed, ExCancelled, ExTimedOut]"

lemma parse_workspace_status_str [simp]: "parse_workspace_status (workspace_status_str w) = Some w"
  by (cases w) (simp_all add: parse_workspace_status_def)

lemma parse_execution_status_str [simp]: "parse_execution_status (execution_status_str w) = Some w"
  by (cases w) (simp_all add: parse_execution_status_def)

section \<open>Workspaces\<close>

type_synonym dict = "(string \<times> string) list"

record resource_limits =
  rl_cpu :: "rat option"
  rl_memory :: "string option"
  rl_disk :: "string option"

definition default_limits :: resource_limits where
  "default_limits = \<lparr>rl_cpu = None, rl_memory = None, rl_disk = None\<rparr>"

datatype runtime_kind = DockerRuntime

record workspace_spec =
  spec_image :: string
  spec_runtime :: runtime_kind
  spec_working_dir :: "string option"
  spec_env :: dict
  spec_resources :: resource_limits

definition default_spec :: "string \<Rightarrow> workspace_spec" where
  "default_spec img =
     \<lparr>spec_image = img, spec_runtime = DockerRuntime, spec_working_dir = None,
      spec_env = [], spec_resources = default_limits\<rparr>"

record workspace =
  ws_id :: string
  ws_spec :: workspace_spec
  ws_status :: workspace_status
  ws_name :: "string option"
  ws_metadata :: dict
  ws_created_at :: datetime
  ws_updated_at :: datetime

record environment =
  env_id :: string
  env_image :: string
  env_runtime :: string
  env_status :: environment_status
  env_created_at :: datetime

section \<open>Executions\<close>

record execution =
  ex_id :: string
  ex_workspace_id :: string
  ex_environment_id :: "string option"
  ex_command :: "string list"
  ex_shell :: bool
  ex_status :: execution_status
  ex_exit_code :: "int option"
  ex_truncated :: bool
  ex_output_path :: "string option"
  ex_started_at :: "datetime option"
  ex_finished_at :: "datetime option"
  ex_idempotency_key :: "string option"

definition new_execution :: "string \<Rightarrow> string \<Rightarrow> string list \<Rightarrow> execution" where
  "new_execution eid wid cmd =
     \<lparr>ex_id = eid, ex_workspace_id = wid, ex_environment_id = None, ex_command = cmd,
      ex_shell = False, ex_status = ExQueued, ex_exit_code = None, ex_truncated = False,
      ex_output_path = None, ex_started_at = None, ex_finished_at = None,
      ex_idempotency_key = None\<rparr>"

record execution_result =
  er_execution_id :: string
  er_output :: ustr
  er_exit_code :: int
  er_truncated :: bool
  er_output_path :: "string option"
  er_duration_ms :: int

datatype log_stream = StdoutStream | StderrStream

record log_event =
  le_execution_id :: string
  le_stream :: log_stream
  le_ts :: datetime
  le_data :: ustr

section \<open>Snapshots, artifacts\<close>

record snapshot =
  snap_id :: string
  snap_workspace_id :: string
  snap_name :: "string option"
  snap_size_bytes :: int
  snap_parent_id :: "string option"
  snap_created_at :: datetime

record artifact =
  art_id :: string
  art_workspace_id :: string
  art_path :: string
  art_size_bytes :: int
  art_content_type :: "string option"
  art_created_at :: datetime

section \<open>Pool\<close>

record pool_config =
  pc_image :: string
  pc_min_idle :: int
  pc_max_size :: int
  pc_idle_ttl_seconds :: int
  pc_exec_timeout_seconds :: int
  pc_max_output_bytes :: int
  pc_lease_wait_timeout_seconds :: rat
  pc_workspaces_mount :: string

definition default_pool_config :: pool_config where
  "default_pool_config =
     \<lparr>pc_image = ''python:3.13-slim'', pc_min_idle = 1, pc_max_size = 8,
      pc_idle_ttl_seconds = 600, pc_exec_timeout_seconds = 120, pc_max_output_bytes = 100000,
      pc_lease_wait_timeout_seconds = 30, pc_workspaces_mount = ''/workspaces''\<rparr>"

record pool_stats =
  ps_image :: string
  ps_idle :: nat
  ps_in_use :: nat
  ps_total :: nat
  ps_max_size :: int
  ps_min_idle :: int
  ps_total_leases :: nat
  ps_total_lease_wait_ms :: int
  ps_total_health_kills :: nat

record runtime_capabilities =
  rc_isolation :: isolation_kind
  rc_snapshots :: bool
  rc_pause_resume :: bool
  rc_network_control :: bool
  rc_resource_limits :: bool
  rc_hot_attach_volume :: bool
  rc_gpu :: bool
  rc_supports_streaming_logs :: bool

section \<open>Requests\<close>

record exec_request =
  rq_command :: "string list"
  rq_shell :: bool
  rq_env :: dict
  rq_timeout_seconds :: "rat option"
  rq_max_output_bytes :: "int option"
  rq_idempotency_key :: "string option"

definition new_exec_request :: "string list \<Rightarrow> exec_request" where
  "new_exec_request cmd =
     \<lparr>rq_command = cmd, rq_shell = False, rq_env = [], rq_timeout_seconds = None,
      rq_max_output_bytes = None, rq_idempotency_key = None\<rparr>"

record file_list_entry =
  fle_name :: string
  fle_path :: string
  fle_is_dir :: bool
  fle_size_bytes :: nat
  fle_modified_at :: datetime

section \<open>Events\<close>

datatype payload_value = PvStr string | PvInt int | PvBool bool

record forge_event =
  ev_kind :: string
  ev_ts :: datetime
  ev_workspace_id :: "string option"
  ev_execution_id :: "string option"
  ev_payload :: "(string \<times> payload_value) list"

section \<open>The JSON form of a workspace spec\<close>

text \<open>A string is a name (the bytes of its UTF-8 form) or a text (its code points).\<close>

datatype json =
    JNull
  | JBool bool
  | JInt int
  | JFloat rat
  | JStr string
  | JText ustr
  | JArr "json list"
  | JObj "(string \<times> json) list"

definition json_opt_str :: "string option \<Rightarrow> json" where
  "json_opt_str v = (case v of None \<Rightarrow> JNull | Some s \<Rightarrow> JStr s)"

definition json_dict :: "dict \<Rightarrow> json" where
  "json_dict d = JObj (map (\<lambda>(k, v). (k, JStr v)) d)"

definition limits_to_json :: "resource_limits \<Rightarrow> json" where
  "limits_to_json r =
     JObj [(''cpu'', case rl_cpu r of None \<Rightarrow> JNull | Some c \<Rightarrow> JFloat c),
           (''memory'', json_opt_str (rl_memory r)), (''disk'', json_opt_str (rl_disk r))]"

text \<open>\<open>spec.model_dump_json()\<close>: every field, by its name.\<close>

definition spec_to_json :: "workspace_spec \<Rightarrow> json" where
  "spec_to_json s =
     JObj [(''image'', JStr (spec_image s)), (''runtime'', JStr ''docker''),
           (''working_dir'', json_opt_str (spec_working_dir s)),
           (''env'', json_dict (spec_env s)),
           (''resources'', limits_to_json (spec_resources s))]"

fun as_str :: "json \<Rightarrow> string option" where
  "as_str (JStr s) = Some s"
| "as_str _ = None"

fun as_opt_str :: "json \<Rightarrow> string option option" where
  "as_opt_str JNull = Some None"
| "as_opt_str (JStr s) = Some (Some s)"
| "as_opt_str _ = None"

fun as_opt_float :: "json \<Rightarrow> rat option option" where
  "as_opt_float JNull = Some None"
| "as_opt_float (JInt i) = Some (Some (of_int i))"
| "as_opt_float (JFloat q) = Some (Some q)"
| "as_opt_float _ = None"

fun dict_items :: "(string \<times> json) list \<Rightarrow> dict option" where
  "dict_items [] = Some []"
| "dict_items ((k, v) # xs) =
     do { s \<leftarrow> as_str v; rest \<leftarrow> dict_items xs; Some ((k, s) # rest) }"

fun as_dict :: "json \<Rightarrow> dict option" where
  "as_dict (JObj xs) = dict_items xs"
| "as_dict _ = None"

text \<open>A field with a default: its value when present, the default otherwise.\<close>

definition field_or :: "(string \<times> json) list \<Rightarrow> string \<Rightarrow> (json \<Rightarrow> 'a option) \<Rightarrow> 'a \<Rightarrow> 'a option" where
  "field_or obj k conv dflt = (case map_of obj k of None \<Rightarrow> Some dflt | Some v \<Rightarrow> conv v)"

definition field_req :: "(string \<times> json) list \<Rightarrow> string \<Rightarrow> (json \<Rightarrow> 'a option) \<Rightarrow> 'a option" where
  "field_req obj k conv = (case map_of obj k of None \<Rightarrow> None | Some v \<Rightarrow> conv v)"

fun limits_of_json :: "json \<Rightarrow> resource_limits option" where
  "limits_of_json (JObj o1) =
     do { c \<leftarrow> field_or o1 ''cpu'' as_opt_float None;
          m \<leftarrow> field_or o1 ''memory'' as_opt_str None;
          d \<leftarrow> field_or o1 ''disk'' as_opt_str None;
          Some \<lparr>rl_cpu = c, rl_memory = m, rl_disk = d\<rparr> }"
| "limits_of_json _ = None"

fun as_runtime :: "json \<Rightarrow> runtime_kind option" where
  "as_runtime (JStr s) = (if s = ''docker'' then Some DockerRuntime else None)"
| "as_runtime _ = None"

text \<open>\<open>WorkspaceSpec.model_validate_json(text)\<close>; \<open>None\<close> is a \<open>ValidationError\<close>.\<close>

fun spec_of_json :: "json \<Rightarrow> workspace_spec option" where
  "spec_of_json (JObj o1) =
     do { img \<leftarrow> field_req o1 ''image'' as_str;
          rt \<leftarrow> field_or o1 ''runtime'' as_runtime DockerRuntime;
          wd \<leftarrow> field_or o1 ''working_dir'' as_opt_str None;
          en \<leftarrow> field_or o1 ''env'' as_dict [];
          rs \<leftarrow> field_or o1 ''resources'' limits_of_json default_limits;
          Some \<lparr>spec_image = img, spec_runtime = rt, spec_working_dir = wd,
                spec_env = en, spec_resources = rs\<rparr> }"
| "spec_of_json _ = None"

lemma as_opt_str_json [simp]: "as_opt_str (json_opt_str v) = Some v"
  by (cases v) (simp_all add: json_opt_str_def)

lemma as_dict_json [simp]: "as_dict (json_dict d) = Some d"
  by (induction d) (auto simp: json_dict_def)

lemma limits_of_json_to_json [simp]: "limits_of_json (limits_to_json r) = Some r"
  by (cases r) (simp add: limits_to_json_def field_or_def split: option.split)

lemma spec_of_json_to_json [simp]: "spec_of_json (spec_to_json s) = Some s"
  by (cases s; cases "spec_runtime s") (simp add: spec_to_json_def field_or_def field_req_def)

section \<open>Configuration\<close>

definition DEFAULT_IMAGE :: string where
  "DEFAULT_IMAGE = ''python:3.14-slim''"

record forge_config =
  fc_data_root :: path
  fc_meta_db_path :: path
  fc_default_pool :: pool_config
  fc_per_image_pool :: "string \<Rightarrow> pool_config option"

definition workspaces_root :: "forge_config \<Rightarrow> path" where
  "workspaces_root c = fc_data_root c @ [''workspaces'']"

definition snapshots_root :: "forge_config \<Rightarrow> path" where
  "snapshots_root c = fc_data_root c @ [''snapshots'']"

definition artifacts_root :: "forge_config \<Rightarrow> path" where
  "artifacts_root c = fc_data_root c @ [''artifacts'']"

definition pool_config_for :: "forge_config \<Rightarrow> string \<Rightarrow> pool_config" where
  "pool_config_for c img =
     (case fc_per_image_pool c img of
        Some override \<Rightarrow> override
      | None \<Rightarrow> (fc_default_pool c)\<lparr>pc_image := img\<rparr>)"

text \<open>
  \<open>make_config\<close> without the directory creation; the data root given, from the environment
  variable or the fallback below the home directory, already resolved.
\<close>

definition make_config ::
  "path option \<Rightarrow> path option \<Rightarrow> path \<Rightarrow> pool_config option \<Rightarrow> (string \<Rightarrow> pool_config option) \<Rightarrow>
    forge_config" where
  "make_config given env_root home default_pool per_image =
     (let base = (case given of Some r \<Rightarrow> r
                  | None \<Rightarrow> (case env_root of Some r \<Rightarrow> r | None \<Rightarrow> home @ [''.forge'']))
      in \<lparr>fc_data_root = base, fc_meta_db_path = base @ [''meta.db''],
          fc_default_pool = (case default_pool of Some p \<Rightarrow> p
                             | None \<Rightarrow> default_pool_config\<lparr>pc_image := DEFAULT_IMAGE\<rparr>),
          fc_per_image_pool = per_image\<rparr>)"

lemma pool_config_for_image:
  "(\<And>img p. fc_per_image_pool c img = Some p \<Longrightarrow> pc_image p = img) \<Longrightarrow>
    pc_image (pool_config_for c img) = img"
  by (simp add: pool_config_for_def split: option.split)

end
