(* ===== verification/Pool.thy ===== *)
theory Pool
  imports Models "HOL-Library.AList"
begin

text \<open>
  The container pool of \<open>forge/pool/container_pool.py\<close> as a transition system. The event loop
  runs one coroutine at a time, from one \<open>await\<close> to the next: a coroutine is a program counter
  (\<open>pc\<close>), one constructor per \<open>await\<close> it can be suspended at (an \<open>async with lock\<close> that has to
  wait is one), and a step of the system resumes one coroutine with the outcome of what it was
  waiting for and runs it to its next suspension. Outcomes of the runtime driver (an environment
  was created, a health check answered, a call raised) are arguments of the step, so that every
  behaviour of the driver is covered. The environments the driver has created, by the image they
  were created for, and those whose destruction the pool has requested are part of the state.

  An environment is known by its id, and a driver never reuses one. A slot of \<open>in_use\<close> is an
  environment id or the placeholder of a creation in progress. Times are those of
  \<open>time.monotonic()\<close>. Cancellation of a coroutine by its caller is not an event of the system.
\<close>

section \<open>State\<close>

record env_handle =
  eh_id :: string
  eh_image :: string
  eh_driver :: string
  eh_labels :: dict

record idle_entry =
  ie_env :: env_handle
  ie_since :: rat

text \<open>Who acts: a caller's session, the warm-up of \<open>start\<close>, the reaper.\<close>

datatype actor = Sess nat | Starter | Reaper

datatype slot = EnvSlot string | PendingSlot actor

record sub_pool =
  sp_config :: pool_config
  sp_idle :: "idle_entry list"
  sp_in_use :: "slot list"
  sp_lock :: "actor option"
  sp_total_leases :: nat
  sp_total_wait_ms :: int
  sp_total_kills :: nat

definition new_sub_pool :: "pool_config \<Rightarrow> sub_pool" where
  "new_sub_pool c = \<lparr>sp_config = c, sp_idle = [], sp_in_use = [], sp_lock = None,
     sp_total_leases = 0, sp_total_wait_ms = 0, sp_total_kills = 0\<rparr>"

definition sp_total :: "sub_pool \<Rightarrow> nat" where
  "sp_total sp = length (sp_idle sp) + length (sp_in_use sp)"

text \<open>\<open>in_use\<close> is a Python set: a list without repetitions.\<close>

definition add_slot :: "slot \<Rightarrow> sub_pool \<Rightarrow> sub_pool" where
  "add_slot s sp = sp\<lparr>sp_in_use := List.insert s (sp_in_use sp)\<rparr>"

definition discard_slot :: "slot \<Rightarrow> sub_pool \<Rightarrow> sub_pool" where
  "discard_slot s sp = sp\<lparr>sp_in_use := removeAll s (sp_in_use sp)\<rparr>"

definition entry_id :: "idle_entry \<Rightarrow> string" where
  "entry_id e = eh_id (ie_env e)"

definition entry_slot :: "idle_entry \<Rightarrow> slot" where
  "entry_slot e = EnvSlot (entry_id e)"

definition put_idle :: "idle_entry \<Rightarrow> sub_pool \<Rightarrow> sub_pool" where
  "put_idle e sp = sp\<lparr>sp_idle := sp_idle sp @ [e]\<rparr>"

text \<open>Where a coroutine is suspended.\<close>

datatype pc =
    AtAcquire
  | Creating slot
  | Checking idle_entry
  | Confirming idle_entry
  | Discarding idle_entry
  | Destroying env_handle
  | Waiting
  | Leased env_handle
  | Closing env_handle
  | Releasing env_handle
  | Returning env_handle bool
  | Disposing env_handle
  | Warming nat
  | ReapKept env_handle "idle_entry list" "idle_entry list" "idle_entry list"
  | ReapDead env_handle "idle_entry list"
  | Ended "exn option"

text \<open>What a suspended coroutine is resumed with.\<close>

datatype outcome = OGo | OCreated env_handle | ORaised exn | OHealth bool | OTimeout

section \<open>One sub-pool: acquire and release\<close>

text \<open>The ids of the environments whose destruction a step requests come third.\<close>

type_synonym local_result = "sub_pool \<times> pc \<times> string list"

definition wait_ms :: "rat \<Rightarrow> rat \<Rightarrow> int" where
  "wait_ms now started = \<lfloor>(now - started) * 1000\<rfloor>"

definition count_lease :: "rat \<Rightarrow> rat \<Rightarrow> sub_pool \<Rightarrow> sub_pool" where
  "count_lease now started sp = sp\<lparr>sp_total_leases := Suc (sp_total_leases sp),
     sp_total_wait_ms := sp_total_wait_ms sp + wait_ms now started\<rparr>"

definition count_kill :: "sub_pool \<Rightarrow> sub_pool" where
  "count_kill sp = sp\<lparr>sp_total_kills := Suc (sp_total_kills sp)\<rparr>"

definition lease_deadline :: "rat \<Rightarrow> sub_pool \<Rightarrow> rat" where
  "lease_deadline started sp = started + pc_lease_wait_timeout_seconds (sp_config sp)"

text \<open>
  The top of the loop in \<open>_acquire\<close>, with the lock free: take the head of the idle queue, or
  reserve a slot and create (keeping the lock), or give up, or wait for a release.
\<close>

definition acquire_top :: "actor \<Rightarrow> rat \<Rightarrow> rat \<Rightarrow> sub_pool \<Rightarrow> local_result" where
  "acquire_top a now started sp =
     (case sp_idle sp of
        e # es \<Rightarrow> (add_slot (entry_slot e) (sp\<lparr>sp_idle := es\<rparr>), Checking e, [])
      | [] \<Rightarrow>
          if int (sp_total sp) < pc_max_size (sp_config sp)
          then (add_slot (PendingSlot a) (sp\<lparr>sp_lock := Some a\<rparr>), Creating (PendingSlot a), [])
          else if lease_deadline started sp - now \<le> 0
          then (sp, Ended (Some PoolExhaustedError), [])
          else (sp, Waiting, []))"

text \<open>A section under the sub-pool's lock that does not suspend: enabled when the lock is free.\<close>

definition when_free :: "sub_pool \<Rightarrow> local_result \<Rightarrow> local_result option" where
  "when_free sp r = (if sp_lock sp = None then Some r else None)"

definition returned :: "env_handle \<Rightarrow> bool \<Rightarrow> rat \<Rightarrow> sub_pool \<Rightarrow> local_result" where
  "returned h alive now sp =
     (let sp1 = discard_slot (EnvSlot (eh_id h)) sp in
      if alive then (put_idle \<lparr>ie_env = h, ie_since = now\<rparr> sp1, Ended None, [])
      else (count_kill sp1, Disposing h, [eh_id h]))"

fun session_step ::
  "actor \<Rightarrow> bool \<Rightarrow> rat \<Rightarrow> rat \<Rightarrow> outcome \<Rightarrow> pc \<Rightarrow> sub_pool \<Rightarrow> local_result option" where
  "session_step a down now started out AtAcquire sp =
     (if out = OGo then when_free sp (acquire_top a now started sp) else None)"
| "session_step a down now started out (Creating s) sp =
     (case out of
        OCreated h \<Rightarrow> Some (count_lease now started (add_slot (EnvSlot (eh_id h))
                        (discard_slot s (sp\<lparr>sp_lock := None\<rparr>))), Leased h, [])
      | ORaised x \<Rightarrow> Some (discard_slot s (sp\<lparr>sp_lock := None\<rparr>), Ended (Some x), [])
      | _ \<Rightarrow> None)"
| "session_step a down now started out (Checking e) sp =
     (case out of
        OHealth b \<Rightarrow> Some (sp, if b then Confirming e else Discarding e, [])
      | ORaised x \<Rightarrow> Some (sp, Ended (Some x), [])
      | _ \<Rightarrow> None)"
| "session_step a down now started out (Confirming e) sp =
     (if out = OGo then when_free sp (count_lease now started sp, Leased (ie_env e), []) else None)"
| "session_step a down now started out (Discarding e) sp =
     (if out = OGo then when_free sp
        (count_kill (discard_slot (entry_slot e) sp), Destroying (ie_env e), [entry_id e]) else None)"
| "session_step a down now started out (Destroying h) sp =
     (case out of OGo \<Rightarrow> Some (sp, AtAcquire, []) | ORaised x \<Rightarrow> Some (sp, AtAcquire, []) | _ \<Rightarrow> None)"
| "session_step a down now started out Waiting sp =
     (case out of
        OGo \<Rightarrow> (case sp_idle sp of [] \<Rightarrow> None
                | e # es \<Rightarrow> Some (sp\<lparr>sp_idle := es @ [e]\<rparr>, AtAcquire, []))
      | OTimeout \<Rightarrow> (if lease_deadline started sp \<le> now
                    then Some (sp, Ended (Some PoolExhaustedError), []) else None)
      | _ \<Rightarrow> None)"
| "session_step a down now started out (Leased h) sp =
     (if out = OGo then Some (sp, if down then Closing h else Releasing h, []) else None)"
| "session_step a down now started out (Closing h) sp =
     (if out = OGo
      then when_free sp (discard_slot (EnvSlot (eh_id h)) sp, Disposing h, [eh_id h]) else None)"
| "session_step a down now started out (Releasing h) sp =
     (case out of
        OHealth b \<Rightarrow> Some (sp, Returning h b, [])
      | ORaised x \<Rightarrow> Some (sp, Returning h False, [])
      | _ \<Rightarrow> None)"
| "session_step a down now started out (Returning h b) sp =
     (if out = OGo then when_free sp (returned h b now sp) else None)"
| "session_step a down now started out (Disposing h) sp =
     (case out of OGo \<Rightarrow> Some (sp, Ended None, []) | ORaised x \<Rightarrow> Some (sp, Ended None, []) | _ \<Rightarrow> None)"
| "session_step a down now started out p sp = None"

section \<open>One sub-pool: warming and reaping\<close>

text \<open>\<open>_warm\<close>: the number of environments to create is fixed at its start.\<close>

definition warm_begin :: "sub_pool \<Rightarrow> local_result" where
  "warm_begin sp =
     (let needed = pc_min_idle (sp_config sp) - int (sp_total sp) in
      if needed \<le> 0 then (sp, Ended None, []) else (sp, Warming (nat needed), []))"

definition warm_step :: "rat \<Rightarrow> outcome \<Rightarrow> nat \<Rightarrow> sub_pool \<Rightarrow> local_result option" where
  "warm_step now out n sp =
     (case out of
        OCreated h \<Rightarrow> Some (put_idle \<lparr>ie_env = h, ie_since = now\<rparr> sp,
                        if n \<le> 1 then Ended None else Warming (n - 1), [])
      | ORaised x \<Rightarrow> Some (sp, Ended None, [])
      | _ \<Rightarrow> None)"

text \<open>
  The part of \<open>_reap_once\<close> for one sub-pool. The clock \<open>now\<close> is read once per pass. The loop over
  \<open>kept\<close> suspends at the destruction of an aged-out entry; after it the queue is emptied and
  refilled with the survivors; then the surplus is destroyed, one by one, and the pool warmed.
\<close>

fun reap_dead :: "idle_entry list \<Rightarrow> sub_pool \<Rightarrow> local_result" where
  "reap_dead [] sp = warm_begin sp"
| "reap_dead (e # es) sp = (sp, ReapDead (ie_env e) es, [entry_id e])"

fun reap_kept ::
  "rat \<Rightarrow> idle_entry list \<Rightarrow> idle_entry list \<Rightarrow> idle_entry list \<Rightarrow> sub_pool \<Rightarrow> local_result" where
  "reap_kept now [] surviving dead sp = reap_dead dead (sp\<lparr>sp_idle := surviving\<rparr>)"
| "reap_kept now (e # es) surviving dead sp =
     (if now - ie_since e > of_int (pc_idle_ttl_seconds (sp_config sp))
      then (sp\<lparr>sp_idle := tl (sp_idle sp)\<rparr>, ReapKept (ie_env e) es surviving dead, [entry_id e])
      else reap_kept now es (surviving @ [e]) dead sp)"

definition keep_target :: "sub_pool \<Rightarrow> nat" where
  "keep_target sp = nat (max (pc_min_idle (sp_config sp) - int (length (sp_in_use sp))) 0)"

definition youngest_first :: "idle_entry list \<Rightarrow> idle_entry list" where
  "youngest_first es = sort_key (\<lambda>e. - ie_since e) es"

definition reap_begin :: "rat \<Rightarrow> sub_pool \<Rightarrow> local_result" where
  "reap_begin now sp =
     (let drained = youngest_first (sp_idle sp);
          kept = take (keep_target sp) drained;
          dead = drop (keep_target sp) drained
      in reap_kept now kept [] dead (sp\<lparr>sp_idle := kept\<rparr>))"

definition destroyed :: "outcome \<Rightarrow> bool" where
  "destroyed out = (case out of OGo \<Rightarrow> True | ORaised x \<Rightarrow> True | _ \<Rightarrow> False)"

fun maint_step :: "rat \<Rightarrow> rat \<Rightarrow> outcome \<Rightarrow> pc \<Rightarrow> sub_pool \<Rightarrow> local_result option" where
  "maint_step now pass_now out (Warming n) sp = warm_step now out n sp"
| "maint_step now pass_now out (ReapKept h es surv dead) sp =
     (if destroyed out then Some (reap_kept pass_now es surv dead sp) else None)"
| "maint_step now pass_now out (ReapDead h es) sp =
     (if destroyed out then Some (reap_dead es sp) else None)"
| "maint_step now pass_now out p sp = None"

section \<open>The pool\<close>

text \<open>
  A coroutine of the pool: the image it works on, the clock it started at (for the reaper, the
  clock of its pass), where it is, and, for the two that visit several sub-pools, the images left.
\<close>

record task =
  tk_image :: string
  tk_started :: rat
  tk_pc :: pc
  tk_rest :: "string list"

datatype shutdown_pc =
  ShOpen | ShCancel | ShIdle string "string list" | ShUse "slot list" string "string list" | ShDown

record pool =
  pl_config :: forge_config
  pl_subs :: "(string \<times> sub_pool) list"
  pl_tasks :: "actor \<Rightarrow> task option"
  pl_reaper :: bool
  pl_closed :: bool
  pl_shutdown :: shutdown_pc
  pl_now :: rat
  pl_owner :: "string \<Rightarrow> string option"
  pl_doomed :: "string set"

definition new_pool :: "forge_config \<Rightarrow> pool" where
  "new_pool c = \<lparr>pl_config = c, pl_subs = [], pl_tasks = (\<lambda>_. None), pl_reaper = False,
     pl_closed = False, pl_shutdown = ShOpen, pl_now = 0, pl_owner = (\<lambda>_. None), pl_doomed = {}\<rparr>"

definition get_sub :: "string \<Rightarrow> pool \<Rightarrow> sub_pool option" where
  "get_sub img p = map_of (pl_subs p) img"

definition set_sub :: "string \<Rightarrow> sub_pool \<Rightarrow> pool \<Rightarrow> pool" where
  "set_sub img sp p = p\<lparr>pl_subs := AList.update img sp (pl_subs p)\<rparr>"

definition doom :: "string list \<Rightarrow> pool \<Rightarrow> pool" where
  "doom ids p = p\<lparr>pl_doomed := set ids \<union> pl_doomed p\<rparr>"

definition ensure_subpool :: "string \<Rightarrow> pool \<Rightarrow> pool" where
  "ensure_subpool img p =
     (case get_sub img p of
        Some sp \<Rightarrow> p
      | None \<Rightarrow> set_sub img (new_sub_pool (pool_config_for (pl_config p) img)) p)"

text \<open>The driver created an environment: from here on its id is taken.\<close>

fun note_created :: "outcome \<Rightarrow> string \<Rightarrow> pool \<Rightarrow> pool" where
  "note_created (OCreated h) img p = p\<lparr>pl_owner := (pl_owner p)(eh_id h \<mapsto> img)\<rparr>"
| "note_created out img p = p"

fun fresh_outcome :: "outcome \<Rightarrow> pool \<Rightarrow> bool" where
  "fresh_outcome (OCreated h) p = (pl_owner p (eh_id h) = None)"
| "fresh_outcome out p = True"

definition set_task :: "actor \<Rightarrow> task option \<Rightarrow> pool \<Rightarrow> pool" where
  "set_task a t p = p\<lparr>pl_tasks := (pl_tasks p)(a := t)\<rparr>"

text \<open>The result of a local step, written back.\<close>

definition put_local :: "actor \<Rightarrow> task \<Rightarrow> local_result \<Rightarrow> pool \<Rightarrow> pool" where
  "put_local a t r p = (case r of (sp, c, ids) \<Rightarrow>
     set_task a (Some (t\<lparr>tk_pc := c\<rparr>)) (doom ids (set_sub (tk_image t) sp p)))"

fun ended :: "pc \<Rightarrow> bool" where
  "ended (Ended x) = True"
| "ended _ = False"

text \<open>
  The loops of \<open>start\<close> and \<open>_reap_once\<close> over sub-pools: go on with the next image until a
  suspension; when none is left the coroutine is done with its pass.
\<close>

definition visit_begin :: "actor \<Rightarrow> rat \<Rightarrow> sub_pool \<Rightarrow> local_result" where
  "visit_begin a now sp = (if a = Reaper then reap_begin now sp else warm_begin sp)"

fun visit :: "actor \<Rightarrow> rat \<Rightarrow> string list \<Rightarrow> pool \<Rightarrow> pool" where
  "visit a now [] p = set_task a None p"
| "visit a now (img # rest) p =
     (case get_sub img p of
        None \<Rightarrow> visit a now rest p
      | Some sp \<Rightarrow>
          (let r = visit_begin a now sp;
               p1 = put_local a \<lparr>tk_image = img, tk_started = now, tk_pc = Ended None, tk_rest = rest\<rparr> r p
           in if ended (fst (snd r)) then visit a now rest p1 else p1))"

fun shutdown_next :: "string list \<Rightarrow> pool \<Rightarrow> pool" where
  "shutdown_next [] p = p\<lparr>pl_shutdown := ShDown\<rparr>"
| "shutdown_next (img # rest) p =
     (case get_sub img p of
        None \<Rightarrow> shutdown_next rest p
      | Some sp \<Rightarrow>
          (case sp_idle sp of
             e # es \<Rightarrow> doom [entry_id e] (set_sub img (sp\<lparr>sp_idle := es\<rparr>) p)\<lparr>pl_shutdown := ShIdle img rest\<rparr>
           | [] \<Rightarrow>
               (case sp_in_use sp of
                  [] \<Rightarrow> shutdown_next rest p
                | s # ss \<Rightarrow> doom (case s of EnvSlot i \<Rightarrow> [i] | _ \<Rightarrow> []) p
                    \<lparr>pl_shutdown := ShUse ss img rest\<rparr>)))"

datatype event =
    EvTick rat
  | EvStart "string list"
  | EvSession nat string
  | EvStep actor outcome
  | EvReapWake
  | EvShutdown
  | EvShutdownStep

definition dedup :: "string list \<Rightarrow> string list" where
  "dedup xs = rev (remdups (rev xs))"

fun pool_step :: "event \<Rightarrow> pool \<Rightarrow> pool option" where
  "pool_step (EvTick dt) p = (if dt < 0 then None else Some (p\<lparr>pl_now := pl_now p + dt\<rparr>))"
| "pool_step (EvStart warm_images) p =
     (if pl_closed p then None
      else if pl_reaper p then Some p
      else let images = dedup (pc_image (fc_default_pool (pl_config p)) # warm_images)
           in Some (visit Starter (pl_now p) images
                (fold ensure_subpool images (p\<lparr>pl_reaper := True\<rparr>))))"
| "pool_step (EvSession n img) p =
     (if pl_closed p \<or> pl_tasks p (Sess n) \<noteq> None then None
      else Some (set_task (Sess n)
        (Some \<lparr>tk_image = img, tk_started = pl_now p, tk_pc = AtAcquire, tk_rest = []\<rparr>)
        (ensure_subpool img p)))"
| "pool_step (EvStep a out) p =
     (case pl_tasks p a of
        None \<Rightarrow> None
      | Some t \<Rightarrow>
          (case get_sub (tk_image t) p of
             None \<Rightarrow> None
           | Some sp \<Rightarrow>
               if \<not> fresh_outcome out p then None
               else
                 (case a of
                    Sess n \<Rightarrow>
                      (case session_step a (pl_closed p) (pl_now p) (tk_started t) out (tk_pc t) sp of
                         None \<Rightarrow> None
                       | Some r \<Rightarrow> Some (put_local a t r (note_created out (tk_image t) p)))
                  | _ \<Rightarrow>
                      (case maint_step (pl_now p) (tk_started t) out (tk_pc t) sp of
                         None \<Rightarrow> None
                       | Some r \<Rightarrow>
                           (let p1 = put_local a t r (note_created out (tk_image t) p) in
                            Some (if ended (fst (snd r)) then visit a (tk_started t) (tk_rest t) p1
                                  else p1))))))"
| "pool_step EvReapWake p =
     (if pl_closed p \<or> \<not> pl_reaper p \<or> pl_tasks p Reaper \<noteq> None then None
      else Some (visit Reaper (pl_now p) (map fst (pl_subs p)) p))"
| "pool_step EvShutdown p =
     (if pl_closed p then Some p
      else if pl_reaper p
      then Some (set_task Reaper None
        (p\<lparr>pl_closed := True, pl_reaper := False, pl_shutdown := ShCancel\<rparr>))
      else Some (shutdown_next (map fst (pl_subs p)) (p\<lparr>pl_closed := True\<rparr>)))"
| "pool_step EvShutdownStep p =
     (case pl_shutdown p of
        ShCancel \<Rightarrow> Some (shutdown_next (map fst (pl_subs p)) p)
      | ShIdle img rest \<Rightarrow> Some (shutdown_next (img # rest) p)
      | ShUse (s # ss) img rest \<Rightarrow>
          Some (doom (case s of EnvSlot i \<Rightarrow> [i] | _ \<Rightarrow> []) p\<lparr>pl_shutdown := ShUse ss img rest\<rparr>)
      | ShUse [] img rest \<Rightarrow>
          (case get_sub img p of
             None \<Rightarrow> None
           | Some sp \<Rightarrow> Some (shutdown_next rest (set_sub img (sp\<lparr>sp_in_use := []\<rparr>) p)))
      | _ \<Rightarrow> None)"

text \<open>The reachable states, and a run of given events.\<close>

inductive pool_run :: "forge_config \<Rightarrow> pool \<Rightarrow> bool" for c where
  start: "pool_run c (new_pool c)"
| step: "pool_run c p \<Longrightarrow> pool_step ev p = Some q \<Longrightarrow> pool_run c q"

fun run_events :: "event list \<Rightarrow> pool \<Rightarrow> pool option" where
  "run_events [] p = Some p"
| "run_events (ev # evs) p = (case pool_step ev p of None \<Rightarrow> None | Some q \<Rightarrow> run_events evs q)"

lemma pool_run_events: "pool_run c p \<Longrightarrow> run_events evs p = Some q \<Longrightarrow> pool_run c q"
  by (induction evs arbitrary: p) (auto split: option.splits intro: pool_run.step)

section \<open>Statistics\<close>

definition sub_stats :: "string \<Rightarrow> sub_pool \<Rightarrow> pool_stats" where
  "sub_stats name sp =
     \<lparr>ps_image = name, ps_idle = length (sp_idle sp), ps_in_use = length (sp_in_use sp),
      ps_total = sp_total sp, ps_max_size = pc_max_size (sp_config sp),
      ps_min_idle = pc_min_idle (sp_config sp), ps_total_leases = sp_total_leases sp,
      ps_total_lease_wait_ms = sp_total_wait_ms sp, ps_total_health_kills = sp_total_kills sp\<rparr>"

text \<open>An unknown or missing image selects every sub-pool.\<close>

definition pool_stats_of :: "string option \<Rightarrow> pool \<Rightarrow> pool_stats list" where
  "pool_stats_of img p =
     (case img of
        None \<Rightarrow> map (\<lambda>(n, sp). sub_stats n sp) (pl_subs p)
      | Some i \<Rightarrow>
          (case (if i = [] then None else get_sub i p) of
             Some sp \<Rightarrow> [sub_stats i sp]
           | None \<Rightarrow> map (\<lambda>(n, sp). sub_stats n sp) (pl_subs p)))"

end
