(* ===== verification/Pool_Inv.thy ===== *)
theory Pool_Inv
  imports Pool
begin

text \<open>
  The invariant of one sub-pool, under every step of a session, the starter and the reaper, for
  sub-pools that keep at most one environment idle: idle environments, leased ones and those the
  reaper has set aside are distinct, a slot belongs to one coroutine, a placeholder to the holder
  of the lock, and none of these environments has been doomed to destruction. \<open>held\<close> is the slot
  a coroutine accounts for, \<open>stash\<close> the entries the reaper has taken off the queue.
\<close>

fun held :: "pc \<Rightarrow> slot option" where
  "held (Creating s) = Some s"
| "held (Checking e) = Some (entry_slot e)"
| "held (Confirming e) = Some (entry_slot e)"
| "held (Discarding e) = Some (entry_slot e)"
| "held (Leased h) = Some (EnvSlot (eh_id h))"
| "held (Closing h) = Some (EnvSlot (eh_id h))"
| "held (Releasing h) = Some (EnvSlot (eh_id h))"
| "held (Returning h b) = Some (EnvSlot (eh_id h))"
| "held _ = None"

fun stash :: "pc \<Rightarrow> idle_entry list" where
  "stash (ReapKept h todo surv dead) = todo @ surv @ dead"
| "stash (ReapDead h dead) = dead"
| "stash _ = []"

definition idle_ids :: "sub_pool \<Rightarrow> string list" where
  "idle_ids sp = map entry_id (sp_idle sp)"

fun creating :: "pc \<Rightarrow> bool" where
  "creating (Creating s) = True"
| "creating _ = False"

definition tracked :: "sub_pool \<Rightarrow> (actor \<Rightarrow> pc option) \<Rightarrow> string set" where
  "tracked sp T = {i. \<exists>e \<in> set (sp_idle sp). entry_id e = i} \<union> {i. EnvSlot i \<in> set (sp_in_use sp)} \<union>
     {i. \<exists>a c e. T a = Some c \<and> e \<in> set (stash c) \<and> entry_id e = i}"

definition slots_ok :: "sub_pool \<Rightarrow> (actor \<Rightarrow> pc option) \<Rightarrow> bool" where
  "slots_ok sp T \<longleftrightarrow>
     distinct (idle_ids sp) \<and> distinct (sp_in_use sp) \<and>
     (\<forall>e \<in> set (sp_idle sp). entry_slot e \<notin> set (sp_in_use sp)) \<and>
     (\<forall>a c s. T a = Some c \<longrightarrow> held c = Some s \<longrightarrow> s \<in> set (sp_in_use sp)) \<and>
     (\<forall>a b c d s. T a = Some c \<longrightarrow> T b = Some d \<longrightarrow> held c = Some s \<longrightarrow> held d = Some s \<longrightarrow> a = b)"

definition lock_ok :: "sub_pool \<Rightarrow> (actor \<Rightarrow> pc option) \<Rightarrow> bool" where
  "lock_ok sp T \<longleftrightarrow>
     (\<forall>a c. T a = Some c \<longrightarrow> creating c \<longrightarrow> sp_lock sp = Some a \<and> c = Creating (PendingSlot a)) \<and>
     (\<forall>a. PendingSlot a \<in> set (sp_in_use sp) \<longrightarrow> sp_lock sp = Some a)"

definition stash_ok :: "sub_pool \<Rightarrow> (actor \<Rightarrow> pc option) \<Rightarrow> bool" where
  "stash_ok sp T \<longleftrightarrow>
     (\<forall>a c. T a = Some c \<longrightarrow> stash c \<noteq> [] \<longrightarrow> a = Reaper) \<and>
     (\<forall>a c. T a = Some c \<longrightarrow> held c \<noteq> None \<longrightarrow> (\<exists>n. a = Sess n)) \<and>
     (\<forall>a c. T a = Some c \<longrightarrow> distinct (map entry_id (stash c)) \<and>
       (\<forall>x \<in> set (stash c). entry_slot x \<notin> set (sp_in_use sp) \<and>
         (\<forall>e \<in> set (sp_idle sp). entry_id e \<noteq> entry_id x))) \<and>
     (\<forall>a h t s d. T a = Some (ReapKept h t s d) \<longrightarrow> t = [] \<and> s = [])"

definition ids_ok :: "string \<Rightarrow> sub_pool \<Rightarrow> (actor \<Rightarrow> pc option) \<Rightarrow> (string \<Rightarrow> string option) \<Rightarrow> string set \<Rightarrow> bool" where
  "ids_ok img sp T owner doomed \<longleftrightarrow> (\<forall>i \<in> tracked sp T. owner i = Some img \<and> i \<notin> doomed)"

definition local_inv ::
  "string \<Rightarrow> sub_pool \<Rightarrow> (actor \<Rightarrow> pc option) \<Rightarrow> (string \<Rightarrow> string option) \<Rightarrow> string set \<Rightarrow> bool" where
  "local_inv img sp T owner doomed \<longleftrightarrow>
     slots_ok sp T \<and> lock_ok sp T \<and> stash_ok sp T \<and> ids_ok img sp T owner doomed"

lemmas local_ops = add_slot_def discard_slot_def put_idle_def count_lease_def count_kill_def
  idle_ids_def entry_slot_def

text \<open>A step that keeps what its actor holds and changes neither queue nor slots.\<close>

lemma inv_same_slots:
  assumes "local_inv img sp T owner doomed" and "T a = Some c"
    and "held c' = held c" and "stash c' = []" and "creating c' = creating c" and "creating c \<longrightarrow> c' = c"
    and "sp_idle sp' = sp_idle sp" and "sp_in_use sp' = sp_in_use sp" and "sp_lock sp' = sp_lock sp"
  shows "local_inv img sp' (T(a \<mapsto> c')) owner doomed"
proof -
  have 1: "slots_ok sp' (T(a \<mapsto> c'))" using assms
    by (simp add: local_inv_def slots_ok_def idle_ids_def) metis
  have 2: "lock_ok sp' (T(a \<mapsto> c'))" using assms
    by (auto simp: local_inv_def lock_ok_def)
  have 3: "stash_ok sp' (T(a \<mapsto> c'))" using assms
    by (auto simp: local_inv_def stash_ok_def idle_ids_def)
  have 4: "ids_ok img sp' (T(a \<mapsto> c')) owner doomed" using assms
    by (auto simp: local_inv_def ids_ok_def tracked_def idle_ids_def split: if_splits)
  show ?thesis using 1 2 3 4 by (simp add: local_inv_def)
qed


lemma held_in_use:
  "local_inv img sp T owner doomed \<Longrightarrow> T a = Some c \<Longrightarrow> held c = Some s \<Longrightarrow> s \<in> set (sp_in_use sp)"
  unfolding local_inv_def slots_ok_def by blast

lemma held_unique:
  "local_inv img sp T owner doomed \<Longrightarrow> T a = Some c \<Longrightarrow> T b = Some d \<Longrightarrow>
    held c = Some s \<Longrightarrow> held d = Some s \<Longrightarrow> a = b"
  unfolding local_inv_def slots_ok_def by blast

lemma ids_ok_mono:
  "local_inv img sp T owner doomed \<Longrightarrow> tracked sp' T' \<subseteq> tracked sp T \<Longrightarrow> ids_ok img sp' T' owner doomed"
  by (auto simp: local_inv_def ids_ok_def)

lemma kept_empty:
  "local_inv img sp T owner doomed \<Longrightarrow> T a = Some (ReapKept h t s d) \<Longrightarrow> t = [] \<and> s = []"
  unfolding local_inv_def stash_ok_def by blast

lemma lock_creating:
  assumes "local_inv img sp T owner doomed" and "T a = Some (Creating s)"
  shows "s = PendingSlot a \<and> sp_lock sp = Some a"
  using assms unfolding local_inv_def lock_ok_def by (metis creating.simps(1) pc.inject(1))

lemma inv_drop:
  assumes "local_inv img sp T owner doomed" and "T a = Some c"
    and "held c' = None" and "stash c' = []" and "\<not> creating c'" and "\<not> creating c"
  shows "local_inv img sp (T(a \<mapsto> c')) owner doomed"
proof -
  have "slots_ok sp (T(a \<mapsto> c'))" using assms
    by (simp add: local_inv_def slots_ok_def)
  moreover have "lock_ok sp (T(a \<mapsto> c'))" using assms
    by (auto simp: local_inv_def lock_ok_def)
  moreover have "stash_ok sp (T(a \<mapsto> c'))" using assms
    by (auto simp: local_inv_def stash_ok_def)
  moreover have "ids_ok img sp (T(a \<mapsto> c')) owner doomed" using assms
    by (auto simp: local_inv_def ids_ok_def tracked_def split: if_splits)
  ultimately show ?thesis by (simp add: local_inv_def)
qed

lemma inv_take_idle:
  assumes "local_inv img sp T owner doomed" and "sp_idle sp = e # es"
    and "T (Sess n) = Some c \<or> T (Sess n) = None"
    and "\<And>c. T (Sess n) = Some c \<Longrightarrow> held c = None \<and> stash c = [] \<and> \<not> creating c"
  shows "local_inv img (add_slot (entry_slot e) (sp\<lparr>sp_idle := es\<rparr>)) (T(Sess n \<mapsto> Checking e)) owner doomed"
    (is "local_inv img ?sp ?T owner doomed")
proof -
  have "slots_ok ?sp ?T" using assms
    by (auto simp: local_inv_def slots_ok_def local_ops intro: rev_image_eqI)
  moreover have "lock_ok ?sp ?T" using assms
    by (auto simp: local_inv_def lock_ok_def local_ops)
  moreover have "stash_ok ?sp ?T" using assms
    by (auto simp: local_inv_def stash_ok_def local_ops) metis+
  moreover have "ids_ok img ?sp ?T owner doomed" using assms
    by (intro ids_ok_mono [of img sp T]) (auto simp: tracked_def local_ops split: if_splits)
  ultimately show ?thesis by (simp add: local_inv_def)
qed

lemma inv_reserve:
  assumes "local_inv img sp T owner doomed" and "sp_lock sp = None"
    and "T (Sess n) = Some c" and "held c = None" "stash c = []"
  shows "local_inv img (add_slot (PendingSlot (Sess n)) (sp\<lparr>sp_lock := Some (Sess n)\<rparr>))
    (T(Sess n \<mapsto> Creating (PendingSlot (Sess n)))) owner doomed"
    (is "local_inv img ?sp ?T owner doomed")
proof -
  have l: "\<not> creating d" if "T b = Some d" for b d
    using assms(1,2) that by (auto simp: local_inv_def lock_ok_def)
  have p: "PendingSlot b \<notin> set (sp_in_use sp)" for b
    using assms(1,2) by (auto simp: local_inv_def lock_ok_def)
  have hp: "held d \<noteq> Some (PendingSlot b)" if "T a = Some d" for a b d
    using held_in_use [OF assms(1) that] p by blast
  have "slots_ok ?sp ?T" using assms p hp
    by (auto simp: local_inv_def slots_ok_def local_ops)
  moreover have "lock_ok ?sp ?T" using assms l p
    by (auto simp: local_inv_def lock_ok_def local_ops)
  moreover have "stash_ok ?sp ?T" using assms
    by (auto simp: local_inv_def stash_ok_def local_ops)
  moreover have "ids_ok img ?sp ?T owner doomed" using assms
    by (intro ids_ok_mono [of img sp T]) (auto simp: tracked_def local_ops split: if_splits)
  ultimately show ?thesis by (simp add: local_inv_def)
qed

lemma inv_created:
  assumes inv: "local_inv img sp T owner doomed" and c: "T (Sess n) = Some (Creating s)"
    and fresh: "owner (eh_id h) = None" "eh_id h \<notin> doomed"
  shows "local_inv img (add_slot (EnvSlot (eh_id h)) (discard_slot s (sp\<lparr>sp_lock := None\<rparr>)))
    (T(Sess n \<mapsto> Leased h)) (owner(eh_id h \<mapsto> img)) doomed"
    (is "local_inv img ?sp ?T ?o doomed")
proof -
  have s: "s = PendingSlot (Sess n)" and l: "sp_lock sp = Some (Sess n)"
    using lock_creating [OF inv c] by simp_all
  have only: "\<not> creating d" if "T b = Some d" "b \<noteq> Sess n" for b d
    using inv l that by (auto simp: local_inv_def lock_ok_def)
  have p: "PendingSlot b \<in> set (sp_in_use sp) \<Longrightarrow> b = Sess n" for b
    using inv l by (auto simp: local_inv_def lock_ok_def)
  have f: "eh_id h \<notin> tracked sp T"
    using inv fresh(1) by (auto simp: local_inv_def ids_ok_def)
  then have f1: "EnvSlot (eh_id h) \<notin> set (sp_in_use sp)" "\<And>e. e \<in> set (sp_idle sp) \<Longrightarrow> entry_id e \<noteq> eh_id h"
    and f2: "\<And>a c x. T a = Some c \<Longrightarrow> x \<in> set (stash c) \<Longrightarrow> entry_id x \<noteq> eh_id h"
    by (auto simp: tracked_def)
  have h: "held d \<noteq> Some (EnvSlot (eh_id h))" if "T b = Some d" for b d
    using inv f1 that by (auto simp: local_inv_def slots_ok_def)
  have pn: "held d \<noteq> Some s" if "T b = Some d" "b \<noteq> Sess n" for b d
  proof
    assume "held d = Some s"
    with inv c that show False unfolding local_inv_def slots_ok_def
      by (metis held.simps(1))
  qed
  have "slots_ok ?sp ?T" using inv f1 h pn
    by (auto simp: local_inv_def slots_ok_def local_ops distinct_removeAll intro: rev_image_eqI)
  moreover have "lock_ok ?sp ?T" using inv only p s
    by (auto simp: local_inv_def lock_ok_def local_ops)
  moreover have "stash_ok ?sp ?T" using inv f2
    by (auto simp: local_inv_def stash_ok_def local_ops)
  moreover have "ids_ok img ?sp ?T ?o doomed" using inv fresh
    by (auto simp: local_inv_def ids_ok_def tracked_def local_ops split: if_splits)
  ultimately show ?thesis by (simp add: local_inv_def)
qed

lemma inv_create_failed:
  assumes inv: "local_inv img sp T owner doomed" and c: "T (Sess n) = Some (Creating s)"
  shows "local_inv img (discard_slot s (sp\<lparr>sp_lock := None\<rparr>)) (T(Sess n \<mapsto> Ended x)) owner doomed"
    (is "local_inv img ?sp ?T owner doomed")
proof -
  have s: "s = PendingSlot (Sess n)" and l: "sp_lock sp = Some (Sess n)"
    using lock_creating [OF inv c] by simp_all
  have only: "\<not> creating d" if "T b = Some d" "b \<noteq> Sess n" for b d
    using inv l that by (auto simp: local_inv_def lock_ok_def)
  have p: "PendingSlot b \<in> set (sp_in_use sp) \<Longrightarrow> b = Sess n" for b
    using inv l by (auto simp: local_inv_def lock_ok_def)
  have pn: "held d \<noteq> Some s" if "T b = Some d" "b \<noteq> Sess n" for b d
  proof
    assume "held d = Some s"
    with inv c that show False unfolding local_inv_def slots_ok_def
      by (metis held.simps(1))
  qed
  have "slots_ok ?sp ?T" using inv pn
    by (auto simp: local_inv_def slots_ok_def local_ops distinct_removeAll intro: rev_image_eqI)
  moreover have "lock_ok ?sp ?T" using inv only p s
    by (auto simp: local_inv_def lock_ok_def local_ops)
  moreover have "stash_ok ?sp ?T" using inv
    by (auto simp: local_inv_def stash_ok_def local_ops)
  moreover have "ids_ok img ?sp ?T owner doomed" using assms
    by (intro ids_ok_mono [of img sp T]) (auto simp: tracked_def local_ops split: if_splits)
  ultimately show ?thesis by (simp add: local_inv_def)
qed

lemma inv_release:
  assumes inv: "local_inv img sp T owner doomed" and c: "T a = Some c"
    and hc: "held c = Some (EnvSlot i)" and c': "held c' = None" "stash c' = []" "\<not> creating c'"
    and d: "doomed' = insert i doomed"
  shows "local_inv img (discard_slot (EnvSlot i) sp) (T(a \<mapsto> c')) owner doomed'"
    (is "local_inv img ?sp ?T owner _")
proof -
  have i: "EnvSlot i \<in> set (sp_in_use sp)"
    using inv c hc by (auto simp: local_inv_def slots_ok_def)
  have pn: "held d \<noteq> Some (EnvSlot i)" if "T b = Some d" "b \<noteq> a" for b d
    using inv c hc that unfolding local_inv_def slots_ok_def by metis
  have ni: "\<And>e. e \<in> set (sp_idle sp) \<Longrightarrow> entry_id e \<noteq> i"
    and ns: "\<And>b d x. T b = Some d \<Longrightarrow> x \<in> set (stash d) \<Longrightarrow> entry_id x \<noteq> i"
    using inv i unfolding local_inv_def slots_ok_def stash_ok_def entry_slot_def by (metis, metis)
  have "slots_ok ?sp ?T" using inv c' pn
    by (auto simp: local_inv_def slots_ok_def local_ops distinct_removeAll intro: rev_image_eqI)
  moreover have "lock_ok ?sp ?T" using inv c'
    by (auto simp: local_inv_def lock_ok_def local_ops)
  moreover have "stash_ok ?sp ?T" using inv c'
    by (auto simp: local_inv_def stash_ok_def local_ops)
  moreover have "ids_ok img ?sp ?T owner doomed'"
  proof -
    have "tracked ?sp ?T \<subseteq> tracked sp T" using c'
      by (auto simp: tracked_def local_ops split: if_splits)
    moreover have "i \<notin> tracked ?sp ?T" using c' ni ns
      by (auto simp: tracked_def local_ops split: if_splits)
    ultimately show ?thesis using inv d by (auto simp: local_inv_def ids_ok_def)
  qed
  ultimately show ?thesis by (simp add: local_inv_def)
qed


lemma inv_return:
  assumes inv: "local_inv img sp T owner doomed" and c: "T a = Some c"
    and hc: "held c = Some (EnvSlot (eh_id h))" and c': "held c' = None" "stash c' = []" "\<not> creating c'"
  shows "local_inv img (put_idle \<lparr>ie_env = h, ie_since = now\<rparr> (discard_slot (EnvSlot (eh_id h)) sp))
    (T(a \<mapsto> c')) owner doomed"
    (is "local_inv img ?sp ?T owner _")
proof -
  have i: "EnvSlot (eh_id h) \<in> set (sp_in_use sp)" by (rule held_in_use [OF inv c hc])
  have pn: "held d \<noteq> Some (EnvSlot (eh_id h))" if "T b = Some d" "b \<noteq> a" for b d
    using held_unique [OF inv c that(1) hc] that(2) by blast
  have ni: "\<And>e. e \<in> set (sp_idle sp) \<Longrightarrow> entry_id e \<noteq> eh_id h"
    and ns: "\<And>b d x. T b = Some d \<Longrightarrow> x \<in> set (stash d) \<Longrightarrow> entry_id x \<noteq> eh_id h"
    using inv i unfolding local_inv_def slots_ok_def stash_ok_def entry_slot_def by (metis, metis)
  have e: "entry_id \<lparr>ie_env = h, ie_since = now\<rparr> = eh_id h" by (simp add: entry_id_def)
  have "eh_id h \<notin> entry_id ` set (sp_idle sp)" using ni by (metis imageE)
  then have "slots_ok ?sp ?T" using inv c' pn e ni
    by (auto simp: local_inv_def slots_ok_def local_ops distinct_removeAll)
  moreover have "lock_ok ?sp ?T" using inv c'
    by (auto simp: local_inv_def lock_ok_def local_ops)
  moreover have "stash_ok ?sp ?T" using inv c' e ns
    by (auto simp: local_inv_def stash_ok_def local_ops) metis
  moreover have "ids_ok img ?sp ?T owner doomed" using inv c' e i
    by (intro ids_ok_mono [of img sp T]) (auto simp: tracked_def local_ops split: if_splits)
  ultimately show ?thesis by (simp add: local_inv_def)
qed

lemma inv_rotate:
  assumes inv: "local_inv img sp T owner doomed" and q: "sp_idle sp = e # es"
    and c: "T a = Some Waiting"
  shows "local_inv img (sp\<lparr>sp_idle := es @ [e]\<rparr>) (T(a \<mapsto> AtAcquire)) owner doomed"
    (is "local_inv img ?sp ?T owner _")
proof -
  have "slots_ok ?sp ?T" using inv q
    by (auto simp: local_inv_def slots_ok_def local_ops)
  moreover have "lock_ok ?sp ?T" using inv
    by (auto simp: local_inv_def lock_ok_def local_ops)
  moreover have "stash_ok ?sp ?T" using inv q
    by (auto simp: local_inv_def stash_ok_def local_ops)
  moreover have "ids_ok img ?sp ?T owner doomed" using inv q
    by (intro ids_ok_mono [of img sp T]) (auto simp: tracked_def local_ops split: if_splits)
  ultimately show ?thesis by (simp add: local_inv_def)
qed

text \<open>Every step of a session keeps the invariant of its sub-pool.\<close>

definition created_by :: "string \<Rightarrow> outcome \<Rightarrow> (string \<Rightarrow> string option) \<Rightarrow> (string \<Rightarrow> string option)" where
  "created_by img out owner = (case out of OCreated h \<Rightarrow> owner(eh_id h \<mapsto> img) | _ \<Rightarrow> owner)"

lemma created_by_simps [simp]:
  "created_by img (OCreated h) owner = owner(eh_id h \<mapsto> img)"
  "created_by img OGo owner = owner" "created_by img (ORaised x) owner = owner"
  "created_by img (OHealth b) owner = owner" "created_by img OTimeout owner = owner"
  by (simp_all add: created_by_def)

lemma when_free_Some [simp]: "when_free sp r = Some q \<longleftrightarrow> sp_lock sp = None \<and> q = r"
  by (auto simp: when_free_def)

lemma acquire_top_inv:
  assumes inv: "local_inv img sp T owner doomed" and t: "T (Sess n) = Some AtAcquire"
    and l: "sp_lock sp = None" and r: "acquire_top (Sess n) now started sp = (sp', c', ids)"
  shows "ids = [] \<and> local_inv img sp' (T(Sess n \<mapsto> c')) owner doomed"
  using r inv_take_idle [OF inv, of _ _ n] inv_reserve [OF inv l t] t
    inv_drop [OF inv t, of Waiting] inv_drop [OF inv t, of "Ended (Some PoolExhaustedError)"]
  by (auto simp: acquire_top_def split: list.splits if_splits)

lemma session_step_inv:
  assumes inv: "local_inv img sp T owner doomed" and t: "T (Sess n) = Some c"
    and r: "session_step (Sess n) down now started out c sp = Some (sp', c', ids)"
    and fresh: "\<And>h. out = OCreated h \<Longrightarrow> owner (eh_id h) = None \<and> eh_id h \<notin> doomed"
  shows "local_inv img sp' (T(Sess n \<mapsto> c')) (created_by img out owner) (set ids \<union> doomed)"
proof (cases c)
  case AtAcquire
  with r have "out = OGo" "sp_lock sp = None" "acquire_top (Sess n) now started sp = (sp', c', ids)"
    by (auto split: if_splits)
  with acquire_top_inv [OF inv t [unfolded AtAcquire]] show ?thesis by fastforce
next
  case (Creating s)
  show ?thesis
  proof (cases out)
    case (OCreated h)
    have "local_inv img (add_slot (EnvSlot (eh_id h)) (discard_slot s (sp\<lparr>sp_lock := None\<rparr>)))
      (T(Sess n \<mapsto> Leased h)) (owner(eh_id h \<mapsto> img)) doomed"
      using inv_created [OF inv t [unfolded Creating]] fresh OCreated by blast
    from inv_same_slots [OF this, of "Sess n" "Leased h" "Leased h" sp'] r Creating OCreated
    show ?thesis by (auto simp: count_lease_def)
  next
    case (ORaised x)
    with r Creating inv_create_failed [OF inv t [unfolded Creating]] show ?thesis by auto
  qed (use r Creating in auto)
next
  case (Checking e)
  with r show ?thesis
    using inv_same_slots [OF inv t, of c' sp] inv_drop [OF inv t, of c']
    by (cases out) (auto split: if_splits)
next
  case (Confirming e)
  with r show ?thesis
    using inv_same_slots [OF inv t, of c' sp']
    by (auto simp: entry_slot_def entry_id_def count_lease_def split: if_splits)
next
  case (Discarding e)
  with r have s: "sp' = count_kill (discard_slot (entry_slot e) sp)" "c' = Destroying (ie_env e)"
      "ids = [entry_id e]" "out = OGo"
    by (auto split: if_splits)
  have "local_inv img (discard_slot (entry_slot e) sp) (T(Sess n \<mapsto> c')) owner (insert (entry_id e) doomed)"
    unfolding entry_slot_def
    by (rule inv_release [OF inv t]) (simp_all add: Discarding s entry_slot_def)
  from inv_same_slots [OF this, of "Sess n" c' c' sp'] s show ?thesis
    by (simp add: count_kill_def)
next
  case (Destroying h)
  with r show ?thesis using inv_drop [OF inv t, of AtAcquire] by (cases out) auto
next
  case Waiting
  with r show ?thesis
    using inv_rotate [OF inv _ t [unfolded Waiting]] inv_drop [OF inv t, of "Ended (Some PoolExhaustedError)"]
    by (cases out) (auto split: list.splits if_splits)
next
  case (Leased h)
  with r show ?thesis using inv_same_slots [OF inv t, of c' sp] by (auto split: if_splits)
next
  case (Closing h)
  with r show ?thesis using inv_release [OF inv t, of "eh_id h" "Disposing h"] by (auto split: if_splits)
next
  case (Releasing h)
  with r show ?thesis using inv_same_slots [OF inv t, of c' sp] by (cases out) auto
next
  case (Returning h b)
  show ?thesis
  proof (cases b)
    case True
    with r Returning inv_return [OF inv t, of h "Ended None"] show ?thesis
      by (auto simp: returned_def split: if_splits)
  next
    case False
    with r Returning have s: "sp' = count_kill (discard_slot (EnvSlot (eh_id h)) sp)" "c' = Disposing h"
        "ids = [eh_id h]" "out = OGo"
      by (auto simp: returned_def split: if_splits)
    have "local_inv img (discard_slot (EnvSlot (eh_id h)) sp) (T(Sess n \<mapsto> c')) owner (insert (eh_id h) doomed)"
      by (rule inv_release [OF inv t]) (simp_all add: Returning s)
    from inv_same_slots [OF this, of "Sess n" c' c' sp'] s show ?thesis
      by (simp add: count_kill_def)
  qed
next
  case (Disposing h)
  with r show ?thesis using inv_drop [OF inv t, of "Ended None"] by (cases out) auto
qed (use r in auto)


lemma tracked_owner: "local_inv img sp T owner doomed \<Longrightarrow> i \<in> tracked sp T \<Longrightarrow> owner i = Some img"
  by (simp add: local_inv_def ids_ok_def)

lemma held_owner:
  assumes "local_inv img sp T owner doomed" and "T a = Some c" and "held c = Some (EnvSlot i)"
  shows "owner i = Some img"
  using held_in_use [OF assms] by (intro tracked_owner [OF assms(1)]) (simp add: tracked_def)

lemma session_step_doomed:
  assumes "local_inv img sp T owner doomed" and "T (Sess n) = Some c"
    and "session_step (Sess n) down now started out c sp = Some (sp', c', ids)"
  shows "\<forall>i \<in> set ids. owner i = Some img"
  using assms(3) held_owner [OF assms(1,2)]
  by (cases c) (auto simp: acquire_top_def returned_def entry_slot_def Let_def
      split: if_splits outcome.splits list.splits)

section \<open>Warming and reaping\<close>

lemma inv_warm_put:
  assumes inv: "local_inv img sp T owner doomed" and c: "T a = Some c"
    and c': "held c' = None" "stash c' = []" "\<not> creating c'"
    and fresh: "owner (eh_id h) = None" "eh_id h \<notin> doomed"
  shows "local_inv img (put_idle \<lparr>ie_env = h, ie_since = now\<rparr> sp) (T(a \<mapsto> c'))
    (owner(eh_id h \<mapsto> img)) doomed"
    (is "local_inv img ?sp ?T ?o _")
proof -
  have f: "eh_id h \<notin> tracked sp T"
    using tracked_owner [OF inv] fresh(1) by fastforce
  then have f1: "EnvSlot (eh_id h) \<notin> set (sp_in_use sp)" "\<And>e. e \<in> set (sp_idle sp) \<Longrightarrow> entry_id e \<noteq> eh_id h"
    and f2: "\<And>a c x. T a = Some c \<Longrightarrow> x \<in> set (stash c) \<Longrightarrow> entry_id x \<noteq> eh_id h"
    by (auto simp: tracked_def)
  have e: "entry_id \<lparr>ie_env = h, ie_since = now\<rparr> = eh_id h" by (simp add: entry_id_def)
  have "eh_id h \<notin> entry_id ` set (sp_idle sp)" using f1 by (metis imageE)
  then have "slots_ok ?sp ?T" using inv c' e f1
    by (auto simp: local_inv_def slots_ok_def local_ops)
  moreover have "lock_ok ?sp ?T" using inv c'
    by (auto simp: local_inv_def lock_ok_def local_ops)
  moreover have "stash_ok ?sp ?T" using inv c' e f2
    by (auto simp: local_inv_def stash_ok_def local_ops) metis
  moreover have "ids_ok img ?sp ?T ?o doomed" using inv c' e fresh
    by (auto simp: local_inv_def ids_ok_def tracked_def local_ops split: if_splits)
  ultimately show ?thesis by (simp add: local_inv_def)
qed

definition stash_of :: "(actor \<Rightarrow> pc option) \<Rightarrow> actor \<Rightarrow> idle_entry list" where
  "stash_of T a = (case T a of None \<Rightarrow> [] | Some c \<Rightarrow> stash c)"

fun kept_form :: "pc \<Rightarrow> bool" where
  "kept_form (ReapKept h t s d) = (t = [] \<and> s = [])"
| "kept_form _ = True"

lemma distinct_map_append_neq:
  "distinct (map f (xs @ ys)) \<Longrightarrow> x \<in> set xs \<Longrightarrow> y \<in> set ys \<Longrightarrow> f x \<noteq> f y"
  by (induction xs) auto

lemma inv_reaper:
  assumes inv: "local_inv img sp T owner doomed"
    and same: "sp_in_use sp' = sp_in_use sp" "sp_lock sp' = sp_lock sp"
    and c': "held c' = None" "\<not> creating c'" "kept_form c'"
    and d: "distinct (map entry_id (sp_idle sp' @ stash c' @ dl))"
    and sub: "set (sp_idle sp' @ stash c' @ dl) \<subseteq> set (sp_idle sp) \<union> set (stash_of T Reaper)"
  shows "local_inv img sp' (T(Reaper \<mapsto> c')) owner (entry_id ` set dl \<union> doomed)"
    (is "local_inv img _ ?T _ ?d")
proof -
  have out: "EnvSlot (entry_id e) \<notin> set (sp_in_use sp)"
    if "e \<in> set (sp_idle sp) \<union> set (stash_of T Reaper)" for e
    using inv that by (cases "T Reaper")
      (auto simp: local_inv_def slots_ok_def stash_ok_def stash_of_def entry_slot_def)
  have own: "T b = Some x \<Longrightarrow> stash x \<noteq> [] \<Longrightarrow> b = Reaper" for b x
    using inv by (simp add: local_inv_def stash_ok_def)
  have tr: "entry_id e \<in> tracked sp T" if "e \<in> set (sp_idle sp) \<union> set (stash_of T Reaper)" for e
    using that by (cases "T Reaper") (auto simp: tracked_def stash_of_def)
  have "slots_ok sp' ?T" using inv same c' d sub out
    by (auto simp: local_inv_def slots_ok_def idle_ids_def entry_slot_def)
  moreover have "lock_ok sp' ?T" using inv same c'
    by (auto simp: local_inv_def lock_ok_def)
  moreover have "stash_ok sp' ?T"
  proof -
    have 1: "entry_id e \<noteq> entry_id x" if "e \<in> set (sp_idle sp')" "x \<in> set (stash c')" for e x
      using distinct_map_append_neq [OF d, of e x] that by simp
    have "EnvSlot (entry_id x) \<notin> set (sp_in_use sp)" if "x \<in> set (stash c')" for x
      using out sub that by auto
    moreover have "stash x = []" if "T b = Some x" "b \<noteq> Reaper" for b x
      using own that by blast
    moreover have "distinct (map entry_id (stash c'))" using d by simp
    ultimately have "\<forall>b x. ?T b = Some x \<longrightarrow> distinct (map entry_id (stash x)) \<and>
       (\<forall>y \<in> set (stash x). entry_slot y \<notin> set (sp_in_use sp') \<and>
         (\<forall>e \<in> set (sp_idle sp'). entry_id e \<noteq> entry_id y))"
      using 1 same by (auto simp: entry_slot_def)
    moreover have "\<forall>b x. ?T b = Some x \<longrightarrow> stash x \<noteq> [] \<longrightarrow> b = Reaper" using own by auto
    moreover have "\<forall>b x. ?T b = Some x \<longrightarrow> held x \<noteq> None \<longrightarrow> (\<exists>n. b = Sess n)"
      using inv c' by (simp add: local_inv_def stash_ok_def)
    moreover have "t = [] \<and> s = []" if "?T b = Some (ReapKept h t s d)" for b h t s d
      using kept_empty [OF inv, of b h t s d] c' that by (cases "b = Reaper") auto
    ultimately show ?thesis unfolding stash_ok_def by blast
  qed
  moreover have "ids_ok img sp' ?T owner ?d"
  proof -
    have dd: "distinct (map entry_id ((sp_idle sp' @ stash c') @ dl))" using d by simp
    have "i \<notin> entry_id ` set dl" if "i \<in> tracked sp' ?T" for i
    proof
      assume "i \<in> entry_id ` set dl"
      then obtain x where x: "x \<in> set dl" "i = entry_id x" by blast
      from that consider e where "e \<in> set (sp_idle sp')" "entry_id e = i" | "EnvSlot i \<in> set (sp_in_use sp)"
        | e where "e \<in> set (stash c')" "entry_id e = i"
        | b y e where "T b = Some y" "b \<noteq> Reaper" "e \<in> set (stash y)"
        by (auto simp: tracked_def same split: if_splits)
      then show False
      proof cases
        case (1 e)
        with distinct_map_append_neq [OF dd, of e x] x show ?thesis by simp
      next
        case 2
        with out [of x] x sub show ?thesis by auto
      next
        case (3 e)
        with distinct_map_append_neq [OF dd, of e x] x show ?thesis by simp
      next
        case 4
        with own show ?thesis by fastforce
      qed
    qed
    moreover have "tracked sp' ?T \<subseteq> tracked sp T"
    proof
      fix i assume "i \<in> tracked sp' ?T"
      then consider e where "e \<in> set (sp_idle sp' @ stash c' @ dl)" "entry_id e = i"
        | "EnvSlot i \<in> set (sp_in_use sp)"
        | b y e where "T b = Some y" "e \<in> set (stash y)" "entry_id e = i"
        by (auto simp: tracked_def same split: if_splits)
      then show "i \<in> tracked sp T"
      proof cases
        case 1
        with tr sub show ?thesis by blast
      qed (auto simp: tracked_def)
    qed
    ultimately show ?thesis using inv by (auto simp: local_inv_def ids_ok_def)
  qed
  ultimately show ?thesis by (simp add: local_inv_def)
qed

lemma warm_begin_shape:
  "warm_begin sp = (sp', c', ids) \<Longrightarrow> sp' = sp \<and> ids = [] \<and> held c' = None \<and> \<not> creating c' \<and>
    stash c' = [] \<and> kept_form c'"
  by (auto simp: warm_begin_def Let_def split: if_splits)

lemma reap_dead_shape:
  "reap_dead dead sp = (sp', c', ids) \<Longrightarrow> sp' = sp \<and> held c' = None \<and> \<not> creating c' \<and> kept_form c' \<and>
    (\<exists>dl. ids = map entry_id dl \<and> dead = dl @ stash c')"
  by (cases dead) (auto dest!: warm_begin_shape)


lemma set_youngest_first [simp]: "set (youngest_first es) = set es"
  by (simp add: youngest_first_def)

lemma distinct_youngest_first: "distinct (map f es) \<Longrightarrow> distinct (map f (youngest_first es))"
  by (simp add: distinct_map youngest_first_def)

lemma reap_begin_inv:
  assumes inv: "local_inv img sp T owner doomed" and none: "stash_of T Reaper = []"
    and k: "keep_target sp \<le> 1" and r: "reap_begin now sp = (sp', c', ids)"
  shows "local_inv img sp' (T(Reaper \<mapsto> c')) owner (set ids \<union> doomed) \<and>
    (\<forall>i \<in> set ids. owner i = Some img) \<and> held c' = None"
proof -
  define dr where "dr = youngest_first (sp_idle sp)"
  define kept where "kept = take (keep_target sp) dr"
  define dead where "dead = drop (keep_target sp) dr"
  have d: "distinct (map entry_id (kept @ dead))" and s: "set (kept @ dead) = set (sp_idle sp)"
    using inv by (simp_all add: kept_def dead_def dr_def local_inv_def slots_ok_def idle_ids_def
        distinct_youngest_first del: set_append distinct_append map_append)
  have r': "reap_kept now kept [] dead (sp\<lparr>sp_idle := kept\<rparr>) = (sp', c', ids)"
    using r by (simp only: reap_begin_def Let_def kept_def dead_def dr_def)
  have "length kept \<le> 1" using k by (simp add: kept_def)
  then consider (empty) "kept = []" | (one) e where "kept = [e]"
    by (cases kept) auto
  then have "\<exists>dl. ids = map entry_id dl \<and> held c' = None \<and> \<not> creating c' \<and> kept_form c' \<and>
      sp_in_use sp' = sp_in_use sp \<and> sp_lock sp' = sp_lock sp \<and>
      distinct (map entry_id (sp_idle sp' @ stash c' @ dl)) \<and>
      set (sp_idle sp' @ stash c' @ dl) \<subseteq> set (kept @ dead)"
  proof cases
    case empty
    then have "reap_dead dead (sp\<lparr>sp_idle := []\<rparr>) = (sp', c', ids)"
      using r' by simp
    from reap_dead_shape [OF this] d empty show ?thesis by (auto simp: Int_commute)
  next
    case (one e)
    with r' consider (old) "sp' = sp\<lparr>sp_idle := []\<rparr>" "c' = ReapKept (ie_env e) [] [] dead" "ids = [entry_id e]"
      | (young) "reap_dead dead (sp\<lparr>sp_idle := [e]\<rparr>) = (sp', c', ids)"
      by (auto split: if_splits)
    then show ?thesis
    proof cases
      case old
      with d one show ?thesis by (intro exI [of _ "[e]"]) auto
    next
      case young
      from reap_dead_shape [OF this] obtain dl where dl: "sp' = sp\<lparr>sp_idle := [e]\<rparr>" "held c' = None"
        "\<not> creating c'" "kept_form c'" "ids = map entry_id dl" "dead = dl @ stash c'" by auto
      with d one show ?thesis by (intro exI [of _ dl]) auto
    qed
  qed
  then obtain dl where dl: "ids = map entry_id dl" "held c' = None" "\<not> creating c'" "kept_form c'"
      "sp_in_use sp' = sp_in_use sp" "sp_lock sp' = sp_lock sp"
      "distinct (map entry_id (sp_idle sp' @ stash c' @ dl))"
      "set (sp_idle sp' @ stash c' @ dl) \<subseteq> set (kept @ dead)" by blast
  have "local_inv img sp' (T(Reaper \<mapsto> c')) owner (entry_id ` set dl \<union> doomed)"
    using dl s none by (intro inv_reaper [OF inv]) auto
  moreover have "\<forall>i \<in> set ids. owner i = Some img"
  proof
    fix i assume "i \<in> set ids"
    with dl(1,8) s have "\<exists>e \<in> set (sp_idle sp). i = entry_id e" by auto
    then show "owner i = Some img" by (intro tracked_owner [OF inv]) (auto simp: tracked_def)
  qed
  ultimately show ?thesis using dl by simp
qed

lemma warm_begin_inv:
  assumes inv: "local_inv img sp T owner doomed" and none: "\<And>c. T a = Some c \<Longrightarrow> held c = None \<and> stash c = []"
    and r: "warm_begin sp = (sp', c', ids)" and a: "\<And>n. a \<noteq> Sess n"
  shows "local_inv img sp' (T(a \<mapsto> c')) owner (set ids \<union> doomed) \<and>
    (\<forall>i \<in> set ids. owner i = Some img) \<and> held c' = None"
proof -
  note w = warm_begin_shape [OF r]
  have "slots_ok sp (T(a \<mapsto> c'))" using inv w by (auto simp: local_inv_def slots_ok_def)
  moreover have "lock_ok sp (T(a \<mapsto> c'))" using inv w by (auto simp: local_inv_def lock_ok_def)
  moreover have "stash_ok sp (T(a \<mapsto> c'))" using inv w
    by (cases c') (auto simp: local_inv_def stash_ok_def)
  moreover have "ids_ok img sp (T(a \<mapsto> c')) owner doomed" using w none
    by (intro ids_ok_mono [OF inv]) (auto simp: tracked_def split: if_splits; metis)
  ultimately show ?thesis using w by (simp add: local_inv_def)
qed

fun reaping :: "pc \<Rightarrow> bool" where
  "reaping (ReapKept h t s d) = True"
| "reaping (ReapDead h d) = True"
| "reaping c = False"

lemma reap_dead_inv:
  assumes inv: "local_inv img sp T owner doomed" and t: "T Reaper = Some c" and st: "stash c = dead"
    and q: "q = sp_idle sp \<or> q = []"
    and d: "reap_dead dead (sp\<lparr>sp_idle := q\<rparr>) = (sp', c', ids)"
  shows "local_inv img sp' (T(Reaper \<mapsto> c')) owner (set ids \<union> doomed) \<and>
    (\<forall>i \<in> set ids. owner i = Some img) \<and> held c' = None"
proof -
  from reap_dead_shape [OF d] obtain dl where dl: "sp' = sp\<lparr>sp_idle := q\<rparr>" "held c' = None"
    "\<not> creating c'" "kept_form c'" "ids = map entry_id dl" "dead = dl @ stash c'" by blast
  have st': "stash_of T Reaper = dead" using t st by (simp add: stash_of_def)
  have "entry_id e \<noteq> entry_id x" if "e \<in> set (sp_idle sp)" "x \<in> set dead" for e x
    using inv t st that unfolding local_inv_def stash_ok_def by blast
  moreover have "distinct (map entry_id (sp_idle sp))" "distinct (map entry_id dead)"
    using inv t st by (auto simp: local_inv_def slots_ok_def stash_ok_def idle_ids_def)
  ultimately have "distinct (map entry_id (sp_idle sp @ dead))" by auto
  then have "distinct (map entry_id (q @ stash c' @ dl))" using q dl(6) by auto
  then have "local_inv img sp' (T(Reaper \<mapsto> c')) owner (entry_id ` set dl \<union> doomed)"
    using dl q st' by (intro inv_reaper [OF inv]) auto
  moreover have "\<forall>i \<in> set ids. owner i = Some img"
  proof
    fix i assume "i \<in> set ids"
    with dl have "\<exists>e \<in> set (stash c). entry_id e = i" using st by auto
    with t show "owner i = Some img" by (intro tracked_owner [OF inv]) (auto simp: tracked_def)
  qed
  ultimately show ?thesis using dl by simp
qed

lemma maint_step_inv:
  assumes inv: "local_inv img sp T owner doomed" and t: "T a = Some c" and a: "\<And>n. a \<noteq> Sess n"
    and s: "a \<noteq> Reaper \<Longrightarrow> \<not> reaping c"
    and r: "maint_step now pnow out c sp = Some (sp', c', ids)"
    and fresh: "\<And>h. out = OCreated h \<Longrightarrow> owner (eh_id h) = None \<and> eh_id h \<notin> doomed"
  shows "local_inv img sp' (T(a \<mapsto> c')) (created_by img out owner) (set ids \<union> doomed) \<and>
    (\<forall>i \<in> set ids. owner i = Some img) \<and> held c' = None \<and> (a \<noteq> Reaper \<longrightarrow> \<not> reaping c')"
proof (cases c)
  case (Warming n)
  show ?thesis
  proof (cases out)
    case (OCreated h)
    with r Warming have "sp' = put_idle \<lparr>ie_env = h, ie_since = now\<rparr> sp" "ids = []"
      "c' = (if n \<le> 1 then Ended None else Warming (n - 1))" by (auto simp: warm_step_def)
    then show ?thesis using fresh OCreated
      by (auto intro!: inv_warm_put [OF inv t])
  next
    case (ORaised x)
    with r Warming inv_drop [OF inv t, of "Ended None"] show ?thesis by (auto simp: warm_step_def)
  qed (use r Warming in \<open>auto simp: warm_step_def\<close>)
next
  case (ReapKept h todo surv dead)
  with s have a: "a = Reaper" by auto
  from kept_empty [OF inv t [unfolded ReapKept]] have f: "todo = []" "surv = []" by simp_all
  with r ReapKept have d: "reap_dead dead (sp\<lparr>sp_idle := []\<rparr>) = (sp', c', ids)" "destroyed out"
    by (auto split: if_splits)
  from reap_dead_inv [OF inv t [unfolded a] _ _ d(1)] d(2) ReapKept f a show ?thesis
    by (cases out) (auto simp: destroyed_def)
next
  case (ReapDead h dead)
  with s have a: "a = Reaper" by auto
  from r ReapDead have d: "reap_dead dead (sp\<lparr>sp_idle := sp_idle sp\<rparr>) = (sp', c', ids)" "destroyed out"
    by (auto split: if_splits)
  from reap_dead_inv [OF inv t [unfolded a] _ _ d(1)] d(2) ReapDead a show ?thesis
    by (cases out) (auto simp: destroyed_def)
qed (use r in auto)

end
