(* ===== verification/Pool_Safety.thy ===== *)
theory Pool_Safety
  imports Pool_Inv
begin

text \<open>
  The invariant of every sub-pool, lifted to the pool and to every run of it: whatever the
  sessions, the starter, the reaper and the driver do, until the pool is shut down, for
  configurations in which every image keeps at most one idle environment (as the default does).
\<close>

definition pcs :: "string \<Rightarrow> pool \<Rightarrow> actor \<Rightarrow> pc option" where
  "pcs img p a = (case pl_tasks p a of None \<Rightarrow> None
     | Some t \<Rightarrow> if tk_image t = img then Some (tk_pc t) else None)"

definition pool_inv :: "pool \<Rightarrow> bool" where
  "pool_inv p \<longleftrightarrow>
     (\<forall>img sp. get_sub img p = Some sp \<longrightarrow>
        local_inv img sp (pcs img p) (pl_owner p) (pl_doomed p) \<and>
        sp_config sp = pool_config_for (pl_config p) img) \<and>
     (\<forall>i \<in> pl_doomed p. pl_owner p i \<noteq> None) \<and>
     (\<forall>a t. pl_tasks p a = Some t \<longrightarrow> get_sub (tk_image t) p \<noteq> None) \<and>
     (\<forall>t. pl_tasks p Starter = Some t \<longrightarrow> \<not> reaping (tk_pc t)) \<and>
     (\<forall>a t. pl_tasks p a = Some t \<longrightarrow> held (tk_pc t) \<noteq> None \<longrightarrow> (\<exists>n. a = Sess n))"

lemma pool_inv_local:
  "pool_inv p \<Longrightarrow> get_sub img p = Some sp \<Longrightarrow>
    local_inv img sp (pcs img p) (pl_owner p) (pl_doomed p) \<and> sp_config sp = pool_config_for (pl_config p) img"
  unfolding pool_inv_def by blast

lemma pool_inv_task: "pool_inv p \<Longrightarrow> pl_tasks p a = Some t \<Longrightarrow> \<exists>sp. get_sub (tk_image t) p = Some sp"
  unfolding pool_inv_def by blast

lemma pool_inv_maint:
  "pool_inv p \<Longrightarrow> pl_tasks p a = Some t \<Longrightarrow> (\<And>n. a \<noteq> Sess n) \<Longrightarrow> held (tk_pc t) = None"
  unfolding pool_inv_def by blast

lemma pool_inv_starter: "pool_inv p \<Longrightarrow> pl_tasks p Starter = Some t \<Longrightarrow> \<not> reaping (tk_pc t)"
  unfolding pool_inv_def by blast

lemma pool_inv_doomed: "pool_inv p \<Longrightarrow> i \<in> pl_doomed p \<Longrightarrow> pl_owner p i \<noteq> None"
  unfolding pool_inv_def by blast

lemma get_set_sub [simp]: "get_sub j (set_sub i sp p) = (if j = i then Some sp else get_sub j p)"
  by (simp add: get_sub_def set_sub_def update_conv')

lemma get_sub_frame [simp]:
  "get_sub i (doom ids p) = get_sub i p" "get_sub i (set_task a t p) = get_sub i p"
  "get_sub i (note_created out img p) = get_sub i p"
  "get_sub i (p\<lparr>pl_now := x\<rparr>) = get_sub i p" "get_sub i (p\<lparr>pl_reaper := b\<rparr>) = get_sub i p"
  by (simp_all add: get_sub_def doom_def set_task_def) (cases out; simp add: get_sub_def)

lemma pcs_frame [simp]:
  "pcs i (doom ids p) = pcs i p" "pcs i (set_sub j sp p) = pcs i p"
  "pcs i (note_created out img p) = pcs i p"
  "pcs i (p\<lparr>pl_now := x\<rparr>) = pcs i p" "pcs i (p\<lparr>pl_reaper := b\<rparr>) = pcs i p"
  by (simp_all add: pcs_def doom_def set_sub_def fun_eq_iff) (cases out; simp add: pcs_def)

lemma pcs_set_task: "pcs i (set_task a (Some t) p) =
    (if tk_image t = i then (pcs i p)(a \<mapsto> tk_pc t) else (pcs i p)(a := None))"
  by (auto simp: pcs_def set_task_def fun_eq_iff)

lemma pcs_set_None: "pcs i (set_task a None p) = (pcs i p)(a := None)"
  by (auto simp: pcs_def set_task_def fun_eq_iff)

lemma inv_forget:
  assumes inv: "local_inv img sp T owner doomed" and c: "\<And>c. T a = Some c \<Longrightarrow> held c = None"
  shows "local_inv img sp (T(a := None)) owner doomed"
proof -
  have "slots_ok sp (T(a := None))" using inv
    by (auto simp: local_inv_def slots_ok_def)
  moreover have "lock_ok sp (T(a := None))" using inv by (auto simp: local_inv_def lock_ok_def)
  moreover have "stash_ok sp (T(a := None))" using inv by (auto simp: local_inv_def stash_ok_def)
  moreover have "ids_ok img sp (T(a := None)) owner doomed"
    by (intro ids_ok_mono [OF inv]) (auto simp: tracked_def split: if_splits)
  ultimately show ?thesis by (simp add: local_inv_def)
qed

lemma inv_other_image:
  assumes inv: "local_inv img sp T owner doomed"
    and o: "\<And>i. owner i = Some img \<Longrightarrow> owner' i = Some img"
    and d: "\<And>i. i \<in> doomed' \<Longrightarrow> i \<in> doomed \<or> owner i \<noteq> Some img"
  shows "local_inv img sp T owner' doomed'"
  using assms by (auto simp: local_inv_def ids_ok_def)


lemma note_created_frame [simp]:
  "pl_tasks (note_created out img p) = pl_tasks p" "pl_doomed (note_created out img p) = pl_doomed p"
  "pl_config (note_created out img p) = pl_config p" "pl_closed (note_created out img p) = pl_closed p"
  "pl_owner (note_created out img p) = created_by img out (pl_owner p)"
  by (cases out; simp)+

lemma created_by_owned: "fresh_outcome out p \<Longrightarrow> pl_owner p i = Some j \<Longrightarrow> created_by img out (pl_owner p) i = Some j"
  by (cases out) auto

lemma put_local_inv:
  assumes inv: "pool_inv p" and g: "get_sub (tk_image t) p = Some sp"
    and old: "\<And>t0. pl_tasks p a = Some t0 \<Longrightarrow> tk_image t0 = tk_image t"
    and fo: "fresh_outcome out p"
    and l: "local_inv (tk_image t) sp' ((pcs (tk_image t) p)(a \<mapsto> c'))
      (created_by (tk_image t) out (pl_owner p)) (set ids \<union> pl_doomed p)"
    and cfg: "sp_config sp' = sp_config sp"
    and own: "\<forall>i \<in> set ids. pl_owner p i = Some (tk_image t)"
    and k: "a = Starter \<Longrightarrow> \<not> reaping c'" "held c' \<noteq> None \<Longrightarrow> \<exists>n. a = Sess n"
  shows "pool_inv (put_local a t (sp', c', ids) (note_created out (tk_image t) p))" (is "pool_inv ?q")
proof -
  have q: "pl_tasks ?q = (pl_tasks p)(a \<mapsto> t\<lparr>tk_pc := c'\<rparr>)" "pl_doomed ?q = set ids \<union> pl_doomed p"
    "pl_owner ?q = created_by (tk_image t) out (pl_owner p)" "pl_config ?q = pl_config p"
    by (simp_all add: put_local_def set_task_def doom_def set_sub_def)
  have sub: "get_sub j ?q = (if j = tk_image t then Some sp' else get_sub j p)" for j
    by (simp add: put_local_def)
  have pc: "pcs j ?q = (if j = tk_image t then (pcs j p)(a \<mapsto> c') else pcs j p)" for j
  proof (cases "j = tk_image t")
    case False
    then have "pcs j p a = None" unfolding pcs_def by (auto split: option.split dest: old)
    then have "(pcs j p)(a := None) = pcs j p" by (rule fun_upd_idem)
    with False show ?thesis by (auto simp: put_local_def pcs_set_task)
  qed (simp add: put_local_def pcs_set_task)
  have "local_inv j sj (pcs j ?q) (pl_owner ?q) (pl_doomed ?q) \<and>
      sp_config sj = pool_config_for (pl_config ?q) j" if "get_sub j ?q = Some sj" for j sj
  proof (cases "j = tk_image t")
    case True
    with that have "sj = sp'" by (simp add: sub)
    with True l cfg pool_inv_local [OF inv g] show ?thesis unfolding pc q by simp
  next
    case False
    with that have gj: "get_sub j p = Some sj" by (simp add: sub)
    note lj = pool_inv_local [OF inv gj]
    have "local_inv j sj (pcs j p) (pl_owner ?q) (pl_doomed ?q)"
    proof (rule inv_other_image [OF conjunct1 [OF lj]])
      show "pl_owner ?q i = Some j" if "pl_owner p i = Some j" for i
        using created_by_owned [OF fo that] by (simp add: q)
      show "i \<in> pl_doomed p \<or> pl_owner p i \<noteq> Some j" if "i \<in> pl_doomed ?q" for i
        using that own False by (auto simp: q)
    qed
    with False lj show ?thesis by (simp add: pc q)
  qed
  moreover have "pl_owner ?q i \<noteq> None" if "i \<in> pl_doomed ?q" for i
  proof -
    from that own pool_inv_doomed [OF inv, of i] obtain k where "pl_owner p i = Some k"
      by (auto simp: q)
    from created_by_owned [OF fo this] show ?thesis by (simp add: q)
  qed
  moreover have "get_sub (tk_image u) ?q \<noteq> None" if "pl_tasks ?q b = Some u" for b u
    using that pool_inv_task [OF inv, of b u] by (auto simp: q sub split: if_splits)
  moreover have "\<not> reaping (tk_pc u)" if "pl_tasks ?q Starter = Some u" for u
    using that pool_inv_starter [OF inv, of u] k(1) by (auto simp: q split: if_splits)
  moreover have "\<exists>n. b = Sess n" if "pl_tasks ?q b = Some u" "held (tk_pc u) \<noteq> None" for b u
  proof (cases "b = a")
    case True
    with that have "tk_pc u = c'" by (auto simp: q)
    with that(2) k(2) True show ?thesis by simp
  next
    case False
    with that have "pl_tasks p b = Some u" by (simp add: q)
    from pool_inv_maint [OF inv this] that(2) show ?thesis by (cases b) auto
  qed
  ultimately show ?thesis unfolding pool_inv_def by blast
qed

lemma forget_task_inv:
  assumes inv: "pool_inv p" and a: "\<And>n. a \<noteq> Sess n"
  shows "pool_inv (set_task a None p)" (is "pool_inv ?q")
proof -
  have h: "held c = None" if "pcs j p a = Some c" for j c
    using pool_inv_maint [OF inv _ a] that by (auto simp: pcs_def split: option.splits if_splits)
  have q: "pl_tasks ?q = (pl_tasks p)(a := None)" "pl_doomed ?q = pl_doomed p"
    "pl_owner ?q = pl_owner p" "pl_config ?q = pl_config p"
    by (simp_all add: set_task_def)
  have "local_inv j sj (pcs j ?q) (pl_owner ?q) (pl_doomed ?q) \<and>
      sp_config sj = pool_config_for (pl_config ?q) j" if "get_sub j ?q = Some sj" for j sj
    using that inv h by (auto simp: q pcs_set_None pool_inv_def intro!: inv_forget)
  with inv show ?thesis unfolding pool_inv_def q
    by (auto split: if_splits)
qed

lemma put_local_forget: "put_local a t r (set_task a None p) = put_local a t r p"
  by (simp add: put_local_def set_task_def doom_def set_sub_def split: prod.split)

lemma sp_config_frames [simp]:
  "sp_config (add_slot s sp) = sp_config sp" "sp_config (discard_slot s sp) = sp_config sp"
  "sp_config (put_idle e sp) = sp_config sp" "sp_config (count_lease now started sp) = sp_config sp"
  "sp_config (count_kill sp) = sp_config sp"
  by (simp_all add: local_ops)

lemma session_step_config:
  "session_step a down now started out c sp = Some (sp', c', ids) \<Longrightarrow> sp_config sp' = sp_config sp"
  by (cases c) (auto simp: acquire_top_def returned_def Let_def split: if_splits outcome.splits list.splits)

lemma warm_begin_config: "warm_begin sp = (sp', c', ids) \<Longrightarrow> sp_config sp' = sp_config sp"
  by (auto simp: warm_begin_def Let_def split: if_splits)

lemma reap_dead_config: "reap_dead es sp = (sp', c', ids) \<Longrightarrow> sp_config sp' = sp_config sp"
  by (cases es) (auto dest: warm_begin_config)

lemma reap_kept_config: "reap_kept now es sv d sp = (sp', c', ids) \<Longrightarrow> sp_config sp' = sp_config sp"
  by (induction es arbitrary: sv) (auto dest: reap_dead_config split: if_splits)

lemma reap_begin_config: "reap_begin now sp = (sp', c', ids) \<Longrightarrow> sp_config sp' = sp_config sp"
  by (auto simp: reap_begin_def Let_def dest: reap_kept_config)

lemma maint_step_config:
  "maint_step now pnow out c sp = Some (sp', c', ids) \<Longrightarrow> sp_config sp' = sp_config sp"
  by (cases c) (auto simp: warm_step_def split: if_splits outcome.splits dest: reap_kept_config reap_dead_config)


definition small_min_idle :: "forge_config \<Rightarrow> bool" where
  "small_min_idle c \<longleftrightarrow> (\<forall>img. pc_min_idle (pool_config_for c img) \<le> 1)"

lemma put_local_config [simp]: "pl_config (put_local a t r p) = pl_config p"
  by (simp add: put_local_def set_task_def doom_def set_sub_def split: prod.split)

lemma put_local_closed [simp]: "pl_closed (put_local a t r p) = pl_closed p"
  by (simp add: put_local_def set_task_def doom_def set_sub_def split: prod.split)

lemma set_task_frame [simp]: "pl_config (set_task a t p) = pl_config p" "pl_closed (set_task a t p) = pl_closed p"
  by (simp_all add: set_task_def)

lemma visit_frame: "pl_config (visit a now imgs p) = pl_config p \<and> pl_closed (visit a now imgs p) = pl_closed p"
  by (induction a now imgs p rule: visit.induct) (auto simp: Let_def split: option.splits)

lemma visit_begin_inv:
  assumes inv: "local_inv img sp T owner doomed" and a: "\<And>n. a \<noteq> Sess n" and none: "T a = None"
    and k: "keep_target sp \<le> 1" and r: "visit_begin a now sp = (sp', c', ids)"
  shows "local_inv img sp' (T(a \<mapsto> c')) owner (set ids \<union> doomed) \<and>
    (\<forall>i \<in> set ids. owner i = Some img) \<and> held c' = None \<and> (a = Starter \<longrightarrow> \<not> reaping c') \<and>
    sp_config sp' = sp_config sp"
proof (cases "a = Reaper")
  case True
  with r have "reap_begin now sp = (sp', c', ids)" by (simp add: visit_begin_def)
  with reap_begin_inv [OF inv _ k this] none True show ?thesis
    by (auto simp: stash_of_def dest: reap_begin_config)
next
  case False
  with r have w: "warm_begin sp = (sp', c', ids)" by (simp add: visit_begin_def)
  moreover have "\<not> reaping c'" using w by (auto simp: warm_begin_def Let_def split: if_splits)
  ultimately show ?thesis using warm_begin_inv [OF inv _ w a] none
    by (auto dest: warm_begin_config)
qed

lemma visit_inv:
  "pool_inv p \<Longrightarrow> (\<And>n. a \<noteq> Sess n) \<Longrightarrow> small_min_idle (pl_config p) \<Longrightarrow> pool_inv (visit a now imgs p)"
proof (induction imgs arbitrary: p)
  case Nil
  then show ?case by (simp add: forget_task_inv)
next
  case (Cons img rest)
  show ?case
  proof (cases "get_sub img p")
    case None
    with Cons show ?thesis by simp
  next
    case (Some sp)
    define t where "t = \<lparr>tk_image = img, tk_started = now, tk_pc = Ended None, tk_rest = rest\<rparr>"
    obtain sp' c' ids where r: "visit_begin a now sp = (sp', c', ids)" by (cases "visit_begin a now sp") auto
    let ?p0 = "set_task a None p"
    have p0: "pool_inv ?p0" using Cons.prems by (intro forget_task_inv)
    have g: "get_sub img ?p0 = Some sp" using Some by simp
    with p0 have l: "local_inv img sp (pcs img ?p0) (pl_owner ?p0) (pl_doomed ?p0)"
      and c: "sp_config sp = pool_config_for (pl_config p) img" by (auto simp: pool_inv_def)
    have k: "keep_target sp \<le> 1"
      using Cons.prems(3) [unfolded small_min_idle_def, rule_format, of img] by (simp add: keep_target_def c)
    note b = visit_begin_inv [OF l Cons.prems(2) _ k r]
    have "pool_inv (put_local a t (sp', c', ids) (note_created OGo (tk_image t) ?p0))"
      using p0 g b by (intro put_local_inv) (simp_all add: t_def pcs_set_None, simp_all add: set_task_def)
    then have "pool_inv (put_local a t (sp', c', ids) p)" by (simp add: put_local_forget)
    with Cons.IH [OF this] Cons.prems Some r show ?thesis by (simp add: Let_def t_def)
  qed
qed

lemma ensure_subpool_frame [simp]:
  "pl_config (ensure_subpool img p) = pl_config p" "pl_closed (ensure_subpool img p) = pl_closed p"
  "pl_tasks (ensure_subpool img p) = pl_tasks p" "pl_owner (ensure_subpool img p) = pl_owner p"
  "pl_doomed (ensure_subpool img p) = pl_doomed p" "pcs j (ensure_subpool img p) = pcs j p"
  by (simp_all add: ensure_subpool_def set_sub_def pcs_def fun_eq_iff split: option.split)

lemma get_sub_ensure: "get_sub j (ensure_subpool img p) =
    (if j = img \<and> get_sub img p = None then Some (new_sub_pool (pool_config_for (pl_config p) img))
     else get_sub j p)"
  by (auto simp: ensure_subpool_def split: option.split)

lemma new_sub_pool_inv:
  assumes "\<And>a. T a = None"
  shows "local_inv img (new_sub_pool c) T owner doomed"
  using assms by (simp add: local_inv_def slots_ok_def lock_ok_def stash_ok_def ids_ok_def tracked_def
      new_sub_pool_def idle_ids_def)

lemma ensure_subpool_inv: "pool_inv p \<Longrightarrow> pool_inv (ensure_subpool img p)"
proof -
  assume inv: "pool_inv p"
  have "pcs img p a = None" if "get_sub img p = None" for a
    using pool_inv_task [OF inv, of a] that by (auto simp: pcs_def split: option.split)
  then show ?thesis using inv
    by (auto simp: pool_inv_def get_sub_ensure new_sub_pool_inv split: if_splits)
      (simp add: new_sub_pool_def)
qed

lemma fold_ensure_inv:
  "pool_inv p \<Longrightarrow> pool_inv (fold ensure_subpool imgs p) \<and>
    pl_config (fold ensure_subpool imgs p) = pl_config p \<and> pl_closed (fold ensure_subpool imgs p) = pl_closed p"
  by (induction imgs arbitrary: p) (simp_all add: ensure_subpool_inv)


lemma shutdown_next_closed [simp]:
  "pl_closed (shutdown_next imgs p) = pl_closed p" "pl_config (shutdown_next imgs p) = pl_config p"
proof -
  have "pl_closed (shutdown_next imgs p) = pl_closed p \<and> pl_config (shutdown_next imgs p) = pl_config p"
    by (induction imgs p rule: shutdown_next.induct)
      (auto simp: doom_def set_sub_def split: option.splits list.splits)
  then show "pl_closed (shutdown_next imgs p) = pl_closed p" "pl_config (shutdown_next imgs p) = pl_config p"
    by auto
qed

lemma note_created_OGo: "note_created OGo img p = p" by simp

lemma session_event_inv:
  assumes inv: "pool_inv p" and t: "pl_tasks p (Sess n) = Some t" and g: "get_sub (tk_image t) p = Some sp"
    and fo: "fresh_outcome out p"
    and r: "session_step (Sess n) down now started out (tk_pc t) sp = Some (sp', c', ids)"
  shows "pool_inv (put_local (Sess n) t (sp', c', ids) (note_created out (tk_image t) p))"
proof (rule put_local_inv [OF inv g])
  have pc: "pcs (tk_image t) p (Sess n) = Some (tk_pc t)" using t by (simp add: pcs_def)
  have fresh: "out = OCreated h \<Longrightarrow> pl_owner p (eh_id h) = None \<and> eh_id h \<notin> pl_doomed p" for h
    using fo pool_inv_doomed [OF inv, of "eh_id h"] by auto
  show "local_inv (tk_image t) sp' ((pcs (tk_image t) p)(Sess n \<mapsto> c'))
      (created_by (tk_image t) out (pl_owner p)) (set ids \<union> pl_doomed p)"
    using session_step_inv [OF conjunct1 [OF pool_inv_local [OF inv g]] pc r fresh] by blast
  show "\<forall>i \<in> set ids. pl_owner p i = Some (tk_image t)"
    using session_step_doomed [OF conjunct1 [OF pool_inv_local [OF inv g]] pc r] by blast
qed (use t fo session_step_config [OF r] in auto)

lemma maint_event_inv:
  assumes inv: "pool_inv p" and t: "pl_tasks p a = Some t" and a: "\<And>n. a \<noteq> Sess n"
    and g: "get_sub (tk_image t) p = Some sp" and fo: "fresh_outcome out p"
    and r: "maint_step now pnow out (tk_pc t) sp = Some (sp', c', ids)"
  shows "pool_inv (put_local a t (sp', c', ids) (note_created out (tk_image t) p))"
proof -
  have pc: "pcs (tk_image t) p a = Some (tk_pc t)" using t by (simp add: pcs_def)
  have fresh: "out = OCreated h \<Longrightarrow> pl_owner p (eh_id h) = None \<and> eh_id h \<notin> pl_doomed p" for h
    using fo pool_inv_doomed [OF inv, of "eh_id h"] by auto
  have rp: "\<not> reaping (tk_pc t)" if "a \<noteq> Reaper"
    using pool_inv_starter [OF inv] t a that by (cases a) auto
  note m = maint_step_inv [OF conjunct1 [OF pool_inv_local [OF inv g]] pc a rp r fresh]
  show ?thesis
    using m t by (intro put_local_inv [OF inv g]) (auto simp: fo maint_step_config [OF r])
qed

lemma fold_ensure_config [simp]:
  "pl_config (fold ensure_subpool imgs p) = pl_config p"
  by (induction imgs arbitrary: p) simp_all

lemma pool_step_closed: "pool_step ev p = Some q \<Longrightarrow> pl_closed p \<Longrightarrow> pl_closed q"
  by (cases ev) (auto simp: visit_frame doom_def set_sub_def Let_def split: if_splits option.splits
      actor.splits shutdown_pc.splits list.splits)

lemma pool_step_config: "pool_step ev p = Some q \<Longrightarrow> pl_config q = pl_config p"
  by (cases ev) (auto simp: visit_frame doom_def set_sub_def Let_def split: if_splits option.splits
      actor.splits shutdown_pc.splits list.splits)


definition shut_ok :: "pool \<Rightarrow> bool" where
  "shut_ok p \<longleftrightarrow> (pl_shutdown p \<noteq> ShOpen \<longrightarrow> pl_closed p)"

lemma shutdown_frame [simp]:
  "pl_shutdown (put_local a t r p) = pl_shutdown p" "pl_shutdown (ensure_subpool img p) = pl_shutdown p"
  "pl_shutdown (note_created out img p) = pl_shutdown p" "pl_shutdown (set_task a u p) = pl_shutdown p"
  by (simp_all add: put_local_def set_task_def doom_def set_sub_def ensure_subpool_def
      split: prod.split option.split) (cases out; simp)

lemma fold_ensure_shutdown [simp]:
  "pl_shutdown (fold ensure_subpool imgs p) = pl_shutdown p" "pl_closed (fold ensure_subpool imgs p) = pl_closed p"
  by (induction imgs arbitrary: p) simp_all

lemma visit_shutdown [simp]: "pl_shutdown (visit a now imgs p) = pl_shutdown p"
  by (induction a now imgs p rule: visit.induct) (auto simp: Let_def split: option.splits)

lemma pool_step_shut:
  "pool_step ev p = Some q \<Longrightarrow> shut_ok p \<Longrightarrow> shut_ok q"
  by (cases ev) (auto simp: shut_ok_def visit_frame doom_def set_sub_def Let_def split: if_splits option.splits
      actor.splits shutdown_pc.splits list.splits)

lemma pool_inv_new: "pool_inv (new_pool c)"
  by (simp add: pool_inv_def new_pool_def get_sub_def)

lemma pool_inv_tick [simp]: "pool_inv (p\<lparr>pl_now := x\<rparr>) = pool_inv p" "pool_inv (p\<lparr>pl_reaper := b\<rparr>) = pool_inv p"
  by (simp_all add: pool_inv_def)

lemma pool_step_inv:
  assumes inv: "pool_inv p" and small: "small_min_idle (pl_config p)"
    and sh: "shut_ok p" and st: "pool_step ev p = Some q" and o: "\<not> pl_closed q"
  shows "pool_inv q"
proof -
  have op: "\<not> pl_closed p" using pool_step_closed [OF st] o by blast
  show ?thesis
  proof (cases ev)
    case (EvTick dt)
    with st inv show ?thesis by (auto split: if_splits)
  next
    case (EvStart imgs)
    let ?i = "dedup (pc_image (fc_default_pool (pl_config p)) # imgs)"
    have "pool_inv (fold ensure_subpool ?i (p\<lparr>pl_reaper := True\<rparr>))"
      using fold_ensure_inv [of "p\<lparr>pl_reaper := True\<rparr>" ?i] inv by simp
    then have "pool_inv (visit Starter (pl_now p) ?i (fold ensure_subpool ?i (p\<lparr>pl_reaper := True\<rparr>)))"
      using small by (intro visit_inv) simp_all
    with st EvStart op inv show ?thesis by (auto simp: Let_def split: if_splits)
  next
    case (EvSession n img)
    define t where "t = \<lparr>tk_image = img, tk_started = pl_now p, tk_pc = AtAcquire, tk_rest = []\<rparr>"
    from st EvSession have q: "q = set_task (Sess n) (Some t) (ensure_subpool img p)"
      and new: "pl_tasks p (Sess n) = None"
      by (auto simp: t_def split: if_splits)
    let ?p = "ensure_subpool img p"
    have e: "pool_inv ?p" by (rule ensure_subpool_inv [OF inv])
    obtain sp where g: "get_sub img ?p = Some sp" by (cases "get_sub img p") (auto simp: get_sub_ensure)
    note l = pool_inv_local [OF e g]
    have "local_inv img sp ((pcs img ?p)(Sess n \<mapsto> AtAcquire)) (pl_owner ?p) (pl_doomed ?p)"
    proof -
      have none: "pcs img ?p (Sess n) = None" using new by (simp add: pcs_def)
      from l have L: "local_inv img sp (pcs img ?p) (pl_owner ?p) (pl_doomed ?p)" by simp
      let ?T = "(pcs img ?p)(Sess n \<mapsto> AtAcquire)"
      have "slots_ok sp ?T" using L by (auto simp: local_inv_def slots_ok_def)
      moreover have "lock_ok sp ?T" using L by (auto simp: local_inv_def lock_ok_def)
      moreover have "stash_ok sp ?T" using L by (simp add: local_inv_def stash_ok_def)
      moreover have "ids_ok img sp ?T (pl_owner ?p) (pl_doomed ?p)"
        by (intro ids_ok_mono [OF L]) (auto simp: tracked_def split: if_splits)
      ultimately show ?thesis by (simp add: local_inv_def)
    qed
    then have "pool_inv (put_local (Sess n) t (sp, AtAcquire, []) (note_created OGo (tk_image t) ?p))"
      using e g new by (intro put_local_inv) (simp_all add: t_def)
    moreover have "put_local (Sess n) t (sp, AtAcquire, []) ?p = q"
      using g by (simp add: put_local_def q t_def doom_def set_sub_def get_sub_def update_triv
          del: ensure_subpool_frame)
    ultimately show ?thesis by simp
  next
    case (EvStep a out)
    with st obtain t sp where t: "pl_tasks p a = Some t" and g: "get_sub (tk_image t) p = Some sp"
      and fo: "fresh_outcome out p"
      by (auto split: option.splits if_splits)
    show ?thesis
    proof (cases "\<exists>n. a = Sess n")
      case True
      then obtain n where a: "a = Sess n" by blast
      with st EvStep t g fo obtain r where
        r: "session_step a (pl_closed p) (pl_now p) (tk_started t) out (tk_pc t) sp = Some r"
        and q: "q = put_local a t r (note_created out (tk_image t) p)"
        by (auto split: option.splits)
      obtain sp' c' ids where "r = (sp', c', ids)" by (cases r) auto
      with session_event_inv [OF inv _ g fo, of n "pl_closed p" "pl_now p" "tk_started t" sp' c' ids] t a r q
      show ?thesis by simp
    next
      case False
      then have na: "\<And>n. a \<noteq> Sess n" by blast
      with st EvStep t g fo obtain r where
        r: "maint_step (pl_now p) (tk_started t) out (tk_pc t) sp = Some r"
        and q: "q = (let p1 = put_local a t r (note_created out (tk_image t) p) in
          if ended (fst (snd r)) then visit a (tk_started t) (tk_rest t) p1 else p1)"
        by (cases a) (auto simp: Let_def split: option.splits)
      obtain sp' c' ids where "r = (sp', c', ids)" by (cases r) auto
      with maint_event_inv [OF inv t na g fo, of "pl_now p" "tk_started t" sp' c' ids] r
      have "pool_inv (put_local a t r (note_created out (tk_image t) p))" by simp
      with q visit_inv [OF this na] small show ?thesis by (simp add: Let_def)
    qed
  next
    case EvReapWake
    with st inv small show ?thesis by (auto intro!: visit_inv split: if_splits)
  next
    case EvShutdown
    with st o op show ?thesis by (auto split: if_splits)
  next
    case EvShutdownStep
    with st sh op show ?thesis by (simp add: shut_ok_def)
  qed
qed


lemma pool_run_inv:
  assumes "pool_run c p" and "small_min_idle c"
  shows "pl_config p = c \<and> shut_ok p \<and> (\<not> pl_closed p \<longrightarrow> pool_inv p)"
  using assms(1)
proof (induction rule: pool_run.induct)
  case start
  then show ?case by (simp add: pool_inv_new) (simp add: new_pool_def shut_ok_def)
next
  case (step p ev q)
  then have "pl_config q = c" "shut_ok q"
    by (auto dest: pool_step_config pool_step_shut)
  moreover have "pool_inv q" if "\<not> pl_closed q"
    using step that assms(2) pool_step_inv [of p ev q] pool_step_closed [of ev p q] by auto
  ultimately show ?case by blast
qed

end
