(* ===== verification/Pool_Bounds.thy ===== *)
theory Pool_Bounds
  imports Pool_Safety
begin

text \<open>
  How large a sub-pool gets, and that slots do not leak. \<open>warming\<close> is the number of environments a
  warm-up has still to create.
\<close>

fun warming :: "pc \<Rightarrow> nat" where
  "warming (Warming n) = n"
| "warming _ = 0"

fun warm_form :: "pc \<Rightarrow> bool" where
  "warm_form (Warming n) = (0 < n)"
| "warm_form _ = True"

definition room :: "sub_pool \<Rightarrow> int" where
  "room sp = max 0 (pc_max_size (sp_config sp))"

definition spare :: "sub_pool \<Rightarrow> int" where
  "spare sp = max 0 (pc_min_idle (sp_config sp))"

lemma length_List_insert: "length (List.insert x xs) = (if x \<in> set xs then length xs else Suc (length xs))"
  by (simp add: List.insert_def)

lemma length_removeAll_distinct: "distinct xs \<Longrightarrow> length (removeAll x xs) = (if x \<in> set xs then length xs - 1 else length xs)"
  by (simp add: distinct_remove1_removeAll [symmetric] length_remove1)

text \<open>A step of a session adds at most one, and only below the maximum.\<close>

lemma session_step_size:
  assumes inv: "local_inv img sp T owner doomed" and t: "T (Sess n) = Some c"
    and r: "session_step (Sess n) down now started out c sp = Some (sp', c', ids)"
  shows "sp_total sp' \<le> sp_total sp \<or>
    int (sp_total sp) < pc_max_size (sp_config sp) \<and> sp_total sp' = Suc (sp_total sp)"
proof -
  have d: "distinct (sp_in_use sp)" using inv by (simp add: local_inv_def slots_ok_def)
  have h: "held c = Some s \<Longrightarrow> s \<in> set (sp_in_use sp)" for s
    using held_in_use [OF inv t] by blast
  have pos: "s \<in> set xs \<Longrightarrow> Suc (length xs - Suc 0) = length xs" for s and xs :: "slot list"
    by (cases xs) auto
  show ?thesis
    using r d h
    by (cases c; cases out) (auto simp: acquire_top_def returned_def Let_def sp_total_def local_ops
        length_List_insert length_removeAll_distinct pos split: if_splits list.splits)
qed

lemma session_step_form:
  "session_step a down now started out c sp = Some (sp', c', ids) \<Longrightarrow> warming c' = 0 \<and> warm_form c' \<and> warming c = 0"
  by (cases c; cases out) (auto simp: acquire_top_def returned_def Let_def split: if_splits list.splits)

definition grows_to_spare :: "sub_pool \<Rightarrow> nat \<Rightarrow> local_result \<Rightarrow> bool" where
  "grows_to_spare sp n r = (case r of (sp', c', ids) \<Rightarrow>
     warm_form c' \<and> int (warming c') \<le> max (int n) (spare sp) \<and>
     (sp_total sp' + warming c' \<le> sp_total sp + n \<or> int (sp_total sp' + warming c') \<le> spare sp))"

lemma warm_begin_size: "grows_to_spare sp 0 (warm_begin sp)"
  by (auto simp: grows_to_spare_def warm_begin_def Let_def spare_def)

lemma reap_dead_size: "grows_to_spare sp 0 (reap_dead es sp)"
  by (cases es) (auto simp: warm_begin_size, simp add: grows_to_spare_def)

lemma grows_mono:
  "grows_to_spare sp n r \<Longrightarrow> sp_config sp = sp_config sp0 \<Longrightarrow> sp_total sp \<le> sp_total sp0 \<Longrightarrow>
    grows_to_spare sp0 n r"
  by (auto simp: grows_to_spare_def spare_def split: prod.splits)

lemma reap_kept_size:
  assumes "sp_config sp = sp_config sp0" and "sp_total sp \<le> sp_total sp0"
    and "length (sv @ es) + length (sp_in_use sp) \<le> sp_total sp0"
  shows "grows_to_spare sp0 0 (reap_kept now es sv dead sp)"
  using assms
proof (induction es arbitrary: sv)
  case Nil
  then show ?case
    by (auto intro!: grows_mono [OF reap_dead_size] simp: sp_total_def)
next
  case (Cons e es)
  then show ?case by (auto simp: grows_to_spare_def sp_total_def)
qed

lemma length_youngest_first [simp]: "length (youngest_first es) = length es"
  by (simp add: youngest_first_def)

lemma reap_begin_size: "grows_to_spare sp 0 (reap_begin now sp)"
  by (simp add: reap_begin_def Let_def) (rule reap_kept_size; simp add: sp_total_def)

lemma visit_begin_size: "grows_to_spare sp 0 (visit_begin a now sp)"
  by (simp add: visit_begin_def reap_begin_size warm_begin_size)

lemma maint_step_size:
  assumes r: "maint_step now pnow out c sp = Some res"
    and k: "\<And>h t s d. c = ReapKept h t s d \<Longrightarrow> t = [] \<and> s = []" and w: "warm_form c"
  shows "grows_to_spare sp (warming c) res"
proof (cases c)
  case (Warming n)
  with r w show ?thesis
    by (cases out) (auto simp: warm_step_def grows_to_spare_def sp_total_def put_idle_def)
next
  case (ReapKept h t s d)
  with k r have "res = reap_dead d (sp\<lparr>sp_idle := []\<rparr>)" by (auto split: if_splits)
  then show ?thesis using ReapKept
    by (auto intro!: grows_mono [OF reap_dead_size] simp: sp_total_def)
next
  case (ReapDead h d)
  with r show ?thesis by (auto simp: reap_dead_size split: if_splits)
qed (use r in auto)


definition warm_at :: "(actor \<Rightarrow> pc option) \<Rightarrow> actor \<Rightarrow> int" where
  "warm_at T a = (case T a of None \<Rightarrow> 0 | Some c \<Rightarrow> int (warming c))"

definition size_ok :: "sub_pool \<Rightarrow> (actor \<Rightarrow> pc option) \<Rightarrow> bool" where
  "size_ok sp T \<longleftrightarrow>
     (\<forall>a c. T a = Some c \<longrightarrow> warm_form c) \<and>
     warm_at T Starter \<le> spare sp \<and> warm_at T Reaper \<le> spare sp \<and>
     int (sp_total sp) + warm_at T Starter + warm_at T Reaper \<le> room sp + 2 * spare sp"

lemma warm_at_upd [simp]: "warm_at (T(a \<mapsto> c)) b = (if a = b then int (warming c) else warm_at T b)"
  "warm_at (T(a := None)) b = (if a = b then 0 else warm_at T b)"
  by (auto simp: warm_at_def)

lemma warm_at_nonneg [simp]: "0 \<le> warm_at T a"
  by (auto simp: warm_at_def split: option.split)

lemma size_ok_session:
  assumes "size_ok sp T" and "warming c' = 0" "warm_form c'" and "sp_config sp' = sp_config sp"
    and "sp_total sp' \<le> sp_total sp \<or>
      int (sp_total sp) < pc_max_size (sp_config sp) \<and> sp_total sp' = Suc (sp_total sp)"
  shows "size_ok sp' (T(Sess n \<mapsto> c'))"
proof -
  have "room sp' = room sp" "spare sp' = spare sp" using assms(4) by (simp_all add: room_def spare_def)
  moreover have "int (sp_total sp') \<le> max (int (sp_total sp)) (room sp)"
    using assms(5) by (auto simp: room_def)
  ultimately show ?thesis using assms(1-3) by (auto simp: size_ok_def)
qed

lemma size_ok_maint:
  assumes s: "size_ok sp T" and a: "a = Starter \<or> a = Reaper" and c: "sp_config sp' = sp_config sp"
    and g: "grows_to_spare sp n (sp', c', ids)" and n: "int n = warm_at T a"
  shows "size_ok sp' (T(a \<mapsto> c'))"
proof -
  have "room sp' = room sp" "spare sp' = spare sp" using c by (simp_all add: room_def spare_def)
  moreover have "0 \<le> room sp" "0 \<le> spare sp" by (simp_all add: room_def spare_def)
  moreover have "warm_form c'" "int (warming c') \<le> max (int n) (spare sp)"
    "int (sp_total sp') + int (warming c') \<le> int (sp_total sp) + int n \<or>
     int (sp_total sp') + int (warming c') \<le> spare sp"
    using g by (auto simp: grows_to_spare_def)
  ultimately show ?thesis using s n a by (auto simp: size_ok_def)
qed

definition size_inv :: "pool \<Rightarrow> bool" where
  "size_inv p \<longleftrightarrow> (\<forall>img sp. get_sub img p = Some sp \<longrightarrow> size_ok sp (pcs img p))"

lemma size_forget: "size_inv p \<Longrightarrow> size_inv (set_task a None p)"
proof -
  have "size_ok sp (T(a := None))" if "size_ok sp T" for sp and T :: "actor \<Rightarrow> pc option"
    using that by (auto simp: size_ok_def add_increasing2 intro: order_trans [rotated])
  then show "size_inv p \<Longrightarrow> ?thesis" by (simp add: size_inv_def pcs_set_None)
qed

lemma size_put:
  assumes s: "size_inv p" and g: "get_sub (tk_image t) p = Some sp"
    and old: "\<And>t0. pl_tasks p a = Some t0 \<Longrightarrow> tk_image t0 = tk_image t"
    and n: "size_ok sp' ((pcs (tk_image t) p)(a \<mapsto> c'))"
  shows "size_inv (put_local a t (sp', c', ids) (note_created out (tk_image t) p))"
proof -
  let ?q = "put_local a t (sp', c', ids) (note_created out (tk_image t) p)"
  have "size_ok sj (pcs j ?q)" if "get_sub j ?q = Some sj" for j sj
  proof (cases "j = tk_image t")
    case True
    with that n show ?thesis by (simp add: put_local_def pcs_set_task)
  next
    case False
    then have "pcs j p a = None" unfolding pcs_def by (auto split: option.split dest: old)
    then have "(pcs j p)(a := None) = pcs j p" by (rule fun_upd_idem)
    with False that s show ?thesis by (simp add: put_local_def pcs_set_task size_inv_def)
  qed
  then show ?thesis by (simp add: size_inv_def)
qed

lemma visit_size:
  "size_inv p \<Longrightarrow> a = Starter \<or> a = Reaper \<Longrightarrow> size_inv (visit a now imgs p)"
proof (induction imgs arbitrary: p)
  case Nil
  then show ?case by (simp add: size_forget)
next
  case (Cons img rest)
  show ?case
  proof (cases "get_sub img p")
    case None
    with Cons show ?thesis by simp
  next
    case (Some sp)
    define t where "t = \<lparr>tk_image = img, tk_started = now, tk_pc = Ended None, tk_rest = rest\<rparr>"
    obtain sp' c' ids where r: "visit_begin a now sp = (sp', c', ids)" by (cases "visit_begin a now sp") auto
    let ?p0 = "set_task a None p"
    have p0: "size_inv ?p0" using Cons.prems by (intro size_forget)
    have g: "get_sub img ?p0 = Some sp" using Some by simp
    with p0 have "size_ok sp (pcs img ?p0)" by (simp add: size_inv_def)
    moreover have "sp_config sp' = sp_config sp" using r
      by (auto simp: visit_begin_def split: if_splits dest: reap_begin_config warm_begin_config)
    ultimately have "size_ok sp' ((pcs img ?p0)(a \<mapsto> c'))"
      using visit_begin_size [of sp a now] r Cons.prems(2)
      by (intro size_ok_maint [where n = 0]) (auto simp: pcs_set_None)
    then have "size_inv (put_local a t (sp', c', ids) (note_created OGo (tk_image t) ?p0))"
      using p0 g by (intro size_put) (auto simp: t_def set_task_def)
    then have "size_inv (put_local a t (sp', c', ids) p)" by (simp add: put_local_forget)
    with Cons.IH [OF this] Cons.prems Some r show ?thesis by (simp add: Let_def t_def)
  qed
qed

lemma ensure_size: "pool_inv p \<Longrightarrow> size_inv p \<Longrightarrow> size_inv (ensure_subpool img p)"
proof -
  assume inv: "pool_inv p" and s: "size_inv p"
  have "pcs img p a = None" if "get_sub img p = None" for a
    using pool_inv_task [OF inv, of a] that by (auto simp: pcs_def split: option.split)
  then have "size_ok (new_sub_pool cfg) (pcs img p)" if "get_sub img p = None" for cfg
    using that by (simp add: size_ok_def warm_at_def new_sub_pool_def sp_total_def room_def spare_def)
  then show ?thesis using s by (auto simp: size_inv_def get_sub_ensure)
qed

lemma fold_ensure_size: "pool_inv p \<Longrightarrow> size_inv p \<Longrightarrow> size_inv (fold ensure_subpool imgs p)"
  by (induction imgs arbitrary: p) (simp_all add: ensure_size ensure_subpool_inv)


lemma size_frame [simp]: "size_inv (p\<lparr>pl_now := x\<rparr>) = size_inv p" "size_inv (p\<lparr>pl_reaper := b\<rparr>) = size_inv p"
  by (simp_all add: size_inv_def)

lemma pool_step_size:
  assumes inv: "pool_inv p" and s: "size_inv p"
    and sh: "shut_ok p" and st: "pool_step ev p = Some q" and o: "\<not> pl_closed q"
  shows "size_inv q"
proof -
  have op: "\<not> pl_closed p" using pool_step_closed [OF st] o by blast
  show ?thesis
  proof (cases ev)
    case (EvTick dt)
    with st s show ?thesis by (auto split: if_splits)
  next
    case (EvStart imgs)
    let ?i = "dedup (pc_image (fc_default_pool (pl_config p)) # imgs)"
    have "size_inv (fold ensure_subpool ?i (p\<lparr>pl_reaper := True\<rparr>))"
      using inv s by (intro fold_ensure_size) simp_all
    with st EvStart op s show ?thesis by (auto simp: Let_def visit_size split: if_splits)
  next
    case (EvSession n img)
    define t where "t = \<lparr>tk_image = img, tk_started = pl_now p, tk_pc = AtAcquire, tk_rest = []\<rparr>"
    from st EvSession have q: "q = set_task (Sess n) (Some t) (ensure_subpool img p)"
      and new: "pl_tasks p (Sess n) = None"
      by (auto simp: t_def split: if_splits)
    have e: "size_inv (ensure_subpool img p)" by (rule ensure_size [OF inv s])
    have "size_ok sj (pcs j q)" if "get_sub j q = Some sj" for j sj
    proof -
      have "size_ok sj (pcs j (ensure_subpool img p))" using e that by (simp add: size_inv_def q)
      moreover have "(pcs j p)(Sess n := None) = pcs j p" using new by (simp add: pcs_def fun_upd_idem)
      ultimately show ?thesis by (auto simp: q pcs_set_task t_def size_ok_def)
    qed
    then show ?thesis by (simp add: size_inv_def)
  next
    case (EvStep a out)
    with st obtain t sp where t: "pl_tasks p a = Some t" and g: "get_sub (tk_image t) p = Some sp"
      and fo: "fresh_outcome out p"
      by (auto split: option.splits if_splits)
    have sz: "size_ok sp (pcs (tk_image t) p)" using s g by (simp add: size_inv_def)
    have pc: "pcs (tk_image t) p a = Some (tk_pc t)" using t by (simp add: pcs_def)
    note l = conjunct1 [OF pool_inv_local [OF inv g]]
    show ?thesis
    proof (cases "\<exists>n. a = Sess n")
      case True
      then obtain n where a: "a = Sess n" by blast
      with st EvStep t g fo obtain sp' c' ids where
        r: "session_step a (pl_closed p) (pl_now p) (tk_started t) out (tk_pc t) sp = Some (sp', c', ids)"
        and q: "q = put_local a t (sp', c', ids) (note_created out (tk_image t) p)"
        by (auto split: option.splits)
      have "size_ok sp' ((pcs (tk_image t) p)(a \<mapsto> c'))"
        unfolding a
        using session_step_size [OF l pc [unfolded a] r [unfolded a]] session_step_form [OF r] session_step_config [OF r]
        by (intro size_ok_session [OF sz]) auto
      with q t show ?thesis by (auto intro!: size_put [OF s g])
    next
      case False
      with st EvStep t g fo obtain sp' c' ids where
        r: "maint_step (pl_now p) (tk_started t) out (tk_pc t) sp = Some (sp', c', ids)"
        and q: "q = (let p1 = put_local a t (sp', c', ids) (note_created out (tk_image t) p) in
          if ended c' then visit a (tk_started t) (tk_rest t) p1 else p1)"
        by (cases a) (auto simp: Let_def split: option.splits)
      from False have am: "a = Starter \<or> a = Reaper" by (cases a) auto
      have "warm_form (tk_pc t)" using sz pc by (simp add: size_ok_def)
      then have "grows_to_spare sp (warming (tk_pc t)) (sp', c', ids)"
        using kept_empty [OF l, of a] pc by (intro maint_step_size [OF r]) auto
      then have "size_ok sp' ((pcs (tk_image t) p)(a \<mapsto> c'))"
        using pc by (intro size_ok_maint [OF sz am maint_step_config [OF r]]) (auto simp: warm_at_def)
      then have "size_inv (put_local a t (sp', c', ids) (note_created out (tk_image t) p))"
        using t by (auto intro!: size_put [OF s g])
      with q am show ?thesis by (auto simp: Let_def visit_size)
    qed
  next
    case EvReapWake
    with st s show ?thesis by (auto intro!: visit_size split: if_splits)
  next
    case EvShutdown
    with st o op show ?thesis by (auto split: if_splits)
  next
    case EvShutdownStep
    with st sh op show ?thesis by (simp add: shut_ok_def)
  qed
qed

lemma pool_run_size:
  assumes "pool_run c p" and "small_min_idle c" and "\<not> pl_closed p"
  shows "size_inv p"
  using assms(1,3)
proof (induction rule: pool_run.induct)
  case start
  then show ?case by (simp add: size_inv_def get_sub_def new_pool_def)
next
  case (step p ev q)
  then have "\<not> pl_closed p" using pool_step_closed by blast
  with step pool_run_inv [OF step.hyps(1) assms(2)] pool_step_size [of p ev q]
  show ?case by blast
qed

section \<open>Slots do not leak\<close>

text \<open>
  The health check of the docker driver never raises: every exception becomes \<open>False\<close>. For a
  driver that keeps to this, every slot in use is accounted for by a coroutine that will give it
  back.
\<close>

definition quiet_event :: "event \<Rightarrow> pool \<Rightarrow> bool" where
  "quiet_event ev p = (case ev of
     EvStep a (ORaised x) \<Rightarrow>
       (case pl_tasks p a of None \<Rightarrow> True | Some t \<Rightarrow> (case tk_pc t of Checking e \<Rightarrow> False | _ \<Rightarrow> True))
   | _ \<Rightarrow> True)"

inductive quiet_run :: "forge_config \<Rightarrow> pool \<Rightarrow> bool" for c where
  start: "quiet_run c (new_pool c)"
| step: "quiet_run c p \<Longrightarrow> quiet_event ev p \<Longrightarrow> pool_step ev p = Some q \<Longrightarrow> quiet_run c q"

lemma quiet_run_run: "quiet_run c p \<Longrightarrow> pool_run c p"
  by (induction rule: quiet_run.induct) (auto intro: pool_run.intros)

definition covered :: "sub_pool \<Rightarrow> (actor \<Rightarrow> pc option) \<Rightarrow> bool" where
  "covered sp T \<longleftrightarrow> (\<forall>s \<in> set (sp_in_use sp). \<exists>a c. T a = Some c \<and> held c = Some s)"

lemma session_step_covered:
  assumes cov: "covered sp T" and t: "T a = Some c"
    and r: "session_step a down now started out c sp = Some (sp', c', ids)"
    and q: "\<And>e x. c = Checking e \<Longrightarrow> out \<noteq> ORaised x"
  shows "covered sp' (T(a \<mapsto> c'))"
proof -
  have keep: "covered sp1 (T(a \<mapsto> c'))"
    if "\<And>s. s \<in> set (sp_in_use sp1) \<Longrightarrow> held c' = Some s \<or> s \<in> set (sp_in_use sp) \<and> held c \<noteq> Some s" for sp1
    unfolding covered_def
  proof
    fix s assume "s \<in> set (sp_in_use sp1)"
    with that consider "held c' = Some s" | "s \<in> set (sp_in_use sp)" "held c \<noteq> Some s" by blast
    then show "\<exists>b d. (T(a \<mapsto> c')) b = Some d \<and> held d = Some s"
    proof cases
      case 1
      then show ?thesis by (intro exI [of _ a] exI [of _ c']) simp
    next
      case 2
      with cov obtain b d where b: "T b = Some d" "held d = Some s" by (auto simp: covered_def)
      with 2 t have "b \<noteq> a" by auto
      with b show ?thesis by (intro exI [of _ b] exI [of _ d]) simp
    qed
  qed
  show ?thesis
    using r q by (intro keep; cases c; cases out)
      (auto simp: acquire_top_def returned_def Let_def local_ops entry_id_def split: if_splits list.splits)
qed


lemma covered_maint:
  assumes "covered sp T" and "\<And>c. T a = Some c \<Longrightarrow> held c = None" and "sp_in_use sp' = sp_in_use sp"
  shows "covered sp' (T(a := x))"
  unfolding covered_def
proof
  fix s assume "s \<in> set (sp_in_use sp')"
  with assms obtain b d where "T b = Some d" "held d = Some s" by (auto simp: covered_def)
  moreover from this assms(2) have "b \<noteq> a" by auto
  ultimately show "\<exists>b d. (T(a := x)) b = Some d \<and> held d = Some s"
    by (intro exI [of _ b] exI [of _ d]) simp
qed

definition cover_inv :: "pool \<Rightarrow> bool" where
  "cover_inv p \<longleftrightarrow> (\<forall>img sp. get_sub img p = Some sp \<longrightarrow> covered sp (pcs img p))"

lemma reap_dead_in_use: "reap_dead es sp = (sp', c', ids) \<Longrightarrow> sp_in_use sp' = sp_in_use sp"
  by (drule reap_dead_shape) simp

lemma reap_kept_in_use: "reap_kept now es sv d sp = (sp', c', ids) \<Longrightarrow> sp_in_use sp' = sp_in_use sp"
  by (induction es arbitrary: sv) (auto dest: reap_dead_in_use split: if_splits)

lemma visit_begin_in_use: "visit_begin a now sp = (sp', c', ids) \<Longrightarrow> sp_in_use sp' = sp_in_use sp"
  by (auto simp: visit_begin_def reap_begin_def Let_def split: if_splits
      dest: reap_kept_in_use dest!: warm_begin_shape)

lemma maint_step_in_use: "maint_step now pnow out c sp = Some (sp', c', ids) \<Longrightarrow> sp_in_use sp' = sp_in_use sp"
  by (cases c) (auto simp: warm_step_def put_idle_def split: if_splits outcome.splits
      dest: reap_kept_in_use reap_dead_in_use)

lemma cover_put:
  assumes s: "cover_inv p" and g: "get_sub (tk_image t) p = Some sp"
    and old: "\<And>t0. pl_tasks p a = Some t0 \<Longrightarrow> tk_image t0 = tk_image t"
    and n: "covered sp' ((pcs (tk_image t) p)(a \<mapsto> c'))"
  shows "cover_inv (put_local a t (sp', c', ids) (note_created out (tk_image t) p))"
proof -
  let ?q = "put_local a t (sp', c', ids) (note_created out (tk_image t) p)"
  have "covered sj (pcs j ?q)" if "get_sub j ?q = Some sj" for j sj
  proof (cases "j = tk_image t")
    case True
    with that n show ?thesis by (simp add: put_local_def pcs_set_task)
  next
    case False
    then have "pcs j p a = None" unfolding pcs_def by (auto split: option.split dest: old)
    then have "(pcs j p)(a := None) = pcs j p" by (rule fun_upd_idem)
    with False that s show ?thesis by (simp add: put_local_def pcs_set_task cover_inv_def)
  qed
  then show ?thesis by (simp add: cover_inv_def)
qed

lemma cover_forget:
  assumes "pool_inv p" and "cover_inv p" and a: "\<And>n. a \<noteq> Sess n"
  shows "cover_inv (set_task a None p)"
proof -
  have "held c = None" if "pcs j p a = Some c" for j c
    using pool_inv_maint [OF assms(1) _ a] that by (auto simp: pcs_def split: option.splits if_splits)
  then show ?thesis using assms(2) by (auto simp: cover_inv_def pcs_set_None intro!: covered_maint)
qed

lemma visit_cover:
  "pool_inv p \<Longrightarrow> cover_inv p \<Longrightarrow> (\<And>n. a \<noteq> Sess n) \<Longrightarrow> small_min_idle (pl_config p) \<Longrightarrow>
    cover_inv (visit a now imgs p)"
proof (induction imgs arbitrary: p)
  case Nil
  then show ?case by (simp add: cover_forget)
next
  case (Cons img rest)
  show ?case
  proof (cases "get_sub img p")
    case None
    with Cons show ?thesis by simp
  next
    case (Some sp)
    define t where "t = \<lparr>tk_image = img, tk_started = now, tk_pc = Ended None, tk_rest = rest\<rparr>"
    obtain sp' c' ids where r: "visit_begin a now sp = (sp', c', ids)" by (cases "visit_begin a now sp") auto
    let ?p0 = "set_task a None p"
    have p0: "cover_inv ?p0" using Cons.prems by (intro cover_forget)
    have i0: "pool_inv ?p0" using Cons.prems by (intro forget_task_inv)
    have g: "get_sub img ?p0 = Some sp" using Some by simp
    have "covered sp' ((pcs img ?p0)(a \<mapsto> c'))"
      using p0 g visit_begin_in_use [OF r]
      by (intro covered_maint [of sp]) (auto simp: cover_inv_def pcs_set_None)
    then have "cover_inv (put_local a t (sp', c', ids) (note_created OGo (tk_image t) ?p0))"
      using p0 g by (intro cover_put) (auto simp: t_def set_task_def)
    then have c: "cover_inv (put_local a t (sp', c', ids) p)" by (simp add: put_local_forget)
    have "keep_target sp \<le> 1"
      using Cons.prems(4) [unfolded small_min_idle_def, rule_format, of img]
        pool_inv_local [OF Cons.prems(1) Some] by (simp add: keep_target_def)
    note b = visit_begin_inv [OF conjunct1 [OF pool_inv_local [OF i0 g]] Cons.prems(3) _ this r]
    have "pool_inv (put_local a t (sp', c', ids) (note_created OGo (tk_image t) ?p0))"
      using i0 g b by (intro put_local_inv) (simp_all add: t_def pcs_set_None, simp_all add: set_task_def)
    then have "pool_inv (put_local a t (sp', c', ids) p)" by (simp add: put_local_forget)
    from Cons.IH [OF this c] c Cons.prems Some r show ?thesis by (simp add: Let_def t_def)
  qed
qed

lemma ensure_cover: "pool_inv p \<Longrightarrow> cover_inv p \<Longrightarrow> cover_inv (ensure_subpool img p)"
  by (auto simp: cover_inv_def get_sub_ensure covered_def new_sub_pool_def)

lemma fold_ensure_cover: "pool_inv p \<Longrightarrow> cover_inv p \<Longrightarrow> cover_inv (fold ensure_subpool imgs p)"
  by (induction imgs arbitrary: p) (simp_all add: ensure_cover ensure_subpool_inv)

lemma cover_frame [simp]: "cover_inv (p\<lparr>pl_now := x\<rparr>) = cover_inv p" "cover_inv (p\<lparr>pl_reaper := b\<rparr>) = cover_inv p"
  by (simp_all add: cover_inv_def)

lemma pool_step_cover:
  assumes inv: "pool_inv p" and s: "cover_inv p" and small: "small_min_idle (pl_config p)"
    and sh: "shut_ok p" and quiet: "quiet_event ev p"
    and st: "pool_step ev p = Some q" and o: "\<not> pl_closed q"
  shows "cover_inv q"
proof -
  have op: "\<not> pl_closed p" using pool_step_closed [OF st] o by blast
  show ?thesis
  proof (cases ev)
    case (EvTick dt)
    with st s show ?thesis by (auto split: if_splits)
  next
    case (EvStart imgs)
    let ?i = "dedup (pc_image (fc_default_pool (pl_config p)) # imgs)"
    let ?p = "fold ensure_subpool ?i (p\<lparr>pl_reaper := True\<rparr>)"
    have "cover_inv ?p" "pool_inv ?p" "small_min_idle (pl_config ?p)"
      using inv s small fold_ensure_inv [of "p\<lparr>pl_reaper := True\<rparr>" ?i]
      by (auto intro!: fold_ensure_cover simp del: fold_simps)
    then have "cover_inv (visit Starter (pl_now p) ?i ?p)" by (intro visit_cover) simp_all
    with st EvStart op s show ?thesis by (auto simp: Let_def split: if_splits)
  next
    case (EvSession n img)
    define t where "t = \<lparr>tk_image = img, tk_started = pl_now p, tk_pc = AtAcquire, tk_rest = []\<rparr>"
    from st EvSession have q: "q = set_task (Sess n) (Some t) (ensure_subpool img p)"
      and new: "pl_tasks p (Sess n) = None"
      by (auto simp: t_def split: if_splits)
    have e: "cover_inv (ensure_subpool img p)" by (rule ensure_cover [OF inv s])
    have "covered sj (pcs j q)" if "get_sub j q = Some sj" for j sj
    proof -
      have "covered sj (pcs j p)" using e that by (simp add: cover_inv_def q)
      moreover have "pcs j p (Sess n) = None" using new by (simp add: pcs_def)
      ultimately show ?thesis
        by (auto simp: q pcs_set_task t_def intro!: covered_maint [of sj])
    qed
    then show ?thesis by (simp add: cover_inv_def)
  next
    case (EvStep a out)
    with st obtain t sp where t: "pl_tasks p a = Some t" and g: "get_sub (tk_image t) p = Some sp"
      and fo: "fresh_outcome out p"
      by (auto split: option.splits if_splits)
    have sz: "covered sp (pcs (tk_image t) p)" using s g by (simp add: cover_inv_def)
    have pc: "pcs (tk_image t) p a = Some (tk_pc t)" using t by (simp add: pcs_def)
    show ?thesis
    proof (cases "\<exists>n. a = Sess n")
      case True
      then obtain n where a: "a = Sess n" by blast
      with st EvStep t g fo obtain sp' c' ids where
        r: "session_step a (pl_closed p) (pl_now p) (tk_started t) out (tk_pc t) sp = Some (sp', c', ids)"
        and q: "q = put_local a t (sp', c', ids) (note_created out (tk_image t) p)"
        by (auto split: option.splits)
      have "covered sp' ((pcs (tk_image t) p)(a \<mapsto> c'))"
        using quiet EvStep t by (intro session_step_covered [OF sz pc r]) (auto simp: quiet_event_def)
      with q t show ?thesis by (auto intro!: cover_put [OF s g])
    next
      case False
      then have na: "\<And>n. a \<noteq> Sess n" by blast
      from False st EvStep t g fo obtain sp' c' ids where
        r: "maint_step (pl_now p) (tk_started t) out (tk_pc t) sp = Some (sp', c', ids)"
        and q: "q = (let p1 = put_local a t (sp', c', ids) (note_created out (tk_image t) p) in
          if ended c' then visit a (tk_started t) (tk_rest t) p1 else p1)"
        by (cases a) (auto simp: Let_def split: option.splits)
      have "covered sp' ((pcs (tk_image t) p)(a \<mapsto> c'))"
        using pc pool_inv_maint [OF inv t na] maint_step_in_use [OF r]
        by (intro covered_maint [OF sz]) auto
      then have "cover_inv (put_local a t (sp', c', ids) (note_created out (tk_image t) p))"
        using t by (auto intro!: cover_put [OF s g])
      with q visit_cover [OF maint_event_inv [OF inv t na g fo r] this na] small
      show ?thesis by (simp add: Let_def)
    qed
  next
    case EvReapWake
    with st s inv small show ?thesis by (auto intro!: visit_cover split: if_splits)
  next
    case EvShutdown
    with st o op show ?thesis by (auto split: if_splits)
  next
    case EvShutdownStep
    with st sh op show ?thesis by (simp add: shut_ok_def)
  qed
qed

lemma quiet_run_cover:
  assumes "quiet_run c p" and "small_min_idle c" and "\<not> pl_closed p"
  shows "cover_inv p"
  using assms(1,3)
proof (induction rule: quiet_run.induct)
  case start
  then show ?case by (simp add: cover_inv_def get_sub_def new_pool_def)
next
  case (step p ev q)
  then have "\<not> pl_closed p" using pool_step_closed by blast
  with step pool_run_inv [OF quiet_run_run [OF step.hyps(1)] assms(2)] assms(2) pool_step_cover [of p ev q]
  show ?case by blast
qed

text \<open>So every slot in use is held by a session.\<close>

lemma slot_holder:
  assumes "quiet_run c p" and "small_min_idle c" and "\<not> pl_closed p"
    and "get_sub img p = Some sp" and "s \<in> set (sp_in_use sp)"
  shows "\<exists>n t. pl_tasks p (Sess n) = Some t \<and> tk_image t = img \<and> held (tk_pc t) = Some s"
proof -
  have inv: "pool_inv p" using pool_run_inv [OF quiet_run_run [OF assms(1)] assms(2)] assms(3) by blast
  have "covered sp (pcs img p)" using quiet_run_cover [OF assms(1-3)] assms(4) by (simp add: cover_inv_def)
  with assms(5) obtain a d where a: "pcs img p a = Some d" "held d = Some s" by (auto simp: covered_def)
  then obtain t where t: "pl_tasks p a = Some t" "tk_image t = img" "tk_pc t = d"
    by (auto simp: pcs_def split: option.splits if_splits)
  with pool_inv_maint [OF inv t(1)] a(2) show ?thesis by (cases a) auto
qed

end
