(* ===== verification/Pool_Props.thy ===== *)
theory Pool_Props
  imports Pool_Bounds
begin

text \<open>
  The properties of the pool: what every run keeps, what a shutdown does, and runs that show
  where the code does less than its documentation says.
\<close>

section \<open>Shutting down\<close>

definition shut_steps :: "nat \<Rightarrow> pool \<Rightarrow> pool option" where
  "shut_steps n p = run_events (replicate n EvShutdownStep) p"

lemma shut_steps_0 [simp]: "shut_steps 0 p = Some p"
  by (simp add: shut_steps_def)

lemma shut_steps_Suc: "pool_step EvShutdownStep p = Some q \<Longrightarrow> shut_steps (Suc n) p = shut_steps n q"
  by (simp add: shut_steps_def del: pool_step.simps)

definition env_ids :: "slot list \<Rightarrow> string set" where
  "env_ids ss = {i. EnvSlot i \<in> set ss}"

text \<open>One sub-pool has been emptied, and everything that was in it doomed.\<close>

definition emptied :: "string \<Rightarrow> pool \<Rightarrow> pool \<Rightarrow> bool" where
  "emptied img p q \<longleftrightarrow>
     (\<forall>j. j \<noteq> img \<longrightarrow> get_sub j q = get_sub j p) \<and>
     (\<forall>sp. get_sub img p = Some sp \<longrightarrow>
        (\<exists>sq. get_sub img q = Some sq \<and> sp_idle sq = [] \<and> sp_in_use sq = []) \<and>
        set (idle_ids sp) \<union> env_ids (sp_in_use sp) \<subseteq> pl_doomed q) \<and>
     (get_sub img p = None \<longrightarrow> get_sub img q = None) \<and> pl_doomed p \<subseteq> pl_doomed q"

lemma get_sub_shut [simp]: "get_sub i (p\<lparr>pl_shutdown := x\<rparr>) = get_sub i p"
  by (simp add: get_sub_def)

lemma doomed_frames [simp]: "pl_doomed (doom ids p) = set ids \<union> pl_doomed p" "pl_doomed (set_sub j sp p) = pl_doomed p"
  by (simp_all add: doom_def set_sub_def)

lemma shut_use_done:
  assumes "pl_shutdown p = ShUse ss img rest" and "get_sub img p = Some sp"
  shows "\<exists>n p'. shut_steps n p = Some (shutdown_next rest p') \<and>
    (\<forall>j. j \<noteq> img \<longrightarrow> get_sub j p' = get_sub j p) \<and>
    get_sub img p' = Some (sp\<lparr>sp_in_use := []\<rparr>) \<and> env_ids ss \<union> pl_doomed p \<subseteq> pl_doomed p'"
  using assms
proof (induction ss arbitrary: p)
  case Nil
  then have "pool_step EvShutdownStep p = Some (shutdown_next rest (set_sub img (sp\<lparr>sp_in_use := []\<rparr>) p))"
    by simp
  then have "shut_steps 1 p = Some (shutdown_next rest (set_sub img (sp\<lparr>sp_in_use := []\<rparr>) p))"
    using shut_steps_Suc [of p _ 0] by simp
  then show ?case by (intro exI conjI) (auto simp: env_ids_def)
next
  case (Cons s ss)
  define p1 where "p1 = doom (case s of EnvSlot i \<Rightarrow> [i] | _ \<Rightarrow> []) p\<lparr>pl_shutdown := ShUse ss img rest\<rparr>"
  have st: "pool_step EvShutdownStep p = Some p1" using Cons.prems(1) by (simp add: p1_def)
  from Cons.IH [of p1] Cons.prems obtain n p' where
    "shut_steps n p1 = Some (shutdown_next rest p')" "\<forall>j. j \<noteq> img \<longrightarrow> get_sub j p' = get_sub j p1"
    "get_sub img p' = Some (sp\<lparr>sp_in_use := []\<rparr>)" "env_ids ss \<union> pl_doomed p1 \<subseteq> pl_doomed p'"
    by (auto simp: p1_def)
  then show ?case using shut_steps_Suc [OF st, of n]
    by (intro exI [of _ "Suc n"] exI [of _ p']) (auto simp: p1_def env_ids_def split: slot.splits)
qed

lemma shut_steps_add: "shut_steps n p = Some q \<Longrightarrow> shut_steps m q = r \<Longrightarrow> shut_steps (n + m) p = r"
proof -
  have "run_events (xs @ ys) p = (case run_events xs p of None \<Rightarrow> None | Some q \<Rightarrow> run_events ys q)" for xs ys p
    by (induction xs arbitrary: p) (auto split: option.split)
  then show "shut_steps n p = Some q \<Longrightarrow> shut_steps m q = r \<Longrightarrow> ?thesis"
    by (simp add: shut_steps_def replicate_add)
qed

lemma shut_one_sub:
  "get_sub img p = Some sp \<Longrightarrow> sp_idle sp = es \<Longrightarrow>
    \<exists>n p'. shut_steps n (shutdown_next (img # rest) p) = Some (shutdown_next rest p') \<and> emptied img p p'"
proof (induction es arbitrary: p sp)
  case Nil
  show ?case
  proof (cases "sp_in_use sp")
    case Nil
    then show ?thesis using Nil.prems
      by (intro exI [of _ 0] exI [of _ p]) (simp add: emptied_def idle_ids_def env_ids_def)
  next
    case (Cons s ss)
    define p1 where "p1 = doom (case s of EnvSlot i \<Rightarrow> [i] | _ \<Rightarrow> []) p\<lparr>pl_shutdown := ShUse ss img rest\<rparr>"
    have "shutdown_next (img # rest) p = p1" using Nil.prems Cons by (simp add: p1_def)
    moreover have "pl_shutdown p1 = ShUse ss img rest" "get_sub img p1 = Some sp"
      using Nil.prems by (simp_all add: p1_def)
    from shut_use_done [OF this] obtain n p' where p': "shut_steps n p1 = Some (shutdown_next rest p')"
      "\<forall>j. j \<noteq> img \<longrightarrow> get_sub j p' = get_sub j p1" "get_sub img p' = Some (sp\<lparr>sp_in_use := []\<rparr>)"
      "env_ids ss \<union> pl_doomed p1 \<subseteq> pl_doomed p'" by blast
    moreover from p'(2-4) have "emptied img p p'" using Nil.prems Cons
      by (auto simp: emptied_def idle_ids_def env_ids_def p1_def split: slot.splits)
    ultimately show ?thesis by auto
  qed
next
  case (Cons e es)
  define p1 where "p1 = doom [entry_id e] (set_sub img (sp\<lparr>sp_idle := es\<rparr>) p)\<lparr>pl_shutdown := ShIdle img rest\<rparr>"
  have s: "shutdown_next (img # rest) p = p1" using Cons.prems by (simp add: p1_def)
  have g1: "get_sub img p1 = Some (sp\<lparr>sp_idle := es\<rparr>)" by (simp add: p1_def)
  have st: "pool_step EvShutdownStep p1 = Some (shutdown_next (img # rest) p1)" by (simp add: p1_def)
  from Cons.IH [OF g1] obtain n p' where
    n: "shut_steps n (shutdown_next (img # rest) p1) = Some (shutdown_next rest p')" and e: "emptied img p1 p'"
    by auto
  have "emptied img p p'" using e g1 Cons.prems
    by (auto simp: emptied_def idle_ids_def p1_def)
  moreover have "shut_steps (Suc n) p1 = Some (shutdown_next rest p')"
    using shut_steps_Suc [OF st] n by simp
  ultimately show ?case using s by auto
qed

lemma emptied_trans_doomed: "emptied img p q \<Longrightarrow> pl_doomed p \<subseteq> pl_doomed q"
  by (simp add: emptied_def)

lemma shut_all:
  "\<exists>n q. shut_steps n (shutdown_next imgs p) = Some q \<and> pl_shutdown q = ShDown \<and>
    pl_doomed p \<subseteq> pl_doomed q \<and>
    (\<forall>j. get_sub j q = None \<longleftrightarrow> get_sub j p = None) \<and>
    (\<forall>j sp. get_sub j p = Some sp \<longrightarrow> j \<in> set imgs \<or> sp_idle sp = [] \<and> sp_in_use sp = [] \<longrightarrow>
       (\<exists>sq. get_sub j q = Some sq \<and> sp_idle sq = [] \<and> sp_in_use sq = []) \<and>
       set (idle_ids sp) \<union> env_ids (sp_in_use sp) \<subseteq> pl_doomed q)"
proof (induction imgs arbitrary: p)
  case Nil
  then show ?case by (intro exI [of _ 0]) (auto simp: idle_ids_def env_ids_def)
next
  case (Cons img rest)
  show ?case
  proof (cases "get_sub img p")
    case None
    from Cons.IH [of p] obtain n q where n: "shut_steps n (shutdown_next rest p) = Some q"
      and q: "pl_shutdown q = ShDown" "pl_doomed p \<subseteq> pl_doomed q"
        "\<forall>j. get_sub j q = None \<longleftrightarrow> get_sub j p = None"
      and r: "\<And>j sp. get_sub j p = Some sp \<Longrightarrow> j \<in> set rest \<or> sp_idle sp = [] \<and> sp_in_use sp = [] \<Longrightarrow>
         (\<exists>sq. get_sub j q = Some sq \<and> sp_idle sq = [] \<and> sp_in_use sq = []) \<and>
         set (idle_ids sp) \<union> env_ids (sp_in_use sp) \<subseteq> pl_doomed q" by blast
    have "(\<exists>sr. get_sub j q = Some sr \<and> sp_idle sr = [] \<and> sp_in_use sr = []) \<and>
        set (idle_ids sj) \<union> env_ids (sp_in_use sj) \<subseteq> pl_doomed q"
      if "get_sub j p = Some sj" "j \<in> set (img # rest) \<or> sp_idle sj = [] \<and> sp_in_use sj = []" for j sj
    proof -
      have "j \<noteq> img" using that(1) None by auto
      with that r [of j sj] show ?thesis by simp
    qed
    moreover have "shut_steps n (shutdown_next (img # rest) p) = Some q" using n None by simp
    ultimately show ?thesis using q by (intro exI [of _ n] exI [of _ q]) blast
  next
    case (Some sp)
    from shut_one_sub [OF Some refl] obtain n p' where
      n: "shut_steps n (shutdown_next (img # rest) p) = Some (shutdown_next rest p')" and e: "emptied img p p'"
      by blast
    from Cons.IH [of p'] obtain m q where m: "shut_steps m (shutdown_next rest p') = Some q"
      and q: "pl_shutdown q = ShDown" "pl_doomed p' \<subseteq> pl_doomed q"
        "\<forall>j. get_sub j q = None \<longleftrightarrow> get_sub j p' = None"
      and r: "\<And>j sp. get_sub j p' = Some sp \<Longrightarrow> j \<in> set rest \<or> sp_idle sp = [] \<and> sp_in_use sp = [] \<Longrightarrow>
         (\<exists>sq. get_sub j q = Some sq \<and> sp_idle sq = [] \<and> sp_in_use sq = []) \<and>
         set (idle_ids sp) \<union> env_ids (sp_in_use sp) \<subseteq> pl_doomed q" by blast
    have e1: "\<And>j. j \<noteq> img \<Longrightarrow> get_sub j p' = get_sub j p" and e2: "pl_doomed p \<subseteq> pl_doomed p'"
      using e by (simp_all add: emptied_def)
    from e Some obtain sq where sq: "get_sub img p' = Some sq" "sp_idle sq = []" "sp_in_use sq = []"
      and d: "set (idle_ids sp) \<union> env_ids (sp_in_use sp) \<subseteq> pl_doomed p'"
      by (auto simp: emptied_def)
    have "(\<exists>sr. get_sub j q = Some sr \<and> sp_idle sr = [] \<and> sp_in_use sr = []) \<and>
        set (idle_ids sj) \<union> env_ids (sp_in_use sj) \<subseteq> pl_doomed q"
      if "get_sub j p = Some sj" "j \<in> set (img # rest) \<or> sp_idle sj = [] \<and> sp_in_use sj = []" for j sj
    proof (cases "j = img")
      case True
      with that(1) Some d q(2) r [OF sq(1)] sq show ?thesis by auto
    next
      case False
      with that e1 [OF False] r [of j sj] show ?thesis by simp
    qed
    moreover have "\<forall>j. get_sub j q = None \<longleftrightarrow> get_sub j p = None"
    proof
      fix j
      show "get_sub j q = None \<longleftrightarrow> get_sub j p = None"
        using q(3) e1 [of j] sq(1) Some by (cases "j = img") auto
    qed
    ultimately show ?thesis using shut_steps_add [OF n m] q(1,2) e2
      by (intro exI [of _ "n + m"] exI [of _ q]) blast
  qed
qed


section \<open>Concrete runs\<close>

definition race_config :: "int \<Rightarrow> forge_config" where
  "race_config n = \<lparr>fc_data_root = [], fc_meta_db_path = [],
     fc_default_pool = default_pool_config\<lparr>pc_image := ''img'', pc_min_idle := n\<rparr>,
     fc_per_image_pool = (\<lambda>_. None)\<rparr>"

definition test_env :: "string \<Rightarrow> env_handle" where
  "test_env i = \<lparr>eh_id = i, eh_image = ''img'', eh_driver = ''docker'', eh_labels = []\<rparr>"

lemmas pool_eval = new_pool_def race_config_def default_pool_config_def dedup_def
  ensure_subpool_def get_sub_def set_sub_def set_task_def put_local_def doom_def visit_begin_def
  warm_begin_def warm_step_def pool_config_for_def new_sub_pool_def sp_total_def when_free_def
  acquire_top_def add_slot_def discard_slot_def put_idle_def count_lease_def count_kill_def
  returned_def entry_slot_def entry_id_def test_env_def reap_begin_def keep_target_def
  youngest_first_def destroyed_def lease_deadline_def wait_ms_def

lemma race_config_small: "small_min_idle (race_config n) \<longleftrightarrow> n \<le> 1"
  by (simp add: small_min_idle_def pool_config_for_def race_config_def)

definition lease_events :: "event list" where
  "lease_events = [EvSession 0 ''img'', EvStep (Sess 0) OGo, EvStep (Sess 0) (OCreated (test_env ''a'')),
     EvSession 1 ''img'', EvStep (Sess 1) OGo, EvStep (Sess 1) (OCreated (test_env ''b''))]"

definition leased_pool :: pool where
  "leased_pool = (case run_events lease_events (new_pool (race_config 1)) of Some p \<Rightarrow> p | None \<Rightarrow> new_pool (race_config 1))"

lemma leased_events_run: "run_events lease_events (new_pool (race_config 1)) = Some leased_pool"
  by (simp add: leased_pool_def lease_events_def pool_eval)

lemma leased_pool_run: "pool_run (race_config 1) leased_pool"
  using leased_events_run by (rule pool_run_events [OF pool_run.start])

lemma leased_pool_quiet: "quiet_run (race_config 1) leased_pool"
proof -
  have q: "quiet_run c r" if "quiet_run c p" "run_events evs p = Some r"
    "list_all (\<lambda>ev. \<forall>p. quiet_event ev p) evs" for c p r evs
    using that by (induction evs arbitrary: p) (auto split: option.splits intro: quiet_run.step)
  show ?thesis
    by (rule q [OF quiet_run.start leased_events_run])
      (simp add: lease_events_def quiet_event_def)
qed

lemma leased_pool_facts:
  "\<not> pl_closed leased_pool" "pl_doomed leased_pool = {}"
  "pl_tasks leased_pool (Sess 0) =
     Some \<lparr>tk_image = ''img'', tk_started = 0, tk_pc = Leased (test_env ''a''), tk_rest = []\<rparr>"
  "pl_tasks leased_pool (Sess 1) =
     Some \<lparr>tk_image = ''img'', tk_started = 0, tk_pc = Leased (test_env ''b''), tk_rest = []\<rparr>"
  "map_option sp_in_use (get_sub ''img'' leased_pool) = Some [EnvSlot ''b'', EnvSlot ''a'']"
  by (simp_all add: leased_pool_def lease_events_def pool_eval)

section \<open>Properties\<close>

text \<open>C1: Until shutdown, and whatever sessions, warm-up, reaper and driver do in whatever order,
  a leased environment is leased to one session only, was created for that session's image, holds
  its slot, is in no idle queue and has not been handed to the driver for destruction; for
  configurations that keep at most one idle environment per image.\<close>

theorem lease_is_exclusive:
  assumes run: "pool_run c p" and small: "small_min_idle c" and o: "\<not> pl_closed p"
    and t: "pl_tasks p a = Some t" and h: "tk_pc t = Leased h"
  shows "(\<exists>sp. get_sub (tk_image t) p = Some sp \<and> EnvSlot (eh_id h) \<in> set (sp_in_use sp)) \<and>
    pl_owner p (eh_id h) = Some (tk_image t) \<and> eh_id h \<notin> pl_doomed p \<and>
    (\<forall>img sp e. get_sub img p = Some sp \<longrightarrow> e \<in> set (sp_idle sp) \<longrightarrow> entry_id e \<noteq> eh_id h) \<and>
    (\<forall>b u k. pl_tasks p b = Some u \<longrightarrow> tk_pc u = Leased k \<longrightarrow> eh_id k = eh_id h \<longrightarrow> b = a)"
proof -
  have inv: "pool_inv p" using pool_run_inv [OF run small] o by blast
  obtain sp where g: "get_sub (tk_image t) p = Some sp" using pool_inv_task [OF inv t] by blast
  note l = conjunct1 [OF pool_inv_local [OF inv g]]
  have pc: "pcs (tk_image t) p a = Some (Leased h)" using t h by (simp add: pcs_def)
  have s: "EnvSlot (eh_id h) \<in> set (sp_in_use sp)" by (rule held_in_use [OF l pc]) simp
  then have tr: "eh_id h \<in> tracked sp (pcs (tk_image t) p)" by (simp add: tracked_def)
  have own: "pl_owner p (eh_id h) = Some (tk_image t)" by (rule tracked_owner [OF l tr])
  have nd: "eh_id h \<notin> pl_doomed p" using l tr by (simp add: local_inv_def ids_ok_def)
  have idle: "entry_id e \<noteq> eh_id h" if "get_sub img p = Some sj" "e \<in> set (sp_idle sj)" for img sj e
  proof
    assume eq: "entry_id e = eh_id h"
    note lj = conjunct1 [OF pool_inv_local [OF inv that(1)]]
    have "entry_id e \<in> tracked sj (pcs img p)" using that(2) by (auto simp: tracked_def)
    from tracked_owner [OF lj this] eq own have "img = tk_image t" by simp
    with g that(1) have "sj = sp" by simp
    with l that(2) s eq show False by (auto simp: local_inv_def slots_ok_def entry_slot_def)
  qed
  have uniq: "b = a" if u: "pl_tasks p b = Some u" "tk_pc u = Leased k" "eh_id k = eh_id h" for b u k
  proof -
    obtain sj where gj: "get_sub (tk_image u) p = Some sj" using pool_inv_task [OF inv u(1)] by blast
    note lj = conjunct1 [OF pool_inv_local [OF inv gj]]
    have pj: "pcs (tk_image u) p b = Some (Leased k)" using u by (simp add: pcs_def)
    have "pl_owner p (eh_id k) = Some (tk_image u)" by (rule held_owner [OF lj pj]) simp
    with own u(3) have "tk_image u = tk_image t" by simp
    with held_unique [OF l pc, of b "Leased k"] pj u(3) show ?thesis by simp
  qed
  show ?thesis using g s own nd idle uniq by blast
qed

theorem lease_is_exclusive_witness:
  "''a'' \<notin> pl_doomed leased_pool \<and> pl_owner leased_pool ''a'' = Some ''img''"
  using lease_is_exclusive [OF leased_pool_run _ leased_pool_facts(1,3)]
  by (simp add: race_config_small test_env_def)





text \<open>C6: A shutdown that runs to completion destroys everything: from any open pool its steps come
  to an end, every environment that was idle or leased has then been handed to the driver for
  destruction, and every sub-pool is empty.\<close>

theorem shutdown_destroys_everything:
  assumes "\<not> pl_closed p"
  shows "\<exists>n q. run_events (EvShutdown # replicate n EvShutdownStep) p = Some q \<and>
    pl_shutdown q = ShDown \<and>
    (\<forall>img sp. get_sub img p = Some sp \<longrightarrow>
      (\<exists>sq. get_sub img q = Some sq \<and> sp_total sq = 0) \<and>
      set (idle_ids sp) \<union> env_ids (sp_in_use sp) \<subseteq> pl_doomed q)"
proof -
  let ?imgs = "map fst (pl_subs p)"
  obtain p1 k where k: "run_events (EvShutdown # replicate k EvShutdownStep) p = Some (shutdown_next ?imgs p1)"
    and g: "\<And>j. get_sub j p1 = get_sub j p"
  proof (cases "pl_reaper p")
    case True
    let ?p = "set_task Reaper None (p\<lparr>pl_closed := True, pl_reaper := False, pl_shutdown := ShCancel\<rparr>)"
    show thesis
      using assms True by (intro that [of 1 ?p]) (simp_all add: set_task_def get_sub_def)
  next
    case False
    show thesis
      using assms False by (intro that [of 0 "p\<lparr>pl_closed := True\<rparr>"]) (simp_all add: get_sub_def)
  qed
  from shut_all [of ?imgs p1] obtain n q where n: "shut_steps n (shutdown_next ?imgs p1) = Some q"
    and q: "pl_shutdown q = ShDown"
    and r: "\<And>j sp. get_sub j p1 = Some sp \<Longrightarrow> j \<in> set ?imgs \<or> sp_idle sp = [] \<and> sp_in_use sp = [] \<Longrightarrow>
       (\<exists>sq. get_sub j q = Some sq \<and> sp_idle sq = [] \<and> sp_in_use sq = []) \<and>
       set (idle_ids sp) \<union> env_ids (sp_in_use sp) \<subseteq> pl_doomed q" by blast
  have "run_events (xs @ ys) a = (case run_events xs a of None \<Rightarrow> None | Some b \<Rightarrow> run_events ys b)" for xs ys a
    by (induction xs arbitrary: a) (auto split: option.split)
  from this [of "EvShutdown # replicate k EvShutdownStep" "replicate n EvShutdownStep" p] k n
  have run: "run_events (EvShutdown # replicate (k + n) EvShutdownStep) p = Some q"
    by (simp add: shut_steps_def replicate_add)
  have "(\<exists>sq. get_sub img q = Some sq \<and> sp_total sq = 0) \<and>
      set (idle_ids sp) \<union> env_ids (sp_in_use sp) \<subseteq> pl_doomed q" if "get_sub img p = Some sp" for img sp
  proof -
    have "img \<in> set ?imgs" using that by (auto simp: get_sub_def dest: map_of_SomeD intro: rev_image_eqI)
    with r [of img sp] that g show ?thesis by (auto simp: sp_total_def)
  qed
  with run q show ?thesis by blast
qed

theorem shutdown_destroys_everything_witness:
  "\<exists>n q. run_events (EvShutdown # replicate n EvShutdownStep) leased_pool = Some q \<and> pl_shutdown q = ShDown"
  using shutdown_destroys_everything [OF leased_pool_facts(1)] by blast


text \<open>Giving up is the last resort: a session's acquire ends with PoolExhaustedError only when its
  lease wait timeout has passed, and then either no environment was idle and the sub-pool was at
  its maximum, or the wait for a release timed out; the sub-pool is as it was.\<close>

theorem exhausted_only_after_timeout:
  assumes "session_step a down now started out c sp = Some (sp', Ended (Some PoolExhaustedError), ids)"
    and "\<forall>x. out \<noteq> ORaised x"
  shows "started + pc_lease_wait_timeout_seconds (sp_config sp) \<le> now \<and> sp' = sp \<and>
    (c = Waiting \<or> c = AtAcquire \<and> sp_idle sp = [] \<and> pc_max_size (sp_config sp) \<le> int (sp_total sp))"
  using assms
  by (cases c; cases out) (auto simp: acquire_top_def returned_def Let_def lease_deadline_def
      split: if_splits list.splits)

theorem exhausted_only_after_timeout_witness:
  "(0::rat) + pc_lease_wait_timeout_seconds (sp_config (new_sub_pool default_pool_config)) \<le> 30"
proof -
  have "session_step (Sess 0) False 30 0 OTimeout Waiting (new_sub_pool default_pool_config) =
      Some (new_sub_pool default_pool_config, Ended (Some PoolExhaustedError), [])"
    by (simp add: lease_deadline_def new_sub_pool_def default_pool_config_def)
  from exhausted_only_after_timeout [OF this] show ?thesis by simp
qed

text \<open>C7: With \<open>min_idle\<close> above one the reaper can hand one environment to two sessions: it removes
  an aged-out entry by taking the head of the queue, which is another one, suspends to destroy it,
  and puts back entries that a session has leased in the meantime.\<close>

definition double_lease_events :: "event list" where
  "double_lease_events =
     [EvStart [], EvStep Starter (OCreated (test_env ''a'')), EvTick 500,
      EvStep Starter (OCreated (test_env ''b'')), EvStep Starter (OCreated (test_env ''c'')),
      EvTick 101, EvReapWake,
      EvSession 0 ''img'', EvStep (Sess 0) OGo, EvStep (Sess 0) (OHealth True), EvStep (Sess 0) OGo,
      EvStep Reaper OGo,
      EvSession 1 ''img'', EvStep (Sess 1) OGo, EvStep (Sess 1) (OHealth True), EvStep (Sess 1) OGo,
      EvSession 2 ''img'', EvStep (Sess 2) OGo, EvStep (Sess 2) (OHealth True), EvStep (Sess 2) OGo]"

theorem reaper_can_lease_twice:
  "\<exists>p t u h. pool_run (race_config 3) p \<and> \<not> pl_closed p \<and>
     pl_tasks p (Sess 0) = Some t \<and> tk_pc t = Leased h \<and>
     pl_tasks p (Sess 2) = Some u \<and> tk_pc u = Leased h"
proof -
  have "\<exists>p. run_events double_lease_events (new_pool (race_config 3)) = Some p \<and> \<not> pl_closed p \<and>
     (\<exists>t u h. pl_tasks p (Sess 0) = Some t \<and> tk_pc t = Leased h \<and>
       pl_tasks p (Sess 2) = Some u \<and> tk_pc u = Leased h)"
    by (simp add: double_lease_events_def pool_eval)
  then show ?thesis using pool_run_events [OF pool_run.start] by blast
qed

text \<open>C8: In the default configuration the reaper can lose an environment: one that a session returns
  while the reaper destroys an aged-out one is dropped from the queue when the reaper resumes, is
  never destroyed, and no later shutdown will find it.\<close>

definition leak_events :: "event list" where
  "leak_events =
     [EvStart [], EvStep Starter (OCreated (test_env ''a'')), EvTick 601, EvReapWake,
      EvSession 0 ''img'', EvStep (Sess 0) OGo, EvStep (Sess 0) (OCreated (test_env ''b'')),
      EvStep (Sess 0) OGo, EvStep (Sess 0) (OHealth True), EvStep (Sess 0) OGo,
      EvStep Reaper OGo, EvStep Reaper (OCreated (test_env ''c''))]"

definition all_ended :: "pool \<Rightarrow> bool" where
  "all_ended p = (\<forall>a. case pl_tasks p a of None \<Rightarrow> True | Some t \<Rightarrow> ended (tk_pc t))"

theorem reaper_can_lose_environment:
  "\<exists>p sp. pool_run (race_config 1) p \<and> pl_subs p = [(''img'', sp)] \<and>
     pl_owner p ''b'' = Some ''img'' \<and> ''b'' \<notin> pl_doomed p \<and>
     ''b'' \<notin> set (idle_ids sp) \<and> sp_in_use sp = [] \<and>
     all_ended p"
proof -
  have "\<exists>p. run_events leak_events (new_pool (race_config 1)) = Some p \<and>
     (\<exists>sp. pl_subs p = [(''img'', sp)] \<and> pl_owner p ''b'' = Some ''img'' \<and> ''b'' \<notin> pl_doomed p \<and>
       ''b'' \<notin> set (idle_ids sp) \<and> sp_in_use sp = [] \<and>
       all_ended p)"
    by (simp add: all_ended_def leak_events_def pool_eval idle_ids_def)
  then show ?thesis using pool_run_events [OF pool_run.start] by blast
qed

text \<open>The maximum can be exceeded: a session that starts during the warm-up finds room, and the
  warm-up, whose count was fixed before, adds its environment on top.\<close>

definition overfull_config :: forge_config where
  "overfull_config = (race_config 1)\<lparr>fc_default_pool :=
     default_pool_config\<lparr>pc_image := ''img'', pc_max_size := 1\<rparr>\<rparr>"

theorem warm_up_can_exceed_max_size:
  "\<exists>p sp. pool_run overfull_config p \<and> get_sub ''img'' p = Some sp \<and>
     pc_max_size (sp_config sp) = 1 \<and> sp_total sp = 2"
proof -
  have "\<exists>p. run_events [EvStart [], EvSession 0 ''img'', EvStep (Sess 0) OGo,
       EvStep (Sess 0) (OCreated (test_env ''a'')), EvStep Starter (OCreated (test_env ''b''))]
       (new_pool overfull_config) = Some p \<and>
     (\<exists>sp. get_sub ''img'' p = Some sp \<and> pc_max_size (sp_config sp) = 1 \<and> sp_total sp = 2)"
    by (simp add: overfull_config_def pool_eval)
  then show ?thesis using pool_run_events [OF pool_run.start] by blast
qed

end
