(* ===== verification/Fs.thy ===== *)
theory Fs
  imports Py_Text Errors "HOL-Library.AList"
begin

text \<open>
  The host file system under the code: a finite map from paths to directories, files and
  symbolic links, with the calls of \<open>os\<close>, \<open>pathlib\<close> and \<open>shutil\<close> the stores and the files service
  make. A path is the list of its components below the root; a name is a string without a slash.
  \<open>realpath\<close> is the algorithm of CPython's \<open>posixpath.realpath\<close>: a work list of components and a
  table of the links met, so that a loop of links ends.
\<close>

datatype node = Dir | File bytes | Link string

type_synonym fs = "(path \<times> node) list"
type_synonym 'a fs_op = "(fs, exn, 'a) op"

definition look :: "fs \<Rightarrow> path \<Rightarrow> node option" where
  "look f p = (if p = [] then Some Dir else map_of f p)"

definition set_node :: "path \<Rightarrow> node \<Rightarrow> fs \<Rightarrow> fs" where
  "set_node p n f = AList.update p n f"

definition del_node :: "path \<Rightarrow> fs \<Rightarrow> fs" where
  "del_node p f = filter (\<lambda>e. fst e \<noteq> p) f"

text \<open>The invariant of a file system: what is not the root lies in a directory, entries are unique.\<close>

definition wf_fs :: "fs \<Rightarrow> bool" where
  "wf_fs f \<longleftrightarrow> distinct (map fst f) \<and>
     (\<forall>p \<in> fst ` set f. p \<noteq> [] \<and> look f (butlast p) = Some Dir)"

section \<open>Paths as text\<close>

fun split_on :: "char \<Rightarrow> string \<Rightarrow> string list" where
  "split_on c [] = [[]]"
| "split_on c (x # xs) =
     (if x = c then [] # split_on c xs
      else (case split_on c xs of [] \<Rightarrow> [[x]] | y # ys \<Rightarrow> (x # y) # ys))"

fun join_with :: "char \<Rightarrow> string list \<Rightarrow> string" where
  "join_with c [] = []"
| "join_with c [x] = x"
| "join_with c (x # y # zs) = x @ c # join_with c (y # zs)"

definition slash :: char where "slash = CHR ''/''"
definition dot :: string where "dot = ''.''"
definition dotdot :: string where "dotdot = ''..''"

text \<open>The parts of a \<open>PurePosixPath\<close>: empty components and single dots are dropped.\<close>

definition pure_parts :: "string \<Rightarrow> string list" where
  "pure_parts s = filter (\<lambda>x. x \<noteq> [] \<and> x \<noteq> dot) (split_on slash s)"

definition is_absolute :: "string \<Rightarrow> bool" where
  "is_absolute s \<longleftrightarrow> s \<noteq> [] \<and> hd s = slash"

definition as_posix :: "path \<Rightarrow> string" where
  "as_posix p = (if p = [] then dot else join_with slash p)"

text \<open>The text of an absolute path.\<close>

definition host_str :: "path \<Rightarrow> string" where
  "host_str p = slash # join_with slash p"

text \<open>A name that can be an entry of a directory.\<close>

definition proper_name :: "string \<Rightarrow> bool" where
  "proper_name n \<longleftrightarrow> n \<noteq> [] \<and> n \<noteq> dot \<and> n \<noteq> dotdot \<and> slash \<notin> set n"

section \<open>Resolving links\<close>

datatype work = Part string | EndOf path

definition unseen_links :: "fs \<Rightarrow> (path \<Rightarrow> path option option) \<Rightarrow> path set" where
  "unseen_links f seen = {p \<in> fst ` set f. seen p = None}"

lemma finite_unseen [simp]: "finite (unseen_links f seen)"
  by (simp add: unseen_links_def)

lemma unseen_mono:
  "seen l \<noteq> None \<or> True \<Longrightarrow> unseen_links f (seen(l \<mapsto> v)) \<subseteq> unseen_links f seen"
  by (auto simp: unseen_links_def split: if_splits)

lemma unseen_psubset:
  "look f l = Some n \<Longrightarrow> l \<noteq> [] \<Longrightarrow> seen l = None \<Longrightarrow>
    unseen_links f (seen(l \<mapsto> v)) \<subset> unseen_links f seen"
proof -
  assume "look f l = Some n" "l \<noteq> []" "seen l = None"
  then have "l \<in> unseen_links f seen" "l \<notin> unseen_links f (seen(l \<mapsto> v))"
    by (auto simp: unseen_links_def look_def dest!: map_of_SomeD intro: rev_image_eqI)
  with unseen_mono [of seen l f v] show ?thesis by auto
qed

text \<open>
  \<open>seen l = Some None\<close>: the link \<open>l\<close> is being resolved; \<open>Some (Some q)\<close>: it is known to lead to \<open>q\<close>.
  With \<open>strict\<close> a missing component, a file used as a directory and a loop are errors (\<open>None\<close>), as
  they are for the kernel; without, the path goes on as it is.
\<close>

definition link_start :: "string \<Rightarrow> path \<Rightarrow> path" where
  "link_start target p = (if is_absolute target then [] else p)"

function realpath ::
  "bool \<Rightarrow> fs \<Rightarrow> (path \<Rightarrow> path option option) \<Rightarrow> work list \<Rightarrow> path \<Rightarrow> path option" where
  "realpath strict f seen [] p = Some p"
| "realpath strict f seen (EndOf l # rest) p = realpath strict f (seen(l \<mapsto> Some p)) rest p"
| "realpath strict f seen (Part n # rest) p =
     (if strict \<and> look f p \<noteq> Some Dir then None
      else if n = [] \<or> n = dot then realpath strict f seen rest p
      else if n = dotdot then realpath strict f seen rest (butlast p)
      else let q = p @ [n] in
        (case look f q of
           Some (Link target) \<Rightarrow>
             (case seen q of
                Some (Some r) \<Rightarrow> realpath strict f seen rest r
              | Some None \<Rightarrow> if strict then None else realpath strict f seen rest q
              | None \<Rightarrow> realpath strict f (seen(q \<mapsto> None))
                  (map Part (split_on slash target) @ EndOf q # rest)
                  (link_start target p))
         | None \<Rightarrow> if strict then None else realpath strict f seen rest q
         | Some _ \<Rightarrow> realpath strict f seen rest q))"
  by pat_completeness auto
termination
proof (relation "inv_image (finite_psubset <*lex*> measure length)
    (\<lambda>(strict, f, seen, work, p). (unseen_links f seen, work))", goal_cases)
  case 1
  show ?case by (simp add: wf_lex_prod)
next
  case (2 strict f seen l rest p)
  have "unseen_links f (seen(l \<mapsto> Some p)) \<subseteq> unseen_links f seen"
    by (rule unseen_mono) simp
  then show ?case by (auto simp: finite_psubset_def)
next
  case (8 strict f seen n rest p q x target)
  then have "unseen_links f (seen(q \<mapsto> None)) \<subset> unseen_links f seen"
    by (intro unseen_psubset) auto
  then show ?case by (simp add: finite_psubset_def)
qed (auto simp: finite_psubset_def)


definition resolve_path :: "fs \<Rightarrow> path \<Rightarrow> path" where
  "resolve_path f p = (case realpath False f Map.empty (map Part p) [] of Some q \<Rightarrow> q | None \<Rightarrow> p)"

text \<open>What the kernel finds at a path, following links, and what is at a path that is already real.\<close>

definition follow :: "fs \<Rightarrow> path \<Rightarrow> path option" where
  "follow f p = realpath True f Map.empty (map Part p) []"

definition node_at :: "fs \<Rightarrow> path \<Rightarrow> node option" where
  "node_at f p = (case look f p of Some (Link t) \<Rightarrow> None | r \<Rightarrow> r)"

definition stat_node :: "fs \<Rightarrow> path \<Rightarrow> node option" where
  "stat_node f p = (case follow f p of None \<Rightarrow> None | Some q \<Rightarrow> node_at f q)"

lemma realpath_not_strict: "\<exists>q. realpath False f seen work p = Some q"
  by (induction "False" f seen work p rule: realpath.induct)
    (auto simp: Let_def split: option.splits node.splits)

lemma resolve_path_Some: "realpath False f Map.empty (map Part p) [] = Some (resolve_path f p)"
  using realpath_not_strict [of f Map.empty "map Part p" "[]"] by (auto simp: resolve_path_def)

section \<open>Directories and files\<close>

definition entries :: "fs \<Rightarrow> path \<Rightarrow> string list" where
  "entries f p = map last (filter (\<lambda>q. q \<noteq> [] \<and> butlast q = p) (map fst f))"

text \<open>
  \<open>mkdir(parents=True, exist_ok=True)\<close> of a real path, from the directory \<open>d\<close> on. It fails where
  something that is no directory stands in the way, and has then created nothing.
\<close>

fun mkdirs :: "path \<Rightarrow> string list \<Rightarrow> fs \<Rightarrow> exn + fs" where
  "mkdirs d [] f = Inr f"
| "mkdirs d (n # ns) f =
     (case look f (d @ [n]) of
        Some Dir \<Rightarrow> mkdirs (d @ [n]) ns f
      | None \<Rightarrow> mkdirs (d @ [n]) ns (set_node (d @ [n]) Dir f)
      | Some _ \<Rightarrow> Inl OSError)"

definition mkdir_p :: "path \<Rightarrow> unit fs_op" where
  "mkdir_p p = (\<lambda>f. case mkdirs [] p f of Inl e \<Rightarrow> (Inl e, f) | Inr f' \<Rightarrow> (Inr (), f'))"

definition write_bytes :: "path \<Rightarrow> bytes \<Rightarrow> unit fs_op" where
  "write_bytes p b = (\<lambda>f.
     if p = [] \<or> look f (butlast p) \<noteq> Some Dir then (Inl OSError, f)
     else (case look f p of
        None \<Rightarrow> (Inr (), set_node p (File b) f)
      | Some (File old) \<Rightarrow> (Inr (), set_node p (File b) f)
      | Some _ \<Rightarrow> (Inl OSError, f)))"

text \<open>\<open>write_text\<close> truncates the file when it opens it, before the text is encoded.\<close>

definition write_text :: "path \<Rightarrow> ustr \<Rightarrow> unit fs_op" where
  "write_text p s = (case utf8_encode s of
     Some b \<Rightarrow> write_bytes p b
   | None \<Rightarrow> bindM (write_bytes p []) (\<lambda>_. raiseM UnicodeError))"

definition unlink :: "path \<Rightarrow> unit fs_op" where
  "unlink p = (\<lambda>f. case look f p of
     Some (File b) \<Rightarrow> (Inr (), del_node p f)
   | Some (Link t) \<Rightarrow> (Inr (), del_node p f)
   | _ \<Rightarrow> (Inl OSError, f))"

definition rmdir :: "path \<Rightarrow> unit fs_op" where
  "rmdir p = (\<lambda>f. if p \<noteq> [] \<and> look f p = Some Dir \<and> entries f p = []
     then (Inr (), del_node p f) else (Inl OSError, f))"

text \<open>\<open>shutil.rmtree\<close> refuses a symbolic link and does not follow the links below.\<close>

definition rmtree :: "path \<Rightarrow> unit fs_op" where
  "rmtree p = (\<lambda>f. if p \<noteq> [] \<and> look f p = Some Dir
     then (Inr (), filter (\<lambda>e. \<not> prefix p (fst e)) f) else (Inl OSError, f))"

section \<open>The invariant\<close>

lemma look_root [simp]: "look f [] = Some Dir"
  by (simp add: look_def)

lemma look_set_node [simp]: "p \<noteq> [] \<Longrightarrow> look (set_node p n f) q = (if q = p then Some n else look f q)"
  by (simp add: look_def set_node_def update_conv')

lemma look_del_node [simp]: "p \<noteq> [] \<Longrightarrow> look (del_node p f) q = (if q = p then None else look f q)"
  by (induction f) (auto simp: look_def del_node_def)

lemma keys_set_node: "fst ` set (set_node p n f) = insert p (fst ` set f)"
  by (simp add: set_node_def dom_update [symmetric] dom_map_of_conv_image_fst [symmetric] update_conv')

lemma wf_fsD: "wf_fs f \<Longrightarrow> look f p = Some n \<Longrightarrow> p \<noteq> [] \<Longrightarrow> look f (butlast p) = Some Dir"
  by (auto simp: wf_fs_def look_def dest!: map_of_SomeD)

lemma wf_fs_Nil [simp]: "wf_fs []"
  by (simp add: wf_fs_def)

lemma wf_set_node:
  assumes wf: "wf_fs f" and p: "p \<noteq> []" "look f (butlast p) = Some Dir" and n: "n = Dir \<or> look f p \<noteq> Some Dir"
  shows "wf_fs (set_node p n f)"
proof -
  have "q \<noteq> [] \<and> look (set_node p n f) (butlast q) = Some Dir" if "q \<in> fst ` set (set_node p n f)" for q
  proof -
    from that have "q = p \<or> q \<in> fst ` set f" by (simp add: keys_set_node)
    then have "q \<noteq> [] \<and> look f (butlast q) = Some Dir" using wf p by (auto simp: wf_fs_def)
    with p n show ?thesis by (auto simp: butlast_append)
  qed
  moreover have "distinct (map fst (set_node p n f))"
    using wf by (simp add: set_node_def wf_fs_def distinct_update)
  ultimately show ?thesis by (simp add: wf_fs_def)
qed

lemma wf_filter:
  assumes "wf_fs f" and "\<And>e. e \<in> set f \<Longrightarrow> P e \<Longrightarrow> butlast (fst e) = [] \<or> (\<forall>n. (butlast (fst e), n) \<in> set f \<longrightarrow> P (butlast (fst e), n))"
  shows "wf_fs (filter P f)"
proof -
  have look: "look (filter P f) q = Some Dir" if "look f q = Some Dir" "q = [] \<or> (\<forall>n. (q, n) \<in> set f \<longrightarrow> P (q, n))" for q
    using that assms(1) by (auto simp: look_def wf_fs_def distinct_map_filter map_fst_filter_distinct)
  show ?thesis using assms look
    by (auto simp: wf_fs_def map_fst_filter_distinct)
qed

lemma wf_del_node:
  assumes "wf_fs f" and "p \<noteq> []" and "entries f p = []"
  shows "wf_fs (del_node p f)"
  unfolding del_node_def
proof (rule wf_filter [OF assms(1)])
  fix e assume e: "e \<in> set f" "fst e \<noteq> p"
  have "butlast (fst e) \<noteq> p"
  proof
    assume b: "butlast (fst e) = p"
    with e assms(1) have "fst e \<noteq> []" by (auto simp: wf_fs_def)
    with e(1) b have "fst e \<in> set (filter (\<lambda>q. q \<noteq> [] \<and> butlast q = p) (map fst f))" by auto
    with assms(3) show False by (auto simp: entries_def)
  qed
  then show "butlast (fst e) = [] \<or> (\<forall>n. (butlast (fst e), n) \<in> set f \<longrightarrow> fst (butlast (fst e), n) \<noteq> p)" by simp
qed

lemma wf_no_entries: "wf_fs f \<Longrightarrow> look f p \<noteq> Some Dir \<Longrightarrow> entries f p = []"
  by (auto simp: entries_def filter_empty_conv wf_fs_def)

lemma wf_mkdirs: "wf_fs f \<Longrightarrow> look f d = Some Dir \<Longrightarrow> mkdirs d ns f = Inr f' \<Longrightarrow> wf_fs f'"
proof (induction d ns f rule: mkdirs.induct)
  case (2 d n ns f)
  then have "wf_fs (set_node (d @ [n]) Dir f)" by (intro wf_set_node) simp_all
  with 2 show ?case by (auto split: option.splits node.splits)
qed simp


lemma look_mkdirs:
  "mkdirs d ns f = Inr f' \<Longrightarrow>
    look f' q = (if look f q = None \<and> strict_prefix d q \<and> prefix q (d @ ns) then Some Dir else look f q)"
proof (induction d ns f rule: mkdirs.induct)
  case (1 d f)
  then show ?case by (auto simp: strict_prefix_def prefix_order.antisym)
next
  case (2 d n ns f)
  have split: "strict_prefix d q \<and> prefix q (d @ n # ns) \<longleftrightarrow>
      q = d @ [n] \<or> strict_prefix (d @ [n]) q \<and> prefix q ((d @ [n]) @ ns)"
    by (auto simp: prefix_def strict_prefix_def append_eq_append_conv2 Cons_eq_append_conv)
  from 2 split show ?case
    by (auto split: option.splits node.splits if_splits)
qed

lemma prefix_dir:
  assumes "wf_fs f" and "look f p \<noteq> None" and "strict_prefix q p"
  shows "look f q = Some Dir"
  using assms(2,3)
proof (induction p rule: rev_induct)
  case (snoc x p)
  then have "look f p = Some Dir" using wf_fsD [OF assms(1), of "p @ [x]"] by auto
  with snoc show ?case by (cases "q = p") (auto simp: strict_prefix_def prefix_snoc)
qed simp

text \<open>What lies outside a directory tree is the same.\<close>

definition same_outside :: "path \<Rightarrow> fs \<Rightarrow> fs \<Rightarrow> bool" where
  "same_outside root f f' \<longleftrightarrow> (\<forall>q. \<not> prefix root q \<longrightarrow> look f' q = look f q)"

lemma same_outside_refl [simp]: "same_outside root f f"
  by (simp add: same_outside_def)

lemma same_outside_trans: "same_outside r f g \<Longrightarrow> same_outside r g h \<Longrightarrow> same_outside r f h"
  by (simp add: same_outside_def)

lemma same_outside_set_node: "p \<noteq> [] \<Longrightarrow> prefix r p \<Longrightarrow> same_outside r f (set_node p n f)"
  by (auto simp: same_outside_def)

lemma same_outside_del_node: "p \<noteq> [] \<Longrightarrow> prefix r p \<Longrightarrow> same_outside r f (del_node p f)"
  by (auto simp: same_outside_def)

lemma mkdir_p_frame:
  assumes wf: "wf_fs f" and r: "look f r = Some Dir" and p: "prefix r p"
  shows "same_outside r f (snd (mkdir_p p f)) \<and> wf_fs (snd (mkdir_p p f))"
proof (cases "mkdirs [] p f")
  case (Inl e)
  with wf show ?thesis by (simp add: mkdir_p_def)
next
  case (Inr f')
  have "look f' q = look f q" if "\<not> prefix r q" for q
  proof -
    have "look f q \<noteq> None" if "prefix q p"
    proof -
      from that p \<open>\<not> prefix r q\<close> have "strict_prefix q r"
        by (metis prefix_same_cases strict_prefix_def)
      with prefix_dir [OF wf _ this] r show ?thesis by simp
    qed
    then show ?thesis using look_mkdirs [OF Inr, of q] by auto
  qed
  with Inr wf_mkdirs [OF wf _ Inr] show ?thesis by (simp add: mkdir_p_def same_outside_def)
qed

lemma write_bytes_frame:
  assumes "wf_fs f" and "prefix r p"
  shows "same_outside r f (snd (write_bytes p b f)) \<and> wf_fs (snd (write_bytes p b f))"
  using assms
  by (auto simp: write_bytes_def split: option.splits node.splits
      intro: same_outside_set_node wf_set_node)

lemma write_text_frame:
  assumes "wf_fs f" and "prefix r p"
  shows "same_outside r f (snd (write_text p s f)) \<and> wf_fs (snd (write_text p s f))"
  using write_bytes_frame [OF assms, of "[]"] write_bytes_frame [OF assms, of "the (utf8_encode s)"]
  by (auto simp: write_text_def op_simps split: option.split prod.splits sum.splits)

lemma unlink_frame:
  assumes "wf_fs f" and "prefix r p"
  shows "same_outside r f (snd (unlink p f)) \<and> wf_fs (snd (unlink p f))"
proof (cases "p = []")
  case False
  with assms show ?thesis
    by (auto simp: unlink_def split: option.splits node.splits
        intro!: same_outside_del_node wf_del_node wf_no_entries)
qed (use assms in \<open>simp add: unlink_def\<close>)

lemma rmdir_frame:
  assumes "wf_fs f" and "prefix r p"
  shows "same_outside r f (snd (rmdir p f)) \<and> wf_fs (snd (rmdir p f))"
  using assms by (auto simp: rmdir_def intro!: same_outside_del_node wf_del_node)

lemma look_filter_keys: "look (filter (\<lambda>e. P (fst e)) f) q = (if P q \<or> q = [] then look f q else None)"
  by (induction f) (auto simp: look_def)

lemma rmtree_frame:
  assumes "wf_fs f" and "prefix r p"
  shows "same_outside r f (snd (rmtree p f)) \<and> wf_fs (snd (rmtree p f))"
proof -
  have "same_outside r f (filter (\<lambda>e. \<not> prefix p (fst e)) f)"
    using assms(2) look_filter_keys [of "\<lambda>q. \<not> prefix p q" f]
    by (auto simp: same_outside_def dest: prefix_order.trans)
  moreover have "wf_fs (filter (\<lambda>e. \<not> prefix p (fst e)) f)" if "p \<noteq> []"
    using that by (intro wf_filter [OF assms(1)]) (use prefix_order.trans prefixeq_butlast in \<open>fastforce\<close>)
  ultimately show ?thesis using assms by (simp add: rmtree_def)
qed

lemma rmtree_look: "p \<noteq> [] \<Longrightarrow> look f p = Some Dir \<Longrightarrow>
    look (snd (rmtree p f)) q = (if prefix p q then None else look f q)"
  using look_filter_keys [of "\<lambda>q. \<not> prefix p q" f] by (auto simp: rmtree_def)

section \<open>Walking a tree\<close>

definition below :: "fs \<Rightarrow> path \<Rightarrow> nat" where
  "below f b = length (filter (\<lambda>e. strict_prefix b (fst e)) f)"

lemma entries_below:
  assumes "d \<in> set (entries f b)"
  shows "below f (b @ [d]) < below f b"
proof -
  from assms obtain q n where q: "(q, n) \<in> set f" "q \<noteq> []" "butlast q = b" "d = last q"
    by (auto simp: entries_def)
  then have "q = b @ [d]" by (metis append_butlast_last_id)
  with q(1) have in_f: "(b @ [d], n) \<in> set f" by simp
  have "filter (\<lambda>e. strict_prefix (b @ [d]) (fst e)) f =
      filter (\<lambda>e. strict_prefix (b @ [d]) (fst e)) (filter (\<lambda>e. strict_prefix b (fst e)) f)"
    by (auto simp: strict_prefix_def prefix_def intro!: filter_cong)
  moreover have "(b @ [d], n) \<in> set (filter (\<lambda>e. strict_prefix b (fst e)) f)"
    using in_f by (auto simp: strict_prefix_def)
  then have "length (filter (\<lambda>e. strict_prefix (b @ [d]) (fst e)) (filter (\<lambda>e. strict_prefix b (fst e)) f)) <
      length (filter (\<lambda>e. strict_prefix b (fst e)) f)"
    by (rule length_filter_less) simp
  ultimately show ?thesis by (simp add: below_def)
qed

text \<open>
  \<open>os.walk(b, followlinks=False)\<close>, sorted, as the files service flattens it: the files of a
  directory, its directories (a link to a directory counts as one), then what the real ones hold.
\<close>

function walk :: "fs \<Rightarrow> path \<Rightarrow> path list" where
  "walk f b =
     (let names = sort (entries f b);
          is_d = (\<lambda>n. stat_node f (b @ [n]) = Some Dir)
      in map (\<lambda>n. b @ [n]) (filter (\<lambda>n. \<not> is_d n) names) @
         map (\<lambda>n. b @ [n]) (filter is_d names) @
         concat (map (\<lambda>n. if look f (b @ [n]) = Some Dir then walk f (b @ [n]) else [])
           (filter is_d names)))"
  by pat_completeness auto
termination
  by (relation "measure (\<lambda>(f, b). below f b)") (auto simp: entries_below)

declare walk.simps [simp del]

lemma walk_below: "q \<in> set (walk f b) \<Longrightarrow> strict_prefix b q"
proof (induction f b arbitrary: q rule: walk.induct)
  case (1 f b)
  from "1.prems" consider n where "q = b @ [n]" | n where "n \<in> set (entries f b)"
      "stat_node f (b @ [n]) = Some Dir" "look f (b @ [n]) = Some Dir" "q \<in> set (walk f (b @ [n]))"
    by (subst (asm) walk.simps) (auto simp: Let_def split: if_splits)
  then show ?case
  proof cases
    case 1
    then show ?thesis by (simp add: strict_prefix_def)
  next
    case 2
    then have "strict_prefix (b @ [n]) q" by (intro "1.IH" [OF refl refl]) auto
    then show ?thesis by (auto simp: strict_prefix_def prefix_def)
  qed
qed

end
