(* ===== verification/Tables.thy ===== *)
theory Tables
  imports Prelude
begin

text \<open>
  A table of the metastore: its rows in insertion order, with a primary key. The locale
  \<open>record_table\<close> is what the statements of the metastore rely on (the result of a lookup after
  an insert, an update or a delete, and that a key stays unique); the list operations below
  provide it for every key function, and each table of the schema is an interpretation.
\<close>

definition tbl_find :: "('r \<Rightarrow> 'k) \<Rightarrow> 'k \<Rightarrow> 'r list \<Rightarrow> 'r option" where
  "tbl_find key k t = List.find (\<lambda>r. key r = k) t"

text \<open>\<open>INSERT\<close>: refused when the primary key is taken.\<close>

definition tbl_insert :: "('r \<Rightarrow> 'k) \<Rightarrow> 'r \<Rightarrow> 'r list \<Rightarrow> 'r list option" where
  "tbl_insert key r t = (if key r \<in> key ` set t then None else Some (t @ [r]))"

text \<open>\<open>UPDATE ... WHERE id = k\<close> and \<open>DELETE ... WHERE id = k\<close>.\<close>

definition tbl_update :: "('r \<Rightarrow> 'k) \<Rightarrow> 'k \<Rightarrow> ('r \<Rightarrow> 'r) \<Rightarrow> 'r list \<Rightarrow> 'r list" where
  "tbl_update key k f t = map (\<lambda>r. if key r = k then f r else r) t"

definition tbl_delete :: "('r \<Rightarrow> 'k) \<Rightarrow> 'k \<Rightarrow> 'r list \<Rightarrow> 'r list" where
  "tbl_delete key k t = filter (\<lambda>r. key r \<noteq> k) t"

definition keys_distinct :: "('r \<Rightarrow> 'k) \<Rightarrow> 'r list \<Rightarrow> bool" where
  "keys_distinct key t \<longleftrightarrow> distinct (map key t)"

lemma tbl_find_SomeD: "tbl_find key k t = Some r \<Longrightarrow> key r = k \<and> r \<in> set t"
  unfolding tbl_find_def by (rule find_SomeD)

lemma tbl_find_None_iff: "tbl_find key k t = None \<longleftrightarrow> k \<notin> key ` set t"
  by (auto simp: tbl_find_def find_None_conv)

lemma tbl_find_in:
  assumes "keys_distinct key t" and "r \<in> set t"
  shows "tbl_find key (key r) t = Some r"
proof (cases "tbl_find key (key r) t")
  case None
  with assms(2) show ?thesis by (auto simp: tbl_find_None_iff)
next
  case (Some x)
  with assms distinct_key_unique [of key t x r] show ?thesis
    by (auto simp: keys_distinct_def dest: tbl_find_SomeD)
qed

lemma tbl_find_insert:
  assumes "tbl_insert key r t = Some t'"
  shows "tbl_find key k t' = (if k = key r then Some r else tbl_find key k t)"
proof -
  from assms have n: "key r \<notin> key ` set t" and t': "t' = t @ [r]"
    by (simp_all add: tbl_insert_def split: if_splits)
  then have "tbl_find key (key r) t = None" unfolding tbl_find_None_iff by simp
  then show ?thesis unfolding t' by (auto simp: tbl_find_def find_append split: option.split)
qed

lemma tbl_find_update:
  assumes "\<And>r. key (f r) = key r"
  shows "tbl_find key k (tbl_update key j f t) =
    (if k = j then map_option f (tbl_find key k t) else tbl_find key k t)"
  using assms by (induction t) (auto simp: tbl_find_def tbl_update_def)

lemma tbl_find_delete:
  "tbl_find key k (tbl_delete key j t) = (if k = j then None else tbl_find key k t)"
  by (induction t) (auto simp: tbl_find_def tbl_delete_def)

lemma keys_tbl_update: "(\<And>r. key (f r) = key r) \<Longrightarrow> map key (tbl_update key j f t) = map key t"
  by (induction t) (auto simp: tbl_update_def)

lemma set_tbl_update:
  "x \<in> set (tbl_update key j f t) \<Longrightarrow> x \<in> set t \<or> (\<exists>r \<in> set t. key r = j \<and> x = f r)"
  by (auto simp: tbl_update_def)

lemma set_tbl_delete [simp]: "set (tbl_delete key j t) = {r \<in> set t. key r \<noteq> j}"
  by (simp add: tbl_delete_def)

locale record_table =
  fixes look :: "'k \<Rightarrow> 't \<Rightarrow> 'r option"
    and ins :: "'r \<Rightarrow> 't \<Rightarrow> 't option"
    and upd :: "'k \<Rightarrow> ('r \<Rightarrow> 'r) \<Rightarrow> 't \<Rightarrow> 't"
    and del :: "'k \<Rightarrow> 't \<Rightarrow> 't"
    and pk :: "'r \<Rightarrow> 'k"
    and ok :: "'t \<Rightarrow> bool"
  assumes look_pk: "look k t = Some r \<Longrightarrow> pk r = k"
    and ins_None: "ins r t = None \<longleftrightarrow> look (pk r) t \<noteq> None"
    and look_ins: "ins r t = Some t' \<Longrightarrow> look k t' = (if k = pk r then Some r else look k t)"
    and look_upd: "(\<And>r. pk (f r) = pk r) \<Longrightarrow>
      look k (upd j f t) = (if k = j then map_option f (look k t) else look k t)"
    and look_del: "look k (del j t) = (if k = j then None else look k t)"
    and ok_ins: "ok t \<Longrightarrow> ins r t = Some t' \<Longrightarrow> ok t'"
    and ok_upd: "ok t \<Longrightarrow> (\<And>r. pk (f r) = pk r) \<Longrightarrow> ok (upd j f t)"
    and ok_del: "ok t \<Longrightarrow> ok (del j t)"
begin

lemma look_ins_same: "ins r t = Some t' \<Longrightarrow> look (pk r) t' = Some r"
  using look_ins [of r t t' "pk r"] by simp

lemma look_ins_other: "ins r t = Some t' \<Longrightarrow> k \<noteq> pk r \<Longrightarrow> look k t' = look k t"
  using look_ins [of r t t' k] by simp

lemma ins_twice: "ins r t = Some t' \<Longrightarrow> pk q = pk r \<Longrightarrow> ins q t' = None"
  using ins_None [of q t'] look_ins_same [of r t t'] by simp

lemma ins_Some_iff: "(\<exists>t'. ins r t = Some t') \<longleftrightarrow> look (pk r) t = None"
  using ins_None [of r t] by (cases "ins r t") auto

lemma ins_after_del: "\<exists>t'. ins r (del (pk r) t) = Some t'"
  using ins_Some_iff [of r "del (pk r) t"] look_del [of "pk r" "pk r" t] by simp

lemma upd_after_ins:
  "ins r t = Some t' \<Longrightarrow> (\<And>r. pk (f r) = pk r) \<Longrightarrow> look (pk r) (upd (pk r) f t') = Some (f r)"
  using look_upd [of f "pk r" "pk r" t'] look_ins_same [of r t t'] by simp

lemma del_undoes_ins: "ins r t = Some t' \<Longrightarrow> look k (del (pk r) t') = look k t"
  using ins_Some_iff [of r t] look_ins [of r t t' k] look_del [of k "pk r" t'] by auto

end

lemma record_table_list:
  "record_table (tbl_find key) (tbl_insert key) (tbl_update key) (tbl_delete key) key
     (keys_distinct key)"
proof unfold_locales
  show "tbl_find key k t = Some r \<Longrightarrow> key r = k" for k t r
    by (drule tbl_find_SomeD) simp
  show "tbl_insert key r t = None \<longleftrightarrow> tbl_find key (key r) t \<noteq> None" for r t
    unfolding tbl_insert_def tbl_find_None_iff by simp
  show "tbl_insert key r t = Some t' \<Longrightarrow>
      tbl_find key k t' = (if k = key r then Some r else tbl_find key k t)" for r t t' k
    by (rule tbl_find_insert)
  show "(\<And>r. key (f r) = key r) \<Longrightarrow> tbl_find key k (tbl_update key j f t) =
      (if k = j then map_option f (tbl_find key k t) else tbl_find key k t)" for f k j t
    by (rule tbl_find_update)
  show "tbl_find key k (tbl_delete key j t) = (if k = j then None else tbl_find key k t)" for k j t
    by (rule tbl_find_delete)
  show "keys_distinct key t \<Longrightarrow> tbl_insert key r t = Some t' \<Longrightarrow> keys_distinct key t'" for t r t'
    by (auto simp: tbl_insert_def keys_distinct_def split: if_splits)
  show "keys_distinct key t \<Longrightarrow> (\<And>r. key (f r) = key r) \<Longrightarrow>
      keys_distinct key (tbl_update key j f t)" for t f j
    by (simp add: keys_distinct_def keys_tbl_update)
  show "keys_distinct key t \<Longrightarrow> keys_distinct key (tbl_delete key j t)" for t j
    by (simp add: keys_distinct_def tbl_delete_def map_fst_filter_distinct)
qed

end
