(* ===== verification/Meta_Store.thy ===== *)
theory Meta_Store
  imports Models Tables
begin

text \<open>
  The SQLite metastore: the schema of \<open>forge/storage/migrations.py\<close> as one list of rows per
  table, and the methods of \<open>MetaStore\<close> in \<open>forge/storage/meta_store.py\<close> as operations on it.
  An SQL statement is translated clause by clause: primary keys, foreign keys with
  \<open>ON DELETE CASCADE\<close>, the partial unique index on idempotency keys, \<open>ORDER BY\<close>, \<open>LIMIT\<close>. A
  statement that violates a constraint raises \<open>IntegrityError\<close> and changes nothing. A JSON
  column holds the JSON value its text denotes.
\<close>

section \<open>Rows and tables\<close>

record ws_row =
  wr_id :: string
  wr_spec_json :: json
  wr_status :: string
  wr_name :: "string option"
  wr_metadata_json :: json
  wr_created_at :: string
  wr_updated_at :: string

record ex_row =
  xr_id :: string
  xr_workspace_id :: string
  xr_environment_id :: "string option"
  xr_command_json :: json
  xr_shell :: int
  xr_status :: string
  xr_exit_code :: "int option"
  xr_truncated :: int
  xr_output_path :: "string option"
  xr_started_at :: "string option"
  xr_finished_at :: "string option"
  xr_idempotency_key :: "string option"

record snap_row =
  nr_id :: string
  nr_workspace_id :: string
  nr_name :: "string option"
  nr_format :: string
  nr_size_bytes :: int
  nr_parent_id :: "string option"
  nr_created_at :: string

record art_row =
  ar_id :: string
  ar_workspace_id :: string
  ar_path :: string
  ar_size_bytes :: int
  ar_content_type :: "string option"
  ar_created_at :: string

record scope_row =
  sr_kind :: string
  sr_key :: string
  sr_workspace_id :: string
  sr_created_at :: string

record pool_event_row =
  pr_id :: nat
  pr_ts :: string
  pr_image :: string
  pr_kind :: string
  pr_payload_json :: json

record db =
  t_workspaces :: "ws_row list"
  t_executions :: "ex_row list"
  t_snapshots :: "snap_row list"
  t_artifacts :: "art_row list"
  t_scopes :: "scope_row list"
  t_pool_events :: "pool_event_row list"
  pool_event_seq :: nat

text \<open>
  The migration script: every statement is \<open>CREATE ... IF NOT EXISTS\<close>, so a database without
  the tables gets empty ones and a database that has them keeps its rows.
\<close>

definition empty_db :: db where
  "empty_db = \<lparr>t_workspaces = [], t_executions = [], t_snapshots = [], t_artifacts = [],
     t_scopes = [], t_pool_events = [], pool_event_seq = 0\<rparr>"

definition migrate :: "db option \<Rightarrow> db" where
  "migrate file = (case file of None \<Rightarrow> empty_db | Some d \<Rightarrow> d)"

text \<open>
  The store object: whether a connection is open, whether the path is \<open>:memory:\<close> (whose
  content does not outlive the connection), and the content of the file.
\<close>

record metastore =
  ms_memory :: bool
  ms_open :: bool
  ms_file :: "db option"

type_synonym 'a meta_op = "(metastore, exn, 'a) op"

definition new_store :: "bool \<Rightarrow> metastore" where
  "new_store mem = \<lparr>ms_memory = mem, ms_open = False, ms_file = None\<rparr>"

definition connect :: "unit meta_op" where
  "connect = (\<lambda>m. if ms_open m then (Inr (), m)
     else (Inr (), m\<lparr>ms_open := True, ms_file := Some (migrate (ms_file m))\<rparr>))"

definition close_store :: "unit meta_op" where
  "close_store = (\<lambda>m. if ms_open m
     then (Inr (), m\<lparr>ms_open := False, ms_file := (if ms_memory m then None else ms_file m)\<rparr>)
     else (Inr (), m))"

text \<open>\<open>_conn\<close>: the open connection, or \<open>ConfigError\<close>.\<close>

definition conn :: "db meta_op" where
  "conn = (\<lambda>m. if ms_open m then (Inr (migrate (ms_file m)), m) else (Inl ConfigError, m))"

text \<open>A write statement and its commit; a constraint violation is an \<open>IntegrityError\<close>.\<close>

definition commit :: "db \<Rightarrow> unit meta_op" where
  "commit d = (\<lambda>m. (Inr (), m\<lparr>ms_file := Some d\<rparr>))"

definition integrity :: "db option \<Rightarrow> unit meta_op" where
  "integrity r = (case r of None \<Rightarrow> raiseM IntegrityError | Some d \<Rightarrow> commit d)"

section \<open>From rows to models\<close>

definition required_ts :: "string \<Rightarrow> exn + datetime" where
  "required_ts s = bindR (parse_iso_col (Some s)) (of_opt ValueError)"

text \<open>
  The \<open>or datetime.now(UTC)\<close> of the source is never taken: the columns are \<open>NOT NULL\<close>, and
  \<open>_parse_iso\<close> of a string is a datetime or raises.
\<close>

definition row_to_workspace :: "ws_row \<Rightarrow> exn + workspace" where
  "row_to_workspace r =
     bindR (of_opt ValidationError (spec_of_json (wr_spec_json r))) (\<lambda>spec.
     bindR (required_ts (wr_created_at r)) (\<lambda>created.
     bindR (required_ts (wr_updated_at r)) (\<lambda>updated.
     bindR (of_opt ValidationError (parse_workspace_status (wr_status r))) (\<lambda>status.
     bindR (of_opt ValidationError (as_dict (wr_metadata_json r))) (\<lambda>metadata.
       Inr \<lparr>ws_id = wr_id r, ws_spec = spec, ws_status = status, ws_name = wr_name r,
            ws_metadata = metadata, ws_created_at = created, ws_updated_at = updated\<rparr>)))))"

fun as_str_list :: "json list \<Rightarrow> string list option" where
  "as_str_list [] = Some []"
| "as_str_list (j # js) = do { s \<leftarrow> as_str j; rest \<leftarrow> as_str_list js; Some (s # rest) }"

fun as_command :: "json \<Rightarrow> string list option" where
  "as_command (JArr xs) = as_str_list xs"
| "as_command _ = None"

definition row_to_execution :: "ex_row \<Rightarrow> exn + execution" where
  "row_to_execution r =
     bindR (parse_iso_col (xr_started_at r)) (\<lambda>started.
     bindR (parse_iso_col (xr_finished_at r)) (\<lambda>finished.
     bindR (of_opt ValidationError (as_command (xr_command_json r))) (\<lambda>cmd.
     bindR (of_opt ValidationError (parse_execution_status (xr_status r))) (\<lambda>status.
       Inr \<lparr>ex_id = xr_id r, ex_workspace_id = xr_workspace_id r,
            ex_environment_id = xr_environment_id r, ex_command = cmd,
            ex_shell = (xr_shell r \<noteq> 0), ex_status = status, ex_exit_code = xr_exit_code r,
            ex_truncated = (xr_truncated r \<noteq> 0), ex_output_path = xr_output_path r,
            ex_started_at = started, ex_finished_at = finished,
            ex_idempotency_key = xr_idempotency_key r\<rparr>))))"

definition row_to_snapshot :: "snap_row \<Rightarrow> exn + snapshot" where
  "row_to_snapshot r =
     bindR (required_ts (nr_created_at r)) (\<lambda>created.
       if nr_format r \<noteq> ''tar.zst'' then Inl ValidationError
       else Inr \<lparr>snap_id = nr_id r, snap_workspace_id = nr_workspace_id r, snap_name = nr_name r,
            snap_size_bytes = nr_size_bytes r, snap_parent_id = nr_parent_id r,
            snap_created_at = created\<rparr>)"

definition row_to_artifact :: "art_row \<Rightarrow> exn + artifact" where
  "row_to_artifact r =
     bindR (required_ts (ar_created_at r)) (\<lambda>created.
       Inr \<lparr>art_id = ar_id r, art_workspace_id = ar_workspace_id r, art_path = ar_path r,
            art_size_bytes = ar_size_bytes r, art_content_type = ar_content_type r,
            art_created_at = created\<rparr>)"

section \<open>Workspaces\<close>

definition has_workspace :: "string \<Rightarrow> db \<Rightarrow> bool" where
  "has_workspace wid d \<longleftrightarrow> wid \<in> wr_id ` set (t_workspaces d)"

definition iso_required :: "datetime \<Rightarrow> exn + string" where
  "iso_required d = bindR (iso_col (Some d)) (of_opt ConfigError)"

definition workspace_row :: "workspace \<Rightarrow> exn + ws_row" where
  "workspace_row w =
     bindR (iso_required (ws_created_at w)) (\<lambda>created.
     bindR (iso_required (ws_updated_at w)) (\<lambda>updated.
       Inr \<lparr>wr_id = ws_id w, wr_spec_json = spec_to_json (ws_spec w),
            wr_status = workspace_status_str (ws_status w), wr_name = ws_name w,
            wr_metadata_json = json_dict (ws_metadata w),
            wr_created_at = created, wr_updated_at = updated\<rparr>))"

definition insert_ws :: "ws_row \<Rightarrow> db \<Rightarrow> db option" where
  "insert_ws r d = map_option (\<lambda>t. d\<lparr>t_workspaces := t\<rparr>) (tbl_insert wr_id r (t_workspaces d))"

definition create_workspace :: "workspace \<Rightarrow> unit meta_op" where
  "create_workspace w =
     bindM conn (\<lambda>d. bindM (liftR (workspace_row w)) (\<lambda>r. integrity (insert_ws r d)))"

definition get_workspace :: "string \<Rightarrow> workspace meta_op" where
  "get_workspace wid =
     bindM conn (\<lambda>d. case tbl_find wr_id wid (t_workspaces d) of
       None \<Rightarrow> raiseM NotFoundError
     | Some r \<Rightarrow> liftR (row_to_workspace r))"

text \<open>\<open>LIMIT n\<close>: SQLite takes a negative limit as no limit.\<close>

definition sql_limit :: "int option \<Rightarrow> 'a list \<Rightarrow> 'a list" where
  "sql_limit n xs = (case n of None \<Rightarrow> xs | Some k \<Rightarrow> if k < 0 then xs else take (nat k) xs)"

definition list_workspaces :: "string option \<Rightarrow> int option \<Rightarrow> workspace list meta_op" where
  "list_workspaces status lmt =
     bindM conn (\<lambda>d. liftR (mapR row_to_workspace
       (sql_limit lmt (sort_key wr_created_at
          (case status of None \<Rightarrow> t_workspaces d
           | Some st \<Rightarrow> filter (\<lambda>r. wr_status r = st) (t_workspaces d))))))"

definition update_workspace_status :: "string \<Rightarrow> string \<Rightarrow> datetime \<Rightarrow> unit meta_op" where
  "update_workspace_status wid st now =
     bindM conn (\<lambda>d. bindM (liftR (iso_required now)) (\<lambda>ts.
     bindM (commit (d\<lparr>t_workspaces := tbl_update wr_id wid
       (\<lambda>r. r\<lparr>wr_status := st, wr_updated_at := ts\<rparr>) (t_workspaces d)\<rparr>)) (\<lambda>_.
       if tbl_find wr_id wid (t_workspaces d) = None then raiseM NotFoundError else retM ())))"

text \<open>
  \<open>DELETE FROM workspaces\<close>: when a row goes, the foreign keys take every row that refers to it.
\<close>

definition cascade_delete :: "string \<Rightarrow> db \<Rightarrow> db" where
  "cascade_delete wid d = (if \<not> has_workspace wid d then d else d\<lparr>
     t_workspaces := tbl_delete wr_id wid (t_workspaces d),
     t_executions := filter (\<lambda>r. xr_workspace_id r \<noteq> wid) (t_executions d),
     t_snapshots := filter (\<lambda>r. nr_workspace_id r \<noteq> wid) (t_snapshots d),
     t_artifacts := filter (\<lambda>r. ar_workspace_id r \<noteq> wid) (t_artifacts d),
     t_scopes := filter (\<lambda>r. sr_workspace_id r \<noteq> wid) (t_scopes d)\<rparr>)"

definition delete_workspace :: "string \<Rightarrow> unit meta_op" where
  "delete_workspace wid =
     bindM conn (\<lambda>d. bindM (commit (cascade_delete wid d)) (\<lambda>_.
       if tbl_find wr_id wid (t_workspaces d) = None then raiseM NotFoundError else retM ()))"

section \<open>Executions\<close>

definition execution_row :: "execution \<Rightarrow> exn + ex_row" where
  "execution_row x =
     bindR (iso_col (ex_started_at x)) (\<lambda>started.
     bindR (iso_col (ex_finished_at x)) (\<lambda>finished.
       Inr \<lparr>xr_id = ex_id x, xr_workspace_id = ex_workspace_id x,
            xr_environment_id = ex_environment_id x,
            xr_command_json = JArr (map JStr (ex_command x)),
            xr_shell = (if ex_shell x then 1 else 0),
            xr_status = execution_status_str (ex_status x), xr_exit_code = ex_exit_code x,
            xr_truncated = (if ex_truncated x then 1 else 0), xr_output_path = ex_output_path x,
            xr_started_at = started, xr_finished_at = finished,
            xr_idempotency_key = ex_idempotency_key x\<rparr>))"

text \<open>The rows with one idempotency key; the partial unique index leaves out missing keys.\<close>

definition same_idem :: "string \<Rightarrow> string \<Rightarrow> ex_row \<Rightarrow> bool" where
  "same_idem wid key r \<longleftrightarrow> xr_workspace_id r = wid \<and> xr_idempotency_key r = Some key"

definition idem_taken :: "ex_row \<Rightarrow> ex_row list \<Rightarrow> bool" where
  "idem_taken r t \<longleftrightarrow>
     (case xr_idempotency_key r of None \<Rightarrow> False
      | Some k \<Rightarrow> list_ex (same_idem (xr_workspace_id r) k) t)"

definition insert_ex :: "ex_row \<Rightarrow> db \<Rightarrow> db option" where
  "insert_ex r d =
     (if idem_taken r (t_executions d) \<or> \<not> has_workspace (xr_workspace_id r) d then None
      else map_option (\<lambda>t. d\<lparr>t_executions := t\<rparr>) (tbl_insert xr_id r (t_executions d)))"

definition create_execution :: "execution \<Rightarrow> unit meta_op" where
  "create_execution x =
     bindM conn (\<lambda>d. bindM (liftR (execution_row x)) (\<lambda>r. integrity (insert_ex r d)))"

definition get_execution :: "string \<Rightarrow> execution meta_op" where
  "get_execution eid =
     bindM conn (\<lambda>d. case tbl_find xr_id eid (t_executions d) of
       None \<Rightarrow> raiseM NotFoundError
     | Some r \<Rightarrow> liftR (row_to_execution r))"

definition get_execution_by_idempotency :: "string \<Rightarrow> string \<Rightarrow> execution option meta_op" where
  "get_execution_by_idempotency wid key =
     bindM conn (\<lambda>d. case List.find (same_idem wid key) (t_executions d) of
       None \<Rightarrow> retM None
     | Some r \<Rightarrow> bindM (liftR (row_to_execution r)) (\<lambda>x. retM (Some x)))"

text \<open>
  The keyword arguments of \<open>update_execution\<close>. A timestamp may be given as a \<open>datetime\<close>, which
  is converted, or as the string to store.
\<close>

datatype ts_value = TsNone | TsText string | TsTime datetime

datatype exec_field =
    FEnvironmentId "string option"
  | FStatus string
  | FExitCode "int option"
  | FTruncated bool
  | FOutputPath "string option"
  | FStartedAt ts_value
  | FFinishedAt ts_value
  | FUnknown string

fun ts_column :: "ts_value \<Rightarrow> exn + string option" where
  "ts_column TsNone = Inr None"
| "ts_column (TsText s) = Inr (Some s)"
| "ts_column (TsTime d) = iso_col (Some d)"

fun set_column :: "exec_field \<Rightarrow> exn + (ex_row \<Rightarrow> ex_row)" where
  "set_column (FEnvironmentId v) = Inr (\<lambda>r. r\<lparr>xr_environment_id := v\<rparr>)"
| "set_column (FStatus v) = Inr (\<lambda>r. r\<lparr>xr_status := v\<rparr>)"
| "set_column (FExitCode v) = Inr (\<lambda>r. r\<lparr>xr_exit_code := v\<rparr>)"
| "set_column (FTruncated v) = Inr (\<lambda>r. r\<lparr>xr_truncated := (if v then 1 else 0)\<rparr>)"
| "set_column (FOutputPath v) = Inr (\<lambda>r. r\<lparr>xr_output_path := v\<rparr>)"
| "set_column (FStartedAt v) = bindR (ts_column v) (\<lambda>c. Inr (\<lambda>r. r\<lparr>xr_started_at := c\<rparr>))"
| "set_column (FFinishedAt v) = bindR (ts_column v) (\<lambda>c. Inr (\<lambda>r. r\<lparr>xr_finished_at := c\<rparr>))"
| "set_column (FUnknown k) = Inl ConfigError"

fun set_columns :: "exec_field list \<Rightarrow> exn + (ex_row \<Rightarrow> ex_row)" where
  "set_columns [] = Inr (\<lambda>r. r)"
| "set_columns (f # fs) =
     bindR (set_column f) (\<lambda>g. bindR (set_columns fs) (\<lambda>h. Inr (\<lambda>r. h (g r))))"

fun is_unknown :: "exec_field \<Rightarrow> bool" where
  "is_unknown (FUnknown k) = True"
| "is_unknown _ = False"

definition update_execution :: "string \<Rightarrow> exec_field list \<Rightarrow> unit meta_op" where
  "update_execution eid fs =
     (if fs = [] then retM ()
      else if list_ex is_unknown fs then raiseM ConfigError
      else bindM (liftR (set_columns fs)) (\<lambda>f.
        bindM conn (\<lambda>d.
        bindM (commit (d\<lparr>t_executions := tbl_update xr_id eid f (t_executions d)\<rparr>)) (\<lambda>_.
          if tbl_find xr_id eid (t_executions d) = None then raiseM NotFoundError else retM ()))))"

definition list_executions :: "string \<Rightarrow> execution list meta_op" where
  "list_executions wid =
     bindM conn (\<lambda>d. liftR (mapR row_to_execution
       (sort_key xr_id (filter (\<lambda>r. xr_workspace_id r = wid) (t_executions d)))))"

section \<open>Snapshots and artifacts\<close>

definition snapshot_row :: "snapshot \<Rightarrow> exn + snap_row" where
  "snapshot_row s =
     bindR (iso_required (snap_created_at s)) (\<lambda>created.
       Inr \<lparr>nr_id = snap_id s, nr_workspace_id = snap_workspace_id s, nr_name = snap_name s,
            nr_format = ''tar.zst'', nr_size_bytes = snap_size_bytes s,
            nr_parent_id = snap_parent_id s, nr_created_at = created\<rparr>)"

definition insert_snap :: "snap_row \<Rightarrow> db \<Rightarrow> db option" where
  "insert_snap r d =
     (if \<not> has_workspace (nr_workspace_id r) d then None
      else map_option (\<lambda>t. d\<lparr>t_snapshots := t\<rparr>) (tbl_insert nr_id r (t_snapshots d)))"

definition create_snapshot :: "snapshot \<Rightarrow> unit meta_op" where
  "create_snapshot s =
     bindM conn (\<lambda>d. bindM (liftR (snapshot_row s)) (\<lambda>r. integrity (insert_snap r d)))"

definition get_snapshot :: "string \<Rightarrow> snapshot meta_op" where
  "get_snapshot sid =
     bindM conn (\<lambda>d. case tbl_find nr_id sid (t_snapshots d) of
       None \<Rightarrow> raiseM NotFoundError
     | Some r \<Rightarrow> liftR (row_to_snapshot r))"

definition list_snapshots :: "string \<Rightarrow> snapshot list meta_op" where
  "list_snapshots wid =
     bindM conn (\<lambda>d. liftR (mapR row_to_snapshot
       (sort_key nr_created_at (filter (\<lambda>r. nr_workspace_id r = wid) (t_snapshots d)))))"

definition artifact_row :: "artifact \<Rightarrow> exn + art_row" where
  "artifact_row a =
     bindR (iso_required (art_created_at a)) (\<lambda>created.
       Inr \<lparr>ar_id = art_id a, ar_workspace_id = art_workspace_id a, ar_path = art_path a,
            ar_size_bytes = art_size_bytes a, ar_content_type = art_content_type a,
            ar_created_at = created\<rparr>)"

definition insert_art :: "art_row \<Rightarrow> db \<Rightarrow> db option" where
  "insert_art r d =
     (if \<not> has_workspace (ar_workspace_id r) d then None
      else map_option (\<lambda>t. d\<lparr>t_artifacts := t\<rparr>) (tbl_insert ar_id r (t_artifacts d)))"

definition create_artifact :: "artifact \<Rightarrow> unit meta_op" where
  "create_artifact a =
     bindM conn (\<lambda>d. bindM (liftR (artifact_row a)) (\<lambda>r. integrity (insert_art r d)))"

definition get_artifact :: "string \<Rightarrow> artifact meta_op" where
  "get_artifact aid =
     bindM conn (\<lambda>d. case tbl_find ar_id aid (t_artifacts d) of
       None \<Rightarrow> raiseM NotFoundError
     | Some r \<Rightarrow> liftR (row_to_artifact r))"

definition list_artifacts :: "string \<Rightarrow> artifact list meta_op" where
  "list_artifacts wid =
     bindM conn (\<lambda>d. liftR (mapR row_to_artifact
       (sort_key ar_created_at (filter (\<lambda>r. ar_workspace_id r = wid) (t_artifacts d)))))"

section \<open>Scope bindings and pool events\<close>

definition scope_pk :: "scope_row \<Rightarrow> string \<times> string" where
  "scope_pk r = (sr_kind r, sr_key r)"

text \<open>\<open>INSERT ... ON CONFLICT DO UPDATE SET workspace_id\<close>: the first creation time is kept.\<close>

definition upsert_scope :: "scope_row \<Rightarrow> db \<Rightarrow> db option" where
  "upsert_scope r d =
     (if \<not> has_workspace (sr_workspace_id r) d then None
      else Some (case tbl_insert scope_pk r (t_scopes d) of
        Some t \<Rightarrow> d\<lparr>t_scopes := t\<rparr>
      | None \<Rightarrow> d\<lparr>t_scopes := tbl_update scope_pk (scope_pk r)
          (\<lambda>q. q\<lparr>sr_workspace_id := sr_workspace_id r\<rparr>) (t_scopes d)\<rparr>))"

definition bind_scope :: "string \<Rightarrow> string \<Rightarrow> string \<Rightarrow> datetime \<Rightarrow> unit meta_op" where
  "bind_scope kind key wid now =
     bindM conn (\<lambda>d. bindM (liftR (iso_required now)) (\<lambda>ts.
       integrity (upsert_scope
         \<lparr>sr_kind = kind, sr_key = key, sr_workspace_id = wid, sr_created_at = ts\<rparr> d)))"

definition resolve_scope :: "string \<Rightarrow> string \<Rightarrow> string option meta_op" where
  "resolve_scope kind key =
     bindM conn (\<lambda>d. retM (map_option sr_workspace_id
       (tbl_find scope_pk (kind, key) (t_scopes d))))"

text \<open>\<open>INTEGER PRIMARY KEY AUTOINCREMENT\<close>: one more than the largest id ever used.\<close>

definition append_pool_event :: "string \<Rightarrow> string \<Rightarrow> json \<Rightarrow> datetime \<Rightarrow> unit meta_op" where
  "append_pool_event img kind payload ts =
     bindM conn (\<lambda>d. bindM (liftR (iso_required ts)) (\<lambda>t.
       commit (d\<lparr>t_pool_events := t_pool_events d @
         [\<lparr>pr_id = Suc (pool_event_seq d), pr_ts = t, pr_image = img, pr_kind = kind,
           pr_payload_json = payload\<rparr>],
         pool_event_seq := Suc (pool_event_seq d)\<rparr>)))"

record pool_event =
  pe_id :: nat
  pe_ts :: "datetime option"
  pe_image :: string
  pe_kind :: string
  pe_payload :: json

definition row_to_pool_event :: "pool_event_row \<Rightarrow> exn + pool_event" where
  "row_to_pool_event r =
     bindR (parse_iso_col (Some (pr_ts r))) (\<lambda>t.
       Inr \<lparr>pe_id = pr_id r, pe_ts = t, pe_image = pr_image r, pe_kind = pr_kind r,
            pe_payload = pr_payload_json r\<rparr>)"

definition list_pool_events :: "string option \<Rightarrow> int \<Rightarrow> pool_event list meta_op" where
  "list_pool_events img lmt =
     bindM conn (\<lambda>d. liftR (mapR row_to_pool_event
       (sql_limit (Some lmt) (rev (sort_key pr_id
          (case img of None \<Rightarrow> t_pool_events d
           | Some i \<Rightarrow> filter (\<lambda>r. pr_image r = i) (t_pool_events d)))))))"

end
