(* ===== verification/Workspace_Store.thy ===== *)
theory Workspace_Store
  imports Fs Models Meta_Store
begin

text \<open>
  The directories of workspaces (\<open>forge/storage/workspace_store.py\<close>) and the service that keeps
  them in step with the metastore (\<open>forge/services/workspace_service.py\<close>). The root of the store
  is a real path (it is resolved once, at construction).
\<close>

definition FORGE_META_DIR :: string where
  "FORGE_META_DIR = ''.forge''"

definition valid_workspace_id :: "string \<Rightarrow> bool" where
  "valid_workspace_id wid \<longleftrightarrow>
     \<not> (wid = [] \<or> slash \<in> set wid \<or> CHR 0x5C \<in> set wid \<or> wid = dot \<or> wid = dotdot)"

definition validate_workspace_id :: "string \<Rightarrow> unit fs_op" where
  "validate_workspace_id wid = (if valid_workspace_id wid then retM () else raiseM WorkspaceError)"

definition ws_path :: "path \<Rightarrow> string \<Rightarrow> path fs_op" where
  "ws_path base wid = bindM (validate_workspace_id wid) (\<lambda>_. retM (base @ [wid]))"

definition path_exists :: "path \<Rightarrow> fs \<Rightarrow> bool" where
  "path_exists p f \<longleftrightarrow> stat_node f p \<noteq> None"

definition path_is_dir :: "path \<Rightarrow> fs \<Rightarrow> bool" where
  "path_is_dir p f \<longleftrightarrow> stat_node f p = Some Dir"

definition path_is_file :: "path \<Rightarrow> fs \<Rightarrow> bool" where
  "path_is_file p f \<longleftrightarrow> (case stat_node f p of Some (File b) \<Rightarrow> True | _ \<Rightarrow> False)"

text \<open>An operation on a path the kernel resolves first.\<close>

definition at_path :: "(path \<Rightarrow> 'a fs_op) \<Rightarrow> path \<Rightarrow> 'a fs_op" where
  "at_path m p = (\<lambda>f. m (resolve_path f p) f)"

text \<open>\<open>mkdir(parents=True)\<close>: an existing entry, if only a dangling link, is an error.\<close>

definition mkdir_new :: "path \<Rightarrow> unit fs_op" where
  "mkdir_new p = (\<lambda>f. if look f p \<noteq> None then (Inl OSError, f) else mkdir_p p f)"

definition ws_create :: "path \<Rightarrow> string \<Rightarrow> path fs_op" where
  "ws_create base wid =
     bindM (ws_path base wid) (\<lambda>d f.
       if path_exists d f then (Inl WorkspaceError, f)
       else bindM (mkdir_new d) (\<lambda>_.
            bindM (mkdir_p (d @ [FORGE_META_DIR, ''exec''])) (\<lambda>_. retM d)) f)"

definition ws_delete :: "path \<Rightarrow> string \<Rightarrow> unit fs_op" where
  "ws_delete base wid =
     bindM (ws_path base wid) (\<lambda>d f. if \<not> path_exists d f then (Inr (), f) else rmtree d f)"

definition ws_exists :: "path \<Rightarrow> string \<Rightarrow> bool fs_op" where
  "ws_exists base wid = bindM (ws_path base wid) (\<lambda>d f. (Inr (path_is_dir d f), f))"

section \<open>The service\<close>

text \<open>What the services share: the metastore and the host file system.\<close>

record stores =
  st_meta :: metastore
  st_fs :: fs

type_synonym 'a svc_op = "(stores, exn, 'a) op"

definition on_meta :: "'a meta_op \<Rightarrow> 'a svc_op" where
  "on_meta m = focusM st_meta (\<lambda>x s. s\<lparr>st_meta := x\<rparr>) m"

definition on_fs :: "'a fs_op \<Rightarrow> 'a svc_op" where
  "on_fs m = focusM st_fs (\<lambda>x s. s\<lparr>st_fs := x\<rparr>) m"

text \<open>The new id comes from \<open>uuid4\<close>; it and the clock are arguments.\<close>

definition workspace_id :: "string \<Rightarrow> string" where
  "workspace_id hex = ''ws_'' @ take 12 hex"

definition service_create ::
  "path \<Rightarrow> string \<Rightarrow> datetime \<Rightarrow> workspace_spec \<Rightarrow> string option \<Rightarrow> dict option \<Rightarrow> workspace svc_op" where
  "service_create base hex now spec name metadata =
     (let wid = workspace_id hex;
          ws = \<lparr>ws_id = wid, ws_spec = spec, ws_status = WsReady, ws_name = name,
                ws_metadata = (case metadata of None \<Rightarrow> [] | Some m \<Rightarrow> m),
                ws_created_at = now, ws_updated_at = now\<rparr>
      in bindM (on_fs (ws_create base wid)) (\<lambda>_.
         bindM (catchM (on_meta (create_workspace ws)) (\<lambda>e. is_instance e PyException)
           (\<lambda>e. bindM (on_fs (ws_delete base wid)) (\<lambda>_. raiseM e)))
         (\<lambda>_. retM ws)))"

definition service_get :: "string \<Rightarrow> workspace svc_op" where
  "service_get wid = on_meta (get_workspace wid)"

definition service_list :: "string option \<Rightarrow> int option \<Rightarrow> workspace list svc_op" where
  "service_list st lmt = on_meta (list_workspaces st lmt)"

definition service_delete :: "path \<Rightarrow> string \<Rightarrow> datetime \<Rightarrow> unit svc_op" where
  "service_delete base wid now =
     bindM (on_meta (get_workspace wid)) (\<lambda>_.
     bindM (on_meta (update_workspace_status wid (workspace_status_str WsDeleting) now)) (\<lambda>_.
     bindM (catchM (on_fs (ws_delete base wid)) (\<lambda>e. is_instance e OSError)
       (\<lambda>_. raiseM WorkspaceError)) (\<lambda>_.
     on_meta (delete_workspace wid))))"

end
