(* ===== verification/Glob.thy ===== *)
theory Glob
  imports Fs
begin

text \<open>
  The pattern language of the files service: \<open>fnmatch\<close> patterns, and patterns in which \<open>**\<close>
  stands for any number of path components. The regular expressions the code builds are modelled
  by the tokens they consist of and the language these denote. In a translated \<open>fnmatch\<close> part a
  star or a question mark also matches a slash or a line feed; in the text that \<open>**\<close> stands for a
  line feed is not matched.
\<close>

datatype gtok =
    GLit char
  | GAny
  | GStar
  | GClass bool "(char \<times> char) list"
  | GDirs
  | GDirsIn
  | GRest

definition newline :: char where "newline = CHR 0x0A"

definition in_class :: "(char \<times> char) list \<Rightarrow> char \<Rightarrow> bool" where
  "in_class rs c \<longleftrightarrow> list_ex (\<lambda>(lo, hi). lo \<le> c \<and> c \<le> hi) rs"

text \<open>\<open>GDirs\<close> is \<open>(?:.*/)?\<close>, \<open>GDirsIn\<close> is \<open>.*/\<close> and \<open>GRest\<close> is \<open>.*\<close>.\<close>

fun gmatches :: "gtok list \<Rightarrow> string \<Rightarrow> bool" where
  "gmatches [] s = (s = [])"
| "gmatches (GLit c # ts) s = (case s of [] \<Rightarrow> False | x # xs \<Rightarrow> x = c \<and> gmatches ts xs)"
| "gmatches (GAny # ts) s = (case s of [] \<Rightarrow> False | x # xs \<Rightarrow> gmatches ts xs)"
| "gmatches (GStar # ts) s =
     (gmatches ts s \<or> (case s of [] \<Rightarrow> False | x # xs \<Rightarrow> gmatches (GStar # ts) xs))"
| "gmatches (GClass neg rs # ts) s =
     (case s of [] \<Rightarrow> False | x # xs \<Rightarrow> in_class rs x \<noteq> neg \<and> gmatches ts xs)"
| "gmatches (GDirs # ts) s =
     (gmatches ts s \<or> (case s of [] \<Rightarrow> False | x # xs \<Rightarrow>
        x = slash \<and> gmatches ts xs \<or> x \<noteq> newline \<and> gmatches (GDirsIn # ts) xs))"
| "gmatches (GDirsIn # ts) s =
     (case s of [] \<Rightarrow> False | x # xs \<Rightarrow>
        x = slash \<and> gmatches ts xs \<or> x \<noteq> newline \<and> gmatches (GDirsIn # ts) xs)"
| "gmatches (GRest # ts) s =
     (gmatches ts s \<or> (case s of [] \<Rightarrow> False | x # xs \<Rightarrow> x \<noteq> newline \<and> gmatches (GRest # ts) xs))"

section \<open>Translating patterns\<close>

text \<open>
  A bracket expression after its opening bracket: its content and what follows, or none when it
  is not closed. A closing bracket right after the opening one (or its negation) is an element.
\<close>

definition split_class :: "string \<Rightarrow> (string \<times> string) option" where
  "split_class s =
     (let a = (if s \<noteq> [] \<and> hd s = CHR ''!'' then 1 else 0);
          b = (if a < length s \<and> s ! a = CHR '']'' then Suc a else a);
          n = b + length (takeWhile (\<lambda>c. c \<noteq> CHR '']'') (drop b s))
      in if n < length s then Some (take n s, drop (Suc n) s) else None)"

fun class_items :: "string \<Rightarrow> (char \<times> char) list" where
  "class_items (x # m # y # cs) =
     (if m = CHR ''-'' then (x, y) # class_items cs else (x, x) # class_items (m # y # cs))"
| "class_items (x # cs) = (x, x) # class_items cs"
| "class_items [] = []"

definition class_tok :: "string \<Rightarrow> gtok" where
  "class_tok s =
     (if s \<noteq> [] \<and> hd s = CHR ''!'' then GClass True (class_items (tl s)) else GClass False (class_items s))"

lemma split_class_shorter: "split_class s = Some (a, b) \<Longrightarrow> length b < length s"
  by (auto simp: split_class_def Let_def split: if_splits)

text \<open>\<open>fnmatch.translate\<close>.\<close>

function fn_translate :: "string \<Rightarrow> gtok list" where
  "fn_translate [] = []"
| "fn_translate (c # cs) =
     (if c = CHR ''*'' then GStar # fn_translate cs
      else if c = CHR ''?'' then GAny # fn_translate cs
      else if c = CHR ''['' then
        (case split_class cs of
           None \<Rightarrow> GLit c # fn_translate cs
         | Some (body, rest) \<Rightarrow> class_tok body # fn_translate rest)
      else GLit c # fn_translate cs)"
  by pat_completeness auto
termination
  by (relation "measure length") (auto dest: split_class_shorter)

text \<open>\<open>_glob_to_regex\<close>, part by part.\<close>

fun glob_tokens :: "string list \<Rightarrow> gtok list" where
  "glob_tokens [] = []"
| "glob_tokens [part] = (if part = ''**'' then [GRest] else fn_translate part)"
| "glob_tokens (part # q # qs) =
     (if part = ''**'' then GDirs # glob_tokens (q # qs)
      else fn_translate part @ GLit slash # glob_tokens (q # qs))"

definition double_star :: "string \<Rightarrow> bool" where
  "double_star pat \<longleftrightarrow> sublist ''**'' pat"

definition glob_match :: "string \<Rightarrow> string \<Rightarrow> bool" where
  "glob_match rel pat =
     (if pat = ''**'' \<or> pat = ''**/*'' then True
      else if double_star pat then gmatches (glob_tokens (split_on slash pat)) rel
      else gmatches (fn_translate pat) rel)"

section \<open>Plain patterns\<close>

definition plain :: "string \<Rightarrow> bool" where
  "plain s \<longleftrightarrow> list_all (\<lambda>c. c \<noteq> CHR ''*'' \<and> c \<noteq> CHR ''?'' \<and> c \<noteq> CHR ''['') s"

lemma fn_translate_plain: "plain s \<Longrightarrow> fn_translate s = map GLit s"
  by (induction s) (auto simp: plain_def)

lemma gmatches_lits: "gmatches (map GLit s @ ts) r \<longleftrightarrow> (\<exists>t. r = s @ t \<and> gmatches ts t)"
proof (induction s arbitrary: r)
  case (Cons c s)
  then show ?case by (cases r) auto
qed simp

lemma gmatches_plain: "plain s \<Longrightarrow> gmatches (fn_translate s) r \<longleftrightarrow> r = s"
  using gmatches_lits [of s "[]" r] by (simp add: fn_translate_plain)

lemma gmatches_DirsIn:
  "gmatches (GDirsIn # ts) r \<longleftrightarrow> (\<exists>d t. r = d @ slash # t \<and> newline \<notin> set d \<and> gmatches ts t)"
proof (induction r)
  case (Cons c r)
  show ?case
  proof
    assume "gmatches (GDirsIn # ts) (c # r)"
    then consider "c = slash" "gmatches ts r" | "c \<noteq> newline" "gmatches (GDirsIn # ts) r" by auto
    then show "\<exists>d t. c # r = d @ slash # t \<and> newline \<notin> set d \<and> gmatches ts t"
    proof cases
      case 1
      then show ?thesis by (intro exI [of _ "[]"] exI [of _ r]) simp
    next
      case 2
      with Cons obtain d t where "r = d @ slash # t" "newline \<notin> set d" "gmatches ts t" by blast
      with 2 show ?thesis by (intro exI [of _ "c # d"] exI [of _ t]) auto
    qed
  next
    assume "\<exists>d t. c # r = d @ slash # t \<and> newline \<notin> set d \<and> gmatches ts t"
    then obtain d t where d: "c # r = d @ slash # t" "newline \<notin> set d" "gmatches ts t" by blast
    then show "gmatches (GDirsIn # ts) (c # r)"
      using Cons by (cases d) auto
  qed
qed simp

lemma gmatches_Dirs:
  "gmatches (GDirs # ts) r \<longleftrightarrow>
    gmatches ts r \<or> (\<exists>d t. r = d @ slash # t \<and> newline \<notin> set d \<and> gmatches ts t)"
  using gmatches_DirsIn [of ts r] by (cases r) auto

lemma split_on_none: "c \<notin> set s \<Longrightarrow> split_on c s = [s]"
  by (induction s) auto

lemma split_on_append: "c \<notin> set s \<Longrightarrow> split_on c (s @ c # t) = s # split_on c t"
  by (induction s) auto

text \<open>
  \<open>**/name\<close>: the paths whose last components are \<open>name\<close>, in the root or below any directory.
\<close>

lemma glob_match_anywhere:
  assumes "plain name" and "slash \<notin> set name" and "name \<noteq> []"
  shows "glob_match rel (''**/'' @ name) \<longleftrightarrow>
    rel = name \<or> (\<exists>d. rel = d @ slash # name \<and> newline \<notin> set d)"
proof -
  have s: "split_on slash (''**/'' @ name) = [''**'', name]"
    using split_on_append [of slash "''**''" name] split_on_none [OF assms(2)]
    by (simp add: slash_def)
  have n: "name \<noteq> ''**''" "name \<noteq> ''*''" using assms(1) by (auto simp: plain_def)
  have "double_star (''**/'' @ name)" by (simp add: double_star_def sublist_def) blast
  then have "glob_match rel (''**/'' @ name) \<longleftrightarrow> gmatches (GDirs # fn_translate name) rel"
    using n by (simp add: glob_match_def s [simplified])
  then show ?thesis unfolding gmatches_Dirs using gmatches_plain [OF assms(1)] by blast
qed

end
