(* ===== verification/Files.thy ===== *)
theory Files
  imports Workspace_Store Glob
begin

text \<open>
  \<open>forge/services/files_service.py\<close>: the file operations on a workspace. Text is a list of code
  points, content a list of bytes. What the operating system reports of a path beyond the model
  (the size of a directory, modification times) and Python's regular expressions are arguments.
\<close>

definition MAX_READ_BYTES :: int where "MAX_READ_BYTES = 5 * 1024 * 1024"
definition MAX_GLOB_MATCHES :: nat where "MAX_GLOB_MATCHES = 5000"
definition MAX_GREP_MATCHES :: int where "MAX_GREP_MATCHES = 2000"
definition DEFAULT_READ_LIMIT :: int where "DEFAULT_READ_LIMIT = 2000"

record grep_match =
  gm_path :: string
  gm_line :: nat
  gm_text :: ustr

record upload_item =
  up_path :: string
  up_content_b64 :: string

section \<open>Path validation\<close>

text \<open>
  A resolved path is looked up as it is (\<open>node_at\<close>): no component of it is a symbolic link, or it
  is one of a loop, which the kernel refuses to follow, so that \<open>exists()\<close> is false. The entries of a
  directory are not resolved; the kernel follows them (\<open>stat_node\<close>).
\<close>

definition workspace_root :: "path \<Rightarrow> string \<Rightarrow> path fs_op" where
  "workspace_root base wid =
     bindM (ws_path base wid) (\<lambda>d f.
       let rdir = resolve_path f d in
       if node_at f rdir = Some Dir then (Inr rdir, f) else (Inl WorkspaceError, f))"

definition ensure_within :: "path \<Rightarrow> path \<Rightarrow> unit fs_op" where
  "ensure_within candidate rdir =
     (if \<not> prefix rdir candidate then raiseM PathEscapeError
      else if \<not> prefix (host_str rdir) (host_str candidate) then raiseM PathEscapeError
      else retM ())"

definition resolve_user :: "path \<Rightarrow> string \<Rightarrow> string \<Rightarrow> path fs_op" where
  "resolve_user base wid user_path =
     (if is_absolute user_path then raiseM PathEscapeError
      else bindM (workspace_root base wid) (\<lambda>rdir.
           bindM (\<lambda>f. (Inr (resolve_path f (rdir @ pure_parts user_path)), f)) (\<lambda>candidate.
           bindM (ensure_within candidate rdir) (\<lambda>_. retM candidate))))"

definition in_meta_dir :: "path \<Rightarrow> path \<Rightarrow> bool" where
  "in_meta_dir rdir p \<longleftrightarrow> prefix (rdir @ [FORGE_META_DIR]) p"

definition resolve_for_read :: "path \<Rightarrow> string \<Rightarrow> string \<Rightarrow> path fs_op" where
  "resolve_for_read base wid user_path =
     bindM (resolve_user base wid user_path) (\<lambda>resolved.
     bindM (workspace_root base wid) (\<lambda>rdir.
       if \<not> prefix rdir resolved then raiseM PathEscapeError
       else if in_meta_dir rdir resolved then raiseM PathEscapeError
       else retM resolved))"

section \<open>Operations\<close>

text \<open>The path of a host path relative to the root, as text, and its first component.\<close>

definition rel_posix :: "path \<Rightarrow> path \<Rightarrow> string" where
  "rel_posix rdir p = as_posix (drop (length rdir) p)"

definition reserved :: "path \<Rightarrow> path \<Rightarrow> bool" where
  "reserved rdir p \<longleftrightarrow> hd (split_on slash (rel_posix rdir p)) = FORGE_META_DIR"

type_synonym os_stat = "path \<Rightarrow> nat \<times> datetime"

definition list_entry :: "os_stat \<Rightarrow> path \<Rightarrow> path \<Rightarrow> fs \<Rightarrow> exn + file_list_entry" where
  "list_entry os rdir child f =
     (case follow f child of
        None \<Rightarrow> Inl OSError
      | Some dest \<Rightarrow>
          (case node_at f dest of
             None \<Rightarrow> Inl OSError
           | Some n \<Rightarrow> Inr
               \<lparr>fle_name = last child, fle_path = rel_posix rdir child, fle_is_dir = (n = Dir),
                fle_size_bytes = (case n of File b \<Rightarrow> length b | _ \<Rightarrow> fst (os dest)),
                fle_modified_at = snd (os dest)\<rparr>))"

definition ls :: "os_stat \<Rightarrow> path \<Rightarrow> string \<Rightarrow> string \<Rightarrow> file_list_entry list fs_op" where
  "ls os base wid path =
     bindM (resolve_for_read base wid path) (\<lambda>target f.
       if node_at f target = None then (Inl WorkspaceError, f)
       else if node_at f target \<noteq> Some Dir then (Inl WorkspaceError, f)
       else bindM (workspace_root base wid) (\<lambda>rdir.
         liftR (mapR (\<lambda>child. list_entry os rdir child f)
           (filter (\<lambda>child. \<not> reserved rdir child)
             (map (\<lambda>n. target @ [n]) (sort (entries f target)))))) f)"

text \<open>A Python slice \<open>xs[i:j]\<close> with a non-negative start; a negative end counts from the back.\<close>

definition slice :: "int \<Rightarrow> int \<Rightarrow> 'a list \<Rightarrow> 'a list" where
  "slice i j xs =
     (let stop = (if j < 0 then j + int (length xs) else j)
      in take (nat (stop - i)) (drop (nat i) xs))"

definition binary :: "bytes \<Rightarrow> bool" where
  "binary b \<longleftrightarrow> 0 \<in> set b"

definition read_window :: "int \<Rightarrow> int option \<Rightarrow> ustr \<Rightarrow> exn + ustr \<times> nat \<times> bool" where
  "read_window offset lmt text =
     (let lines = splitlines_keep text; total = length lines in
      if offset < 0 then Inl WorkspaceError
      else Inr (concat (case lmt of None \<Rightarrow> drop (nat offset) lines
                        | Some n \<Rightarrow> slice offset (offset + n) lines),
                total,
                (case lmt of None \<Rightarrow> False | Some n \<Rightarrow> offset + n < int total)))"

definition read_file ::
  "path \<Rightarrow> string \<Rightarrow> string \<Rightarrow> int \<Rightarrow> int option \<Rightarrow> int \<Rightarrow> (ustr \<times> nat \<times> bool) fs_op" where
  "read_file base wid path offset lmt max_bytes =
     bindM (resolve_for_read base wid path) (\<lambda>target f.
       case node_at f target of
         Some (File raw) \<Rightarrow>
           (if int (length raw) > max_bytes then (Inl WorkspaceError, f)
            else if binary raw then (Inl WorkspaceError, f)
            else (read_window offset lmt (utf8_decode_replace raw), f))
       | _ \<Rightarrow> (Inl WorkspaceError, f))"

definition write_file :: "path \<Rightarrow> string \<Rightarrow> string \<Rightarrow> ustr \<Rightarrow> unit fs_op" where
  "write_file base wid path content =
     bindM (resolve_user base wid path) (\<lambda>target.
     bindM (workspace_root base wid) (\<lambda>rdir.
       if in_meta_dir rdir target then raiseM PathEscapeError
       else bindM (mkdir_p (butlast target)) (\<lambda>_. write_text target content)))"

definition edit_text :: "ustr \<Rightarrow> ustr \<Rightarrow> bool \<Rightarrow> ustr \<Rightarrow> exn + ustr \<times> nat" where
  "edit_text old_string new_string replace_all text =
     (let count = count_sub old_string text in
      if count = 0 then Inl WorkspaceError
      else if \<not> replace_all \<and> count > 1 then Inl WorkspaceError
      else if replace_all then Inr (replace_every old_string new_string text, count)
      else Inr (replace_n old_string new_string 1 text, 1))"

definition edit_file ::
  "path \<Rightarrow> string \<Rightarrow> string \<Rightarrow> ustr \<Rightarrow> ustr \<Rightarrow> bool \<Rightarrow> nat fs_op" where
  "edit_file base wid path old_string new_string replace_all =
     bindM (resolve_for_read base wid path) (\<lambda>target f.
       case node_at f target of
         Some (File raw) \<Rightarrow>
           (case utf8_decode raw of
              None \<Rightarrow> (Inl UnicodeError, f)
            | Some s \<Rightarrow>
                bindM (liftR (edit_text old_string new_string replace_all (translate_newlines s)))
                  (\<lambda>(new_text, replacements).
                     bindM (write_text target new_text) (\<lambda>_. retM replacements)) f)
       | _ \<Rightarrow> (Inl WorkspaceError, f))"

text \<open>\<open>pattern.lstrip("./")\<close> strips any mixture of leading dots and slashes.\<close>

definition lstrip_dot_slash :: "string \<Rightarrow> string" where
  "lstrip_dot_slash s = dropWhile (\<lambda>c. c = CHR ''.'' \<or> c = slash) s"

definition glob_files :: "path \<Rightarrow> string \<Rightarrow> string \<Rightarrow> string list fs_op" where
  "glob_files base wid pattern =
     bindM (workspace_root base wid) (\<lambda>rdir f.
       (Inr (sort (take MAX_GLOB_MATCHES
          (filter (\<lambda>rel. glob_match rel (lstrip_dot_slash pattern))
            (map (rel_posix rdir) (filter (\<lambda>p. \<not> reserved rdir p) (walk f rdir)))))), f))"

text \<open>The matching lines of one text, numbered from one.\<close>

definition grep_text :: "(ustr \<Rightarrow> bool) \<Rightarrow> string \<Rightarrow> ustr \<Rightarrow> grep_match list" where
  "grep_text search rel text =
     map (\<lambda>(i, l). \<lparr>gm_path = rel, gm_line = i, gm_text = l\<rparr>)
       (filter (\<lambda>(i, l). search l) (enumerate 1 (splitlines text)))"

definition grep_path :: "(ustr \<Rightarrow> bool) \<Rightarrow> string option \<Rightarrow> path \<Rightarrow> fs \<Rightarrow> path \<Rightarrow> grep_match list" where
  "grep_path search path_glob rdir f p =
     (case stat_node f p of
        Some (File raw) \<Rightarrow>
          (if reserved rdir p then []
           else if (case path_glob of None \<Rightarrow> False | Some g \<Rightarrow> \<not> glob_match (rel_posix rdir p) g) then []
           else if binary raw then []
           else grep_text search (rel_posix rdir p) (utf8_decode_replace raw))
      | _ \<Rightarrow> [])"

text \<open>The search stops once \<open>max_matches\<close> are found, but not before the first.\<close>

definition grep_files ::
  "(string \<Rightarrow> (ustr \<Rightarrow> bool) option) \<Rightarrow> path \<Rightarrow> string \<Rightarrow> string \<Rightarrow> string option \<Rightarrow> int \<Rightarrow>
    grep_match list fs_op" where
  "grep_files compile base wid pattern path_glob max_matches =
     (case compile pattern of
        None \<Rightarrow> raiseM WorkspaceError
      | Some search \<Rightarrow>
          bindM (workspace_root base wid) (\<lambda>rdir f.
            (Inr (take (max 1 (nat max_matches))
               (concat (map (grep_path search path_glob rdir f) (walk f rdir)))), f)))"

definition delete_path :: "path \<Rightarrow> string \<Rightarrow> string \<Rightarrow> unit fs_op" where
  "delete_path base wid path =
     bindM (resolve_user base wid path) (\<lambda>target.
     bindM (workspace_root base wid) (\<lambda>rdir.
       if target = rdir then raiseM WorkspaceError
       else if in_meta_dir rdir target then raiseM PathEscapeError
       else (\<lambda>f.
         if node_at f target = None then (Inr (), f)
         else if node_at f target = Some Dir
         then catchM (rmdir target) (\<lambda>e. is_instance e OSError) (\<lambda>_. raiseM WorkspaceError) f
         else unlink target f)))"

definition upload_one :: "path \<Rightarrow> string \<Rightarrow> upload_item \<Rightarrow> string fs_op" where
  "upload_one base wid item =
     bindM (resolve_user base wid (up_path item)) (\<lambda>target.
     bindM (workspace_root base wid) (\<lambda>rdir.
       if in_meta_dir rdir target then raiseM PathEscapeError
       else (case b64decode (up_content_b64 item) of
          None \<Rightarrow> raiseM WorkspaceError
        | Some blob \<Rightarrow>
            bindM (mkdir_p (butlast target)) (\<lambda>_.
            bindM (write_bytes target blob) (\<lambda>_. retM (rel_posix rdir target))))))"

fun upload_files :: "path \<Rightarrow> string \<Rightarrow> upload_item list \<Rightarrow> string list fs_op" where
  "upload_files base wid [] = retM []"
| "upload_files base wid (item # items) =
     bindM (upload_one base wid item) (\<lambda>p.
     bindM (upload_files base wid items) (\<lambda>ps. retM (p # ps)))"

definition download_one :: "path \<Rightarrow> string \<Rightarrow> string \<Rightarrow> upload_item fs_op" where
  "download_one base wid path =
     bindM (resolve_for_read base wid path) (\<lambda>target f.
       case node_at f target of
         Some (File blob) \<Rightarrow> (Inr \<lparr>up_path = path, up_content_b64 = b64encode blob\<rparr>, f)
       | _ \<Rightarrow> (Inl WorkspaceError, f))"

fun download_files :: "path \<Rightarrow> string \<Rightarrow> string list \<Rightarrow> upload_item list fs_op" where
  "download_files base wid [] = retM []"
| "download_files base wid (p # ps) =
     bindM (download_one base wid p) (\<lambda>i.
     bindM (download_files base wid ps) (\<lambda>is. retM (i # is)))"

end
