(* ===== verification/Files_Laws.thy ===== *)
theory Files_Laws
  imports Files
begin

text \<open>
  What the files service keeps: every operation stays inside the workspace and out of the reserved
  directory. The contract of path validation is a locale, which the two validators of the service
  provide; its client lemmas are what the operations rest on.
\<close>

section \<open>Path validation as a contract\<close>

definition inside :: "path \<Rightarrow> fs \<Rightarrow> fs \<Rightarrow> bool" where
  "inside r f f' \<longleftrightarrow> (\<forall>q. \<not> prefix r q \<or> in_meta_dir r q \<longrightarrow> look f' q = look f q)"

lemma inside_refl [simp]: "inside r f f"
  by (simp add: inside_def)

lemma inside_trans: "inside r f g \<Longrightarrow> inside r g h \<Longrightarrow> inside r f h"
  by (simp add: inside_def)

locale path_jail =
  fixes check :: "string \<Rightarrow> path fs_op"
    and area :: "fs \<Rightarrow> path option"
    and allowed :: "path \<Rightarrow> path \<Rightarrow> bool"
  assumes check_state: "snd (check u f) = f"
    and check_area: "check u f = (Inr p, f) \<Longrightarrow> \<exists>r. area f = Some r \<and> prefix r p \<and> allowed r p"
    and area_dir: "area f = Some r \<Longrightarrow> look f r = Some Dir"
begin

lemma check_cases:
  obtains (refused) e where "check u f = (Inl e, f)"
    | (granted) p r where "check u f = (Inr p, f)" "area f = Some r" "prefix r p" "allowed r p"
proof (cases "fst (check u f)")
  case (Inl e)
  then have "check u f = (Inl e, f)" using check_state [of u f] by (metis prod.collapse)
  then show thesis by (rule refused)
next
  case (Inr p)
  then have "check u f = (Inr p, f)" using check_state [of u f] by (metis prod.collapse)
  with check_area granted show thesis by blast
qed

lemma confined:
  assumes "\<And>p r. check u f = (Inr p, f) \<Longrightarrow> area f = Some r \<Longrightarrow> prefix r p \<Longrightarrow> allowed r p \<Longrightarrow>
      look f r = Some Dir \<Longrightarrow> inside r f (snd (act p f)) \<and> wf_fs (snd (act p f))"
    and "wf_fs f" and "area f = Some r"
  shows "wf_fs (snd (bindM (check u) act f)) \<and> inside r f (snd (bindM (check u) act f))"
  using assms
  by (cases rule: check_cases [of u f]) (auto simp: op_simps area_dir)

lemma refused_without_area:
  "area f = None \<Longrightarrow> snd (bindM (check u) act f) = f"
  by (cases rule: check_cases [of u f]) (auto simp: op_simps)

end

definition root_of :: "path \<Rightarrow> string \<Rightarrow> fs \<Rightarrow> path option" where
  "root_of base wid f = (case fst (workspace_root base wid f) of Inr r \<Rightarrow> Some r | Inl e \<Rightarrow> None)"

lemma workspace_root_apply:
  "workspace_root base wid f =
    (if \<not> valid_workspace_id wid then (Inl WorkspaceError, f)
     else if node_at f (resolve_path f (base @ [wid])) = Some Dir
     then (Inr (resolve_path f (base @ [wid])), f) else (Inl WorkspaceError, f))"
  by (simp add: workspace_root_def ws_path_def validate_workspace_id_def op_simps Let_def)

lemma workspace_root_state [simp]: "snd (workspace_root base wid f) = f"
  by (simp add: workspace_root_apply)

lemma workspace_root_root_of:
  "workspace_root base wid f = (case root_of base wid f of Some r \<Rightarrow> (Inr r, f) | None \<Rightarrow> (Inl WorkspaceError, f))"
  by (simp add: root_of_def workspace_root_apply)

lemma node_at_Dir [simp]: "node_at f p = Some Dir \<longleftrightarrow> look f p = Some Dir"
  by (auto simp: node_at_def split: option.split node.split)

lemma node_at_File [simp]: "node_at f p = Some (File b) \<longleftrightarrow> look f p = Some (File b)"
  by (auto simp: node_at_def split: option.split node.split)

lemma root_of_dir: "root_of base wid f = Some r \<Longrightarrow> look f r = Some Dir"
  by (auto simp: root_of_def workspace_root_apply split: if_splits)

lemma resolve_user_apply:
  "resolve_user base wid u f =
    (if is_absolute u then (Inl PathEscapeError, f)
     else (case root_of base wid f of
        None \<Rightarrow> (Inl WorkspaceError, f)
      | Some r \<Rightarrow> let c = resolve_path f (r @ pure_parts u) in
          if prefix r c \<and> prefix (host_str r) (host_str c) then (Inr c, f) else (Inl PathEscapeError, f)))"
  by (simp add: resolve_user_def op_simps workspace_root_root_of ensure_within_def Let_def split: option.split)

lemma resolve_for_read_apply:
  "resolve_for_read base wid u f =
    (case resolve_user base wid u f of
       (Inl e, f') \<Rightarrow> (Inl e, f')
     | (Inr c, f') \<Rightarrow> (case root_of base wid f of None \<Rightarrow> (Inl WorkspaceError, f)
         | Some r \<Rightarrow> if in_meta_dir r c then (Inl PathEscapeError, f) else (Inr c, f)))"
  by (auto simp: resolve_for_read_def op_simps workspace_root_root_of resolve_user_apply Let_def
      split: option.split)

interpretation any_jail: path_jail "resolve_user base wid" "root_of base wid" "\<lambda>r p. True" for base wid
  by unfold_locales (auto simp: resolve_user_apply Let_def root_of_dir split: option.splits if_splits)

interpretation read_jail: path_jail "resolve_for_read base wid" "root_of base wid" "\<lambda>r p. \<not> in_meta_dir r p"
  for base wid
  by unfold_locales (auto simp: resolve_for_read_apply resolve_user_apply Let_def root_of_dir
      split: option.splits if_splits)


section \<open>The operations stay inside\<close>

lemma write_bytes_look: "q \<noteq> p \<Longrightarrow> look (snd (write_bytes p b f)) q = look f q"
  by (auto simp: write_bytes_def split: option.split node.split)

lemma write_text_look: "q \<noteq> p \<Longrightarrow> look (snd (write_text p s f)) q = look f q"
  using write_bytes_look [of q p "[]" f] write_bytes_look [of q p "the (utf8_encode s)" f]
  by (auto simp: write_text_def op_simps split: option.split prod.splits sum.splits)

lemma unlink_look: "q \<noteq> p \<Longrightarrow> look (snd (unlink p f)) q = look f q"
  by (cases "p = []") (auto simp: unlink_def split: option.split node.split)

lemma rmdir_look: "q \<noteq> p \<Longrightarrow> look (snd (rmdir p f)) q = look f q"
  by (auto simp: rmdir_def)

lemma mkdir_p_look: "\<not> prefix q p \<Longrightarrow> look (snd (mkdir_p p f)) q = look f q"
  using look_mkdirs [of "[]" p f _ q] by (auto simp: mkdir_p_def split: sum.split)

lemma in_meta_dir_prefix: "in_meta_dir r q \<Longrightarrow> prefix q p \<Longrightarrow> in_meta_dir r p"
  by (auto simp: in_meta_dir_def dest: prefix_order.trans)

lemma inside_mkdir_p:
  assumes "wf_fs f" and "look f r = Some Dir" and "prefix r p" and "\<not> in_meta_dir r p"
  shows "inside r f (snd (mkdir_p (butlast p) f)) \<and> wf_fs (snd (mkdir_p (butlast p) f))"
proof (cases "prefix r (butlast p)")
  case True
  have "look (snd (mkdir_p (butlast p) f)) q = look f q" if "in_meta_dir r q" for q
    using that assms(4) in_meta_dir_prefix prefix_order.trans [OF _ prefixeq_butlast]
    by (intro mkdir_p_look) blast
  with mkdir_p_frame [OF assms(1,2) True] show ?thesis
    by (auto simp: inside_def same_outside_def)
next
  case False
  with assms(3) have "p = r" by (metis append_butlast_last_id butlast.simps(1) prefix_snoc)
  have dirs: "look f q = Some Dir" if "prefix q (butlast r)" for q
  proof -
    have "q = r \<or> strict_prefix q r"
      using prefix_order.trans [OF that prefixeq_butlast] by (auto simp: strict_prefix_def)
    with assms(2) prefix_dir [OF assms(1), of r q] show ?thesis by auto
  qed
  have "look (snd (mkdir_p (butlast r) f)) q = look f q" for q
    using look_mkdirs [of "[]" "butlast r" f _ q]
    by (auto simp: mkdir_p_def split: sum.split dest: dirs)
  moreover have "wf_fs (snd (mkdir_p (butlast r) f))"
    using wf_mkdirs [OF assms(1), of "[]" "butlast r"] assms(1)
    by (auto simp: mkdir_p_def split: sum.split)
  ultimately show ?thesis using \<open>p = r\<close> by (simp add: inside_def)
qed

lemma inside_one:
  assumes "\<And>q. q \<noteq> p \<Longrightarrow> look f' q = look f q" and "prefix r p" and "\<not> in_meta_dir r p"
  shows "inside r f f'"
  using assms unfolding inside_def by metis

lemma inside_mkdir_then:
  assumes "wf_fs f" and "look f r = Some Dir" and "prefix r p" and "\<not> in_meta_dir r p"
    and "\<And>g. wf_fs g \<Longrightarrow> inside r g (snd (act g)) \<and> wf_fs (snd (act g))"
  shows "inside r f (snd (bindM (mkdir_p (butlast p)) (\<lambda>_. act) f)) \<and>
    wf_fs (snd (bindM (mkdir_p (butlast p)) (\<lambda>_. act) f))"
  using inside_mkdir_p [OF assms(1-4)] assms(5)
  by (auto simp: op_simps split: prod.splits sum.splits intro: inside_trans)

lemma inside_write_text:
  assumes "wf_fs g" and "prefix r p" and "\<not> in_meta_dir r p"
  shows "inside r g (snd (write_text p s g)) \<and> wf_fs (snd (write_text p s g))"
  using write_text_frame [OF assms(1,2)] write_text_look assms by (blast intro: inside_one)

lemma inside_write_bytes:
  assumes "wf_fs g" and "prefix r p" and "\<not> in_meta_dir r p"
  shows "inside r g (snd (write_bytes p s g)) \<and> wf_fs (snd (write_bytes p s g))"
  using write_bytes_frame [OF assms(1,2)] write_bytes_look assms by (blast intro: inside_one)

lemma write_file_inside:
  assumes "wf_fs f" and "root_of base wid f = Some r"
  shows "wf_fs (snd (write_file base wid u c f)) \<and> inside r f (snd (write_file base wid u c f))"
  unfolding write_file_def
proof (rule any_jail.confined [OF _ assms])
  fix p r assume "root_of base wid f = Some r" "prefix r p" "look f r = Some Dir"
  then show "inside r f (snd (bindM (workspace_root base wid) (\<lambda>rd.
        if in_meta_dir rd p then raiseM PathEscapeError
        else bindM (mkdir_p (butlast p)) (\<lambda>_. write_text p c)) f)) \<and>
      wf_fs (snd (bindM (workspace_root base wid) (\<lambda>rd.
        if in_meta_dir rd p then raiseM PathEscapeError
        else bindM (mkdir_p (butlast p)) (\<lambda>_. write_text p c)) f))"
    using inside_mkdir_then [OF assms(1), of r p "write_text p c"] inside_write_text [of _ r p c]
    by (simp add: bindM_apply [of "workspace_root base wid"] workspace_root_root_of raiseM_apply assms(1))
qed

lemma inside_result:
  "inside r f (snd (m f)) \<and> wf_fs (snd (m f)) \<Longrightarrow>
    inside r f (snd (bindM m (\<lambda>_. retM x) f)) \<and> wf_fs (snd (bindM m (\<lambda>_. retM x) f))"
  by (auto simp: op_simps split: prod.splits sum.splits)

lemma edit_file_inside:
  assumes "wf_fs f" and "root_of base wid f = Some r"
  shows "wf_fs (snd (edit_file base wid u old new al f)) \<and> inside r f (snd (edit_file base wid u old new al f))"
  unfolding edit_file_def
proof (rule read_jail.confined [OF _ assms])
  fix p r assume p: "prefix r p" "\<not> in_meta_dir r p"
  have "inside r f (snd (bindM (write_text p n) (\<lambda>_. retM k) f)) \<and>
      wf_fs (snd (bindM (write_text p n) (\<lambda>_. retM k) f))" for n and k :: nat
    using inside_write_text [OF assms(1) p] by (rule inside_result)
  then show "inside r f (snd (case node_at f p of
         Some (File raw) \<Rightarrow>
           (case utf8_decode raw of
              None \<Rightarrow> (Inl UnicodeError, f)
            | Some s \<Rightarrow>
                bindM (liftR (edit_text old new al (translate_newlines s)))
                  (\<lambda>(new_text, replacements).
                     bindM (write_text p new_text) (\<lambda>_. retM replacements)) f)
       | _ \<Rightarrow> (Inl WorkspaceError, f))) \<and>
     wf_fs (snd (case node_at f p of
         Some (File raw) \<Rightarrow>
           (case utf8_decode raw of
              None \<Rightarrow> (Inl UnicodeError, f)
            | Some s \<Rightarrow>
                bindM (liftR (edit_text old new al (translate_newlines s)))
                  (\<lambda>(new_text, replacements).
                     bindM (write_text p new_text) (\<lambda>_. retM replacements)) f)
       | _ \<Rightarrow> (Inl WorkspaceError, f)))"
    using assms(1)
    by (auto simp: bindM_apply [of "liftR x" for x] liftR_apply
        split: option.split node.split sum.split prod.split)
qed

lemma delete_path_inside:
  assumes "wf_fs f" and "root_of base wid f = Some r"
  shows "wf_fs (snd (delete_path base wid u f)) \<and> inside r f (snd (delete_path base wid u f))"
  unfolding delete_path_def
proof (rule any_jail.confined [OF _ assms])
  fix p r assume p: "root_of base wid f = Some r" "prefix r p" "look f r = Some Dir"
  have "inside r f (snd (unlink p f)) \<and> wf_fs (snd (unlink p f))"
    "inside r f (snd (rmdir p f)) \<and> wf_fs (snd (rmdir p f))" if "\<not> in_meta_dir r p"
    using unlink_frame [OF assms(1) p(2)] rmdir_frame [OF assms(1) p(2)] unlink_look rmdir_look that p(2)
    by (blast intro: inside_one)+
  then show "inside r f (snd (bindM (workspace_root base wid) (\<lambda>rd.
       if p = rd then raiseM WorkspaceError
       else if in_meta_dir rd p then raiseM PathEscapeError
       else (\<lambda>f.
         if node_at f p = None then (Inr (), f)
         else if node_at f p = Some Dir
         then catchM (rmdir p) (\<lambda>e. is_instance e OSError) (\<lambda>_. raiseM WorkspaceError) f
         else unlink p f)) f)) \<and>
     wf_fs (snd (bindM (workspace_root base wid) (\<lambda>rd.
       if p = rd then raiseM WorkspaceError
       else if in_meta_dir rd p then raiseM PathEscapeError
       else (\<lambda>f.
         if node_at f p = None then (Inr (), f)
         else if node_at f p = Some Dir
         then catchM (rmdir p) (\<lambda>e. is_instance e OSError) (\<lambda>_. raiseM WorkspaceError) f
         else unlink p f)) f))"
    using p(1) assms(1)
    by (auto simp: bindM_apply [of "workspace_root base wid"] workspace_root_root_of raiseM_apply catchM_apply
        split: prod.splits sum.splits)
qed


section \<open>Writing changes no link\<close>

definition link_of :: "fs \<Rightarrow> path \<Rightarrow> string option" where
  "link_of f q = (case look f q of Some (Link t) \<Rightarrow> Some t | _ \<Rightarrow> None)"

lemma realpath_link_of:
  "realpath False f seen (Part n # rest) p =
     (if n = [] \<or> n = dot then realpath False f seen rest p
      else if n = dotdot then realpath False f seen rest (butlast p)
      else let q = p @ [n] in
        (case link_of f q of
           None \<Rightarrow> realpath False f seen rest q
         | Some target \<Rightarrow>
             (case seen q of
                Some (Some r) \<Rightarrow> realpath False f seen rest r
              | Some None \<Rightarrow> realpath False f seen rest q
              | None \<Rightarrow> realpath False f (seen(q \<mapsto> None))
                  (map Part (split_on slash target) @ EndOf q # rest) (link_start target p))))"
  by (auto simp: link_of_def Let_def split: option.split node.split)

lemma realpath_same_links:
  "link_of f = link_of g \<Longrightarrow> realpath False f seen work p = realpath False g seen work p"
proof (induction "False" f seen work p rule: realpath.induct)
  case (3 f seen n rest p)
  let ?q = "p @ [n]"
  note lf = realpath_link_of [of f seen n rest p] and lg = realpath_link_of [of g seen n rest p]
  have same: "link_of f ?q = link_of g ?q" using "3.prems" by simp
  show ?case
  proof (cases "n = [] \<or> n = dot \<or> n = dotdot")
    case True
    then show ?thesis unfolding lf lg using 3(1,2) "3.prems" by auto
  next
    case False
    then have ns: "\<not> (n = [] \<or> n = dot)" "n \<noteq> dotdot" by auto
    show ?thesis
    proof (cases "link_of f ?q")
      case None
      have "realpath False f seen rest ?q = realpath False g seen rest ?q"
      proof (cases "look f ?q")
        case (Some x)
        have "x = Dir \<or> (\<exists>b. x = File b)" using None Some by (cases x) (simp_all add: link_of_def)
        with Some 3(4,5) ns "3.prems" show ?thesis by auto
      qed (use 3(3) ns "3.prems" in auto)
      then show ?thesis unfolding lf lg using ns None same by simp
    next
      case (Some t)
      then have l: "look f ?q = Some (Link t)"
        by (auto simp: link_of_def split: option.splits node.splits)
      show ?thesis
      proof (cases "seen ?q")
        case None
        with 3(6) ns l "3.prems"
        have "realpath False f (seen(?q \<mapsto> None)) (map Part (split_on slash t) @ EndOf ?q # rest) (link_start t p) =
          realpath False g (seen(?q \<mapsto> None)) (map Part (split_on slash t) @ EndOf ?q # rest) (link_start t p)"
          by blast
        then show ?thesis unfolding lf lg using ns Some same None by simp
      next
        case (Some v)
        with 3(7,8) ns l "3.prems"
        have "realpath False f seen rest (case v of None \<Rightarrow> ?q | Some r \<Rightarrow> r) =
            realpath False g seen rest (case v of None \<Rightarrow> ?q | Some r \<Rightarrow> r)"
          by (cases v) auto
        then show ?thesis unfolding lf lg using ns \<open>link_of f ?q = Some t\<close> same Some
          by (cases v) simp_all
      qed
    qed
  qed
qed simp_all


lemma resolve_same_links: "link_of f = link_of g \<Longrightarrow> resolve_path f p = resolve_path g p"
  using realpath_same_links [of f g Map.empty "map Part p" "[]"] by (simp add: resolve_path_def)

text \<open>A change that leaves links and directories as they are, so that paths resolve as before.\<close>

definition grows :: "fs \<Rightarrow> fs \<Rightarrow> bool" where
  "grows f g \<longleftrightarrow> link_of f = link_of g \<and> (\<forall>q. look f q = Some Dir \<longrightarrow> look g q = Some Dir)"

lemma grows_refl [simp]: "grows f f"
  by (simp add: grows_def)

lemma grows_trans: "grows f g \<Longrightarrow> grows g h \<Longrightarrow> grows f h"
  by (simp add: grows_def)

lemma grows_set_node:
  "p \<noteq> [] \<Longrightarrow> (case n of Link t \<Rightarrow> False | Dir \<Rightarrow> link_of f p = None | File b \<Rightarrow> link_of f p = None \<and> look f p \<noteq> Some Dir) \<Longrightarrow>
    grows f (set_node p n f)"
  by (auto simp: grows_def link_of_def fun_eq_iff split: node.splits)

lemma grows_mkdirs: "mkdirs d ns f = Inr g \<Longrightarrow> grows f g"
proof (induction d ns f rule: mkdirs.induct)
  case (2 d n ns f)
  have "grows f (set_node (d @ [n]) Dir f)" if "look f (d @ [n]) = None"
    using that by (intro grows_set_node) (simp_all add: link_of_def)
  with 2 show ?case by (auto split: option.splits node.splits intro: grows_trans)
qed simp

lemma grows_mkdir_p: "grows f (snd (mkdir_p p f))"
  by (auto simp: mkdir_p_def split: sum.split dest: grows_mkdirs)

lemma grows_write_bytes: "grows f (snd (write_bytes p b f))"
  by (auto simp: write_bytes_def link_of_def split: option.split node.split intro!: grows_set_node)

lemma root_of_grows: "grows f g \<Longrightarrow> root_of base wid f = Some r \<Longrightarrow> root_of base wid g = Some r"
  using resolve_same_links [of f g]
  by (auto simp: root_of_def workspace_root_apply grows_def split: if_splits)

lemma resolve_user_grows:
  "grows f g \<Longrightarrow> resolve_user base wid u f = (Inr p, f) \<Longrightarrow> resolve_user base wid u g = (Inr p, g)"
  using resolve_same_links [of f g] root_of_grows [of f g base wid]
  by (auto simp: resolve_user_apply Let_def grows_def split: option.splits if_splits)

lemma resolve_for_read_grows:
  "grows f g \<Longrightarrow> resolve_for_read base wid u f = (Inr p, f) \<Longrightarrow> resolve_for_read base wid u g = (Inr p, g)"
  using resolve_user_grows [of f g base wid u p] root_of_grows [of f g base wid]
  by (auto simp: resolve_for_read_apply resolve_user_apply Let_def split: option.splits if_splits prod.splits sum.splits)


section \<open>Uploads\<close>

lemma upload_one_inside:
  assumes "wf_fs f" and "root_of base wid f = Some r"
  shows "wf_fs (snd (upload_one base wid i f)) \<and> inside r f (snd (upload_one base wid i f))"
  unfolding upload_one_def
proof (rule any_jail.confined [OF _ assms])
  fix p r assume p: "root_of base wid f = Some r" "prefix r p" "look f r = Some Dir"
  have "inside r f (snd (bindM (mkdir_p (butlast p)) (\<lambda>_. bindM (write_bytes p b) (\<lambda>_. retM (rel_posix r p))) f)) \<and>
      wf_fs (snd (bindM (mkdir_p (butlast p)) (\<lambda>_. bindM (write_bytes p b) (\<lambda>_. retM (rel_posix r p))) f))"
    if "\<not> in_meta_dir r p" for b
    by (rule inside_mkdir_then [OF assms(1) p(3,2) that])
      (rule inside_result, rule inside_write_bytes [OF _ p(2) that])
  then show "inside r f (snd (bindM (workspace_root base wid) (\<lambda>rd.
        if in_meta_dir rd p then raiseM PathEscapeError
        else (case b64decode (up_content_b64 i) of None \<Rightarrow> raiseM WorkspaceError
          | Some blob \<Rightarrow> bindM (mkdir_p (butlast p)) (\<lambda>_.
              bindM (write_bytes p blob) (\<lambda>_. retM (rel_posix rd p))))) f)) \<and>
      wf_fs (snd (bindM (workspace_root base wid) (\<lambda>rd.
        if in_meta_dir rd p then raiseM PathEscapeError
        else (case b64decode (up_content_b64 i) of None \<Rightarrow> raiseM WorkspaceError
          | Some blob \<Rightarrow> bindM (mkdir_p (butlast p)) (\<lambda>_.
              bindM (write_bytes p blob) (\<lambda>_. retM (rel_posix rd p))))) f))"
    using p(1) assms(1)
    by (cases "b64decode (up_content_b64 i)"; cases "in_meta_dir r p")
      (simp_all add: bindM_apply [of "workspace_root base wid"] workspace_root_root_of raiseM_apply)
qed

lemma grows_bind:
  "grows f (snd (m f)) \<Longrightarrow> (\<And>x g. grows g (snd (k x g))) \<Longrightarrow> grows f (snd (bindM m k f))"
  by (auto simp: op_simps split: prod.split sum.split intro: grows_trans)

lemma grows_ret: "grows f (snd (retM x f))"
  by (simp add: retM_apply)

lemma grows_raise: "grows f (snd (raiseM e f))"
  by (simp add: raiseM_apply)

lemma upload_one_grows: "grows f (snd (upload_one base wid i f))"
proof -
  have "grows g (snd (resolve_user base wid u g))" for u g
    using any_jail.check_state [of base wid u g] by simp
  moreover have "grows g (snd (bindM (mkdir_p p) (\<lambda>_. bindM (write_bytes q b) (\<lambda>_. retM x)) g))" for p q b g and x :: string
    by (intro grows_bind grows_mkdir_p grows_write_bytes grows_ret)
  moreover have "grows g (snd (workspace_root base wid g))" for g by simp
  ultimately show ?thesis unfolding upload_one_def
    by (intro grows_bind) (simp_all add: grows_raise split: option.split)
qed

lemma upload_files_inside:
  "wf_fs f \<Longrightarrow> root_of base wid f = Some r \<Longrightarrow>
    wf_fs (snd (upload_files base wid is f)) \<and> inside r f (snd (upload_files base wid is f))"
proof (induction "is" arbitrary: f)
  case Nil
  then show ?case by (simp add: retM_apply)
next
  case (Cons i "is")
  note one = upload_one_inside [OF Cons.prems, of i]
  have r: "root_of base wid (snd (upload_one base wid i f)) = Some r"
    by (rule root_of_grows [OF upload_one_grows Cons.prems(2)])
  from Cons.IH [OF conjunct1 [OF one] r] one show ?case
    by (auto simp: op_simps split: prod.split sum.split intro: inside_trans)
qed

section \<open>What was written is read\<close>

lemma write_text_Inr:
  assumes "write_text p c f = (Inr (), g)"
  obtains b where "utf8_encode c = Some b" and "g = set_node p (File b) f" and "p \<noteq> []"
  using assms
  by (auto simp: write_text_def write_bytes_def op_simps split: option.splits if_splits node.splits prod.splits sum.splits)

lemma grows_write_text: "grows f (snd (write_text p s f))"
  by (auto simp: write_text_def intro!: grows_write_bytes grows_bind split: option.split)
    (simp add: raiseM_apply)

lemma write_file_Inr:
  assumes "write_file base wid u c f = (Inr (), g)"
  obtains p r b where "resolve_user base wid u f = (Inr p, f)" and "root_of base wid f = Some r"
    and "\<not> in_meta_dir r p" and "utf8_encode c = Some b" and "look g p = Some (File b)" and "grows f g"
proof -
  from assms obtain p where p: "resolve_user base wid u f = (Inr p, f)"
    and 1: "bindM (workspace_root base wid) (\<lambda>rdir. if in_meta_dir rdir p then raiseM PathEscapeError
       else bindM (mkdir_p (butlast p)) (\<lambda>_. write_text p c)) f = (Inr (), g)"
  proof (cases rule: any_jail.check_cases [of base wid u f])
    case (refused e)
    with assms show ?thesis by (simp add: write_file_def bindM_apply)
  next
    case (granted q r)
    with assms show ?thesis by (intro that) (simp_all add: write_file_def bindM_apply [of "resolve_user base wid u"])
  qed
  from 1 obtain r where r: "root_of base wid f = Some r"
    by (auto elim!: bindM_InrE simp: workspace_root_root_of split: option.splits)
  with 1 have n: "\<not> in_meta_dir r p"
    and 2: "bindM (mkdir_p (butlast p)) (\<lambda>_. write_text p c) f = (Inr (), g)"
    by (auto simp: bindM_apply [of "workspace_root base wid"] workspace_root_root_of raiseM_apply split: if_splits)
  from 2 obtain h where h: "mkdir_p (butlast p) f = (Inr (), h)" and w: "write_text p c h = (Inr (), g)"
    by (auto elim!: bindM_InrE)
  from w obtain b where b: "utf8_encode c = Some b" "g = set_node p (File b) h" "p \<noteq> []" by (rule write_text_Inr)
  have "grows f g" using grows_mkdir_p [of f "butlast p"] grows_write_text [of h p c] h w
    by (auto intro: grows_trans)
  with p r n b show thesis by (intro that) auto
qed

lemma resolve_for_read_allowed:
  "resolve_user base wid u f = (Inr p, f) \<Longrightarrow> root_of base wid f = Some r \<Longrightarrow> \<not> in_meta_dir r p \<Longrightarrow>
    resolve_for_read base wid u f = (Inr p, f)"
  by (simp add: resolve_for_read_apply)

text \<open>A read after a write sees the text that was written, through whatever window it has.\<close>

lemma read_window_after_write:
  assumes w: "write_file base wid u c f = (Inr (), g)" and z: "0 \<notin> set c"
    and m: "int (length (the (utf8_encode c))) \<le> max_bytes"
  shows "read_file base wid u offset lmt max_bytes g = (read_window offset lmt c, g)"
proof -
  from w obtain p r b where p: "resolve_user base wid u f = (Inr p, f)" "root_of base wid f = Some r"
    "\<not> in_meta_dir r p" and b: "utf8_encode c = Some b" "look g p = Some (File b)" and gr: "grows f g"
    by (rule write_file_Inr)
  have "resolve_for_read base wid u g = (Inr p, g)"
    by (rule resolve_for_read_grows [OF gr resolve_for_read_allowed [OF p]])
  moreover have "\<not> binary b" using zero_in_utf8_encode [OF b(1)] z by (simp add: binary_def)
  ultimately show ?thesis using b m utf8_decode_replace_encode [OF b(1)]
    by (simp add: read_file_def node_at_def op_simps)
qed

lemma read_after_write:
  assumes "write_file base wid u c f = (Inr (), g)" and "0 \<notin> set c"
    and "int (length (the (utf8_encode c))) \<le> max_bytes"
  shows "read_file base wid u 0 None max_bytes g = (Inr (c, length (splitlines_keep c), False), g)"
  using read_window_after_write [OF assms, of 0 None] by (simp add: read_window_def Let_def concat_splitlines_keep)

section \<open>What was uploaded is downloaded\<close>

lemma write_bytes_Inr: "write_bytes p b f = (Inr (), g) \<Longrightarrow> g = set_node p (File b) f \<and> p \<noteq> []"
  by (auto simp: write_bytes_def split: option.splits if_splits node.splits)

lemma mkdir_p_keeps: "look f q = Some n \<Longrightarrow> look (snd (mkdir_p p f)) q = Some n"
  using look_mkdirs [of "[]" p f _ q] by (auto simp: mkdir_p_def split: sum.split)

lemma upload_one_Inr:
  assumes "upload_one base wid i f = (Inr s, g)"
  obtains p r b where "resolve_user base wid (up_path i) f = (Inr p, f)" and "root_of base wid f = Some r"
    and "\<not> in_meta_dir r p" and "b64decode (up_content_b64 i) = Some b" and "look g p = Some (File b)"
    and "\<And>q n. q \<noteq> p \<Longrightarrow> look f q = Some n \<Longrightarrow> look g q = Some n" and "s = rel_posix r p"
proof (cases rule: any_jail.check_cases [of base wid "up_path i" f])
  case (refused e)
  with assms show ?thesis by (simp add: upload_one_def bindM_apply)
next
  case (granted p r)
  with assms obtain b where b: "\<not> in_meta_dir r p" "b64decode (up_content_b64 i) = Some b"
    and w: "bindM (mkdir_p (butlast p)) (\<lambda>_. bindM (write_bytes p b) (\<lambda>_. retM (rel_posix r p))) f = (Inr s, g)"
    by (auto simp: upload_one_def bindM_apply [of "resolve_user base wid u" for u] bindM_apply [of "workspace_root base wid"]
        workspace_root_root_of raiseM_apply split: if_splits option.splits)
  from w obtain h where h: "mkdir_p (butlast p) f = (Inr (), h)" and x: "write_bytes p b h = (Inr (), g)"
    and s: "s = rel_posix r p"
    by (auto elim!: bindM_InrE simp: retM_apply)
  have "look g q = Some n" if "q \<noteq> p" "look f q = Some n" for q n
    using mkdir_p_keeps [OF that(2), of "butlast p"] h write_bytes_Inr [OF x] that(1) by simp
  with granted b s write_bytes_Inr [OF x] show ?thesis by (intro that) auto
qed

lemma resolve_user_stable:
  "grows f g \<Longrightarrow> root_of base wid f = Some r \<Longrightarrow> fst (resolve_user base wid u g) = fst (resolve_user base wid u f)"
  using resolve_same_links [of f g] root_of_grows [of f g base wid]
  by (simp add: resolve_user_apply Let_def grows_def)

lemma upload_files_Cons_Inr:
  assumes "upload_files base wid (i # items) f = (Inr ss, g)"
  obtains s h ss' where "upload_one base wid i f = (Inr s, h)" and "upload_files base wid items h = (Inr ss', g)"
    and "ss = s # ss'"
  using assms by (auto elim!: bindM_InrE simp: retM_apply)

lemma upload_files_grows: "grows f (snd (upload_files base wid items f))"
  by (induction items arbitrary: f) (simp_all add: grows_ret grows_bind upload_one_grows)

lemma upload_files_keeps:
  assumes "upload_files base wid items f = (Inr ss, g)" and "resolve_user base wid u f = (Inr p, f)"
    and "\<forall>i \<in> set items. fst (resolve_user base wid (up_path i) f) \<noteq> Inr p"
    and "look f p = Some n"
  shows "look g p = Some n"
  using assms
proof (induction items arbitrary: f ss)
  case Nil
  then show ?case by (simp add: retM_apply)
next
  case (Cons i items)
  from Cons.prems(1) obtain s h ss' where one: "upload_one base wid i f = (Inr s, h)"
    and rest: "upload_files base wid items h = (Inr ss', g)" by (rule upload_files_Cons_Inr)
  have gr: "grows f h" using upload_one_grows [of f base wid i] one by simp
  from one obtain q where "resolve_user base wid (up_path i) f = (Inr q, f)"
      "root_of base wid f \<noteq> None" "q \<noteq> p \<Longrightarrow> look f p = Some n \<Longrightarrow> look h p = Some n"
    by (rule upload_one_Inr) (metis option.distinct(1))
  then obtain r where r: "root_of base wid f = Some r" and "resolve_user base wid (up_path i) f = (Inr q, f)"
    "q \<noteq> p \<Longrightarrow> look f p = Some n \<Longrightarrow> look h p = Some n" by blast
  with Cons.prems have "look h p = Some n" by auto
  moreover have "\<forall>j \<in> set items. fst (resolve_user base wid (up_path j) h) \<noteq> Inr p"
    using Cons.prems(3) by (simp add: resolve_user_stable [OF gr r])
  ultimately show ?case using Cons.IH [OF rest resolve_user_grows [OF gr Cons.prems(2)]] by blast
qed

text \<open>Each item of a batch can be downloaded again, unless a later one went to the same path.\<close>

lemma download_after_upload:
  assumes "upload_files base wid (xs @ i # ys) f = (Inr ss, g)"
    and "\<forall>j \<in> set ys. fst (resolve_user base wid (up_path j) f) \<noteq> fst (resolve_user base wid (up_path i) f)"
  shows "\<exists>b. b64decode (up_content_b64 i) = Some b \<and>
    download_files base wid [up_path i] g = (Inr [\<lparr>up_path = up_path i, up_content_b64 = b64encode b\<rparr>], g)"
  using assms
proof (induction xs arbitrary: f ss)
  case Nil
  from Nil(1) obtain s h ss' where one: "upload_one base wid i f = (Inr s, h)"
    and rest: "upload_files base wid ys h = (Inr ss', g)"
    unfolding append_Nil by (rule upload_files_Cons_Inr)
  have gr: "grows f h" using upload_one_grows [of f base wid i] one by simp
  from one obtain p r b where p: "resolve_user base wid (up_path i) f = (Inr p, f)" "root_of base wid f = Some r"
      "\<not> in_meta_dir r p" and b: "b64decode (up_content_b64 i) = Some b" "look h p = Some (File b)"
    by (rule upload_one_Inr)
  have "\<forall>j \<in> set ys. fst (resolve_user base wid (up_path j) h) \<noteq> Inr p"
    using Nil(2) p(1) by (simp add: resolve_user_stable [OF gr p(2)])
  then have "look g p = Some (File b)"
    by (rule upload_files_keeps [OF rest resolve_user_grows [OF gr p(1)] _ b(2)])
  moreover have "resolve_for_read base wid (up_path i) g = (Inr p, g)"
    using upload_files_grows [of h base wid ys] rest
    by (intro resolve_for_read_grows [OF grows_trans [OF gr] resolve_for_read_allowed [OF p]]) simp
  ultimately show ?case using b(1) by (simp add: download_one_def bindM_apply retM_apply node_at_def)
next
  case (Cons x xs)
  from Cons.prems(1) obtain s h ss' where one: "upload_one base wid x f = (Inr s, h)"
    and rest: "upload_files base wid (xs @ i # ys) h = (Inr ss', g)"
    unfolding append_Cons by (rule upload_files_Cons_Inr)
  have gr: "grows f h" using upload_one_grows [of f base wid x] one by simp
  from one obtain r where "root_of base wid f = Some r" by (rule upload_one_Inr)
  from resolve_user_stable [OF gr this] Cons.prems(2) show ?case by (intro Cons.IH [OF rest]) simp
qed

end
