(* ===== verification/Files_Props.thy ===== *)
theory Files_Props
  imports Files_Laws
begin

text \<open>
  The properties of the files service, and two runs in which a symbolic link leads it out of the
  workspace.
\<close>

section \<open>Sequences of operations\<close>

datatype file_op =
    OpWrite string ustr
  | OpEdit string ustr ustr bool
  | OpDelete string
  | OpUpload "upload_item list"

fun run_file_op :: "path \<Rightarrow> string \<Rightarrow> file_op \<Rightarrow> fs \<Rightarrow> fs" where
  "run_file_op base wid (OpWrite u c) f = snd (write_file base wid u c f)"
| "run_file_op base wid (OpEdit u old new al) f = snd (edit_file base wid u old new al f)"
| "run_file_op base wid (OpDelete u) f = snd (delete_path base wid u f)"
| "run_file_op base wid (OpUpload items) f = snd (upload_files base wid items f)"

lemma run_file_op_inside:
  assumes "wf_fs f" and "root_of base wid f = Some r"
  shows "wf_fs (run_file_op base wid x f) \<and> inside r f (run_file_op base wid x f)"
  using write_file_inside [OF assms] edit_file_inside [OF assms] delete_path_inside [OF assms]
    upload_files_inside [OF assms]
  by (cases x) simp_all

lemma write_file_grows: "grows f (snd (write_file base wid u c f))"
proof -
  have "grows g (snd (resolve_user base wid u g))" for u g
    using any_jail.check_state [of base wid u g] by simp
  moreover have "grows g (snd (bindM (mkdir_p p) (\<lambda>_. write_text q s) g))" for p q s g
    by (intro grows_bind grows_mkdir_p grows_write_text)
  moreover have "grows g (snd (workspace_root base wid g))" for g by simp
  ultimately show ?thesis unfolding write_file_def
    by (intro grows_bind) (simp_all add: grows_raise)
qed

lemma edit_file_grows: "grows f (snd (edit_file base wid u old new al f))"
proof -
  have r: "grows g (snd (resolve_for_read base wid u g))" for g
    using read_jail.check_state [of base wid u g] by simp
  have w: "grows g (snd (bindM (write_text q s) (\<lambda>_. retM k) g))" for q s g and k :: nat
    by (intro grows_bind grows_write_text grows_ret)
  have l: "snd (bindM (liftR x) k g) = (case x of Inl e \<Rightarrow> g | Inr y \<Rightarrow> snd (k y g))"
    for x :: "exn + ustr \<times> nat" and k :: "ustr \<times> nat \<Rightarrow> nat fs_op" and g
    by (simp add: op_simps split: sum.split)
  show ?thesis unfolding edit_file_def
    by (rule grows_bind [OF r]) (auto simp: l w split: option.split node.split sum.split)
qed

lemma delete_path_root:
  assumes "root_of base wid f = Some r"
  shows "root_of base wid (snd (delete_path base wid u f)) = Some r"
proof -
  have d: "root_of base wid (del_node p f) = Some r" if "p \<noteq> r" "p \<noteq> []" "link_of f p = None" for p
  proof -
    have "link_of (del_node p f) = link_of f" using that
      by (auto simp: link_of_def fun_eq_iff split: option.splits node.splits)
    from resolve_same_links [OF this] assms that show ?thesis
      by (auto simp: root_of_def workspace_root_apply split: if_splits)
  qed
  have x: "root_of base wid (snd (unlink p f)) = Some r" if "p \<noteq> r" "node_at f p \<noteq> None" for p
    using that d [of p] assms
    by (cases "p = []"; auto simp: unlink_def node_at_def link_of_def split: option.splits node.splits)
  have y: "root_of base wid (snd (rmdir p f)) = Some r" if "p \<noteq> r" for p
    using that d [of p] assms by (simp add: rmdir_def link_of_def)
  show ?thesis
  proof (cases rule: any_jail.check_cases [of base wid u f])
    case (refused e)
    with assms show ?thesis by (simp add: delete_path_def bindM_apply)
  next
    case (granted p r')
    with assms x [of p] y [of p] show ?thesis
      by (auto simp: delete_path_def bindM_apply workspace_root_root_of raiseM_apply catchM_apply
          split: prod.split sum.split)
  qed
qed

lemma run_file_op_root: "root_of base wid f = Some r \<Longrightarrow> root_of base wid (run_file_op base wid x f) = Some r"
  by (cases x) (auto simp: delete_path_root
      intro: root_of_grows [OF write_file_grows] root_of_grows [OF edit_file_grows] root_of_grows [OF upload_files_grows])

section \<open>Concrete inputs\<close>

definition demo_base :: path where "demo_base = [''data'', ''workspaces'']"

definition demo_fs :: fs where
  "demo_fs = [([''etc''], Dir), ([''etc'', ''passwd''], File [114, 111, 111, 116]),
     ([''data''], Dir), ([''data'', ''workspaces''], Dir),
     ([''data'', ''workspaces'', ''w1''], Dir),
     ([''data'', ''workspaces'', ''w1'', ''.forge''], Dir),
     ([''data'', ''workspaces'', ''w1'', ''a.txt''], File [104, 105, 104, 105]),
     ([''data'', ''workspaces'', ''w1'', ''evil''], Link ''/etc/passwd''),
     ([''data'', ''workspaces'', ''w2''], Link ''/etc'')]"

lemmas fs_eval = demo_fs_def demo_base_def root_of_def workspace_root_apply resolve_path_def look_def
  node_at_def valid_workspace_id_def slash_def dot_def dotdot_def link_start_def is_absolute_def

lemma demo_wf: "wf_fs demo_fs"
  by (simp add: wf_fs_def demo_fs_def look_def)

lemma demo_root: "root_of demo_base ''w1'' demo_fs = Some [''data'', ''workspaces'', ''w1'']"
  by (simp add: fs_eval)


section \<open>Properties\<close>

text \<open>C16: Whatever sequence of writes, edits, deletions and uploads a client makes with whatever
  paths, failed ones included, nothing changes outside its workspace directory and nothing in the
  reserved directory inside it: every path there has the content it had, and the file system stays
  well-formed.\<close>

theorem file_operations_confined:
  assumes "wf_fs f" and "root_of base wid f = Some r"
  shows "wf_fs (fold (run_file_op base wid) ops f) \<and> inside r f (fold (run_file_op base wid) ops f)"
  using assms
proof (induction ops arbitrary: f)
  case Nil
  then show ?case by simp
next
  case (Cons x ops)
  note one = run_file_op_inside [OF Cons.prems, of x]
  from Cons.IH [OF conjunct1 [OF one] run_file_op_root [OF Cons.prems(2)]] one
  show ?case by (auto intro: inside_trans)
qed

theorem file_operations_confined_witness:
  "look (fold (run_file_op demo_base ''w1'') [OpWrite ''evil'' [120], OpDelete ''../../../etc/passwd''] demo_fs)
     [''etc'', ''passwd''] = Some (File [114, 111, 111, 116])"
proof -
  have "inside [''data'', ''workspaces'', ''w1''] demo_fs
      (fold (run_file_op demo_base ''w1'') [OpWrite ''evil'' [120], OpDelete ''../../../etc/passwd''] demo_fs)"
    using file_operations_confined [OF demo_wf demo_root] by blast
  then have "look (fold (run_file_op demo_base ''w1'') [OpWrite ''evil'' [120], OpDelete ''../../../etc/passwd''] demo_fs)
     [''etc'', ''passwd''] = look demo_fs [''etc'', ''passwd'']"
    by (simp add: inside_def del: fold_simps)
  then show ?thesis by (simp add: demo_fs_def look_def del: fold_simps)
qed

text \<open>C17: A read returns only what a file inside the workspace and outside its reserved directory
  contains, never through a link that leaves it, changes nothing, and returns the lines from the
  offset on, up to the limit, of its text.\<close>

theorem read_confined:
  assumes "read_file base wid u offset (Some n) max_bytes f = (Inr (text, tot, truncated), g)"
    and "0 \<le> n"
  shows "g = f \<and> (\<exists>r p raw. root_of base wid f = Some r \<and> prefix r p \<and> \<not> in_meta_dir r p \<and>
    look f p = Some (File raw) \<and> int (length raw) \<le> max_bytes \<and> 0 \<notin> set raw \<and>
    (let lines = splitlines_keep (utf8_decode_replace raw) in
      text = concat (take (nat n) (drop (nat offset) lines)) \<and> tot = length lines \<and>
      (truncated \<longleftrightarrow> offset + n < int (length lines))))"
proof (cases rule: read_jail.check_cases [of base wid u f])
  case (refused e)
  with assms show ?thesis by (simp add: read_file_def bindM_apply)
next
  case (granted p r)
  with assms(1) obtain raw where raw: "look f p = Some (File raw)" "int (length raw) \<le> max_bytes"
      "0 \<notin> set raw" "read_window offset (Some n) (utf8_decode_replace raw) = Inr (text, tot, truncated)" "g = f"
    by (auto simp: read_file_def bindM_apply binary_def split: option.splits node.splits if_splits)
  then have "0 \<le> offset" and
    "text = concat (slice offset (offset + n) (splitlines_keep (utf8_decode_replace raw)))"
    "tot = length (splitlines_keep (utf8_decode_replace raw))"
    "truncated \<longleftrightarrow> offset + n < int tot"
    by (auto simp: read_window_def Let_def split: if_splits)
  moreover from \<open>0 \<le> offset\<close> assms(2) have "slice offset (offset + n) xs = take (nat n) (drop (nat offset) xs)"
    for xs :: "ustr list" by (simp add: slice_def Let_def)
  ultimately show ?thesis using granted raw(1,2,3,5) by (auto simp: Let_def)
qed

lemma demo_read:
  "read_file demo_base ''w1'' ''a.txt'' 0 (Some 1) 100 demo_fs = (Inr ([104, 105, 104, 105], 1, False), demo_fs)"
proof -
  have "resolve_for_read demo_base ''w1'' ''a.txt'' demo_fs =
      (Inr [''data'', ''workspaces'', ''w1'', ''a.txt''], demo_fs)"
    by (simp add: fs_eval resolve_for_read_apply resolve_user_apply pure_parts_def host_str_def in_meta_dir_def
        FORGE_META_DIR_def Let_def)
  moreover have "utf8_decode_replace [104, 105, 104, 105] = [104, 105, 104, 105]"
    by (simp add: utf8_decode_replace.simps)
  moreover have "splitlines_keep [104, 105, 104, 105] = [[104, 105, 104, 105]]"
    by (simp add: splitlines_keep.simps line_break_def)
  ultimately show ?thesis
    by (simp add: read_file_def bindM_apply node_at_def look_def demo_fs_def binary_def read_window_def slice_def)
qed

theorem read_confined_witness:
  "\<exists>r p raw. root_of demo_base ''w1'' demo_fs = Some r \<and> prefix r p \<and> look demo_fs p = Some (File raw)"
  using read_confined [OF demo_read] by auto

text \<open>C18: What is written is read back: after a successful write of text without a NUL, of at most
  the maximal size, reading the same path returns exactly that text, whatever line ends it has.\<close>

theorem write_then_read:
  assumes "write_file base wid u c f = (Inr (), g)" and "0 \<notin> set c"
    and "int (length (the (utf8_encode c))) \<le> max_bytes"
  shows "read_file base wid u 0 None max_bytes g = (Inr (c, length (splitlines_keep c), False), g)"
  using assms by (rule read_after_write)

lemma demo_write:
  "write_file demo_base ''w1'' ''d/b.txt'' [120, 10] demo_fs =
    (Inr (), snd (write_file demo_base ''w1'' ''d/b.txt'' [120, 10] demo_fs))"
proof -
  have "resolve_user demo_base ''w1'' ''d/b.txt'' demo_fs =
      (Inr [''data'', ''workspaces'', ''w1'', ''d'', ''b.txt''], demo_fs)"
    by (simp add: fs_eval resolve_user_apply pure_parts_def host_str_def Let_def)
  moreover have "utf8_encode [120, 10] = Some [byte_of 120, byte_of 10]"
    by (simp add: utf8_encode_def scalar_def utf8_char_def)
  ultimately show ?thesis
    by (simp add: write_file_def bindM_apply [of "resolve_user b w v" for b w v]
        bindM_apply [of "workspace_root b w" for b w] workspace_root_root_of demo_root)
      (simp add: in_meta_dir_def FORGE_META_DIR_def bindM_apply
        mkdir_p_def set_node_def write_text_def write_bytes_def look_def demo_fs_def)
qed

theorem write_then_read_witness:
  "fst (read_file demo_base ''w1'' ''d/b.txt'' 0 None 100
     (snd (write_file demo_base ''w1'' ''d/b.txt'' [120, 10] demo_fs))) = Inr ([120, 10], 1, False)"
proof -
  have "splitlines_keep [120, 10] = [[120, 10]]" by (simp add: splitlines_keep.simps line_break_def)
  then show ?thesis
    using write_then_read [OF demo_write, of 100] by (simp add: utf8_encode_def scalar_def utf8_char_def)
qed


text \<open>C19: Whatever is uploaded can be downloaded: after a batch that succeeded, each item whose path
  no later item of the batch resolves to comes back with exactly the uploaded bytes.\<close>

theorem upload_then_download:
  assumes "upload_files base wid (xs @ i # ys) f = (Inr ss, g)"
    and "\<forall>j \<in> set ys. fst (resolve_user base wid (up_path j) f) \<noteq> fst (resolve_user base wid (up_path i) f)"
  shows "\<exists>b. b64decode (up_content_b64 i) = Some b \<and>
    download_files base wid [up_path i] g = (Inr [\<lparr>up_path = up_path i, up_content_b64 = b64encode b\<rparr>], g)"
  using assms by (rule download_after_upload)

definition demo_item :: upload_item where
  "demo_item = \<lparr>up_path = ''b.bin'', up_content_b64 = ''AAE=''\<rparr>"

lemma demo_upload:
  "upload_files demo_base ''w1'' [demo_item] demo_fs =
    (Inr [''b.bin''], snd (upload_files demo_base ''w1'' [demo_item] demo_fs))"
proof -
  have "resolve_user demo_base ''w1'' ''b.bin'' demo_fs = (Inr [''data'', ''workspaces'', ''w1'', ''b.bin''], demo_fs)"
    by (simp add: fs_eval resolve_user_apply pure_parts_def host_str_def Let_def)
  moreover have "b64decode ''AAE='' = Some [0, 1]" by code_simp
  ultimately have "fst (upload_one demo_base ''w1'' demo_item demo_fs) = Inr ''b.bin''"
    by (simp add: upload_one_def demo_item_def bindM_apply [of "resolve_user b w v" for b w v]
        bindM_apply [of "workspace_root b w" for b w] workspace_root_root_of demo_root)
      (simp add: in_meta_dir_def FORGE_META_DIR_def bindM_apply rel_posix_def as_posix_def retM_apply
        mkdir_p_def set_node_def write_bytes_def look_def demo_fs_def)
  then show ?thesis
    by (cases "upload_one demo_base ''w1'' demo_item demo_fs") (simp add: bindM_apply retM_apply)
qed

theorem upload_then_download_witness:
  "fst (download_files demo_base ''w1'' [''b.bin''] (snd (upload_files demo_base ''w1'' [demo_item] demo_fs))) =
   Inr [demo_item]"
proof -
  have b: "b64decode ''AAE='' = Some [0, 1]" "b64encode [0, 1] = ''AAE=''" by code_simp+
  from upload_then_download [of demo_base "''w1''" "[]" _ "[]", unfolded append_Nil, OF demo_upload] b
  show ?thesis by (simp add: demo_item_def)
qed

definition edited :: "ustr \<Rightarrow> ustr \<Rightarrow> bool \<Rightarrow> ustr \<Rightarrow> nat \<Rightarrow> ustr \<Rightarrow> bool" where
  "edited old new al before n after \<longleftrightarrow>
     0 < n \<and> n = count_sub old before \<and> (n = 1 \<or> al) \<and>
     (\<exists>pieces. length pieces = Suc n \<and> before = join_text old pieces \<and> after = join_text new pieces)"

lemma edit_text_Inr:
  "edit_text old new al s = Inr (s', n) \<Longrightarrow> edited old new al s n s'"
  using replace_n_pieces [of 1 old s new] replace_n_pieces [of "count_sub old s" old s new]
  by (auto simp: edit_text_def edited_def replace_every_def Let_def split: if_splits)

lemma edit_text_Inl:
  "edit_text old new al s = Inl e \<Longrightarrow> e = WorkspaceError \<and> (count_sub old s = 0 \<or> count_sub old s > 1 \<and> \<not> al)"
  by (auto simp: edit_text_def Let_def split: if_splits)

text \<open>C20: An edit of a file succeeds only if the old text occurs in it (once, unless every occurrence
  is to be replaced); then the file, line ends normalised, holds its old pieces joined by the new
  text in place of the old, and the number returned is the number of occurrences replaced. Any
  refusal for the number of occurrences leaves the file system as it was.\<close>

theorem edit_replaces:
  assumes "resolve_for_read base wid u f = (Inr p, f)" and "look f p = Some (File raw)"
    and "utf8_decode raw = Some s" and "wf_fs f"
  shows "case edit_file base wid u old new al f of
      (Inr n, g) \<Rightarrow> \<exists>b s'. g = set_node p (File b) f \<and> utf8_decode b = Some s' \<and>
        edited old new al (translate_newlines s) n s'
    | (Inl e, g) \<Rightarrow> (count_sub old (translate_newlines s) = 0 \<or> count_sub old (translate_newlines s) > 1 \<and> \<not> al) \<and>
        e = WorkspaceError \<and> g = f \<or> e = UnicodeError \<and> g = set_node p (File []) f"
proof (cases "edit_text old new al (translate_newlines s)")
  case (Inl e)
  with assms edit_text_Inl [OF Inl] show ?thesis
    by (simp add: edit_file_def bindM_apply node_at_def liftR_apply)
next
  case (Inr sn)
  obtain s' n where sn: "sn = (s', n)" by (cases sn)
  note e = edit_text_Inr [OF Inr [unfolded sn]]
  from assms Inr sn have ed: "edit_file base wid u old new al f = bindM (write_text p s') (\<lambda>_. retM n) f"
    by (simp add: edit_file_def bindM_apply [of "resolve_for_read base wid u"] bindM_apply [of "liftR x" for x] node_at_def liftR_apply)
  have "p \<noteq> []" using assms(2) by auto
  with assms(2,4) have d: "look f (butlast p) = Some Dir" by (simp add: wf_fsD)
  show ?thesis
  proof (cases "utf8_encode s'")
    case None
    with d \<open>p \<noteq> []\<close> assms(2) show ?thesis
      by (simp add: ed write_text_def bindM_apply write_bytes_def raiseM_apply)
  next
    case (Some b)
    with d \<open>p \<noteq> []\<close> assms(2) e utf8_decode_encode [OF Some] show ?thesis
      by (auto simp: ed write_text_def bindM_apply write_bytes_def retM_apply intro!: exI [of _ b] exI [of _ s'])
  qed
qed

theorem edit_replaces_witness:
  "edit_text [104, 105] [120] True (translate_newlines [104, 105, 104, 105]) = Inr ([120, 120], 2) \<and>
   (case edit_file demo_base ''w1'' ''a.txt'' [104, 105] [120] True demo_fs of
      (Inr n, g) \<Rightarrow> n = 2 | (Inl e, g) \<Rightarrow> e = UnicodeError)"
proof -
  have c: "count_sub [104, 105] (translate_newlines [104, 105, 104, 105]) = 2" by code_simp
  have u: "utf8_decode [104, 105, 104, 105] = Some [104, 105, 104, 105]" by code_simp
  have t: "edit_text [104, 105] [120] True (translate_newlines [104, 105, 104, 105]) = Inr ([120, 120], 2)" by code_simp
  have "resolve_for_read demo_base ''w1'' ''a.txt'' demo_fs =
      (Inr [''data'', ''workspaces'', ''w1'', ''a.txt''], demo_fs)"
    by (simp add: fs_eval resolve_for_read_apply resolve_user_apply pure_parts_def host_str_def in_meta_dir_def
        FORGE_META_DIR_def Let_def)
  moreover have "look demo_fs [''data'', ''workspaces'', ''w1'', ''a.txt''] = Some (File [104, 105, 104, 105])"
    by (simp add: demo_fs_def look_def)
  moreover note edit_replaces [OF calculation u demo_wf, where old = "[104, 105]" and new = "[120]" and al = True]
  ultimately show ?thesis using c t by (auto simp: edited_def split: prod.splits sum.splits)
qed

end
