(* ===== verification/Files_Search.thy ===== *)
theory Files_Search
  imports Files_Laws
begin

text \<open>
  What the walk of a workspace reaches, and what \<open>glob\<close> and \<open>grep\<close> make of it: both agree with a
  specification by sets of paths and of lines, up to the limit on the number of matches.
\<close>

section \<open>The walk\<close>

definition proper_fs :: "fs \<Rightarrow> bool" where
  "proper_fs f \<longleftrightarrow> wf_fs f \<and> list_all (\<lambda>e. list_all proper_name (fst e)) f"

lemma entries_iff: "n \<in> set (entries f p) \<longleftrightarrow> look f (p @ [n]) \<noteq> None"
proof -
  have "n \<in> set (entries f p) \<longleftrightarrow> p @ [n] \<in> fst ` set f"
    by (force simp: entries_def image_iff butlast_append intro: rev_image_eqI
        dest: append_butlast_last_id)
  then show ?thesis by (simp add: look_def map_of_eq_None_iff)
qed

lemma look_proper: "proper_fs f \<Longrightarrow> look f p \<noteq> None \<Longrightarrow> list_all proper_name p"
  by (auto simp: proper_fs_def look_def list_all_iff split: if_splits dest!: map_of_SomeD)

text \<open>A path without links is where it seems to be.\<close>

lemma realpath_real:
  assumes "wf_fs f" and "list_all proper_name ns" and "look f (d @ ns) = Some n" and "\<And>t. n \<noteq> Link t"
  shows "realpath True f seen (map Part ns) d = Some (d @ ns)"
  using assms(2,3)
proof (induction ns arbitrary: d)
  case (Cons m ns)
  have p: "look f d = Some Dir" using prefix_dir [OF assms(1), of "d @ m # ns" d] Cons.prems
    by (auto simp: strict_prefix_def)
  have q: "\<exists>x. look f (d @ [m]) = Some x \<and> (\<forall>t. x \<noteq> Link t)"
  proof (cases "ns = []")
    case True
    with Cons.prems assms(4) show ?thesis by simp
  next
    case False
    then have "look f (d @ [m]) = Some Dir"
      using prefix_dir [OF assms(1), of "d @ m # ns" "d @ [m]"] Cons.prems by (auto simp: strict_prefix_def)
    then show ?thesis by simp
  qed
  then obtain x where "look f (d @ [m]) = Some x" "\<forall>t. x \<noteq> Link t" by blast
  with p Cons show ?case by (cases x) (auto simp: proper_name_def)
qed simp

lemma stat_node_real:
  assumes "proper_fs f" and "look f p = Some n" and "\<And>t. n \<noteq> Link t"
  shows "stat_node f p = Some n"
proof -
  have "follow f p = Some p"
    using realpath_real [of f p "[]" n] assms look_proper [of f p] by (simp add: follow_def proper_fs_def)
  with assms(2) show ?thesis using assms(3)
    by (cases n) (simp_all add: stat_node_def node_at_def, blast)
qed

lemma in_walk:
  assumes "proper_fs f"
  shows "q \<in> set (walk f b) \<longleftrightarrow> (\<exists>n. look f (b @ [n]) \<noteq> None \<and>
    (q = b @ [n] \<or> look f (b @ [n]) = Some Dir \<and> q \<in> set (walk f (b @ [n]))))"
  using stat_node_real [OF assms, of _ Dir]
  by (subst walk.simps) (auto simp: Let_def entries_iff split: if_splits)

lemma walk_reaches:
  assumes "proper_fs f" and "look f b = Some Dir"
  shows "set (walk f b) = {q. strict_prefix b q \<and> look f q \<noteq> None}"
  using assms
proof (induction f b rule: walk.induct)
  case (1 f b)
  have IH: "set (walk f (b @ [n])) = {q. strict_prefix (b @ [n]) q \<and> look f q \<noteq> None}"
    if "look f (b @ [n]) = Some Dir" for n
    using that 1 stat_node_real [OF "1.prems"(1) that] by (intro "1.IH") (auto simp: entries_iff)
  have "q \<in> set (walk f b)" if q: "strict_prefix b q" "look f q \<noteq> None" for q
  proof -
    from q(1) obtain n ns where "q = b @ n # ns" by (auto elim: strict_prefixE')
    moreover have "look f (b @ [n]) = Some Dir" if "ns \<noteq> []"
      using prefix_dir [of f q "b @ [n]"] "1.prems"(1) q(2) that calculation
      by (auto simp: proper_fs_def strict_prefix_def)
    ultimately show ?thesis using q IH [of n] unfolding in_walk [OF "1.prems"(1), of q b]
      by (cases "ns = []") (auto simp: strict_prefix_def)
  qed
  moreover have "strict_prefix b q \<and> look f q \<noteq> None" if "q \<in> set (walk f b)" for q
    using that walk_below [OF that] IH unfolding in_walk [OF "1.prems"(1), of q b] by auto
  ultimately show ?case by blast
qed

section \<open>Specifications\<close>

text \<open>The host paths a search looks at.\<close>

definition searched :: "fs \<Rightarrow> path \<Rightarrow> path set" where
  "searched f r = {q. strict_prefix r q \<and> look f q \<noteq> None \<and> \<not> reserved r q}"

definition glob_hits :: "string \<Rightarrow> fs \<Rightarrow> path \<Rightarrow> string set" where
  "glob_hits pat f r = {x \<in> rel_posix r ` searched f r. glob_match x (lstrip_dot_slash pat)}"

text \<open>The lines of a text that match, numbered from one; those of a file a search may read.\<close>

definition line_hits :: "(ustr \<Rightarrow> bool) \<Rightarrow> string \<Rightarrow> ustr list \<Rightarrow> grep_match set" where
  "line_hits search rel lines =
     {\<lparr>gm_path = rel, gm_line = Suc i, gm_text = lines ! i\<rparr> | i. i < length lines \<and> search (lines ! i)}"

definition file_hits :: "(ustr \<Rightarrow> bool) \<Rightarrow> string option \<Rightarrow> fs \<Rightarrow> path \<Rightarrow> path \<Rightarrow> grep_match set" where
  "file_hits search path_glob f r q =
     {m. \<exists>raw. stat_node f q = Some (File raw) \<and> \<not> binary raw \<and>
        (case path_glob of None \<Rightarrow> True | Some g \<Rightarrow> glob_match (rel_posix r q) g) \<and>
        m \<in> line_hits search (rel_posix r q) (splitlines (utf8_decode_replace raw))}"

definition grep_hits :: "(ustr \<Rightarrow> bool) \<Rightarrow> string option \<Rightarrow> fs \<Rightarrow> path \<Rightarrow> grep_match set" where
  "grep_hits search path_glob f r = (\<Union>q \<in> searched f r. file_hits search path_glob f r q)"

text \<open>A part of a set, all of it unless a limit is reached.\<close>

definition up_to :: "nat \<Rightarrow> 'a list \<Rightarrow> 'a set \<Rightarrow> bool" where
  "up_to k xs S \<longleftrightarrow> length xs \<le> k \<and> set xs \<subseteq> S \<and> (length xs = k \<or> set xs = S)"

lemma up_to_take: "set xs = S \<Longrightarrow> up_to k (take k xs) S"
  by (auto simp: up_to_def min_def dest: in_set_takeD)

lemma glob_files_spec:
  assumes "proper_fs f" and "root_of base wid f = Some r"
  shows "\<exists>out. glob_files base wid pat f = (Inr out, f) \<and> sorted out \<and>
    up_to MAX_GLOB_MATCHES out (glob_hits pat f r)"
proof -
  have "set (filter (\<lambda>rel. glob_match rel (lstrip_dot_slash pat))
      (map (rel_posix r) (filter (\<lambda>p. \<not> reserved r p) (walk f r)))) = glob_hits pat f r"
    using walk_reaches [OF assms(1) root_of_dir [OF assms(2)]] by (auto simp: glob_hits_def searched_def)
  from up_to_take [OF this, of MAX_GLOB_MATCHES] assms(2) show ?thesis
    by (auto simp: glob_files_def bindM_apply workspace_root_root_of up_to_def)
qed

lemma grep_text_set: "set (grep_text search rel text) = line_hits search rel (splitlines text)"
proof -
  have "enumerate 1 xs = map (\<lambda>i. (Suc i, xs ! i)) [0..<length xs]" for xs :: "ustr list"
    by (rule nth_equalityI) (simp_all add: nth_enumerate_eq)
  then show ?thesis by (auto simp: grep_text_def line_hits_def filter_map comp_def)
qed

lemma grep_path_set:
  "set (grep_path search pg r f q) = (if reserved r q then {} else file_hits search pg f r q)"
proof (cases "\<exists>raw. stat_node f q = Some (File raw)")
  case True
  then show ?thesis
    by (cases pg) (auto simp: grep_path_def file_hits_def grep_text_set)
next
  case False
  then show ?thesis
    by (cases "stat_node f q"; cases "the (stat_node f q)") (auto simp: grep_path_def file_hits_def)
qed

lemma grep_files_spec:
  assumes "proper_fs f" and "root_of base wid f = Some r" and "compile pat = Some search"
  shows "\<exists>out. grep_files compile base wid pat pg mx f = (Inr out, f) \<and>
    up_to (max 1 (nat mx)) out (grep_hits search pg f r)"
proof -
  have "set (concat (map (grep_path search pg r f) (walk f r))) = grep_hits search pg f r"
    using walk_reaches [OF assms(1) root_of_dir [OF assms(2)]]
    by (auto simp: grep_hits_def searched_def grep_path_set split: if_splits)
  from up_to_take [OF this, of "max 1 (nat mx)"] assms(2,3) show ?thesis
    by (auto simp: grep_files_def bindM_apply workspace_root_root_of)
qed

end
