(* ===== verification/Search_Props.thy ===== *)
theory Search_Props
  imports Files_Props Files_Search
begin

text \<open>
  The properties of listing and searching, and runs in which a symbolic link or a leading dot
  leads the files service astray.
\<close>

section \<open>Concrete inputs\<close>

definition demo_os :: os_stat where
  "demo_os p = (4096, \<lparr>dt_year = 2025, dt_month = 1, dt_day = 31, dt_hour = 23, dt_minute = 59,
     dt_second = 59, dt_micro = 0, dt_tz = Some 0\<rparr>)"

lemma demo_ls: "ls demo_os demo_base ''w1'' ''.'' demo_fs = (Inr
   [\<lparr>fle_name = ''a.txt'', fle_path = ''a.txt'', fle_is_dir = False, fle_size_bytes = 4, fle_modified_at = snd (demo_os [])\<rparr>,
    \<lparr>fle_name = ''evil'', fle_path = ''evil'', fle_is_dir = False, fle_size_bytes = 4, fle_modified_at = snd (demo_os [])\<rparr>], demo_fs)"
  by code_simp

abbreviation "demo_dir \<equiv> [''data'', ''workspaces'', ''w1'']"

lemma demo_entries: "sort (entries demo_fs demo_dir) = [''.forge'', ''a.txt'', ''evil'']"
  "entries demo_fs (demo_dir @ [''.forge'']) = []"
  by code_simp+

lemma demo_stats: "stat_node demo_fs (demo_dir @ [''.forge'']) = Some Dir"
  "stat_node demo_fs (demo_dir @ [''a.txt'']) = Some (File [104, 105, 104, 105])"
  "stat_node demo_fs (demo_dir @ [''evil'']) = Some (File [114, 111, 111, 116])"
  "look demo_fs (demo_dir @ [''.forge'']) = Some Dir"
  by code_simp+

lemma demo_walk: "walk demo_fs demo_dir = [demo_dir @ [''a.txt''], demo_dir @ [''evil''], demo_dir @ [''.forge'']]"
proof -
  have "walk demo_fs (demo_dir @ [''.forge'']) = []"
    by (subst walk.simps) (simp only: demo_entries, simp)
  then show ?thesis
    by (subst walk.simps) (simp only: demo_entries Let_def, simp add: demo_stats [simplified])
qed

lemma demo_decode: "utf8_decode_replace [114, 111, 111, 116] = [114, 111, 111, 116]"
  by (simp add: utf8_decode_replace.simps)
lemma demo_lines: "splitlines_keep [114, 111, 111, 116] = [[114, 111, 111, 116]]"
   by (simp add: splitlines_keep.simps line_break_def)

section \<open>Properties\<close>

text \<open>A listing that succeeds names exactly the entries of the directory outside the reserved
  one, each once, in order, with its path from the workspace root.\<close>

theorem ls_lists_entries:
  assumes "ls os base wid u f = (Inr out, g)"
  shows "g = f \<and> (\<exists>r p. root_of base wid f = Some r \<and> prefix r p \<and> \<not> in_meta_dir r p \<and> look f p = Some Dir \<and>
    map fle_name out = filter (\<lambda>n. \<not> reserved r (p @ [n])) (sort (entries f p)) \<and>
    map fle_path out = map (\<lambda>n. rel_posix r (p @ [n])) (map fle_name out))"
proof (cases rule: read_jail.check_cases [of base wid u f])
  case (refused e)
  with assms show ?thesis by (simp add: ls_def bindM_apply)
next
  case (granted p r)
  have l: "mapR (\<lambda>c. list_entry os r c f) cs = Inr es \<Longrightarrow>
      map fle_name es = map last cs \<and> map fle_path es = map (rel_posix r) cs" for cs es
    by (induction cs arbitrary: es) (auto simp: list_entry_def bindR_def split: sum.splits option.splits)
  from granted assms have "look f p = Some Dir" "g = f" and
    m: "mapR (\<lambda>c. list_entry os r c f) (filter (\<lambda>c. \<not> reserved r c) (map (\<lambda>n. p @ [n]) (sort (entries f p)))) = Inr out"
    by (auto simp: ls_def bindM_apply workspace_root_root_of liftR_apply split: if_splits)
  from l [OF m] have names: "map fle_name out = filter (\<lambda>n. \<not> reserved r (p @ [n])) (sort (entries f p))"
    by (simp add: filter_map comp_def)
  with l [OF m] have "map fle_path out = map (\<lambda>n. rel_posix r (p @ [n])) (map fle_name out)"
    by (simp add: filter_map comp_def)
  with names granted \<open>look f p = Some Dir\<close> \<open>g = f\<close> show ?thesis by blast
qed

theorem ls_lists_entries_witness:
  "\<exists>r p. filter (\<lambda>n. \<not> reserved r (p @ [n])) (sort (entries demo_fs p)) = [''a.txt'', ''evil'']"
  using ls_lists_entries [OF demo_ls] by auto metis

lemma demo_proper: "proper_fs demo_fs"
  by code_simp





text \<open>A pattern \<open>**/name\<close> matches a file of that name wherever it lies, in the root of the
  workspace as well as in any directory whose path has no line feed.\<close>

theorem double_star_matches_anywhere:
  assumes "plain name" and "slash \<notin> set name" and "name \<noteq> []"
  shows "glob_match rel (''**/'' @ name) \<longleftrightarrow>
    rel = name \<or> (\<exists>d. rel = d @ slash # name \<and> newline \<notin> set d)"
  using assms by (rule glob_match_anywhere)

theorem double_star_matches_anywhere_witness:
  "glob_match ''src/a.py'' ''**/a.py''"
  using double_star_matches_anywhere [of "''a.py''" "''src/a.py''"]
  by (auto simp: plain_def slash_def newline_def intro!: exI [of _ "''src''"])

text \<open>A search reads through a link that leaves the workspace: the walk yields the link, and the
  file behind it is read without a check, although a read of the same path is refused.\<close>

theorem grep_reads_through_link:
  "fst (grep_files (\<lambda>p. Some (\<lambda>l. True)) demo_base ''w1'' ''.'' (Some ''evil'') 10 demo_fs) =
     Inr [\<lparr>gm_path = ''evil'', gm_line = 1, gm_text = [114, 111, 111, 116]\<rparr>] \<and>
   fst (read_file demo_base ''w1'' ''evil'' 0 None 100 demo_fs) = Inl PathEscapeError"
proof
  have g: "glob_match ''evil'' ''evil''" "\<not> glob_match ''a.txt'' ''evil''" by code_simp+
  have r: "rel_posix demo_dir (demo_dir @ [''a.txt'']) = ''a.txt''" "rel_posix demo_dir (demo_dir @ [''evil'']) = ''evil''"
     "\<not> reserved demo_dir (demo_dir @ [''a.txt''])" "\<not> reserved demo_dir (demo_dir @ [''evil''])" by code_simp+
  have t: "grep_text (\<lambda>l. True) ''evil'' [114, 111, 111, 116] = [\<lparr>gm_path = ''evil'', gm_line = 1, gm_text = [114, 111, 111, 116]\<rparr>]"
    by (simp add: grep_text_def splitlines_def demo_lines strip_break_def line_break_def)
  have "grep_path (\<lambda>l. True) (Some ''evil'') demo_dir demo_fs (demo_dir @ [''a.txt'']) = []"
    "grep_path (\<lambda>l. True) (Some ''evil'') demo_dir demo_fs (demo_dir @ [''.forge'']) = []"
    unfolding grep_path_def demo_stats r using g by simp_all
  moreover have "grep_path (\<lambda>l. True) (Some ''evil'') demo_dir demo_fs (demo_dir @ [''evil'']) =
      [\<lparr>gm_path = ''evil'', gm_line = 1, gm_text = [114, 111, 111, 116]\<rparr>]"
    unfolding grep_path_def demo_stats using g r by (simp add: demo_decode t binary_def)
  ultimately show "fst (grep_files (\<lambda>p. Some (\<lambda>l. True)) demo_base ''w1'' ''.'' (Some ''evil'') 10 demo_fs) =
     Inr [\<lparr>gm_path = ''evil'', gm_line = 1, gm_text = [114, 111, 111, 116]\<rparr>]"
    by (simp add: grep_files_def bindM_apply workspace_root_root_of demo_root demo_walk [simplified])
  have "resolve_for_read demo_base ''w1'' ''evil'' demo_fs = (Inl PathEscapeError, demo_fs)" by code_simp
  then show "fst (read_file demo_base ''w1'' ''evil'' 0 None 100 demo_fs) = Inl PathEscapeError"
    by (simp add: read_file_def bindM_apply)
qed

text \<open>The workspace directory itself is not protected: where it has been replaced by a link, its
  target becomes the root, and reads and writes follow it.\<close>

theorem linked_root_escapes:
  "fst (read_file demo_base ''w2'' ''passwd'' 0 None 100 demo_fs) = Inr ([114, 111, 111, 116], 1, False) \<and>
   look (snd (write_file demo_base ''w2'' ''passwd'' [120] demo_fs)) [''etc'', ''passwd''] = Some (File [120])"
proof
  have r: "resolve_for_read demo_base ''w2'' ''passwd'' demo_fs = (Inr [''etc'', ''passwd''], demo_fs)"
     "look demo_fs [''etc'', ''passwd''] = Some (File [114, 111, 111, 116])" by code_simp+
  then show "fst (read_file demo_base ''w2'' ''passwd'' 0 None 100 demo_fs) = Inr ([114, 111, 111, 116], 1, False)"
    by (simp add: read_file_def bindM_apply node_at_def binary_def read_window_def demo_decode demo_lines)
  have u: "utf8_encode [120] = Some [byte_of 120]" 
    by (simp add: utf8_encode_def scalar_def utf8_char_def)
  have "resolve_user demo_base ''w2'' ''passwd'' demo_fs = (Inr [''etc'', ''passwd''], demo_fs)"
    "workspace_root demo_base ''w2'' demo_fs = (Inr [''etc''], demo_fs)"
    "mkdir_p [''etc''] demo_fs = (Inr (), demo_fs)" "look demo_fs [''etc''] = Some Dir" by code_simp+
  with r(2) u show "look (snd (write_file demo_base ''w2'' ''passwd'' [120] demo_fs)) [''etc'', ''passwd''] = Some (File [120])"
    by (simp add: write_file_def bindM_apply in_meta_dir_def FORGE_META_DIR_def write_text_def write_bytes_def byte_of_def)
qed
text \<open>A glob pattern that starts with a dot loses it: the pattern of a hidden file does not find
  that file.\<close>

theorem glob_loses_leading_dot:
  "glob_files demo_base ''w1'' ''.gitignore''
     (set_node [''data'', ''workspaces'', ''w1'', ''.gitignore''] (File []) demo_fs) =
   (Inr [], set_node [''data'', ''workspaces'', ''w1'', ''.gitignore''] (File []) demo_fs)"
  by code_simp

end
