(* ===== verification/Event_Bus.thy ===== *)
theory Event_Bus
  imports Models
begin

text \<open>
  The in-process event bus (\<open>forge/events/bus.py\<close>): a list of subscriptions, each with a bounded
  queue, a filter and a count of the events it lost. A subscription comes into being when the
  generator is first resumed, not when \<open>subscribe\<close> is called, and goes when the generator is
  closed. The locale \<open>bounded_fifo\<close> is what a subscriber relies on; \<open>asyncio.Queue\<close> as the bus
  uses it provides it.
\<close>

section \<open>Subscriptions\<close>

record subscription =
  sub_id :: nat
  sub_kinds :: "string list option"
  sub_workspace :: "string option"
  sub_execution :: "string option"
  sub_queue :: "forge_event list"
  sub_lost :: nat

record bus =
  bus_subs :: "subscription list"
  bus_queue_size :: int
  bus_next :: nat

definition new_bus :: "int \<Rightarrow> bus" where
  "new_bus cap = \<lparr>bus_subs = [], bus_queue_size = cap, bus_next = 0\<rparr>"

definition default_queue_size :: int where "default_queue_size = 256"

definition ev_match :: "string list option \<Rightarrow> string option \<Rightarrow> string option \<Rightarrow> forge_event \<Rightarrow> bool" where
  "ev_match kinds wid eid ev =
     (if (case kinds of None \<Rightarrow> False | Some ks \<Rightarrow> ev_kind ev \<notin> set ks) then False
      else if wid \<noteq> None \<and> ev_workspace_id ev \<noteq> wid then False
      else \<not> (eid \<noteq> None \<and> ev_execution_id ev \<noteq> eid))"

definition sub_match :: "subscription \<Rightarrow> forge_event \<Rightarrow> bool" where
  "sub_match s = ev_match (sub_kinds s) (sub_workspace s) (sub_execution s)"

text \<open>\<open>Queue.put_nowait\<close>: \<open>None\<close> is \<open>QueueFull\<close>; a size that is not positive is no bound.\<close>

definition put_nowait :: "int \<Rightarrow> 'a \<Rightarrow> 'a list \<Rightarrow> 'a list option" where
  "put_nowait cap x q = (if 0 < cap \<and> cap \<le> int (length q) then None else Some (q @ [x]))"

section \<open>Operations\<close>

definition offer :: "int \<Rightarrow> forge_event \<Rightarrow> subscription \<Rightarrow> subscription" where
  "offer cap ev s =
     (case put_nowait cap ev (sub_queue s) of
        Some q \<Rightarrow> s\<lparr>sub_queue := q\<rparr>
      | None \<Rightarrow> s\<lparr>sub_lost := Suc (sub_lost s)\<rparr>)"

definition deliver :: "int \<Rightarrow> forge_event \<Rightarrow> subscription \<Rightarrow> subscription" where
  "deliver cap ev s = (if \<not> sub_match s ev then s else offer cap ev s)"

definition publish :: "forge_event \<Rightarrow> bus \<Rightarrow> bus" where
  "publish ev b = b\<lparr>bus_subs := map (deliver (bus_queue_size b) ev) (bus_subs b)\<rparr>"

definition subscribe ::
  "string list option \<Rightarrow> string option \<Rightarrow> string option \<Rightarrow> bus \<Rightarrow> nat \<times> bus" where
  "subscribe kinds wid eid b =
     (bus_next b, b\<lparr>bus_subs := bus_subs b @ [\<lparr>sub_id = bus_next b, sub_kinds = kinds,
        sub_workspace = wid, sub_execution = eid, sub_queue = [], sub_lost = 0\<rparr>],
      bus_next := Suc (bus_next b)\<rparr>)"

definition find_sub :: "nat \<Rightarrow> bus \<Rightarrow> subscription option" where
  "find_sub n b = List.find (\<lambda>s. sub_id s = n) (bus_subs b)"

text \<open>Resuming the generator: the next event, or none, when it waits.\<close>

definition take_event :: "subscription \<Rightarrow> forge_event option \<times> subscription" where
  "take_event s = (case sub_queue s of [] \<Rightarrow> (None, s) | ev # q \<Rightarrow> (Some ev, s\<lparr>sub_queue := q\<rparr>))"

definition next_event :: "nat \<Rightarrow> bus \<Rightarrow> forge_event option \<times> bus" where
  "next_event n b =
     (case find_sub n b of
        None \<Rightarrow> (None, b)
      | Some s \<Rightarrow> (fst (take_event s), b\<lparr>bus_subs :=
          map (\<lambda>t. if sub_id t = n then snd (take_event t) else t) (bus_subs b)\<rparr>))"

definition close_sub :: "nat \<Rightarrow> bus \<Rightarrow> bus" where
  "close_sub n b = b\<lparr>bus_subs := filter (\<lambda>s. sub_id s \<noteq> n) (bus_subs b)\<rparr>"

datatype bus_op =
    Publish forge_event
  | Subscribe "string list option" "string option" "string option"
  | Receive nat
  | Close nat

fun bus_step :: "bus_op \<Rightarrow> bus \<Rightarrow> bus" where
  "bus_step (Publish ev) b = publish ev b"
| "bus_step (Subscribe k w e) b = snd (subscribe k w e b)"
| "bus_step (Receive n) b = snd (next_event n b)"
| "bus_step (Close n) b = close_sub n b"

text \<open>What a subscription is given in a run, and what is published that it asked for.\<close>

fun received :: "nat \<Rightarrow> bus_op list \<Rightarrow> bus \<Rightarrow> forge_event list" where
  "received n [] b = []"
| "received n (x # xs) b =
     (case x of Receive m \<Rightarrow> (if m = n then (case fst (next_event n b) of None \<Rightarrow> [] | Some ev \<Rightarrow> [ev]) else [])
      | _ \<Rightarrow> []) @ received n xs (bus_step x b)"

definition wanted :: "subscription \<Rightarrow> bus_op list \<Rightarrow> forge_event list" where
  "wanted s xs = filter (sub_match s) (concat (map (\<lambda>x. case x of Publish ev \<Rightarrow> [ev] | _ \<Rightarrow> []) xs))"

section \<open>One queue\<close>

text \<open>The values of a run of puts (\<open>Some x\<close>) and gets (\<open>None\<close>).\<close>

fun puts :: "'a option list \<Rightarrow> 'a list" where
  "puts [] = []"
| "puts (Some x # as) = x # puts as"
| "puts (None # as) = puts as"

text \<open>
  The contract of a bounded first-in first-out queue that counts what it drops: \<open>put\<close> and \<open>get\<close>
  on a queue \<open>'q\<close>, with its content and its count.
\<close>

locale bounded_fifo =
  fixes put :: "'a \<Rightarrow> 'q \<Rightarrow> 'q"
    and get :: "'q \<Rightarrow> 'a option \<times> 'q"
    and content :: "'q \<Rightarrow> 'a list"
    and lost :: "'q \<Rightarrow> nat"
    and full :: "'q \<Rightarrow> bool"
  assumes put_room: "\<not> full q \<Longrightarrow> content (put x q) = content q @ [x] \<and> lost (put x q) = lost q"
    and put_full: "full q \<Longrightarrow> content (put x q) = content q \<and> lost (put x q) = Suc (lost q)"
    and get_empty: "content q = [] \<Longrightarrow> get q = (None, q)"
    and get_head: "content q = x # xs \<Longrightarrow>
      fst (get q) = Some x \<and> content (snd (get q)) = xs \<and> lost (snd (get q)) = lost q"
begin

text \<open>What comes out of such a run, and what is left.\<close>

fun feed :: "'a option list \<Rightarrow> 'q \<Rightarrow> 'a list \<times> 'q" where
  "feed [] q = ([], q)"
| "feed (Some x # as) q = feed as (put x q)"
| "feed (None # as) q =
     (case get q of (None, q') \<Rightarrow> feed as q'
      | (Some x, q') \<Rightarrow> (case feed as q' of (ys, r) \<Rightarrow> (x # ys, r)))"

lemma feed_append:
  "feed (as @ bs) q = (fst (feed as q) @ fst (feed bs (snd (feed as q))), snd (feed bs (snd (feed as q))))"
  by (induction as q rule: feed.induct) (auto split: prod.splits option.splits)

lemma feed_account:
  "feed as q = (out, r) \<Longrightarrow>
    subseq (out @ content r) (content q @ puts as) \<and>
    length out + length (content r) + lost r = length (content q) + length (puts as) + lost q"
proof (induction as arbitrary: q out)
  case Nil
  then show ?case by simp
next
  case (Cons a as)
  show ?case
  proof (cases a)
    case None
    show ?thesis
    proof (cases "content q")
      case Nil
      with Cons.IH [of q out] Cons.prems None get_empty [OF Nil] show ?thesis by simp
    next
      case (Cons x xs)
      obtain q' where q': "get q = (Some x, q')" "content q' = xs" "lost q' = lost q"
        using get_head [OF Cons] by (cases "get q") auto
      with Cons.prems None obtain ys where "feed as q' = (ys, r)" "out = x # ys"
        by (auto split: prod.splits)
      with Cons.IH [of q' ys] q' Cons None show ?thesis by simp
    qed
  next
    case (Some x)
    show ?thesis
    proof (cases "full q")
      case True
      have "subseq (content q @ puts as) (content q @ x # puts as)"
        by (rule list_emb_append_mono) auto
      with Cons.IH [of "put x q" out] Cons.prems Some put_full [OF True, of x]
      show ?thesis by (auto intro: subseq_order.trans)
    next
      case False
      with Cons.IH [of "put x q" out] Cons.prems Some put_room [OF False, of x]
      show ?thesis by simp
    qed
  qed
qed

text \<open>Nothing lost: everything comes out, in order.\<close>

lemma feed_lossless:
  assumes "feed as q = (out, r)" and "lost r = lost q"
  shows "out @ content r = content q @ puts as"
  using feed_account [OF assms(1)] assms(2)
  by (intro subseq_same_length) simp_all

end

definition sub_full :: "int \<Rightarrow> subscription \<Rightarrow> bool" where
  "sub_full cap s \<longleftrightarrow> 0 < cap \<and> cap \<le> int (length (sub_queue s))"

interpretation sub_fifo: bounded_fifo "offer cap" take_event sub_queue sub_lost "sub_full cap" for cap
  by unfold_locales (auto simp: offer_def put_nowait_def sub_full_def take_event_def)

section \<open>A subscription in a run of the bus\<close>

definition bus_ok :: "bus \<Rightarrow> bool" where
  "bus_ok b \<longleftrightarrow> distinct (map sub_id (bus_subs b)) \<and> (\<forall>s \<in> set (bus_subs b). sub_id s < bus_next b)"

lemma deliver_frame [simp]:
  "sub_id (deliver cap ev s) = sub_id s" "sub_match (deliver cap ev s) = sub_match s"
  by (auto simp: deliver_def offer_def sub_match_def split: option.split)

lemma take_event_frame [simp]:
  "sub_id (snd (take_event s)) = sub_id s" "sub_match (snd (take_event s)) = sub_match s"
  by (auto simp: take_event_def sub_match_def split: list.split)

lemma map_sub_id: "(\<And>s. sub_id (f s) = sub_id s) \<Longrightarrow> map sub_id (map f xs) = map sub_id xs"
  by (induction xs) auto

lemma bus_ok_map:
  "(\<And>s. sub_id (f s) = sub_id s) \<Longrightarrow> bus_ok b \<Longrightarrow> bus_ok (b\<lparr>bus_subs := map f (bus_subs b)\<rparr>)"
  by (simp add: bus_ok_def map_sub_id del: map_map)

lemma bus_step_ok: "bus_ok b \<Longrightarrow> bus_ok (bus_step x b)"
  by (cases x) (auto simp: publish_def next_event_def intro!: bus_ok_map split: option.split,
      auto simp: bus_ok_def subscribe_def close_sub_def map_fst_filter_distinct less_SucI)

lemma bus_step_cap [simp]: "bus_queue_size (bus_step x b) = bus_queue_size b"
  by (cases x) (auto simp: publish_def subscribe_def next_event_def close_sub_def split: option.split)

lemma find_map_same: "(\<And>s. sub_id (f s) = sub_id s) \<Longrightarrow>
    List.find (\<lambda>s. sub_id s = n) (map f xs) = map_option f (List.find (\<lambda>s. sub_id s = n) xs)"
  by (induction xs) auto

text \<open>What one step means for one subscription.\<close>

definition view :: "subscription \<Rightarrow> bus_op \<Rightarrow> forge_event option list" where
  "view s x = (case x of
     Publish ev \<Rightarrow> (if sub_match s ev then [Some ev] else [])
   | Receive m \<Rightarrow> (if m = sub_id s then [None] else [])
   | _ \<Rightarrow> [])"

lemma view_cong: "sub_id t = sub_id s \<Longrightarrow> sub_match t = sub_match s \<Longrightarrow> view t = view s"
  unfolding view_def fun_eq_iff by (auto split: bus_op.split)

lemma find_sub_step:
  assumes "find_sub n b = Some s" and "x \<noteq> Close n"
  shows "find_sub n (bus_step x b) = Some (snd (sub_fifo.feed (bus_queue_size b) (view s x) s))"
proof -
  have n: "sub_id s = n" using assms(1) by (auto simp: find_sub_def dest: find_SomeD)
  show ?thesis
  proof (cases x)
    case (Publish ev)
    with assms n find_map_same [of "deliver (bus_queue_size b) ev" n "bus_subs b"] show ?thesis
      by (simp add: find_sub_def publish_def view_def) (simp add: deliver_def)
  next
    case (Subscribe k w e)
    with assms show ?thesis by (simp add: find_sub_def subscribe_def find_append view_def)
  next
    case (Receive m)
    have "find_sub n (bus_step x b) = Some (if m = n then snd (take_event s) else s)"
      using assms Receive n
      by (auto simp: find_sub_def next_event_def find_map_same split: option.split dest: find_SomeD)
    with Receive n show ?thesis by (auto simp: view_def split: prod.split option.split)
  next
    case (Close m)
    with assms(2) have "find_sub n (bus_step x b) = find_sub n b"
      unfolding find_sub_def by (simp add: close_sub_def) (rule find_filter_same, auto)
    with Close assms(1) show ?thesis by (simp add: view_def)
  qed
qed

definition cap_ok :: "int \<Rightarrow> subscription \<Rightarrow> bool" where
  "cap_ok cap s \<longleftrightarrow> (0 < cap \<longrightarrow> int (length (sub_queue s)) \<le> cap)"

lemma feed_keeps:
  "sub_id (snd (sub_fifo.feed cap as s)) = sub_id s \<and> sub_match (snd (sub_fifo.feed cap as s)) = sub_match s \<and>
    (cap_ok cap s \<longrightarrow> cap_ok cap (snd (sub_fifo.feed cap as s)))"
proof (induction as arbitrary: s)
  case (Cons a as)
  have offer: "sub_id (offer cap ev s) = sub_id s" "sub_match (offer cap ev s) = sub_match s"
    "cap_ok cap s \<Longrightarrow> cap_ok cap (offer cap ev s)" for ev
    by (auto simp: offer_def sub_match_def put_nowait_def cap_ok_def)
  have take: "cap_ok cap s \<Longrightarrow> cap_ok cap (snd (take_event s))"
    by (auto simp: take_event_def cap_ok_def split: list.split)
  show ?case
  proof (cases a)
    case None
    with Cons [of "snd (take_event s)"] take show ?thesis
      by (auto split: prod.splits option.splits)
  next
    case (Some ev)
    with Cons [of "offer cap ev s"] offer [of ev] show ?thesis by simp
  qed
qed simp

lemma run_view:
  assumes "find_sub n b = Some s" and "Close n \<notin> set xs"
  shows "received n xs b = fst (sub_fifo.feed (bus_queue_size b) (concat (map (view s) xs)) s) \<and>
    find_sub n (fold bus_step xs b) = Some (snd (sub_fifo.feed (bus_queue_size b) (concat (map (view s) xs)) s))"
  using assms
proof (induction xs arbitrary: b s)
  case (Cons x xs)
  let ?t = "snd (sub_fifo.feed (bus_queue_size b) (view s x) s)"
  have n: "sub_id s = n" using Cons.prems(1) by (auto simp: find_sub_def dest: find_SomeD)
  have step: "find_sub n (bus_step x b) = Some ?t"
    by (rule find_sub_step [OF Cons.prems(1)]) (use Cons.prems(2) in auto)
  have v: "view ?t = view s" 
    using feed_keeps [of "bus_queue_size b" "view s x" s] by (intro view_cong) simp_all
  have "received n (x # xs) b = fst (sub_fifo.feed (bus_queue_size b) (view s x) s) @ received n xs (bus_step x b)"
    using Cons.prems(1) n
    by (cases x) (auto simp: view_def next_event_def split: option.split prod.split)
  with Cons.IH [OF step] Cons.prems(2) v show ?case by (simp add: sub_fifo.feed_append)
qed simp

lemma puts_append: "puts (as @ bs) = puts as @ puts bs"
  by (induction as rule: puts.induct) auto

lemma puts_view: "puts (concat (map (view s) xs)) = wanted s xs"
  by (induction xs) (auto simp: puts_append wanted_def view_def split: bus_op.split)

lemma bus_delivery:
  assumes "find_sub n b = Some s" and "sub_queue s = []" and "sub_lost s = 0" and "Close n \<notin> set xs"
  shows "\<exists>s'. find_sub n (fold bus_step xs b) = Some s' \<and>
    subseq (received n xs b @ sub_queue s') (wanted s xs) \<and>
    length (received n xs b) + length (sub_queue s') + sub_lost s' = length (wanted s xs) \<and>
    (sub_lost s' = 0 \<longrightarrow> received n xs b @ sub_queue s' = wanted s xs) \<and>
    cap_ok (bus_queue_size b) s'"
proof -
  obtain out s' where f: "sub_fifo.feed (bus_queue_size b) (concat (map (view s) xs)) s = (out, s')" by force
  note v = run_view [OF assms(1,4), unfolded f fst_conv snd_conv]
  have "cap_ok (bus_queue_size b) s" using assms(2) by (simp add: cap_ok_def)
  with feed_keeps [of "bus_queue_size b" "concat (map (view s) xs)" s] f have "cap_ok (bus_queue_size b) s'" by simp
  with v sub_fifo.feed_account [OF f] sub_fifo.feed_lossless [OF f] assms(2,3) show ?thesis
    by (auto simp: puts_view)
qed

lemma find_new_sub:
  assumes "bus_ok b" and "subscribe k w e b = (n, b')"
  shows "\<exists>s. find_sub n b' = Some s \<and> sub_queue s = [] \<and> sub_lost s = 0 \<and> sub_match s = ev_match k w e"
proof -
  have "find_sub (bus_next b) b = None"
    using assms(1) by (auto simp: find_sub_def find_None_conv bus_ok_def)
  with assms(2) show ?thesis
    by (auto simp: subscribe_def find_sub_def find_append sub_match_def)
qed

end
