(* ===== verification/Docker_Driver.thy ===== *)
theory Docker_Driver
  imports Pool
begin

text \<open>
  The runtime driver of \<open>forge/drivers/docker_driver.py\<close>. The Docker daemon, reached through the
  \<open>aiodocker\<close> client, is a parameter: a record of calls on a state of its own, each of which
  answers or raises. A call raises a \<open>DockerError\<close> with a status, or another exception. The
  driver's methods are operations on that state. Where a method may wait for ever its result is
  optional, and \<open>None\<close> means that it does not return. A \<open>float\<close> is an exact rational here:
  rounding and overflow to infinity are left out.
\<close>

section \<open>Numbers as text\<close>

definition py_space :: "char \<Rightarrow> bool" where
  "py_space c \<longleftrightarrow> (of_char c :: nat) \<in> {9, 10, 11, 12, 13, 28, 29, 30, 31, 32, 133, 160}"

definition py_strip :: "string \<Rightarrow> string" where
  "py_strip s = rev (dropWhile py_space (rev (dropWhile py_space s)))"

text \<open>Decimal digits; single underscores may stand between them.\<close>

fun digits_from :: "nat \<Rightarrow> string \<Rightarrow> nat option" where
  "digits_from a [] = Some a"
| "digits_from a (c # cs) =
     (case digit_value c of
        Some v \<Rightarrow> digits_from (10 * a + v) cs
      | None \<Rightarrow> (if c = CHR ''_'' then
          (case cs of [] \<Rightarrow> None
           | d # ds \<Rightarrow> (case digit_value d of None \<Rightarrow> None | Some v \<Rightarrow> digits_from (10 * a + v) ds))
          else None))"

definition py_nat :: "string \<Rightarrow> nat option" where
  "py_nat s = (case s of [] \<Rightarrow> None
     | c # cs \<Rightarrow> (case digit_value c of None \<Rightarrow> None | Some v \<Rightarrow> digits_from v cs))"

definition signed :: "('a::uminus \<Rightarrow> 'a) \<Rightarrow> (string \<Rightarrow> 'a option) \<Rightarrow> string \<Rightarrow> 'a option" where
  "signed neg parse s = (case s of [] \<Rightarrow> None
     | c # cs \<Rightarrow> if c = CHR ''-'' then map_option neg (parse cs)
         else if c = CHR ''+'' then parse cs else parse s)"

text \<open>\<open>int(text)\<close>; \<open>None\<close> is a \<open>ValueError\<close>.\<close>

definition py_int :: "string \<Rightarrow> int option" where
  "py_int s = signed uminus (\<lambda>t. map_option int (py_nat t)) (py_strip s)"

definition count_digits :: "string \<Rightarrow> nat" where
  "count_digits s = length (filter (\<lambda>c. c \<noteq> CHR ''_'') s)"

definition nat_or_zero :: "string \<Rightarrow> nat option" where
  "nat_or_zero s = (if s = [] then Some 0 else py_nat s)"

definition mantissa :: "string \<Rightarrow> rat option" where
  "mantissa s =
     (let ip = takeWhile (\<lambda>c. c \<noteq> CHR ''.'') s; rest = dropWhile (\<lambda>c. c \<noteq> CHR ''.'') s in
      if rest = [] then map_option of_nat (py_nat ip)
      else let fp = tl rest in
        if ip = [] \<and> fp = [] then None
        else (case (nat_or_zero ip, nat_or_zero fp) of
           (Some a, Some b) \<Rightarrow> Some (of_nat a + of_nat b / 10 ^ count_digits fp)
         | _ \<Rightarrow> None))"

definition scale10 :: "int \<Rightarrow> rat" where
  "scale10 e = (if 0 \<le> e then 10 ^ nat e else 1 / 10 ^ nat (- e))"

definition unsigned_float :: "string \<Rightarrow> rat option" where
  "unsigned_float s =
     (let m = takeWhile (\<lambda>c. c \<noteq> CHR ''e'' \<and> c \<noteq> CHR ''E'') s;
          rest = dropWhile (\<lambda>c. c \<noteq> CHR ''e'' \<and> c \<noteq> CHR ''E'') s in
      if rest = [] then mantissa m
      else (case (mantissa m, signed uminus (\<lambda>t. map_option int (py_nat t)) (tl rest)) of
         (Some q, Some e) \<Rightarrow> Some (q * scale10 e) | _ \<Rightarrow> None))"

text \<open>
  \<open>float(text)\<close> of a finite number. The spellings of infinity and of not-a-number are left
  out: \<open>int\<close> of either raises too, if with another class for infinity.
\<close>

definition py_float :: "string \<Rightarrow> rat option" where
  "py_float s = signed uminus unsigned_float (py_strip s)"

text \<open>\<open>int(x)\<close> of a float truncates towards zero.\<close>

definition py_trunc :: "rat \<Rightarrow> int" where
  "py_trunc q = (if 0 \<le> q then \<lfloor>q\<rfloor> else \<lceil>q\<rceil>)"

section \<open>Container configuration\<close>

record mount =
  mt_source :: string
  mt_target :: string
  mt_read_only :: bool

definition memory_unit :: "char \<Rightarrow> nat option" where
  "memory_unit c = map_of [(CHR ''K'', 1024), (CHR ''M'', 1024 ^ 2), (CHR ''G'', 1024 ^ 3), (CHR ''T'', 1024 ^ 4)] c"

definition scaled_memory :: "string \<Rightarrow> nat \<Rightarrow> exn + int" where
  "scaled_memory s u = map_sum id (\<lambda>q. py_trunc (q * of_nat u)) (of_opt ValueError (py_float s))"

definition parse_memory :: "string \<Rightarrow> exn + int" where
  "parse_memory text =
     (let s = py_strip text; suffix = drop (length s - 2) s in
      if suffix \<noteq> [] \<and> last suffix = CHR ''i'' \<and> memory_unit (hd suffix) \<noteq> None
      then scaled_memory (take (length s - 2) s) (the (memory_unit (hd suffix)))
      else if s \<noteq> [] \<and> memory_unit (last s) \<noteq> None
      then scaled_memory (butlast s) (the (memory_unit (last s)))
      else of_opt ValueError (py_int s))"

record host_config =
  hc_binds :: "string list option"
  hc_nano_cpus :: "int option"
  hc_memory :: "int option"

definition bind_text :: "mount \<Rightarrow> string" where
  "bind_text m = mt_source m @ '':'' @ mt_target m @ '':'' @ (if mt_read_only m then ''ro'' else ''rw'')"

definition build_host_config :: "mount list \<Rightarrow> resource_limits option \<Rightarrow> exn + host_config" where
  "build_host_config mounts resources =
     (let binds = (if mounts = [] then None else Some (map bind_text mounts)) in
      case resources of
        None \<Rightarrow> Inr \<lparr>hc_binds = binds, hc_nano_cpus = None, hc_memory = None\<rparr>
      | Some r \<Rightarrow>
          bindR (case rl_memory r of None \<Rightarrow> Inr None | Some s \<Rightarrow> map_sum id Some (parse_memory s)) (\<lambda>mem.
            Inr \<lparr>hc_binds = binds,
              hc_nano_cpus = map_option (\<lambda>c. py_trunc (c * 1000000000)) (rl_cpu r), hc_memory = mem\<rparr>))"

text \<open>\<open>dict.update\<close>: a new key goes to the end, an old one keeps its place.\<close>

fun dict_set :: "string \<Rightarrow> string \<Rightarrow> dict \<Rightarrow> dict" where
  "dict_set k v [] = [(k, v)]"
| "dict_set k v ((a, b) # d) = (if a = k then (a, v) # d else (a, b) # dict_set k v d)"

definition dict_update :: "dict \<Rightarrow> dict \<Rightarrow> dict" where
  "dict_update d new = fold (\<lambda>(k, v). dict_set k v) new d"

definition build_exec_env :: "string \<Rightarrow> dict \<Rightarrow> dict" where
  "build_exec_env wid env =
     dict_update [(''FORGE_WORKSPACE_DIR'', ''/workspaces/'' @ wid), (''FORGE_WORKSPACE_ID'', wid),
       (''PWD'', ''/workspace'')] env"

definition env_text :: "dict \<Rightarrow> string list" where
  "env_text d = map (\<lambda>(k, v). k @ ''='' @ v) d"

definition LABEL_MANAGED_BY :: string where "LABEL_MANAGED_BY = ''forge.managed-by''"
definition LABEL_MANAGED_VALUE :: string where "LABEL_MANAGED_VALUE = ''forge''"
definition FORGE_RUN_PATH :: string where "FORGE_RUN_PATH = ''usr/local/bin/forge-run''"

record container_config =
  cc_image :: string
  cc_cmd :: "string list"
  cc_labels :: dict
  cc_host_config :: host_config
  cc_working_dir :: string

section \<open>The Docker client\<close>

datatype docker_exn = DErr "int option" | DOther exn

fun to_exn :: "docker_exn \<Rightarrow> exn" where
  "to_exn (DErr st) = DockerError"
| "to_exn (DOther e) = e"

fun is_docker_error :: "docker_exn \<Rightarrow> bool" where
  "is_docker_error (DErr st) = True"
| "is_docker_error (DOther e) = False"

text \<open>
  The attached output of an exec: its messages with the time each arrives (in seconds from the
  start) and its stream number, then the end, with its time, by end of file or by an exception;
  no end when the process runs on.
\<close>

record exec_stream =
  xs_msgs :: "(rat \<times> nat \<times> bytes) list"
  xs_end :: "(rat \<times> docker_exn option) option"

type_synonym ('d, 'a) docker_op = "('d, docker_exn, 'a) op"

record 'd docker_api =
  api_inspect_image :: "string \<Rightarrow> ('d, unit) docker_op"
  api_pull :: "string \<Rightarrow> ('d, unit) docker_op"
  api_create_or_replace :: "string \<Rightarrow> container_config \<Rightarrow> ('d, string) docker_op"
  api_start :: "string \<Rightarrow> ('d, unit) docker_op"
  api_put_archive :: "string \<Rightarrow> string \<Rightarrow> ('d, unit) docker_op"
  api_kill :: "string \<Rightarrow> ('d, unit) docker_op"
  api_stop :: "string \<Rightarrow> ('d, unit) docker_op"
  api_delete :: "string \<Rightarrow> ('d, unit) docker_op"
  api_show :: "string \<Rightarrow> ('d, bool) docker_op"
  api_exec :: "string \<Rightarrow> string list \<Rightarrow> string list \<Rightarrow> ('d, string) docker_op"
  api_start_exec :: "string \<Rightarrow> ('d, exec_stream) docker_op"
  api_inspect_exec :: "string \<Rightarrow> ('d, int option) docker_op"

text \<open>\<open>contextlib.suppress(DockerError)\<close>, and the conversion of a \<open>DockerError\<close>.\<close>

definition suppress :: "('d, unit) docker_op \<Rightarrow> ('d, unit) docker_op" where
  "suppress m = catchM m is_docker_error (\<lambda>_. retM ())"

definition docker_raises :: "exn \<Rightarrow> ('d, 'a) docker_op \<Rightarrow> ('d, 'a) docker_op" where
  "docker_raises x m = catchM m is_docker_error (\<lambda>_. raiseM (DOther x))"

section \<open>Environments\<close>

definition capabilities :: runtime_capabilities where
  "capabilities = \<lparr>rc_isolation = IsoContainer, rc_snapshots = False, rc_pause_resume = False,
     rc_network_control = True, rc_resource_limits = True, rc_hot_attach_volume = False, rc_gpu = False,
     rc_supports_streaming_logs = True\<rparr>"

definition ensure_image :: "'d docker_api \<Rightarrow> string \<Rightarrow> ('d, unit) docker_op" where
  "ensure_image api img =
     catchM (api_inspect_image api img) is_docker_error
       (\<lambda>e. if e \<noteq> DErr (Some 404) then raiseM e
             else docker_raises RuntimeDriverError (api_pull api img))"

definition install_forge_run :: "'d docker_api \<Rightarrow> string \<Rightarrow> ('d, unit) docker_op" where
  "install_forge_run api cid = api_put_archive api cid FORGE_RUN_PATH"

definition new_container_config :: "string \<Rightarrow> host_config \<Rightarrow> container_config" where
  "new_container_config img hc =
     \<lparr>cc_image = img, cc_cmd = [''tail'', ''-f'', ''/dev/null''],
      cc_labels = [(LABEL_MANAGED_BY, LABEL_MANAGED_VALUE)], cc_host_config = hc, cc_working_dir = ''/''\<rparr>"

definition create_environment ::
  "'d docker_api \<Rightarrow> string \<Rightarrow> string \<Rightarrow> string \<Rightarrow> mount list \<Rightarrow> resource_limits option \<Rightarrow>
    ('d, env_handle) docker_op" where
  "create_environment api label_prefix hex img mounts resources =
     (let cname = label_prefix @ take 12 hex in
      bindM (ensure_image api img) (\<lambda>_.
      bindM (liftR (map_sum DOther id (build_host_config mounts resources))) (\<lambda>hc.
      bindM (docker_raises ContainerStartError
        (bindM (api_create_or_replace api cname (new_container_config img hc)) (\<lambda>cid.
         bindM (api_start api cid) (\<lambda>_. retM cid)))) (\<lambda>cid.
      bindM (catchM (install_forge_run api cid) (\<lambda>_. True)
        (\<lambda>e. bindM (suppress (api_kill api cid)) (\<lambda>_.
              bindM (suppress (api_delete api cid)) (\<lambda>_. raiseM e)))) (\<lambda>_.
      retM \<lparr>eh_id = cid, eh_image = img, eh_driver = ''docker'', eh_labels = [(''name'', cname)]\<rparr>)))))"

definition destroy_environment :: "'d docker_api \<Rightarrow> string \<Rightarrow> ('d, unit) docker_op" where
  "destroy_environment api eid =
     catchM (bindM (suppress (api_stop api eid)) (\<lambda>_. api_delete api eid)) is_docker_error
       (\<lambda>e. if e = DErr (Some 404) then retM () else raiseM (DOther RuntimeDriverError))"

text \<open>The health check reads the output of \<open>true\<close> to its end, however long that takes.\<close>

definition health_check :: "'d docker_api \<Rightarrow> string \<Rightarrow> ('d, bool option) docker_op" where
  "health_check api eid =
     catchM
       (bindM (api_show api eid) (\<lambda>running.
          if \<not> running then retM (Some False)
          else bindM (api_exec api eid [''true''] []) (\<lambda>x.
               bindM (api_start_exec api x) (\<lambda>st.
                 case xs_end st of
                   None \<Rightarrow> retM None
                 | Some (t, Some e) \<Rightarrow> raiseM e
                 | Some (t, None) \<Rightarrow> bindM (api_inspect_exec api x) (\<lambda>code. retM (Some (code = Some 0)))))))
       (\<lambda>_. True) (\<lambda>_. retM (Some False))"

section \<open>Execution\<close>

text \<open>One message of \<open>_drain\<close>: the buffer and the \<open>truncated\<close> flag.\<close>

definition drain_chunk :: "int \<Rightarrow> bytes \<Rightarrow> bytes \<times> bool \<Rightarrow> bytes \<times> bool" where
  "drain_chunk max_bytes chunk = (\<lambda>(buf, truncated).
     if truncated then (buf, truncated)
     else let remaining = max_bytes - int (length buf) in
       if remaining \<le> 0 then (buf, True)
       else let buf' = buf @ take (nat remaining) chunk in (buf', max_bytes \<le> int (length buf')))"

definition drain :: "int \<Rightarrow> bytes list \<Rightarrow> bytes \<times> bool" where
  "drain max_bytes chunks = fold (drain_chunk max_bytes) chunks ([], False)"

text \<open>A timeout that is missing or not positive is none.\<close>

definition time_limit :: "rat option \<Rightarrow> rat option" where
  "time_limit timeout = (case timeout of None \<Rightarrow> None | Some t \<Rightarrow> if 0 < t then Some t else None)"

definition in_time :: "rat option \<Rightarrow> rat \<Rightarrow> bool" where
  "in_time lmt t \<longleftrightarrow> (case lmt of None \<Rightarrow> True | Some l \<Rightarrow> t < l)"

text \<open>
  The end of the drain: what was buffered and whether the time ran out; nothing when it never
  ends. An exception ends it as well: a \<open>TimeoutError\<close> counts as the timeout.
\<close>

type_synonym drained = "((bytes \<times> bool) \<times> bool) option"

fun drain_raised :: "bytes \<times> bool \<Rightarrow> docker_exn \<Rightarrow> docker_exn + drained" where
  "drain_raised got (DErr st) = Inl (DOther RuntimeDriverError)"
| "drain_raised got (DOther e) = (if is_instance e TimeoutError then Inr (Some (got, True)) else Inl (DOther e))"

definition drain_stream :: "rat option \<Rightarrow> int \<Rightarrow> exec_stream \<Rightarrow> docker_exn + drained" where
  "drain_stream timeout max_bytes st =
     (let lmt = time_limit timeout;
          got = drain max_bytes (map (snd \<circ> snd) (takeWhile (in_time lmt \<circ> fst) (xs_msgs st)))
      in case xs_end st of
        None \<Rightarrow> Inr (if lmt = None then None else Some (got, True))
      | Some (t, r) \<Rightarrow>
          if \<not> in_time lmt t then Inr (Some (got, True))
          else (case r of None \<Rightarrow> Inr (Some (got, False)) | Some e \<Rightarrow> drain_raised got e))"

definition exit_code_of :: "'d docker_api \<Rightarrow> string \<Rightarrow> ('d, int) docker_op" where
  "exit_code_of api x =
     catchM (bindM (api_inspect_exec api x) (\<lambda>raw. retM (case raw of Some c \<Rightarrow> c | None \<Rightarrow> - 1)))
       is_docker_error (\<lambda>_. retM (- 1))"

text \<open>The uuid and the duration are arguments.\<close>

definition exec_in_environment ::
  "'d docker_api \<Rightarrow> string \<Rightarrow> int \<Rightarrow> string \<Rightarrow> string list \<Rightarrow> string \<Rightarrow> dict \<Rightarrow> rat option \<Rightarrow> int \<Rightarrow>
    ('d, execution_result option) docker_op" where
  "exec_in_environment api hex duration eid command wid env timeout max_bytes =
     bindM (docker_raises RuntimeDriverError
       (api_exec api eid (''forge-run'' # command) (env_text (build_exec_env wid env)))) (\<lambda>x.
     bindM (\<lambda>d. case api_start_exec api x d of
         (Inl e, d') \<Rightarrow> (drain_raised ([], False) e, d')
       | (Inr st, d') \<Rightarrow> (drain_stream timeout max_bytes st, d')) (\<lambda>r.
     case r of
       None \<Rightarrow> retM None
     | Some ((buf, truncated), timed_out) \<Rightarrow>
         bindM (if timed_out then retM 124 else exit_code_of api x) (\<lambda>code.
           retM (Some \<lparr>er_execution_id = ''ex_'' @ take 16 hex, er_output = utf8_decode_replace buf,
             er_exit_code = code, er_truncated = truncated, er_output_path = None,
             er_duration_ms = duration\<rparr>))))"

section \<open>Streaming\<close>

datatype stream_outcome = StreamDone | StreamRaised exn | StreamWaits

text \<open>
  The generator from one turn of its loop on: \<open>now\<close> is when the turn begins, and the consumer
  comes back for the next event at the time the clock gives, with the timestamp of the event.
\<close>

fun stream_loop ::
  "string \<Rightarrow> rat option \<Rightarrow> (nat \<Rightarrow> rat \<times> datetime) \<Rightarrow> nat \<Rightarrow> rat \<Rightarrow> (rat \<times> docker_exn option) option \<Rightarrow>
    (rat \<times> nat \<times> bytes) list \<Rightarrow> log_event list \<times> stream_outcome" where
  "stream_loop x deadline clock i now fin [] =
     ([], if \<not> in_time deadline now then StreamRaised ExecTimeoutError
      else (case fin of
         None \<Rightarrow> if deadline = None then StreamWaits else StreamRaised ExecTimeoutError
       | Some (t, r) \<Rightarrow>
           if \<not> in_time deadline t then StreamRaised ExecTimeoutError
           else (case r of None \<Rightarrow> StreamDone
             | Some (DErr st) \<Rightarrow> StreamRaised RuntimeDriverError
             | Some (DOther e) \<Rightarrow>
                 StreamRaised (if is_instance e TimeoutError then ExecTimeoutError else e))))"
| "stream_loop x deadline clock i now fin ((t, s, b) # msgs) =
     (if \<not> in_time deadline now \<or> \<not> in_time deadline t then ([], StreamRaised ExecTimeoutError)
      else (case stream_loop x deadline clock (Suc i) (fst (clock i)) fin msgs of
         (evs, r) \<Rightarrow> (\<lparr>le_execution_id = x, le_stream = (if s = 2 then StderrStream else StdoutStream),
            le_ts = snd (clock i), le_data = utf8_decode_replace b\<rparr> # evs, r)))"

definition stream_exec_in_environment ::
  "'d docker_api \<Rightarrow> string \<Rightarrow> (nat \<Rightarrow> rat \<times> datetime) \<Rightarrow> string \<Rightarrow> string list \<Rightarrow> string \<Rightarrow> dict \<Rightarrow> rat option \<Rightarrow>
    ('d, log_event list \<times> stream_outcome) docker_op" where
  "stream_exec_in_environment api hex clock eid command wid env timeout =
     bindM (docker_raises RuntimeDriverError
       (api_exec api eid (''forge-run'' # command) (env_text (build_exec_env wid env)))) (\<lambda>x d.
     case api_start_exec api x d of
       (Inl e, d') \<Rightarrow> (Inr (stream_loop (''ex_'' @ take 16 hex) None clock 0 0 (Some (0, Some e)) []), d')
     | (Inr st, d') \<Rightarrow> (Inr (stream_loop (''ex_'' @ take 16 hex) (time_limit timeout) clock 0 0 (xs_end st) (xs_msgs st)), d'))"

end
