(* ===== verification/Driver.thy ===== *)
theory Driver
  imports Docker_Driver Fs
begin

text \<open>
  The interface between the pool and the runtime (\<open>forge/drivers/base.py\<close>): the protocol
  \<open>RuntimeDriver\<close> is a record of operations on the state of the runtime, with the Docker driver as
  its instance, and the protocol \<open>RuntimeSession\<close> a record of operations that the pool hands to its
  callers, with the pooled session of \<open>forge/pool/lease.py\<close> as its instance. An operation that may
  wait for ever has an optional result.
\<close>

section \<open>Runtime drivers\<close>

record 'd runtime_driver =
  rd_name :: string
  rd_capabilities :: runtime_capabilities
  rd_create :: "string \<Rightarrow> mount list \<Rightarrow> resource_limits option \<Rightarrow> ('d, exn, env_handle) op"
  rd_destroy :: "string \<Rightarrow> ('d, exn, unit) op"
  rd_exec :: "string \<Rightarrow> string list \<Rightarrow> string \<Rightarrow> dict \<Rightarrow> rat option \<Rightarrow> int \<Rightarrow> ('d, exn, execution_result option) op"
  rd_stream :: "string \<Rightarrow> string list \<Rightarrow> string \<Rightarrow> dict \<Rightarrow> rat option \<Rightarrow> ('d, exn, log_event list \<times> stream_outcome) op"
  rd_health :: "string \<Rightarrow> ('d, exn, bool option) op"

text \<open>A \<open>DockerError\<close> that leaves the driver is an exception like any other.\<close>

definition as_exn :: "('d, 'a) docker_op \<Rightarrow> ('d, exn, 'a) op" where
  "as_exn m = (\<lambda>d. case m d of (r, d') \<Rightarrow> (map_sum to_exn id r, d'))"

lemma as_exn_apply: "as_exn m d = (case m d of (r, d') \<Rightarrow> (map_sum to_exn id r, d'))"
  by (simp add: as_exn_def)

text \<open>
  A \<open>DockerDriver\<close> uses the client it is given, or makes one of its own; it closes only its own.
\<close>

record 'd docker_driver =
  dk_api :: "'d docker_api"
  dk_owned :: bool
  dk_label_prefix :: string

definition new_docker_driver :: "'d docker_api \<Rightarrow> 'd docker_api option \<Rightarrow> string option \<Rightarrow> 'd docker_driver" where
  "new_docker_driver fresh given label_prefix =
     \<lparr>dk_api = (case given of Some a \<Rightarrow> a | None \<Rightarrow> fresh), dk_owned = (case given of Some a \<Rightarrow> False | None \<Rightarrow> True),
      dk_label_prefix = (case label_prefix of Some p \<Rightarrow> p | None \<Rightarrow> ''forge-'')\<rparr>"

definition close_driver :: "('d, unit) docker_op \<Rightarrow> 'd docker_driver \<Rightarrow> ('d, unit) docker_op" where
  "close_driver close_client dk = (if dk_owned dk then close_client else retM ())"

text \<open>
  The Docker driver as a runtime driver. The uuid, the duration and the clock of a call are in its
  context.
\<close>

record driver_ctx =
  dx_hex :: string
  dx_duration_ms :: int
  dx_clock :: "nat \<Rightarrow> rat \<times> datetime"

definition docker_runtime :: "'d docker_driver \<Rightarrow> driver_ctx \<Rightarrow> 'd runtime_driver" where
  "docker_runtime dk x =
     \<lparr>rd_name = ''docker'', rd_capabilities = capabilities,
      rd_create = (\<lambda>img mounts res. as_exn (create_environment (dk_api dk) (dk_label_prefix dk) (dx_hex x) img mounts res)),
      rd_destroy = (\<lambda>eid. as_exn (destroy_environment (dk_api dk) eid)),
      rd_exec = (\<lambda>eid cmd wid env t m. as_exn (exec_in_environment (dk_api dk) (dx_hex x) (dx_duration_ms x) eid cmd wid env t m)),
      rd_stream = (\<lambda>eid cmd wid env t. as_exn (stream_exec_in_environment (dk_api dk) (dx_hex x) (dx_clock x) eid cmd wid env t)),
      rd_health = (\<lambda>eid. as_exn (health_check (dk_api dk) eid))\<rparr>"

section \<open>What the pool asks of a driver\<close>

text \<open>Every environment of a pool has the directory of all workspaces mounted, and no limits.\<close>

definition pool_mounts :: "forge_config \<Rightarrow> pool_config \<Rightarrow> mount list" where
  "pool_mounts c pc =
     [\<lparr>mt_source = host_str (workspaces_root c), mt_target = pc_workspaces_mount pc, mt_read_only = False\<rparr>]"

definition create_env :: "'d runtime_driver \<Rightarrow> forge_config \<Rightarrow> sub_pool \<Rightarrow> ('d, exn, env_handle) op" where
  "create_env drv c sp = rd_create drv (pc_image (sp_config sp)) (pool_mounts c (sp_config sp)) None"

text \<open>
  The answer of a driver to the call a coroutine of the pool is suspended at, as the outcome the
  coroutine is resumed with; none when the call waits for ever. A coroutine that waits for no call
  of the driver goes on, or its wait times out.
\<close>

definition done_outcome :: "exn + unit \<Rightarrow> outcome" where
  "done_outcome r = (case r of Inl e \<Rightarrow> ORaised e | Inr u \<Rightarrow> OGo)"

definition created_outcome :: "exn + env_handle \<Rightarrow> outcome" where
  "created_outcome r = (case r of Inl e \<Rightarrow> ORaised e | Inr h \<Rightarrow> OCreated h)"

definition health_outcome :: "exn + bool option \<Rightarrow> outcome option" where
  "health_outcome r = (case r of Inl e \<Rightarrow> Some (ORaised e) | Inr b \<Rightarrow> map_option OHealth b)"

fun driver_answers :: "'d runtime_driver \<Rightarrow> forge_config \<Rightarrow> sub_pool \<Rightarrow> pc \<Rightarrow> 'd \<Rightarrow> outcome list" where
  "driver_answers drv c sp (Creating s) d = [created_outcome (fst (create_env drv c sp d))]"
| "driver_answers drv c sp (Warming n) d = [created_outcome (fst (create_env drv c sp d))]"
| "driver_answers drv c sp (Checking e) d =
     (case health_outcome (fst (rd_health drv (entry_id e) d)) of None \<Rightarrow> [] | Some out \<Rightarrow> [out])"
| "driver_answers drv c sp (Releasing h) d =
     (case health_outcome (fst (rd_health drv (eh_id h) d)) of None \<Rightarrow> [] | Some out \<Rightarrow> [out])"
| "driver_answers drv c sp (Destroying h) d = [done_outcome (fst (rd_destroy drv (eh_id h) d))]"
| "driver_answers drv c sp (Disposing h) d = [done_outcome (fst (rd_destroy drv (eh_id h) d))]"
| "driver_answers drv c sp (ReapKept h es surv dead) d = [done_outcome (fst (rd_destroy drv (eh_id h) d))]"
| "driver_answers drv c sp (ReapDead h es) d = [done_outcome (fst (rd_destroy drv (eh_id h) d))]"
| "driver_answers drv c sp p d = [OGo, OTimeout]"

section \<open>Sessions\<close>

record session =
  se_workspace_id :: string
  se_image :: string
  se_env :: env_handle
  se_config :: pool_config
  se_closed :: bool

text \<open>\<open>ContainerPool.session\<close>, once it has acquired an environment.\<close>

definition open_session :: "string \<Rightarrow> string \<Rightarrow> env_handle \<Rightarrow> sub_pool \<Rightarrow> session" where
  "open_session wid img h sp =
     \<lparr>se_workspace_id = wid, se_image = img, se_env = h, se_config = sp_config sp, se_closed = False\<rparr>"

definition session_timeout :: "session \<Rightarrow> rat option \<Rightarrow> rat option" where
  "session_timeout s timeout = Some (case timeout of Some t \<Rightarrow> t | None \<Rightarrow> of_int (pc_exec_timeout_seconds (se_config s)))"

definition session_exec ::
  "'d runtime_driver \<Rightarrow> session \<Rightarrow> string list \<Rightarrow> dict option \<Rightarrow> rat option \<Rightarrow> int option \<Rightarrow>
    ('d, exn, execution_result option) op" where
  "session_exec drv s command env timeout max_out =
     (if se_closed s then raiseM RuntimeError
      else rd_exec drv (eh_id (se_env s)) command (se_workspace_id s) (case env of None \<Rightarrow> [] | Some e \<Rightarrow> e)
        (session_timeout s timeout)
        (case max_out of Some m \<Rightarrow> m | None \<Rightarrow> pc_max_output_bytes (se_config s)))"

definition session_stream_exec ::
  "'d runtime_driver \<Rightarrow> session \<Rightarrow> string list \<Rightarrow> dict option \<Rightarrow> rat option \<Rightarrow>
    ('d, exn, log_event list \<times> stream_outcome) op" where
  "session_stream_exec drv s command env timeout =
     (if se_closed s then raiseM RuntimeError
      else rd_stream drv (eh_id (se_env s)) command (se_workspace_id s) (case env of None \<Rightarrow> [] | Some e \<Rightarrow> e)
        (session_timeout s timeout))"

definition session_close :: "session \<Rightarrow> session" where
  "session_close s = s\<lparr>se_closed := True\<rparr>"

record 'd runtime_session =
  rs_workspace_id :: string
  rs_image :: string
  rs_exec :: "string list \<Rightarrow> dict option \<Rightarrow> rat option \<Rightarrow> int option \<Rightarrow> ('d, exn, execution_result option) op"
  rs_stream_exec :: "string list \<Rightarrow> dict option \<Rightarrow> rat option \<Rightarrow> ('d, exn, log_event list \<times> stream_outcome) op"

definition pooled_session :: "'d runtime_driver \<Rightarrow> session \<Rightarrow> 'd runtime_session" where
  "pooled_session drv s =
     \<lparr>rs_workspace_id = se_workspace_id s, rs_image = se_image s,
      rs_exec = session_exec drv s, rs_stream_exec = session_stream_exec drv s\<rparr>"

text \<open>A closed session runs nothing.\<close>

lemma closed_session_refuses:
  "rs_exec (pooled_session drv (session_close s)) cmd env t m d = (Inl RuntimeError, d)"
  "rs_stream_exec (pooled_session drv (session_close s)) cmd env t d = (Inl RuntimeError, d)"
  by (simp_all add: pooled_session_def session_exec_def session_stream_exec_def session_close_def op_simps)

text \<open>A command always has a time limit.\<close>

lemma session_timeout_Some [simp]: "session_timeout s t \<noteq> None"
  by (simp add: session_timeout_def)

text \<open>What Docker is asked for an environment of the pool: one bind mount, no limits.\<close>

lemma pool_host_config:
  "build_host_config (pool_mounts c pc) None =
    Inr \<lparr>hc_binds = Some [host_str (workspaces_root c) @ '':'' @ pc_workspaces_mount pc @ '':rw''],
      hc_nano_cpus = None, hc_memory = None\<rparr>"
  by (simp add: build_host_config_def pool_mounts_def bind_text_def)

text \<open>
  A session runs its command through one exec of its container, as an argument of \<open>forge-run\<close>; what
  Docker answers to that call decides everything else.
\<close>

definition exec_lines :: "session \<Rightarrow> dict option \<Rightarrow> string list" where
  "exec_lines s env = env_text (build_exec_env (se_workspace_id s) (case env of None \<Rightarrow> [] | Some e \<Rightarrow> e))"

lemma docker_call_decides:
  "\<exists>k. \<forall>d. as_exn (bindM (docker_raises e c) g) d = k (c d)"
proof (intro exI allI)
  show "as_exn (bindM (docker_raises e c) g) d = as_exn (bindM (docker_raises e (\<lambda>_. c d)) g) undefined" for d
    by (simp add: as_exn_def docker_raises_def bindM_apply catchM_apply)
qed

lemma session_asks_docker:
  assumes "\<not> se_closed s"
  shows "\<exists>k. \<forall>d. rs_exec (pooled_session (docker_runtime dk x) s) command env t m d =
    k (api_exec (dk_api dk) (eh_id (se_env s)) (''forge-run'' # command) (exec_lines s env) d)"
  unfolding pooled_session_def session_exec_def docker_runtime_def runtime_driver.simps runtime_session.simps
    exec_in_environment_def exec_lines_def using assms by (simp add: docker_call_decides)

end
