(* ===== verification/Execution.thy ===== *)
theory Execution
  imports Workspace_Store Event_Bus Driver
begin

text \<open>
  The execution service (\<open>forge/services/execution_service.py\<close>). A request is a coroutine: a program counter with one constructor per
  \<open>await\<close>, and a step runs it from one await to the next on the shared world (metastore, file
  system, event bus), so that requests may interleave. What the pool and the driver answer to a
  request, the clock and the uuids are in its context.
\<close>

section \<open>The world of the services\<close>

record world =
  w_stores :: stores
  w_bus :: bus

type_synonym 'a world_op = "(world, exn, 'a) op"

definition in_meta :: "'a meta_op \<Rightarrow> 'a world_op" where
  "in_meta m = focusM w_stores (\<lambda>x w. w\<lparr>w_stores := x\<rparr>) (on_meta m)"

definition in_fs :: "'a fs_op \<Rightarrow> 'a world_op" where
  "in_fs m = focusM w_stores (\<lambda>x w. w\<lparr>w_stores := x\<rparr>) (on_fs m)"

record exec_ctx =
  xc_base :: path
  xc_hex :: string
  xc_event_ts :: "string \<Rightarrow> datetime"
  xc_started :: datetime
  xc_finished :: datetime
  xc_duration_ms :: int
  xc_error_text :: "exn \<Rightarrow> string"
  xc_run :: "string \<Rightarrow> string \<Rightarrow> string list \<Rightarrow> dict \<Rightarrow> rat option \<Rightarrow> int option \<Rightarrow> exn + execution_result"

definition exec_id :: "exec_ctx \<Rightarrow> string" where
  "exec_id c = ''ex_'' @ take 16 (xc_hex c)"

definition publish_event :: "exec_ctx \<Rightarrow> string \<Rightarrow> string \<Rightarrow> (string \<times> payload_value) list \<Rightarrow> unit world_op" where
  "publish_event c kind wid payload = (\<lambda>w. (Inr (), w\<lparr>w_bus := publish
     \<lparr>ev_kind = kind, ev_ts = xc_event_ts c kind, ev_workspace_id = Some wid,
      ev_execution_id = Some (exec_id c), ev_payload = payload\<rparr> (w_bus w)\<rparr>))"

section \<open>Helpers\<close>

definition join_words :: "string list \<Rightarrow> string" where
  "join_words ws = join_with CHR '' '' ws"

definition prepare_command :: "exec_request \<Rightarrow> exn + string list" where
  "prepare_command rq =
     (if rq_command rq = [] then Inl ValueError
      else if rq_shell rq then Inr [''sh'', ''-c'', join_words (rq_command rq)]
      else Inr (rq_command rq))"

definition classify_status :: "int \<Rightarrow> execution_status" where
  "classify_status code = (if code = 0 then ExSucceeded else if code = 124 then ExTimedOut else ExFailed)"

fun terminal :: "execution_status \<Rightarrow> bool" where
  "terminal ExQueued = False"
| "terminal ExRunning = False"
| "terminal _ = True"

text \<open>Reading as text translates line ends.\<close>

definition read_text :: "path \<Rightarrow> ustr fs_op" where
  "read_text p = (\<lambda>f. case stat_node f p of
     Some (File raw) \<Rightarrow> (case utf8_decode raw of None \<Rightarrow> Inl UnicodeError | Some s \<Rightarrow> Inr (translate_newlines s), f)
   | _ \<Rightarrow> (Inl OSError, f))"

definition spill_name :: "string \<Rightarrow> string" where
  "spill_name eid = eid @ ''.log''"

definition spill_rel :: "string \<Rightarrow> string" where
  "spill_rel eid = FORGE_META_DIR @ ''/exec/'' @ spill_name eid"

definition spill_overflow :: "path \<Rightarrow> string \<Rightarrow> string \<Rightarrow> ustr \<Rightarrow> string fs_op" where
  "spill_overflow base wid eid output =
     bindM (ws_path base wid) (\<lambda>d.
     bindM (at_path mkdir_p (d @ [FORGE_META_DIR, ''exec''])) (\<lambda>_.
     bindM (at_path (\<lambda>p. write_text p output) (d @ [FORGE_META_DIR, ''exec'', spill_name eid])) (\<lambda>_.
     retM (spill_rel eid))))"

text \<open>Microseconds since year one, of a time in UTC.\<close>

definition days_before_month :: "nat \<Rightarrow> nat \<Rightarrow> nat" where
  "days_before_month y m = sum_list (map (days_in_month y) [1..<m])"

definition day_number :: "datetime \<Rightarrow> nat" where
  "day_number d = (let y = dt_year d - 1 in
     365 * y + y div 4 - y div 100 + y div 400 + days_before_month (dt_year d) (dt_month d) + dt_day d)"

definition dt_micros :: "datetime \<Rightarrow> int" where
  "dt_micros d = int ((((day_number d * 24 + dt_hour d) * 60 + dt_minute d) * 60 + dt_second d) * 1000000 + dt_micro d)
     - (case dt_tz d of None \<Rightarrow> 0 | Some z \<Rightarrow> z * 60000000)"

definition duration_between :: "datetime option \<Rightarrow> datetime option \<Rightarrow> int" where
  "duration_between s f = (case (s, f) of
     (Some a, Some b) \<Rightarrow> py_trunc (of_int (dt_micros b - dt_micros a) / 1000) | _ \<Rightarrow> 0)"

definition result_from_terminal :: "path \<Rightarrow> string \<Rightarrow> execution \<Rightarrow> execution_result fs_op" where
  "result_from_terminal base wid x =
     bindM (case ex_output_path x of
         None \<Rightarrow> retM []
       | Some rel \<Rightarrow> (if rel = [] then retM []
           else catchM (bindM (ws_path base wid) (\<lambda>d. read_text (d @ pure_parts rel)))
             (\<lambda>e. is_instance e OSError) (\<lambda>_. retM []))) (\<lambda>output.
     retM \<lparr>er_execution_id = ex_id x, er_output = output,
       er_exit_code = (case ex_exit_code x of Some c \<Rightarrow> c | None \<Rightarrow> - 1),
       er_truncated = ex_truncated x, er_output_path = ex_output_path x,
       er_duration_ms = duration_between (ex_started_at x) (ex_finished_at x)\<rparr>)"

section \<open>A request, from await to await\<close>

datatype exec_pc =
    AtGet
  | AtLookup workspace
  | AtCreate workspace
  | AtMark workspace
  | AtRun workspace "string list"
  | AtFinish "exn + execution_result"
  | ExecDone "exn + execution_result"

definition find_cached :: "exec_ctx \<Rightarrow> string \<Rightarrow> exec_request \<Rightarrow> execution_result option world_op" where
  "find_cached c wid rq =
     (case rq_idempotency_key rq of
        None \<Rightarrow> retM None
      | Some key \<Rightarrow> (if key = [] then retM None
          else bindM (in_meta (get_execution_by_idempotency wid key)) (\<lambda>found.
            case found of
              None \<Rightarrow> retM None
            | Some x \<Rightarrow> (if \<not> terminal (ex_status x) then retM None
                else bindM (in_fs (result_from_terminal (xc_base c) wid x)) (\<lambda>r. retM (Some r))))))"

definition exec_row :: "exec_ctx \<Rightarrow> string \<Rightarrow> exec_request \<Rightarrow> execution" where
  "exec_row c wid rq = (new_execution (exec_id c) wid (rq_command rq))
     \<lparr>ex_shell := rq_shell rq, ex_idempotency_key := rq_idempotency_key rq\<rparr>"

definition queue_execution :: "exec_ctx \<Rightarrow> string \<Rightarrow> exec_request \<Rightarrow> unit world_op" where
  "queue_execution c wid rq =
     bindM (in_meta (create_execution (exec_row c wid rq))) (\<lambda>_. publish_event c ''execution.queued'' wid [])"

definition mark_running :: "exec_ctx \<Rightarrow> string \<Rightarrow> unit world_op" where
  "mark_running c wid =
     bindM (in_meta (update_execution (exec_id c)
       [FStatus ''running'', FStartedAt (TsText (isoformat (xc_started c)))])) (\<lambda>_.
     publish_event c ''execution.started'' wid [])"

definition finish_failed :: "exec_ctx \<Rightarrow> string \<Rightarrow> exn \<Rightarrow> unit world_op" where
  "finish_failed c wid e =
     bindM (in_meta (update_execution (exec_id c)
       [FStatus ''failed'', FExitCode None, FFinishedAt (TsText (isoformat (xc_finished c)))])) (\<lambda>_.
     publish_event c ''execution.finished'' wid [(''error'', PvStr (xc_error_text c e))])"

definition finish_ok :: "exec_ctx \<Rightarrow> string \<Rightarrow> execution_result \<Rightarrow> execution_result world_op" where
  "finish_ok c wid r =
     bindM (if er_truncated r
            then bindM (in_fs (spill_overflow (xc_base c) wid (exec_id c) (er_output r))) (\<lambda>p. retM (Some p))
            else retM None) (\<lambda>out_path.
     let status = execution_status_str (classify_status (er_exit_code r)) in
     bindM (in_meta (update_execution (exec_id c)
       [FStatus status, FExitCode (Some (er_exit_code r)), FTruncated (er_truncated r), FOutputPath out_path,
        FFinishedAt (TsText (isoformat (xc_finished c)))])) (\<lambda>_.
     bindM (publish_event c ''execution.finished'' wid
       [(''exit_code'', PvInt (er_exit_code r)), (''status'', PvStr status), (''truncated'', PvBool (er_truncated r))]) (\<lambda>_.
     retM \<lparr>er_execution_id = exec_id c, er_output = er_output r, er_exit_code = er_exit_code r,
       er_truncated = er_truncated r, er_output_path = out_path, er_duration_ms = xc_duration_ms c\<rparr>)))"

text \<open>The next suspension of an operation that returns it; an exception ends the request.\<close>

definition await :: "exec_pc world_op \<Rightarrow> world \<Rightarrow> exec_pc \<times> world" where
  "await m w = (case m w of (Inl e, w') \<Rightarrow> (ExecDone (Inl e), w') | (Inr k, w') \<Rightarrow> (k, w'))"

fun exec_step :: "exec_ctx \<Rightarrow> string \<Rightarrow> exec_request \<Rightarrow> exec_pc \<Rightarrow> world \<Rightarrow> exec_pc \<times> world" where
  "exec_step c wid rq AtGet w = await (bindM (in_meta (get_workspace wid)) (\<lambda>ws. retM (AtLookup ws))) w"
| "exec_step c wid rq (AtLookup ws) w =
     await (bindM (find_cached c wid rq) (\<lambda>hit. retM (case hit of None \<Rightarrow> AtCreate ws | Some r \<Rightarrow> ExecDone (Inr r)))) w"
| "exec_step c wid rq (AtCreate ws) w = await (bindM (queue_execution c wid rq) (\<lambda>_. retM (AtMark ws))) w"
| "exec_step c wid rq (AtMark ws) w =
     await (bindM (mark_running c wid) (\<lambda>_. bindM (liftR (prepare_command rq)) (\<lambda>cmd. retM (AtRun ws cmd)))) w"
| "exec_step c wid rq (AtRun ws cmd) w =
     (AtFinish (xc_run c wid (spec_image (ws_spec ws)) cmd (rq_env rq) (rq_timeout_seconds rq) (rq_max_output_bytes rq)), w)"
| "exec_step c wid rq (AtFinish (Inl e)) w =
     await (bindM (finish_failed c wid e) (\<lambda>_. retM (ExecDone (Inl e)))) w"
| "exec_step c wid rq (AtFinish (Inr r)) w =
     await (bindM (finish_ok c wid r) (\<lambda>res. retM (ExecDone (Inr res)))) w"
| "exec_step c wid rq (ExecDone r) w = (ExecDone r, w)"

text \<open>How many awaits are left at most; a request alone runs to its end.\<close>

fun awaits_left :: "exec_pc \<Rightarrow> nat" where
  "awaits_left AtGet = 6"
| "awaits_left (AtLookup ws) = 5"
| "awaits_left (AtCreate ws) = 4"
| "awaits_left (AtMark ws) = 3"
| "awaits_left (AtRun ws cmd) = 2"
| "awaits_left (AtFinish r) = 1"
| "awaits_left (ExecDone r) = 0"

lemma await_bind:
  "await (bindM m (\<lambda>x. retM (k x))) w =
    (case m w of (Inl e, w') \<Rightarrow> (ExecDone (Inl e), w') | (Inr x, w') \<Rightarrow> (k x, w'))"
  by (simp add: await_def bindM_apply retM_apply split: prod.split sum.split)

lemma await_bind_lift:
  "await (bindM m (\<lambda>x. bindM (liftR r) (\<lambda>y. retM (k y)))) w =
    (case m w of (Inl e, w') \<Rightarrow> (ExecDone (Inl e), w')
     | (Inr x, w') \<Rightarrow> ((case r of Inl e \<Rightarrow> ExecDone (Inl e) | Inr y \<Rightarrow> k y), w'))"
  by (simp add: await_def bindM_apply retM_apply liftR_apply split: prod.split sum.split)

lemma exec_step_progress:
  "0 < awaits_left k \<Longrightarrow> awaits_left (fst (exec_step c wid rq k w)) < awaits_left k"
  by (induction c wid rq k w rule: exec_step.induct)
    (auto simp: await_bind await_bind_lift split: prod.split sum.split option.split)

lemma exec_step_less:
  "exec_step c wid rq k w = (k', w') \<Longrightarrow> 0 < awaits_left k \<Longrightarrow> awaits_left k' < awaits_left k"
  using exec_step_progress [of k c wid rq w] by simp

lemma done_iff: "awaits_left k = 0 \<longleftrightarrow> (\<exists>r. k = ExecDone r)"
  by (cases k) auto

function exec_from :: "exec_ctx \<Rightarrow> string \<Rightarrow> exec_request \<Rightarrow> exec_pc \<Rightarrow> world \<Rightarrow> (exn + execution_result) \<times> world" where
  "exec_from c wid rq k w =
     (case k of ExecDone r \<Rightarrow> (r, w)
      | _ \<Rightarrow> exec_from c wid rq (fst (exec_step c wid rq k w)) (snd (exec_step c wid rq k w)))"
  by pat_completeness auto
termination
  by (relation "measure (\<lambda>(c, wid, rq, k, w). awaits_left k)") 
      (auto simp del: exec_step.simps split: prod.split dest!: exec_step_less)

declare exec_from.simps [simp del]

definition exec_request_op :: "exec_ctx \<Rightarrow> string \<Rightarrow> exec_request \<Rightarrow> execution_result world_op" where
  "exec_request_op c wid rq = exec_from c wid rq AtGet"

definition exec_get :: "string \<Rightarrow> execution world_op" where
  "exec_get eid = in_meta (get_execution eid)"

definition exec_list :: "string \<Rightarrow> execution list world_op" where
  "exec_list wid = in_meta (list_executions wid)"

end
