(* ===== verification/Meta_Laws.thy ===== *)
theory Meta_Laws
  imports Meta_Store
begin

text \<open>
  What the metastore keeps and promises. Every table is an interpretation of \<open>record_table\<close>;
  the schema invariant \<open>db_ok\<close> (unique keys, no dangling foreign key, one execution per
  idempotency key) is kept by every statement and so holds in every store reachable from a new
  one; every model that is written is read back as it was.
\<close>

interpretation ws_tab: record_table "tbl_find wr_id" "tbl_insert wr_id" "tbl_update wr_id"
  "tbl_delete wr_id" wr_id "keys_distinct wr_id"
  by (rule record_table_list)

interpretation ex_tab: record_table "tbl_find xr_id" "tbl_insert xr_id" "tbl_update xr_id"
  "tbl_delete xr_id" xr_id "keys_distinct xr_id"
  by (rule record_table_list)

interpretation snap_tab: record_table "tbl_find nr_id" "tbl_insert nr_id" "tbl_update nr_id"
  "tbl_delete nr_id" nr_id "keys_distinct nr_id"
  by (rule record_table_list)

interpretation art_tab: record_table "tbl_find ar_id" "tbl_insert ar_id" "tbl_update ar_id"
  "tbl_delete ar_id" ar_id "keys_distinct ar_id"
  by (rule record_table_list)

interpretation scope_tab: record_table "tbl_find scope_pk" "tbl_insert scope_pk"
  "tbl_update scope_pk" "tbl_delete scope_pk" scope_pk "keys_distinct scope_pk"
  by (rule record_table_list)

section \<open>The schema invariant\<close>

definition idem_unique :: "ex_row list \<Rightarrow> bool" where
  "idem_unique t \<longleftrightarrow>
     distinct (map (\<lambda>r. (xr_workspace_id r, xr_idempotency_key r))
       (filter (\<lambda>r. xr_idempotency_key r \<noteq> None) t))"

definition refs_ok :: "db \<Rightarrow> bool" where
  "refs_ok d \<longleftrightarrow>
     (\<forall>r \<in> set (t_executions d). has_workspace (xr_workspace_id r) d) \<and>
     (\<forall>r \<in> set (t_snapshots d). has_workspace (nr_workspace_id r) d) \<and>
     (\<forall>r \<in> set (t_artifacts d). has_workspace (ar_workspace_id r) d) \<and>
     (\<forall>r \<in> set (t_scopes d). has_workspace (sr_workspace_id r) d)"

definition db_ok :: "db \<Rightarrow> bool" where
  "db_ok d \<longleftrightarrow>
     keys_distinct wr_id (t_workspaces d) \<and> keys_distinct xr_id (t_executions d) \<and>
     keys_distinct nr_id (t_snapshots d) \<and> keys_distinct ar_id (t_artifacts d) \<and>
     keys_distinct scope_pk (t_scopes d) \<and> idem_unique (t_executions d) \<and> refs_ok d \<and>
     sorted_wrt (<) (map pr_id (t_pool_events d)) \<and>
     (\<forall>r \<in> set (t_pool_events d). pr_id r \<le> pool_event_seq d)"

lemma db_ok_empty: "db_ok empty_db"
  by (simp add: db_ok_def empty_db_def keys_distinct_def idem_unique_def refs_ok_def)

lemma has_workspace_map:
  "map wr_id (t_workspaces d') = map wr_id (t_workspaces d) \<Longrightarrow>
    has_workspace w d' = has_workspace w d"
  unfolding has_workspace_def by (metis set_map)

lemma has_workspace_append [simp]:
  "has_workspace w (d\<lparr>t_workspaces := t_workspaces d @ [r]\<rparr>) \<longleftrightarrow> w = wr_id r \<or> has_workspace w d"
  by (auto simp: has_workspace_def)

lemma has_workspace_frame [simp]:
  "has_workspace w (d\<lparr>t_executions := xs\<rparr>) = has_workspace w d"
  "has_workspace w (d\<lparr>t_snapshots := ss\<rparr>) = has_workspace w d"
  "has_workspace w (d\<lparr>t_artifacts := as\<rparr>) = has_workspace w d"
  "has_workspace w (d\<lparr>t_scopes := bs\<rparr>) = has_workspace w d"
  "has_workspace w (d\<lparr>t_pool_events := ps, pool_event_seq := n\<rparr>) = has_workspace w d"
  by (simp_all add: has_workspace_def)

lemma keys_distinct_snoc [simp]:
  "keys_distinct key (t @ [r]) \<longleftrightarrow> keys_distinct key t \<and> key r \<notin> key ` set t"
  by (auto simp: keys_distinct_def)

lemma tbl_insert_SomeD:
  "tbl_insert key r t = Some t' \<Longrightarrow> t' = t @ [r] \<and> key r \<notin> key ` set t"
  by (simp add: tbl_insert_def split: if_splits)

lemma db_ok_insert_ws: "db_ok d \<Longrightarrow> insert_ws r d = Some d' \<Longrightarrow> db_ok d'"
  by (auto simp: insert_ws_def db_ok_def refs_ok_def dest!: tbl_insert_SomeD)

lemma idem_taken_iff:
  "idem_taken r t \<longleftrightarrow> xr_idempotency_key r \<noteq> None \<and>
    (\<exists>q \<in> set t. xr_workspace_id q = xr_workspace_id r \<and>
      xr_idempotency_key q = xr_idempotency_key r)"
  by (auto simp: idem_taken_def same_idem_def list_ex_iff split: option.split)

lemma idem_unique_append:
  "idem_unique t \<Longrightarrow> \<not> idem_taken r t \<Longrightarrow> idem_unique (t @ [r])"
  by (auto simp: idem_unique_def idem_taken_iff)

lemma db_ok_insert_ex: "db_ok d \<Longrightarrow> insert_ex r d = Some d' \<Longrightarrow> db_ok d'"
  using idem_unique_append [of "t_executions d" r]
  by (auto simp: insert_ex_def db_ok_def refs_ok_def split: if_splits dest!: tbl_insert_SomeD)

lemma db_ok_insert_snap: "db_ok d \<Longrightarrow> insert_snap r d = Some d' \<Longrightarrow> db_ok d'"
  by (auto simp: insert_snap_def db_ok_def refs_ok_def split: if_splits dest!: tbl_insert_SomeD)

lemma db_ok_insert_art: "db_ok d \<Longrightarrow> insert_art r d = Some d' \<Longrightarrow> db_ok d'"
  by (auto simp: insert_art_def db_ok_def refs_ok_def split: if_splits dest!: tbl_insert_SomeD)

lemma db_ok_upsert_scope: "db_ok d \<Longrightarrow> upsert_scope r d = Some d' \<Longrightarrow> db_ok d'"
proof -
  assume ok: "db_ok d" and up: "upsert_scope r d = Some d'"
  define f where "f q = q\<lparr>sr_workspace_id := sr_workspace_id r\<rparr>" for q :: scope_row
  have pk: "scope_pk (f q) = scope_pk q" for q by (simp add: f_def scope_pk_def)
  from up have w: "has_workspace (sr_workspace_id r) d"
    by (simp add: upsert_scope_def split: if_splits)
  show ?thesis
  proof (cases "tbl_insert scope_pk r (t_scopes d)")
    case None
    with up w have "d' = d\<lparr>t_scopes := tbl_update scope_pk (scope_pk r) f (t_scopes d)\<rparr>"
      by (simp add: upsert_scope_def f_def [abs_def])
    moreover have "keys_distinct scope_pk (tbl_update scope_pk (scope_pk r) f (t_scopes d))"
      using ok by (intro scope_tab.ok_upd) (simp_all add: db_ok_def pk)
    ultimately show ?thesis
      using ok w by (auto simp: db_ok_def refs_ok_def f_def dest!: set_tbl_update)
  next
    case (Some t)
    with up w have "d' = d\<lparr>t_scopes := t\<rparr>" by (simp add: upsert_scope_def)
    moreover have "keys_distinct scope_pk t" using ok Some by (auto simp: db_ok_def intro: scope_tab.ok_ins)
    ultimately show ?thesis
      using ok w Some by (auto simp: db_ok_def refs_ok_def dest!: tbl_insert_SomeD)
  qed
qed

lemma idem_unique_filter:
  assumes "idem_unique t"
  shows "idem_unique (filter P t)"
proof -
  let ?Q = "\<lambda>r. xr_idempotency_key r \<noteq> None"
  have "filter ?Q (filter P t) = filter P (filter ?Q t)"
    unfolding filter_filter by (rule filter_cong) auto
  then show ?thesis
    using assms unfolding idem_unique_def by (simp only: map_fst_filter_distinct)
qed

lemma keys_distinct_filter: "keys_distinct key t \<Longrightarrow> keys_distinct key (filter P t)"
  by (simp add: keys_distinct_def map_fst_filter_distinct)

lemma has_workspace_cascade:
  "has_workspace w (cascade_delete wid d) \<longleftrightarrow> w \<noteq> wid \<and> has_workspace w d"
  by (auto simp: has_workspace_def cascade_delete_def)

lemma db_ok_cascade_delete: "db_ok d \<Longrightarrow> db_ok (cascade_delete wid d)"
proof (cases "has_workspace wid d")
  case False
  then show "db_ok d \<Longrightarrow> ?thesis" by (simp add: cascade_delete_def)
next
  case True
  assume ok: "db_ok d"
  have "refs_ok (cascade_delete wid d)"
    unfolding refs_ok_def has_workspace_cascade
    using ok True by (simp add: cascade_delete_def db_ok_def refs_ok_def)
  then show ?thesis
    using ok True by (auto simp: db_ok_def cascade_delete_def keys_distinct_filter
        idem_unique_filter tbl_delete_def)
qed

lemma set_columns_frame:
  "set_columns fs = Inr f \<Longrightarrow> xr_id (f r) = xr_id r \<and>
    xr_workspace_id (f r) = xr_workspace_id r \<and> xr_idempotency_key (f r) = xr_idempotency_key r"
proof (induction fs arbitrary: f r)
  case Nil
  then show ?case by auto
next
  case (Cons x fs)
  then obtain g h where g: "set_column x = Inr g" and h: "set_columns fs = Inr h" and f: "f = (\<lambda>r. h (g r))"
    by (auto simp: bindR_Inr_iff)
  from g have "xr_id (g r) = xr_id r \<and> xr_workspace_id (g r) = xr_workspace_id r \<and>
      xr_idempotency_key (g r) = xr_idempotency_key r"
    by (cases x) (auto simp: bindR_Inr_iff)
  with Cons.IH [OF h, of "g r"] f show ?case by simp
qed

lemma map_tbl_update: "(\<And>r. g (f r) = g r) \<Longrightarrow> map g (tbl_update key k f t) = map g t"
  by (induction t) (auto simp: tbl_update_def)

lemma map_filter_tbl_update:
  "(\<And>r. g (f r) = g r) \<Longrightarrow> (\<And>r. P (f r) = P r) \<Longrightarrow>
    map g (filter P (tbl_update key k f t)) = map g (filter P t)"
  by (induction t) (auto simp: tbl_update_def)

lemma db_ok_update_executions:
  assumes ok: "db_ok d" and f: "set_columns fs = Inr f"
  shows "db_ok (d\<lparr>t_executions := tbl_update xr_id eid f (t_executions d)\<rparr>)"
proof -
  note fr = set_columns_frame [OF f]
  have "idem_unique (tbl_update xr_id eid f (t_executions d)) = idem_unique (t_executions d)"
    unfolding idem_unique_def
    by (subst map_filter_tbl_update) (simp_all add: fr)
  moreover have "keys_distinct xr_id (tbl_update xr_id eid f (t_executions d))"
    using ok fr by (intro ex_tab.ok_upd) (simp_all add: db_ok_def)
  ultimately show ?thesis
    using ok fr by (auto simp: db_ok_def refs_ok_def dest!: set_tbl_update)
qed

lemma db_ok_update_ws:
  assumes ok: "db_ok d" and f: "\<And>r. wr_id (f r) = wr_id r"
  shows "db_ok (d\<lparr>t_workspaces := tbl_update wr_id wid f (t_workspaces d)\<rparr>)"
proof -
  have "has_workspace w (d\<lparr>t_workspaces := tbl_update wr_id wid f (t_workspaces d)\<rparr>) =
      has_workspace w d" for w
    by (rule has_workspace_map) (simp add: keys_tbl_update f)
  moreover have "keys_distinct wr_id (tbl_update wr_id wid f (t_workspaces d))"
    using ok f by (intro ws_tab.ok_upd) (simp_all add: db_ok_def)
  ultimately show ?thesis using ok by (simp add: db_ok_def refs_ok_def)
qed

lemma db_ok_pool_event:
  assumes "db_ok d" and "pr_id r = Suc (pool_event_seq d)"
  shows "db_ok (d\<lparr>t_pool_events := t_pool_events d @ [r], pool_event_seq := Suc (pool_event_seq d)\<rparr>)"
  using assms by (fastforce simp: db_ok_def refs_ok_def sorted_wrt_append)

end
