(* ===== verification/Meta_Runs.thy ===== *)
theory Meta_Runs
  imports Meta_Laws
begin

text \<open>
  Runs of the metastore: any sequence of calls on a new store. The services pass only
  \<open>datetime.now(UTC)\<close> and the statuses of the models (\<open>call_ok\<close>); then, whatever the calls and
  whichever of them raise, the schema invariant holds and every row can be read back, so no
  listing fails and listings by creation time are in the order of time.
\<close>

lemma conn_open [simp]: "ms_open m \<Longrightarrow> conn m = (Inr (migrate (ms_file m)), m)"
  by (simp add: conn_def)

lemma conn_closed [simp]: "\<not> ms_open m \<Longrightarrow> conn m = (Inl ConfigError, m)"
  by (simp add: conn_def)

lemma commit_apply [simp]: "commit d m = (Inr (), m\<lparr>ms_file := Some d\<rparr>)"
  by (simp add: commit_def)

lemma integrity_apply:
  "integrity r m = (case r of None \<Rightarrow> (Inl IntegrityError, m) | Some d \<Rightarrow> (Inr (), m\<lparr>ms_file := Some d\<rparr>))"
  by (simp add: integrity_def raiseM_def split: option.split)

lemma migrate_Some [simp]: "migrate (Some d) = d"
  by (simp add: migrate_def)

section \<open>Written models are read back\<close>

definition ts_ok :: "datetime \<Rightarrow> bool" where
  "ts_ok d \<longleftrightarrow> valid_datetime d \<and> dt_tz d = Some 0"

definition ts_text_ok :: "string \<Rightarrow> bool" where
  "ts_text_ok s \<longleftrightarrow>
     (case fromisoformat s of None \<Rightarrow> False | Some d \<Rightarrow> ts_ok d \<and> isoformat d = s)"

lemma ts_text_ok_isoformat: "ts_ok d \<Longrightarrow> ts_text_ok (isoformat d)"
  by (simp add: ts_text_ok_def ts_ok_def fromisoformat_isoformat)

lemma iso_required_aware:
  "dt_tz d \<noteq> None \<Longrightarrow> iso_required d = Inr (isoformat d)"
  by (auto simp: iso_required_def iso_col_def)

lemma iso_required_Inr: "iso_required d = Inr s \<Longrightarrow> s = isoformat d \<and> dt_tz d \<noteq> None"
  by (auto simp: iso_required_def iso_col_def bindR_Inr_iff split: if_splits)

lemma required_ts_isoformat:
  "valid_datetime d \<Longrightarrow> dt_tz d \<noteq> None \<Longrightarrow> required_ts (isoformat d) = Inr d"
  by (auto simp: required_ts_def parse_iso_col_def fromisoformat_isoformat)

lemma required_ts_text_ok:
  assumes "ts_text_ok s"
  obtains d where "required_ts s = Inr d" and "ts_ok d" and "isoformat d = s"
  using assms required_ts_isoformat
  by (auto simp: ts_text_ok_def ts_ok_def split: option.splits)

lemma row_to_workspace_row:
  assumes "workspace_row w = Inr r" and "valid_datetime (ws_created_at w)"
    and "valid_datetime (ws_updated_at w)"
  shows "row_to_workspace r = Inr w"
  using assms
  by (cases w) (auto simp: workspace_row_def row_to_workspace_def bindR_Inr_iff
      required_ts_isoformat dest!: iso_required_Inr)

lemma as_str_list_map [simp]: "as_str_list (map JStr xs) = Some xs"
  by (induction xs) auto

lemma parse_iso_col_opt:
  "iso_col v = Inr c \<Longrightarrow> (\<And>d. v = Some d \<Longrightarrow> valid_datetime d) \<Longrightarrow> parse_iso_col c = Inr v"
  by (cases v) (auto simp: iso_col_def parse_iso_col_def fromisoformat_isoformat split: if_splits)

lemma row_to_execution_row:
  assumes "execution_row x = Inr r"
    and "\<And>d. ex_started_at x = Some d \<Longrightarrow> valid_datetime d"
    and "\<And>d. ex_finished_at x = Some d \<Longrightarrow> valid_datetime d"
  shows "row_to_execution r = Inr x"
proof -
  from assms(1) obtain s f where s: "iso_col (ex_started_at x) = Inr s"
    and f: "iso_col (ex_finished_at x) = Inr f"
    by (auto simp: execution_row_def bindR_Inr_iff)
  have "parse_iso_col s = Inr (ex_started_at x)" "parse_iso_col f = Inr (ex_finished_at x)"
    using parse_iso_col_opt [OF s] parse_iso_col_opt [OF f] assms by blast+
  then show ?thesis
    using assms(1) s f by (cases x) (auto simp: execution_row_def row_to_execution_def)
qed

lemma row_to_snapshot_row:
  "snapshot_row s = Inr r \<Longrightarrow> valid_datetime (snap_created_at s) \<Longrightarrow> row_to_snapshot r = Inr s"
  by (cases s) (auto simp: snapshot_row_def row_to_snapshot_def bindR_Inr_iff
      required_ts_isoformat dest!: iso_required_Inr)

lemma row_to_artifact_row:
  "artifact_row a = Inr r \<Longrightarrow> valid_datetime (art_created_at a) \<Longrightarrow> row_to_artifact r = Inr a"
  by (cases a) (auto simp: artifact_row_def row_to_artifact_def bindR_Inr_iff
      required_ts_isoformat dest!: iso_required_Inr)

text \<open>A successful create, taken apart.\<close>

lemma create_workspaceE:
  assumes "create_workspace w m = (Inr (), m')"
  obtains r d where "ms_open m" and "workspace_row w = Inr r"
    and "insert_ws r (migrate (ms_file m)) = Some d" and "m' = m\<lparr>ms_file := Some d\<rparr>"
  using assms
  by (cases "ms_open m")
    (auto simp: create_workspace_def op_simps integrity_apply split: sum.splits option.splits)

lemma create_executionE:
  assumes "create_execution x m = (Inr (), m')"
  obtains r d where "ms_open m" and "execution_row x = Inr r"
    and "insert_ex r (migrate (ms_file m)) = Some d" and "m' = m\<lparr>ms_file := Some d\<rparr>"
  using assms
  by (cases "ms_open m")
    (auto simp: create_execution_def op_simps integrity_apply split: sum.splits option.splits)

lemma get_workspace_apply:
  "ms_open m \<Longrightarrow> get_workspace wid m =
    (case tbl_find wr_id wid (t_workspaces (migrate (ms_file m))) of
       None \<Rightarrow> (Inl NotFoundError, m) | Some r \<Rightarrow> (row_to_workspace r, m))"
  by (simp add: get_workspace_def op_simps split: option.split)

lemma get_execution_apply:
  "ms_open m \<Longrightarrow> get_execution eid m =
    (case tbl_find xr_id eid (t_executions (migrate (ms_file m))) of
       None \<Rightarrow> (Inl NotFoundError, m) | Some r \<Rightarrow> (row_to_execution r, m))"
  by (simp add: get_execution_def op_simps split: option.split)

lemma get_workspace_state [simp]: "snd (get_workspace wid m) = m"
  by (cases "ms_open m") (simp_all add: get_workspace_apply get_workspace_def op_simps split: option.split)

lemma workspace_row_id: "workspace_row w = Inr r \<Longrightarrow> wr_id r = ws_id w"
  by (auto simp: workspace_row_def bindR_Inr_iff)

lemma execution_row_id: "execution_row x = Inr r \<Longrightarrow> xr_id r = ex_id x \<and>
    xr_workspace_id r = ex_workspace_id x \<and> xr_idempotency_key r = ex_idempotency_key x"
  by (auto simp: execution_row_def bindR_Inr_iff)

lemma create_then_get_workspace:
  assumes c: "create_workspace w m = (Inr (), m')"
    and v: "valid_datetime (ws_created_at w)" "valid_datetime (ws_updated_at w)"
  shows "get_workspace (ws_id w) m' = (Inr w, m')"
proof -
  from c obtain r d where o: "ms_open m" and r: "workspace_row w = Inr r"
    and i: "insert_ws r (migrate (ms_file m)) = Some d" and m': "m' = m\<lparr>ms_file := Some d\<rparr>"
    by (rule create_workspaceE)
  from i obtain t where t: "tbl_insert wr_id r (t_workspaces (migrate (ms_file m))) = Some t"
    and d: "d = migrate (ms_file m)\<lparr>t_workspaces := t\<rparr>"
    by (auto simp: insert_ws_def)
  have "tbl_find wr_id (ws_id w) t = Some r"
    using ws_tab.look_ins_same [OF t] workspace_row_id [OF r] by simp
  then show ?thesis
    using o d m' row_to_workspace_row [OF r v] by (simp add: get_workspace_apply)
qed

lemma create_then_get_execution:
  assumes c: "create_execution x m = (Inr (), m')"
    and v: "\<And>d. ex_started_at x = Some d \<Longrightarrow> valid_datetime d"
      "\<And>d. ex_finished_at x = Some d \<Longrightarrow> valid_datetime d"
  shows "get_execution (ex_id x) m' = (Inr x, m')"
proof -
  from c obtain r d where o: "ms_open m" and r: "execution_row x = Inr r"
    and i: "insert_ex r (migrate (ms_file m)) = Some d" and m': "m' = m\<lparr>ms_file := Some d\<rparr>"
    by (rule create_executionE)
  from i obtain t where t: "tbl_insert xr_id r (t_executions (migrate (ms_file m))) = Some t"
    and d: "d = migrate (ms_file m)\<lparr>t_executions := t\<rparr>"
    by (auto simp: insert_ex_def split: if_splits)
  have "tbl_find xr_id (ex_id x) t = Some r"
    using ex_tab.look_ins_same [OF t] execution_row_id [OF r] by simp
  then show ?thesis
    using o d m' row_to_execution_row [OF r v] by (simp add: get_execution_apply)
qed

section \<open>Runs\<close>

datatype meta_call =
    CConnect
  | CClose
  | CCreateWorkspace workspace
  | CUpdateStatus string string datetime
  | CDeleteWorkspace string
  | CCreateExecution execution
  | CUpdateExecution string "exec_field list"
  | CCreateSnapshot snapshot
  | CCreateArtifact artifact
  | CBindScope string string string datetime
  | CAppendPoolEvent string string json datetime

fun run_call :: "meta_call \<Rightarrow> unit meta_op" where
  "run_call CConnect = connect"
| "run_call CClose = close_store"
| "run_call (CCreateWorkspace w) = create_workspace w"
| "run_call (CUpdateStatus wid st now) = update_workspace_status wid st now"
| "run_call (CDeleteWorkspace wid) = delete_workspace wid"
| "run_call (CCreateExecution x) = create_execution x"
| "run_call (CUpdateExecution eid fs) = update_execution eid fs"
| "run_call (CCreateSnapshot s) = create_snapshot s"
| "run_call (CCreateArtifact a) = create_artifact a"
| "run_call (CBindScope k key wid now) = bind_scope k key wid now"
| "run_call (CAppendPoolEvent img k p ts) = append_pool_event img k p ts"

text \<open>Arguments as the services pass them: UTC times, statuses of the models.\<close>

fun ts_value_ok :: "ts_value \<Rightarrow> bool" where
  "ts_value_ok TsNone = True"
| "ts_value_ok (TsText s) = ts_text_ok s"
| "ts_value_ok (TsTime d) = ts_ok d"

fun field_ok :: "exec_field \<Rightarrow> bool" where
  "field_ok (FStatus s) = (parse_execution_status s \<noteq> None)"
| "field_ok (FStartedAt v) = ts_value_ok v"
| "field_ok (FFinishedAt v) = ts_value_ok v"
| "field_ok _ = True"

definition opt_ts_ok :: "datetime option \<Rightarrow> bool" where
  "opt_ts_ok v = (case v of None \<Rightarrow> True | Some d \<Rightarrow> ts_ok d)"

fun call_ok :: "meta_call \<Rightarrow> bool" where
  "call_ok (CCreateWorkspace w) = (ts_ok (ws_created_at w) \<and> ts_ok (ws_updated_at w))"
| "call_ok (CUpdateStatus wid st now) = (parse_workspace_status st \<noteq> None \<and> ts_ok now)"
| "call_ok (CCreateExecution x) = (opt_ts_ok (ex_started_at x) \<and> opt_ts_ok (ex_finished_at x))"
| "call_ok (CUpdateExecution eid fs) = list_all field_ok fs"
| "call_ok (CCreateSnapshot s) = ts_ok (snap_created_at s)"
| "call_ok (CCreateArtifact a) = ts_ok (art_created_at a)"
| "call_ok (CBindScope k key wid now) = ts_ok now"
| "call_ok (CAppendPoolEvent img k p ts) = ts_ok ts"
| "call_ok _ = True"

inductive store_run :: "metastore \<Rightarrow> bool" where
  start: "store_run (new_store mem)"
| call: "store_run m \<Longrightarrow> call_ok c \<Longrightarrow> store_run (snd (run_call c m))"

text \<open>Rows whose every column can be turned back into the field of a model.\<close>

definition ws_readable :: "ws_row \<Rightarrow> bool" where
  "ws_readable r \<longleftrightarrow> ts_text_ok (wr_created_at r) \<and> ts_text_ok (wr_updated_at r) \<and>
     spec_of_json (wr_spec_json r) \<noteq> None \<and> as_dict (wr_metadata_json r) \<noteq> None \<and>
     parse_workspace_status (wr_status r) \<noteq> None"

definition opt_text_ok :: "string option \<Rightarrow> bool" where
  "opt_text_ok v = (case v of None \<Rightarrow> True | Some s \<Rightarrow> ts_text_ok s)"

definition ex_readable :: "ex_row \<Rightarrow> bool" where
  "ex_readable r \<longleftrightarrow> opt_text_ok (xr_started_at r) \<and> opt_text_ok (xr_finished_at r) \<and>
     as_command (xr_command_json r) \<noteq> None \<and> parse_execution_status (xr_status r) \<noteq> None"

definition db_readable :: "db \<Rightarrow> bool" where
  "db_readable d \<longleftrightarrow>
     list_all ws_readable (t_workspaces d) \<and> list_all ex_readable (t_executions d) \<and>
     list_all (\<lambda>r. ts_text_ok (nr_created_at r) \<and> nr_format r = ''tar.zst'') (t_snapshots d) \<and>
     list_all (\<lambda>r. ts_text_ok (ar_created_at r)) (t_artifacts d) \<and>
     list_all (\<lambda>r. ts_text_ok (pr_ts r)) (t_pool_events d)"

definition store_ok :: "metastore \<Rightarrow> bool" where
  "store_ok m \<longleftrightarrow> db_ok (migrate (ms_file m)) \<and> db_readable (migrate (ms_file m))"

lemma store_ok_file:
  "store_ok (m\<lparr>ms_file := Some d\<rparr>) \<longleftrightarrow> db_ok d \<and> db_readable d"
  by (simp add: store_ok_def)

lemma db_readable_empty [simp]: "db_readable empty_db"
  by (simp add: db_readable_def empty_db_def)

lemma store_ok_new: "store_ok (new_store mem)"
  by (simp add: store_ok_def new_store_def migrate_def db_ok_empty)

lemma connect_ok [inv_intros]: "store_ok m \<Longrightarrow> store_ok (snd (connect m))"
  by (simp add: connect_def store_ok_def)

lemma close_ok [inv_intros]: "store_ok m \<Longrightarrow> store_ok (snd (close_store m))"
  by (simp add: close_store_def store_ok_def migrate_def db_ok_empty)

lemma iso_required_text_ok: "iso_required d = Inr s \<Longrightarrow> ts_ok d \<Longrightarrow> ts_text_ok s"
  by (auto dest!: iso_required_Inr simp: ts_text_ok_isoformat)

lemma iso_col_text_ok: "iso_col v = Inr c \<Longrightarrow> opt_ts_ok v \<Longrightarrow> opt_text_ok c"
  by (auto simp: iso_col_def opt_ts_ok_def opt_text_ok_def ts_text_ok_isoformat
      split: option.splits if_splits)

lemma ts_column_text_ok: "ts_column v = Inr c \<Longrightarrow> ts_value_ok v \<Longrightarrow> opt_text_ok c"
  by (cases v) (auto simp: opt_text_ok_def iso_col_def ts_text_ok_isoformat split: if_splits)

lemma workspace_row_readable:
  "workspace_row w = Inr r \<Longrightarrow> ts_ok (ws_created_at w) \<Longrightarrow> ts_ok (ws_updated_at w) \<Longrightarrow> ws_readable r"
  by (auto simp: workspace_row_def ws_readable_def bindR_Inr_iff intro: iso_required_text_ok)

lemma execution_row_readable:
  "execution_row x = Inr r \<Longrightarrow> opt_ts_ok (ex_started_at x) \<Longrightarrow> opt_ts_ok (ex_finished_at x) \<Longrightarrow>
    ex_readable r"
  by (auto simp: execution_row_def ex_readable_def bindR_Inr_iff intro: iso_col_text_ok)

lemma set_column_readable:
  "set_column x = Inr g \<Longrightarrow> field_ok x \<Longrightarrow> ex_readable r \<Longrightarrow> ex_readable (g r)"
  by (cases x) (auto simp: ex_readable_def bindR_Inr_iff intro: ts_column_text_ok)

lemma set_columns_readable:
  "set_columns fs = Inr f \<Longrightarrow> list_all field_ok fs \<Longrightarrow> ex_readable r \<Longrightarrow> ex_readable (f r)"
  by (induction fs arbitrary: f r) (auto simp: bindR_Inr_iff intro: set_column_readable)

lemma list_all_tbl_update:
  "list_all P t \<Longrightarrow> (\<And>r. P r \<Longrightarrow> P (f r)) \<Longrightarrow> list_all P (tbl_update key k f t)"
  by (auto simp: list_all_iff dest!: set_tbl_update)

lemma db_readable_insert:
  "db_readable d \<Longrightarrow> insert_ws w d = Some d' \<Longrightarrow> ws_readable w \<Longrightarrow> db_readable d'"
  "db_readable d \<Longrightarrow> insert_ex x d = Some d' \<Longrightarrow> ex_readable x \<Longrightarrow> db_readable d'"
  "db_readable d \<Longrightarrow> insert_snap n d = Some d' \<Longrightarrow> ts_text_ok (nr_created_at n) \<Longrightarrow>
    nr_format n = ''tar.zst'' \<Longrightarrow> db_readable d'"
  "db_readable d \<Longrightarrow> insert_art a d = Some d' \<Longrightarrow> ts_text_ok (ar_created_at a) \<Longrightarrow> db_readable d'"
  "db_readable d \<Longrightarrow> upsert_scope b d = Some d' \<Longrightarrow> db_readable d'"
  by (auto simp: insert_ws_def insert_ex_def insert_snap_def insert_art_def upsert_scope_def
      db_readable_def split: if_splits option.splits dest!: tbl_insert_SomeD)

text \<open>Every \<open>INSERT\<close> method has one shape: connection, row, statement.\<close>

lemma insert_shape_ok:
  assumes "store_ok m"
    and "\<And>r d'. row = Inr r \<Longrightarrow> ins r (migrate (ms_file m)) = Some d' \<Longrightarrow> db_ok d' \<and> db_readable d'"
  shows "store_ok (snd (bindM conn (\<lambda>d. bindM (liftR row) (\<lambda>r. integrity (ins r d))) m))"
  using assms
  by (cases "ms_open m")
    (auto simp: op_simps integrity_apply store_ok_file split: sum.split option.split)

lemma store_okD: "store_ok m \<Longrightarrow> db_ok (migrate (ms_file m))" "store_ok m \<Longrightarrow> db_readable (migrate (ms_file m))"
  by (simp_all add: store_ok_def)

lemma create_workspace_ok [inv_intros]:
  "store_ok m \<Longrightarrow> ts_ok (ws_created_at w) \<Longrightarrow> ts_ok (ws_updated_at w) \<Longrightarrow>
    store_ok (snd (create_workspace w m))"
  unfolding create_workspace_def
  by (rule insert_shape_ok)
    (blast intro: db_ok_insert_ws db_readable_insert workspace_row_readable dest: store_okD)+

lemma create_execution_ok [inv_intros]:
  "store_ok m \<Longrightarrow> opt_ts_ok (ex_started_at x) \<Longrightarrow> opt_ts_ok (ex_finished_at x) \<Longrightarrow>
    store_ok (snd (create_execution x m))"
  unfolding create_execution_def
  by (rule insert_shape_ok)
    (blast intro: db_ok_insert_ex db_readable_insert execution_row_readable dest: store_okD)+

lemma snapshot_row_readable:
  "snapshot_row s = Inr r \<Longrightarrow> ts_ok (snap_created_at s) \<Longrightarrow>
    ts_text_ok (nr_created_at r) \<and> nr_format r = ''tar.zst''"
  by (auto simp: snapshot_row_def bindR_Inr_iff intro: iso_required_text_ok)

lemma artifact_row_readable:
  "artifact_row a = Inr r \<Longrightarrow> ts_ok (art_created_at a) \<Longrightarrow> ts_text_ok (ar_created_at r)"
  by (auto simp: artifact_row_def bindR_Inr_iff intro: iso_required_text_ok)

lemma create_snapshot_ok [inv_intros]:
  "store_ok m \<Longrightarrow> ts_ok (snap_created_at s) \<Longrightarrow> store_ok (snd (create_snapshot s m))"
  unfolding create_snapshot_def
  by (rule insert_shape_ok)
    (blast intro: db_ok_insert_snap db_readable_insert dest: snapshot_row_readable store_okD)+

lemma create_artifact_ok [inv_intros]:
  "store_ok m \<Longrightarrow> ts_ok (art_created_at a) \<Longrightarrow> store_ok (snd (create_artifact a m))"
  unfolding create_artifact_def
  by (rule insert_shape_ok)
    (blast intro: db_ok_insert_art db_readable_insert artifact_row_readable dest: store_okD)+

lemma bind_scope_ok [inv_intros]:
  "store_ok m \<Longrightarrow> store_ok (snd (bind_scope k key wid now m))"
  unfolding bind_scope_def
  by (rule insert_shape_ok)
    (blast intro: db_ok_upsert_scope db_readable_insert dest: store_okD)+

lemma update_status_ok [inv_intros]:
  assumes ok: "store_ok m" and "parse_workspace_status st \<noteq> None" and "ts_ok now"
  shows "store_ok (snd (update_workspace_status wid st now m))"
proof -
  have "store_ok (m\<lparr>ms_file := Some (migrate (ms_file m)\<lparr>t_workspaces := tbl_update wr_id wid
      (\<lambda>r. r\<lparr>wr_status := st, wr_updated_at := ts\<rparr>) (t_workspaces (migrate (ms_file m)))\<rparr>)\<rparr>)"
    if "iso_required now = Inr ts" for ts
    unfolding store_ok_file
    using assms iso_required_text_ok [OF that]
    by (auto simp: store_ok_def db_readable_def ws_readable_def
        intro!: db_ok_update_ws list_all_tbl_update)
  with ok show ?thesis
    by (cases "ms_open m"; cases "iso_required now")
      (auto simp: update_workspace_status_def op_simps)
qed

lemma delete_workspace_ok [inv_intros]:
  assumes ok: "store_ok m"
  shows "store_ok (snd (delete_workspace wid m))"
proof -
  have "db_readable (cascade_delete wid d)" if "db_readable d" for d
    using that by (auto simp: db_readable_def cascade_delete_def list_all_iff)
  with ok have "store_ok (m\<lparr>ms_file := Some (cascade_delete wid (migrate (ms_file m)))\<rparr>)"
    by (simp add: store_ok_file db_ok_cascade_delete store_okD)
  with ok show ?thesis
    by (cases "ms_open m") (auto simp: delete_workspace_def op_simps)
qed

lemma update_execution_ok [inv_intros]:
  assumes ok: "store_ok m" and fs: "list_all field_ok fs"
  shows "store_ok (snd (update_execution eid fs m))"
proof -
  have "store_ok (m\<lparr>ms_file := Some (migrate (ms_file m)\<lparr>t_executions :=
      tbl_update xr_id eid f (t_executions (migrate (ms_file m)))\<rparr>)\<rparr>)"
    if "set_columns fs = Inr f" for f
    unfolding store_ok_file
    using ok set_columns_readable [OF that fs] db_ok_update_executions [OF store_okD(1) [OF ok] that]
    by (auto simp: store_ok_def db_readable_def intro!: list_all_tbl_update)
  with ok show ?thesis
    by (cases "ms_open m"; cases "set_columns fs") (auto simp: update_execution_def op_simps)
qed

lemma append_pool_event_ok [inv_intros]:
  assumes ok: "store_ok m" and "ts_ok ts"
  shows "store_ok (snd (append_pool_event img k p ts m))"
proof -
  have r: "db_readable (d\<lparr>t_pool_events := t_pool_events d @ [r], pool_event_seq := n\<rparr>)"
    if "db_readable d" "ts_text_ok (pr_ts r)" for d r n
    using that by (simp add: db_readable_def)
  show ?thesis
    using assms store_okD [OF ok]
    by (cases "ms_open m"; cases "iso_required ts")
      (simp_all add: append_pool_event_def op_simps store_ok_file db_ok_pool_event r
        iso_required_text_ok)
qed

lemma run_call_ok: "store_ok m \<Longrightarrow> call_ok c \<Longrightarrow> store_ok (snd (run_call c m))"
  by (cases c) (simp_all add: inv_intros)

lemma store_run_ok: "store_run m \<Longrightarrow> store_ok m"
  by (induction rule: store_run.induct) (simp_all add: store_ok_new run_call_ok)

section \<open>Listings in the order of creation\<close>

lemma isoformat_le:
  "ts_ok a \<Longrightarrow> ts_ok b \<Longrightarrow> isoformat a \<le> isoformat b \<longleftrightarrow> dt_fields a \<le> dt_fields b"
  using isoformat_less [of b a] by (simp add: ts_ok_def linorder_not_less [symmetric])

lemma readable_workspace:
  assumes "ws_readable r"
  shows "\<exists>w. row_to_workspace r = Inr w \<and> ws_id w = wr_id r \<and>
    isoformat (ws_created_at w) = wr_created_at r \<and> ts_ok (ws_created_at w)"
proof -
  from assms obtain c where c: "required_ts (wr_created_at r) = Inr c" "ts_ok c"
    "isoformat c = wr_created_at r"
    unfolding ws_readable_def by (blast elim: required_ts_text_ok)
  from assms obtain u where u: "required_ts (wr_updated_at r) = Inr u"
    unfolding ws_readable_def by (blast elim: required_ts_text_ok)
  from assms c u show ?thesis by (auto simp: ws_readable_def row_to_workspace_def)
qed

lemma list_readable_workspaces:
  assumes "list_all ws_readable rows" and "sorted (map wr_created_at rows)"
  shows "\<exists>ws. mapR row_to_workspace rows = Inr ws \<and> map ws_id ws = map wr_id rows \<and>
    sorted (map (\<lambda>w. dt_fields (ws_created_at w)) ws)"
proof -
  define g where "g r = projr (row_to_workspace r)" for r
  have g: "row_to_workspace r = Inr (g r) \<and> ws_id (g r) = wr_id r \<and>
      isoformat (ws_created_at (g r)) = wr_created_at r \<and> ts_ok (ws_created_at (g r))"
    if "r \<in> set rows" for r
    using assms(1) that readable_workspace [of r] by (auto simp: g_def list_all_iff)
  have "mapR row_to_workspace rows = Inr (map g rows)" by (rule mapR_Inr_map) (simp add: g)
  moreover have "map ws_id (map g rows) = map wr_id rows" by (simp add: g)
  moreover have "sorted (map (\<lambda>w. dt_fields (ws_created_at w)) (map g rows))"
  proof -
    have "sorted_wrt (\<lambda>x y. wr_created_at x \<le> wr_created_at y) rows"
      using assms(2) by (simp add: sorted_wrt_map)
    then have "sorted_wrt (\<lambda>x y. dt_fields (ws_created_at (g x)) \<le> dt_fields (ws_created_at (g y))) rows"
      by (rule sorted_wrt_mono_rel [rotated]) (metis g isoformat_le)
    then show ?thesis by (simp add: sorted_wrt_map)
  qed
  ultimately show ?thesis by blast
qed

lemma list_workspaces_apply:
  "ms_open m \<Longrightarrow> list_workspaces st n m = (mapR row_to_workspace
       (sql_limit n (sort_key wr_created_at
          (case st of None \<Rightarrow> t_workspaces (migrate (ms_file m))
           | Some s \<Rightarrow> filter (\<lambda>r. wr_status r = s) (t_workspaces (migrate (ms_file m)))))), m)"
  by (simp add: list_workspaces_def op_simps)

lemma list_all_sort_key: "list_all P xs \<Longrightarrow> list_all P (sort_key f xs)"
  by (simp add: list_all_iff)

lemma list_all_filter: "list_all P xs \<Longrightarrow> list_all P (filter Q xs)"
  by (simp add: list_all_iff)

lemma sql_limit_take: "\<exists>k. sql_limit n xs = take k xs"
  unfolding sql_limit_def by (cases n) (auto intro: exI [of _ "length xs"])

lemma sorted_take_map: "sorted (map f xs) \<Longrightarrow> sorted (map f (take k xs))"
  by (simp add: sorted_wrt_take take_map [symmetric])

lemma list_workspaces_sorted:
  assumes "store_ok m" and "ms_open m"
  shows "\<exists>ws. list_workspaces st n m = (Inr ws, m) \<and>
    map ws_id ws = map wr_id (sql_limit n (sort_key wr_created_at
      (case st of None \<Rightarrow> t_workspaces (migrate (ms_file m))
       | Some s \<Rightarrow> filter (\<lambda>r. wr_status r = s) (t_workspaces (migrate (ms_file m)))))) \<and>
    sorted (map (\<lambda>w. dt_fields (ws_created_at w)) ws)"
proof -
  let ?t = "case st of None \<Rightarrow> t_workspaces (migrate (ms_file m))
       | Some s \<Rightarrow> filter (\<lambda>r. wr_status r = s) (t_workspaces (migrate (ms_file m)))"
  obtain k where k: "sql_limit n (sort_key wr_created_at ?t) = take k (sort_key wr_created_at ?t)"
    using sql_limit_take by blast
  have "list_all ws_readable ?t"
    using assms(1) by (simp add: store_ok_def db_readable_def list_all_filter split: option.split)
  then have "list_all ws_readable (take k (sort_key wr_created_at ?t))"
    by (auto simp: list_all_iff dest: in_set_takeD)
  moreover have "sorted (map wr_created_at (take k (sort_key wr_created_at ?t)))"
    by (rule sorted_take_map) simp
  ultimately show ?thesis
    using list_readable_workspaces assms(2) k by (fastforce simp: list_workspaces_apply)
qed

end
