(* ===== verification/Exec_Runs.thy ===== *)
theory Exec_Runs
  imports Execution Meta_Runs
begin

text \<open>
  Requests that interleave. Any number of requests run over one world, each from await to await,
  while others use the metastore (short of deleting workspaces, updating executions and closing
  it), the file system and the event bus. What a step does to the metastore is at most one call of
  it, so its invariant carries over; from the unique indexes it follows that of the requests with
  one idempotency key at most one gets as far as running its command.
\<close>

section \<open>What a step does to the metastore\<close>

definition meta_of :: "world \<Rightarrow> metastore" where
  "meta_of w = st_meta (w_stores w)"

definition db_of :: "world \<Rightarrow> db" where
  "db_of w = migrate (ms_file (meta_of w))"

definition with_meta :: "metastore \<Rightarrow> world \<Rightarrow> world" where
  "with_meta m w = w\<lparr>w_stores := (w_stores w)\<lparr>st_meta := m\<rparr>\<rparr>"

lemma meta_of_with_meta [simp]: "meta_of (with_meta m w) = m"
  by (simp add: meta_of_def with_meta_def)

lemma in_meta_apply: "in_meta m w = (case m (meta_of w) of (r, x) \<Rightarrow> (r, with_meta x w))"
  by (simp add: in_meta_def on_meta_def focusM_apply meta_of_def with_meta_def split: prod.split)

lemma in_fs_meta [simp]: "meta_of (snd (in_fs m w)) = meta_of w"
  by (simp add: in_fs_def on_fs_def focusM_apply meta_of_def split: prod.split)

lemma publish_event_meta [simp]: "meta_of (snd (publish_event c k wid p w)) = meta_of w"
  by (simp add: publish_event_def meta_of_def)

lemma publish_event_ok: "publish_event c k wid p w = (Inr (), snd (publish_event c k wid p w))"
  by (simp add: publish_event_def)

text \<open>Metastore first, then anything that leaves it alone.\<close>

lemma bind_in_meta:
  assumes "\<And>x v. meta_of (snd (k x v)) = meta_of v"
  shows "meta_of (snd (bindM (in_meta m) k w)) = snd (m (meta_of w))"
  using assms by (simp add: bindM_apply in_meta_apply split: prod.split sum.split)

lemma await_meta: "meta_of (snd (await m w)) = meta_of (snd (m w))"
  by (simp add: await_def split: prod.split sum.split)

lemma bind_meta_keep:
  assumes "meta_of (snd (m w)) = meta_of w" and "\<And>x v. meta_of (snd (k x v)) = meta_of v"
  shows "meta_of (snd (bindM m k w)) = meta_of w"
  using assms by (cases "m w") (auto simp: bindM_apply split: sum.split)

lemma ret_meta [simp]: "meta_of (snd (retM x w)) = meta_of w" "meta_of (snd (liftR r w)) = meta_of w"
  by (simp_all add: retM_apply liftR_apply)

lemma in_meta_meta: "meta_of (snd (in_meta m w)) = snd (m (meta_of w))"
  by (simp add: in_meta_apply split: prod.split)

lemma get_workspace_meta [simp]: "meta_of (snd (in_meta (get_workspace wid) w)) = meta_of w"
  by (simp add: in_meta_meta)

lemma get_idempotency_state [simp]: "snd (get_execution_by_idempotency wid key m) = m"
  by (cases "ms_open m") (simp_all add: get_execution_by_idempotency_def op_simps split: option.split sum.split)

lemma find_cached_meta [simp]: "meta_of (snd (find_cached c wid rq w)) = meta_of w"
proof -
  have "meta_of (snd (in_meta (get_execution_by_idempotency wid key) v)) = meta_of v" for key v
    by (simp add: in_meta_meta)
  then show ?thesis
    by (auto simp: find_cached_def intro!: bind_meta_keep split: option.split)
qed

text \<open>The one call of the metastore a step may make.\<close>

definition finish_fields :: "exec_ctx \<Rightarrow> execution_result \<Rightarrow> string option \<Rightarrow> exec_field list" where
  "finish_fields c r out_path =
     [FStatus (execution_status_str (classify_status (er_exit_code r))), FExitCode (Some (er_exit_code r)),
      FTruncated (er_truncated r), FOutputPath out_path, FFinishedAt (TsText (isoformat (xc_finished c)))]"

definition spill_of :: "exec_ctx \<Rightarrow> string \<Rightarrow> execution_result \<Rightarrow> string option world_op" where
  "spill_of c wid r =
     (if er_truncated r then bindM (in_fs (spill_overflow (xc_base c) wid (exec_id c) (er_output r))) (\<lambda>p. retM (Some p))
      else retM None)"

fun step_call :: "exec_ctx \<Rightarrow> string \<Rightarrow> exec_request \<Rightarrow> exec_pc \<Rightarrow> world \<Rightarrow> meta_call option" where
  "step_call c wid rq (AtCreate ws) w = Some (CCreateExecution (exec_row c wid rq))"
| "step_call c wid rq (AtMark ws) w = Some (CUpdateExecution (exec_id c)
     [FStatus ''running'', FStartedAt (TsText (isoformat (xc_started c)))])"
| "step_call c wid rq (AtFinish (Inl e)) w = Some (CUpdateExecution (exec_id c)
     [FStatus ''failed'', FExitCode None, FFinishedAt (TsText (isoformat (xc_finished c)))])"
| "step_call c wid rq (AtFinish (Inr r)) w =
     (case fst (spill_of c wid r w) of
        Inl e \<Rightarrow> None | Inr p \<Rightarrow> Some (CUpdateExecution (exec_id c) (finish_fields c r p)))"
| "step_call c wid rq k w = None"

definition after_call :: "meta_call option \<Rightarrow> metastore \<Rightarrow> metastore" where
  "after_call call m = (case call of None \<Rightarrow> m | Some x \<Rightarrow> snd (run_call x m))"

lemma spill_of_meta [simp]: "meta_of (snd (spill_of c wid r w)) = meta_of w"
  by (auto simp: spill_of_def intro!: bind_meta_keep)

lemma finish_ok_meta:
  "meta_of (snd (finish_ok c wid r w)) = after_call (step_call c wid rq (AtFinish (Inr r)) w) (meta_of w)"
proof -
  obtain p v where sp: "spill_of c wid r w = (p, v)" by force
  then have v: "meta_of v = meta_of w" using spill_of_meta [of c wid r w] by simp
  have u: "finish_ok c wid r = bindM (spill_of c wid r) (\<lambda>q.
      bindM (in_meta (update_execution (exec_id c) (finish_fields c r q))) (\<lambda>_.
      bindM (publish_event c ''execution.finished'' wid
        [(''exit_code'', PvInt (er_exit_code r)),
         (''status'', PvStr (execution_status_str (classify_status (er_exit_code r)))),
         (''truncated'', PvBool (er_truncated r))]) (\<lambda>_.
      retM \<lparr>er_execution_id = exec_id c, er_output = er_output r, er_exit_code = er_exit_code r,
       er_truncated = er_truncated r, er_output_path = q, er_duration_ms = xc_duration_ms c\<rparr>)))"
    by (simp add: finish_ok_def spill_of_def finish_fields_def Let_def)
  show ?thesis
  proof (cases p)
    case (Inl e)
    with sp v show ?thesis by (simp add: u bindM_apply [of "spill_of c wid r"] after_call_def)
  next
    case (Inr q)
    have "meta_of (snd (finish_ok c wid r w)) =
        snd (update_execution (exec_id c) (finish_fields c r q) (meta_of v))"
      unfolding u bindM_apply [of "spill_of c wid r"] sp
      by (simp add: Inr) (rule bind_in_meta, rule bind_meta_keep, simp_all)
    with sp Inr v show ?thesis by (simp add: after_call_def)
  qed
qed

lemma bind_ret_meta: "meta_of (snd (bindM m (\<lambda>x. retM (g x)) w)) = meta_of (snd (m w))"
  by (simp add: bindM_apply retM_apply split: prod.split sum.split)

lemma exec_step_meta:
  "meta_of (snd (exec_step c wid rq k w)) = after_call (step_call c wid rq k w) (meta_of w)"
proof -
  have q: "meta_of (snd (queue_execution c wid rq w)) = snd (create_execution (exec_row c wid rq) (meta_of w))"
    unfolding queue_execution_def by (rule bind_in_meta) simp
  have r: "meta_of (snd (mark_running c wid v)) = snd (update_execution (exec_id c)
     [FStatus ''running'', FStartedAt (TsText (isoformat (xc_started c)))] (meta_of v))" for v
    unfolding mark_running_def by (rule bind_in_meta) simp
  have g: "meta_of (snd (finish_failed c wid e w)) = snd (update_execution (exec_id c)
     [FStatus ''failed'', FExitCode None, FFinishedAt (TsText (isoformat (xc_finished c)))] (meta_of w))" for e
    unfolding finish_failed_def by (rule bind_in_meta) simp
  have b: "meta_of (snd (bindM (mark_running c wid) (\<lambda>_. bindM (liftR (prepare_command rq)) (\<lambda>cmd. retM (AtRun ws cmd))) w)) =
      meta_of (snd (mark_running c wid w))" for ws
    by (simp add: bindM_apply retM_apply liftR_apply split: prod.split sum.split)
  show ?thesis
  proof (cases "(c, wid, rq, k, w)" rule: exec_step.cases)
    case (7 c' wid' rq' r w')
    then show ?thesis using finish_ok_meta [of c wid r w rq] by (simp add: await_meta bind_ret_meta)
  qed (simp_all add: await_meta bind_ret_meta q r g b after_call_def)
qed

section \<open>The rows of executions\<close>

definition ident :: "ex_row \<Rightarrow> string \<times> string \<times> string option" where
  "ident r = (xr_id r, xr_workspace_id r, xr_idempotency_key r)"

text \<open>Calls others may make meanwhile.\<close>

fun quiet_call :: "meta_call \<Rightarrow> bool" where
  "quiet_call (CDeleteWorkspace wid) = False"
| "quiet_call (CUpdateExecution eid fs) = False"
| "quiet_call CClose = False"
| "quiet_call c = True"

definition rows_of :: "metastore \<Rightarrow> ex_row list" where
  "rows_of m = t_executions (migrate (ms_file m))"

lemma quiet_rows:
  assumes "quiet_call c"
  shows "rows_of (snd (run_call c m)) = rows_of m \<or> (\<exists>r. rows_of (snd (run_call c m)) = rows_of m @ [r])"
proof (cases "ms_open m")
  case False
  with assms show ?thesis
    by (cases c) (simp_all add: rows_of_def connect_def create_workspace_def update_workspace_status_def
        create_execution_def create_snapshot_def create_artifact_def bind_scope_def append_pool_event_def op_simps)
next
  case True
  with assms show ?thesis
    by (cases c) (auto simp: rows_of_def connect_def create_workspace_def update_workspace_status_def
        create_execution_def create_snapshot_def create_artifact_def bind_scope_def append_pool_event_def
        op_simps integrity_apply insert_ws_def insert_ex_def insert_snap_def insert_art_def upsert_scope_def
        tbl_insert_def split: sum.split option.split if_splits)
qed

lemma update_rows:
  "rows_of (snd (update_execution eid fs m)) = rows_of m \<or>
    (\<exists>f. set_columns fs = Inr f \<and> rows_of (snd (update_execution eid fs m)) = tbl_update xr_id eid f (rows_of m))"
  by (cases "ms_open m"; cases "set_columns fs") (auto simp: rows_of_def update_execution_def op_simps)

lemma map_ident_update:
  "set_columns fs = Inr f \<Longrightarrow> map ident (tbl_update xr_id eid f t) = map ident t"
  using set_columns_frame [of fs f] by (intro map_tbl_update) (simp add: ident_def)

text \<open>No row disappears, whatever step or call.\<close>

definition idents :: "world \<Rightarrow> (string \<times> string \<times> string option) set" where
  "idents w = ident ` set (rows_of (meta_of w))"

lemma update_idents: "ident ` set (rows_of (snd (update_execution eid fs m))) = ident ` set (rows_of m)"
proof -
  from update_rows [of eid fs m] consider "rows_of (snd (update_execution eid fs m)) = rows_of m"
    | f where "set_columns fs = Inr f" "rows_of (snd (update_execution eid fs m)) = tbl_update xr_id eid f (rows_of m)"
    by blast
  then show ?thesis
  proof cases
    case 2
    have "set (map ident (tbl_update xr_id eid f (rows_of m))) = set (map ident (rows_of m))"
      by (simp only: map_ident_update [OF 2(1)])
    with 2(2) show ?thesis by simp
  qed simp
qed

lemma after_call_idents:
  "(\<And>c. call = Some c \<Longrightarrow> quiet_call c \<or> (\<exists>eid fs. c = CUpdateExecution eid fs)) \<Longrightarrow>
    ident ` set (rows_of m) \<subseteq> ident ` set (rows_of (after_call call m))"
proof (cases call)
  case (Some c)
  assume "\<And>c. call = Some c \<Longrightarrow> quiet_call c \<or> (\<exists>eid fs. c = CUpdateExecution eid fs)"
  with Some consider "quiet_call c" | eid fs where "c = CUpdateExecution eid fs" by blast
  then show ?thesis
  proof cases
    case 1
    from quiet_rows [OF this, of m] Some show ?thesis by (auto simp: after_call_def)
  next
    case 2
    with Some update_idents [of eid fs m] show ?thesis by (simp add: after_call_def)
  qed
qed (simp add: after_call_def)

lemma step_call_cases:
  "step_call c wid rq k w = Some call \<Longrightarrow> quiet_call call \<or> (\<exists>fs. call = CUpdateExecution (exec_id c) fs)"
  by (cases "(c, wid, rq, k, w)" rule: exec_step.cases) (auto split: sum.splits)

lemma exec_step_idents: "idents w \<subseteq> idents (snd (exec_step c wid rq k w))"
  unfolding idents_def exec_step_meta
  by (rule after_call_idents) (blast dest: step_call_cases)

section \<open>The system\<close>

type_synonym job = "exec_ctx \<times> string \<times> exec_request"

record exec_sys =
  sy_world :: world
  sy_pc :: "nat \<Rightarrow> exec_pc"
  sy_begun :: "nat set"

fun begins :: "exec_pc \<Rightarrow> bool" where
  "begins (AtMark ws) = True"
| "begins k = False"

definition sys_step :: "(nat \<Rightarrow> job) \<Rightarrow> nat \<Rightarrow> exec_sys \<Rightarrow> exec_sys" where
  "sys_step jobs i s = (case jobs i of (c, wid, rq) \<Rightarrow>
     (case exec_step c wid rq (sy_pc s i) (sy_world s) of (k, w) \<Rightarrow>
       \<lparr>sy_world = w, sy_pc = (sy_pc s)(i := k),
        sy_begun = (if begins k then insert i (sy_begun s) else sy_begun s)\<rparr>))"

definition start_sys :: "world \<Rightarrow> exec_sys" where
  "start_sys w = \<lparr>sy_world = w, sy_pc = \<lambda>_. AtGet, sy_begun = {}\<rparr>"

inductive exec_run :: "(nat \<Rightarrow> job) \<Rightarrow> world \<Rightarrow> exec_sys \<Rightarrow> bool" for jobs w0 where
  start: "exec_run jobs w0 (start_sys w0)"
| job: "exec_run jobs w0 s \<Longrightarrow> exec_run jobs w0 (sys_step jobs i s)"
| meta: "exec_run jobs w0 s \<Longrightarrow> quiet_call c \<Longrightarrow> call_ok c \<Longrightarrow>
    exec_run jobs w0 (s\<lparr>sy_world := with_meta (snd (run_call c (meta_of (sy_world s)))) (sy_world s)\<rparr>)"
| other: "exec_run jobs w0 s \<Longrightarrow> meta_of w = meta_of (sy_world s) \<Longrightarrow> exec_run jobs w0 (s\<lparr>sy_world := w\<rparr>)"

inductive_cases exec_runE: "exec_run jobs w0 s"

definition job_ok :: "job \<Rightarrow> bool" where
  "job_ok j \<longleftrightarrow> ts_ok (xc_started (fst j)) \<and> ts_ok (xc_finished (fst j))"

lemma parse_status_texts:
  "parse_execution_status ''running'' = Some ExRunning" "parse_execution_status ''failed'' = Some ExFailed"
  by (simp_all add: parse_execution_status_def)

lemma step_call_ok:
  "ts_ok (xc_started c) \<Longrightarrow> ts_ok (xc_finished c) \<Longrightarrow> step_call c wid rq k w = Some call \<Longrightarrow> call_ok call"
  by (cases "(c, wid, rq, k, w)" rule: exec_step.cases)
    (auto simp: exec_row_def new_execution_def opt_ts_ok_def ts_text_ok_isoformat finish_fields_def
      parse_status_texts split: sum.splits)

text \<open>The execution a request has made.\<close>

definition job_ident :: "job \<Rightarrow> string \<times> string \<times> string option" where
  "job_ident j = (case j of (c, wid, rq) \<Rightarrow> (exec_id c, wid, rq_idempotency_key rq))"

definition sys_ok :: "(nat \<Rightarrow> job) \<Rightarrow> exec_sys \<Rightarrow> bool" where
  "sys_ok jobs s \<longleftrightarrow> store_ok (meta_of (sy_world s)) \<and>
     (\<forall>i \<in> sy_begun s. job_ident (jobs i) \<in> idents (sy_world s)) \<and>
     inj_on (\<lambda>i. fst (job_ident (jobs i))) (sy_begun s)"

lemma exec_step_begins:
  assumes "begins (fst (exec_step c wid rq k w))"
  shows "(exec_id c, wid, rq_idempotency_key rq) \<in> idents (snd (exec_step c wid rq k w)) \<and>
    exec_id c \<notin> fst ` idents w"
proof -
  from assms obtain ws where k: "k = AtCreate ws"
    by (cases "(c, wid, rq, k, w)" rule: exec_step.cases)
      (auto simp: await_bind await_bind_lift split: prod.splits sum.splits option.splits)
  with assms obtain w' where q: "queue_execution c wid rq w = (Inr (), w')"
    by (auto simp: await_bind split: prod.splits sum.splits)
  then obtain m where m: "create_execution (exec_row c wid rq) (meta_of w) = (Inr (), m)"
    by (auto simp: queue_execution_def bindM_apply in_meta_apply split: prod.splits sum.splits)
  then obtain r d where r: "execution_row (exec_row c wid rq) = Inr r"
    and d: "insert_ex r (migrate (ms_file (meta_of w))) = Some d" and m': "m = (meta_of w)\<lparr>ms_file := Some d\<rparr>"
    by (rule create_executionE)
  from d have rows: "t_executions d = rows_of (meta_of w) @ [r]" "xr_id r \<notin> xr_id ` set (rows_of (meta_of w))"
    by (auto simp: insert_ex_def rows_of_def split: if_splits dest!: tbl_insert_SomeD)
  have id: "ident r = (exec_id c, wid, rq_idempotency_key rq)"
    using execution_row_id [OF r] by (simp add: ident_def exec_row_def new_execution_def)
  have "meta_of (snd (exec_step c wid rq k w)) = m"
    unfolding exec_step_meta using k m by (simp add: after_call_def)
  with rows(1) m' id have "(exec_id c, wid, rq_idempotency_key rq) \<in> idents (snd (exec_step c wid rq k w))"
    by (simp add: idents_def rows_of_def)
  moreover have "fst ` idents w = xr_id ` set (rows_of (meta_of w))" by (force simp: idents_def ident_def)
  ultimately show ?thesis using rows(2) id by (simp add: ident_def)
qed

lemma sys_ok_grow:
  assumes "sys_ok jobs s" and "store_ok (meta_of w)" and "idents (sy_world s) \<subseteq> idents w"
  shows "sys_ok jobs (s\<lparr>sy_world := w\<rparr>)"
  using assms by (auto simp: sys_ok_def)

lemma sys_step_ok:
  assumes "sys_ok jobs s" and "job_ok (jobs i)"
  shows "sys_ok jobs (sys_step jobs i s)"
proof -
  obtain c wid rq where j: "jobs i = (c, wid, rq)" by (cases "jobs i")
  obtain k w where e: "exec_step c wid rq (sy_pc s i) (sy_world s) = (k, w)" by force
  have m: "meta_of w = after_call (step_call c wid rq (sy_pc s i) (sy_world s)) (meta_of (sy_world s))"
    using exec_step_meta [of c wid rq "sy_pc s i" "sy_world s"] e by simp
  have st: "store_ok (meta_of w)"
    using assms j step_call_ok [of c wid rq "sy_pc s i" "sy_world s"]
    by (auto simp: m after_call_def sys_ok_def job_ok_def intro: run_call_ok split: option.split)
  have gr: "idents (sy_world s) \<subseteq> idents w"
    using exec_step_idents [of "sy_world s" c wid rq "sy_pc s i"] e by simp
  show ?thesis
  proof (cases "begins k")
    case False
    with assms(1) j e st gr show ?thesis by (auto simp: sys_ok_def sys_step_def)
  next
    case True
    with exec_step_begins [of c wid rq "sy_pc s i" "sy_world s"] e j
    have b: "job_ident (jobs i) \<in> idents w" "fst (job_ident (jobs i)) \<notin> fst ` idents (sy_world s)"
      by (simp_all add: job_ident_def)
    have "fst (job_ident (jobs i)) \<notin> (\<lambda>i. fst (job_ident (jobs i))) ` sy_begun s"
      using b(2) assms(1) by (force simp: sys_ok_def)
    with True assms(1) j e st gr b(1) show ?thesis by (auto simp: sys_ok_def sys_step_def)
  qed
qed

lemma with_meta_idents: "idents (with_meta m w) = ident ` set (rows_of m)"
  by (simp add: idents_def)

lemma exec_run_ok:
  assumes "exec_run jobs w0 s" and "store_ok (meta_of w0)" and "\<And>i. job_ok (jobs i)"
  shows "sys_ok jobs s"
  using assms(1)
proof (induction rule: exec_run.induct)
  case start
  then show ?case using assms(2) by (simp add: sys_ok_def start_sys_def)
next
  case (job s i)
  then show ?case using assms(3) by (simp add: sys_step_ok)
next
  case (meta s c)
  have "ident ` set (rows_of (meta_of (sy_world s))) \<subseteq> ident ` set (rows_of (snd (run_call c (meta_of (sy_world s)))))"
    using quiet_rows [OF meta.hyps(2), of "meta_of (sy_world s)"] by auto
  with meta show ?case
    by (intro sys_ok_grow) (simp_all add: sys_ok_def run_call_ok with_meta_idents idents_def)
next
  case (other s w)
  then show ?case by (intro sys_ok_grow) (simp_all add: sys_ok_def idents_def)
qed

text \<open>One row per idempotency key.\<close>

lemma idem_unique_row:
  assumes "store_ok m" and "(a, wid, Some key) \<in> ident ` set (rows_of m)" and "(b, wid, Some key) \<in> ident ` set (rows_of m)"
  shows "a = b"
proof -
  let ?t = "filter (\<lambda>r. xr_idempotency_key r \<noteq> None) (rows_of m)"
  have "distinct (map (\<lambda>r. (xr_workspace_id r, xr_idempotency_key r)) ?t)"
    using assms(1) by (simp add: store_ok_def db_ok_def idem_unique_def rows_of_def)
  moreover from assms(2,3) obtain r q where "r \<in> set ?t" "q \<in> set ?t" "ident r = (a, wid, Some key)" "ident q = (b, wid, Some key)"
    by (auto simp: ident_def)
  ultimately have "r = q" by (intro distinct_key_unique [of "\<lambda>r. (xr_workspace_id r, xr_idempotency_key r)" ?t]) (auto simp: ident_def)
  with \<open>ident r = _\<close> \<open>ident q = _\<close> show ?thesis by simp
qed

lemma begun_once:
  assumes "sys_ok jobs s" and "i \<in> sy_begun s" and "j \<in> sy_begun s"
    and "snd (job_ident (jobs i)) = (wid, Some key)" and "snd (job_ident (jobs j)) = (wid, Some key)"
  shows "i = j"
proof -
  have i: "job_ident (jobs i) = (fst (job_ident (jobs i)), wid, Some key)"
    and j: "job_ident (jobs j) = (fst (job_ident (jobs j)), wid, Some key)"
    using assms(4,5) by (metis prod.collapse)+
  have "(fst (job_ident (jobs i)), wid, Some key) \<in> idents (sy_world s)"
    unfolding i [symmetric] using assms(1,2) by (simp add: sys_ok_def)
  moreover have "(fst (job_ident (jobs j)), wid, Some key) \<in> idents (sy_world s)"
    unfolding j [symmetric] using assms(1,3) by (simp add: sys_ok_def)
  ultimately have "fst (job_ident (jobs i)) = fst (job_ident (jobs j))"
    using assms(1) idem_unique_row [of "meta_of (sy_world s)"] by (simp add: sys_ok_def idents_def)
  with assms(1-3) show ?thesis by (auto simp: sys_ok_def dest: inj_onD)
qed

section \<open>The status of an execution\<close>

fun past_create :: "exec_pc \<Rightarrow> bool" where
  "past_create (AtMark ws) = True"
| "past_create (AtRun ws cmd) = True"
| "past_create (AtFinish r) = True"
| "past_create k = False"

lemma exec_step_past:
  assumes "past_create (fst (exec_step c wid rq k w))"
  shows "past_create k \<or> begins (fst (exec_step c wid rq k w))"
  using assms
  by (cases "(c, wid, rq, k, w)" rule: exec_step.cases)
    (auto simp: await_bind await_bind_lift split: prod.splits sum.splits option.splits)

lemma run_begun:
  assumes "exec_run jobs w0 s"
  shows "past_create (sy_pc s i) \<Longrightarrow> i \<in> sy_begun s"
  using assms
proof (induction arbitrary: i rule: exec_run.induct)
  case (job s j)
  obtain c wid rq where j: "jobs j = (c, wid, rq)" by (cases "jobs j")
  with job exec_step_past [of c wid rq "sy_pc s j" "sy_world s"] show ?case
    by (auto simp: sys_step_def split: prod.splits if_splits)
qed (simp_all add: start_sys_def)

definition row_status :: "metastore \<Rightarrow> string \<Rightarrow> string option" where
  "row_status m e = map_option xr_status (tbl_find xr_id e (rows_of m))"

lemma update_status_other: "e \<noteq> eid \<Longrightarrow> row_status (snd (update_execution eid fs m)) e = row_status m e"
  using update_rows [of eid fs m]
  by (auto simp: row_status_def ex_tab.look_upd set_columns_frame)

lemma update_status_same:
  assumes "set_columns fs = Inr f" and "\<And>r. xr_status (f r) = st" and "fs \<noteq> []" and "\<not> list_ex is_unknown fs"
    and "update_execution eid fs m = (Inr (), m')"
  shows "row_status m' eid = Some st"
  using assms set_columns_frame [OF assms(1)]
  by (cases "ms_open m") (auto simp: update_execution_def op_simps row_status_def rows_of_def ex_tab.look_upd split: if_splits)

lemma grown_status:
  assumes "rows_of m' = rows_of m \<or> (\<exists>r. rows_of m' = rows_of m @ [r])" and "row_status m e = Some st"
  shows "row_status m' e = Some st"
  using assms by (auto simp: row_status_def tbl_find_def find_append)

fun status_at :: "exec_pc \<Rightarrow> string option" where
  "status_at (AtMark ws) = Some ''queued''"
| "status_at (AtRun ws cmd) = Some ''running''"
| "status_at (AtFinish r) = Some ''running''"
| "status_at k = None"

text \<open>What its own step does to the status of a request.\<close>

lemma exec_step_status:
  assumes "status_at (fst (exec_step c wid rq k w)) = Some st"
    and "\<And>old. status_at k = Some old \<Longrightarrow> row_status (meta_of w) (exec_id c) = Some old"
  shows "row_status (meta_of (snd (exec_step c wid rq k w))) (exec_id c) = Some st"
proof (cases "(c, wid, rq, k, w)" rule: exec_step.cases)
  case (3 c' wid' rq' ws w')
  then have k: "k = AtCreate ws" by simp
  with assms(1) obtain v where "queue_execution c wid rq w = (Inr (), v)" and st: "st = ''queued''"
    by (auto simp: await_bind split: prod.splits sum.splits)
  then obtain m where m: "create_execution (exec_row c wid rq) (meta_of w) = (Inr (), m)"
    by (auto simp: queue_execution_def bindM_apply in_meta_apply split: prod.splits sum.splits)
  then obtain r d where r: "execution_row (exec_row c wid rq) = Inr r"
    and d: "insert_ex r (migrate (ms_file (meta_of w))) = Some d" and m': "m = (meta_of w)\<lparr>ms_file := Some d\<rparr>"
    by (rule create_executionE)
  from d obtain t where t: "tbl_insert xr_id r (rows_of (meta_of w)) = Some t" "t_executions d = t"
    by (auto simp: insert_ex_def rows_of_def split: if_splits)
  have "xr_id r = exec_id c" "xr_status r = ''queued''"
    using r by (auto simp: execution_row_def exec_row_def new_execution_def bindR_Inr_iff)
  moreover have "rows_of m = t" using m' t(2) by (simp add: rows_of_def)
  ultimately have "row_status m (exec_id c) = Some ''queued''"
    using ex_tab.look_ins_same [OF t(1)] by (simp add: row_status_def)
  moreover have "meta_of (snd (exec_step c wid rq k w)) = m"
    unfolding exec_step_meta using k m by (simp add: after_call_def)
  ultimately show ?thesis using st by simp
next
  case (4 c' wid' rq' ws w')
  then have k: "k = AtMark ws" by simp
  with assms(1) obtain v where "mark_running c wid w = (Inr (), v)" and st: "st = ''running''"
    by (auto simp: await_bind_lift split: prod.splits sum.splits)
  then obtain m where m: "update_execution (exec_id c)
      [FStatus ''running'', FStartedAt (TsText (isoformat (xc_started c)))] (meta_of w) = (Inr (), m)"
    by (auto simp: mark_running_def bindM_apply in_meta_apply split: prod.splits sum.splits)
  have "row_status m (exec_id c) = Some ''running''"
    by (rule update_status_same [OF _ _ _ _ m,
        of "\<lambda>r. r\<lparr>xr_status := ''running'', xr_started_at := Some (isoformat (xc_started c))\<rparr>"]) auto
  moreover have "meta_of (snd (exec_step c wid rq k w)) = m"
    unfolding exec_step_meta using k m by (simp add: after_call_def)
  ultimately show ?thesis using st by simp
next
  case (5 c' wid' rq' ws cmd w')
  with assms show ?thesis by simp
qed (use assms in \<open>auto simp: await_bind split: prod.splits sum.splits option.splits\<close>)

definition job_eid :: "job \<Rightarrow> string" where
  "job_eid j = exec_id (fst j)"

lemma job_eid_ident: "fst (job_ident j) = job_eid j"
  by (simp add: job_ident_def job_eid_def split: prod.split)

definition status_ok :: "(nat \<Rightarrow> job) \<Rightarrow> exec_sys \<Rightarrow> bool" where
  "status_ok jobs s \<longleftrightarrow> (\<forall>i st. status_at (sy_pc s i) = Some st \<longrightarrow>
     row_status (meta_of (sy_world s)) (job_eid (jobs i)) = Some st)"

lemma status_okD:
  "status_ok jobs s \<Longrightarrow> status_at (sy_pc s i) = Some st \<Longrightarrow> jobs i = (c, wid, rq) \<Longrightarrow>
    row_status (meta_of (sy_world s)) (exec_id c) = Some st"
  unfolding status_ok_def job_eid_def by (metis fst_conv)

lemma status_at_past: "status_at k = Some st \<Longrightarrow> past_create k"
  by (cases k) auto

lemma step_call_status_other:
  assumes "e \<noteq> exec_id c \<or> (\<forall>fs. step_call c wid rq k w \<noteq> Some (CUpdateExecution (exec_id c) fs))"
    and "row_status (meta_of w) e = Some st"
  shows "row_status (meta_of (snd (exec_step c wid rq k w))) e = Some st"
proof (cases "step_call c wid rq k w")
  case None
  with assms(2) show ?thesis by (simp add: exec_step_meta after_call_def)
next
  case (Some call)
  from step_call_cases [OF Some] consider "quiet_call call" | fs where "call = CUpdateExecution (exec_id c) fs" by blast
  then show ?thesis
  proof cases
    case 1
    from grown_status [OF quiet_rows [OF this] assms(2)] Some show ?thesis
      by (simp add: exec_step_meta after_call_def)
  next
    case 2
    with Some assms show ?thesis by (simp add: exec_step_meta after_call_def update_status_other)
  qed
qed

lemma update_call_past:
  "step_call c wid rq k w = Some (CUpdateExecution eid fs) \<Longrightarrow> past_create k"
  by (cases k) (auto split: sum.splits)

lemma sys_step_status:
  assumes ok: "sys_ok jobs s" "status_ok jobs s" and past: "\<And>i. past_create (sy_pc s i) \<Longrightarrow> i \<in> sy_begun s"
  shows "status_ok jobs (sys_step jobs j s)"
  unfolding status_ok_def
proof (intro allI impI)
  fix i st
  assume st: "status_at (sy_pc (sys_step jobs j s) i) = Some st"
  obtain c wid rq where j: "jobs j = (c, wid, rq)" by (cases "jobs j")
  obtain k w where e: "exec_step c wid rq (sy_pc s j) (sy_world s) = (k, w)" by force
  have w: "sy_world (sys_step jobs j s) = snd (exec_step c wid rq (sy_pc s j) (sy_world s))"
    by (simp add: sys_step_def j e)
  show "row_status (meta_of (sy_world (sys_step jobs j s))) (job_eid (jobs i)) = Some st"
  proof (cases "i = j")
    case True
    with st have "status_at (fst (exec_step c wid rq (sy_pc s j) (sy_world s))) = Some st"
      by (simp add: sys_step_def j e)
    from exec_step_status [OF this status_okD [OF ok(2) _ j]] True j w show ?thesis
      by (simp add: job_eid_def)
  next
    case False
    with st have s: "status_at (sy_pc s i) = Some st" by (simp add: sys_step_def j e)
    have "job_eid (jobs i) \<noteq> exec_id c \<or>
        (\<forall>fs. step_call c wid rq (sy_pc s j) (sy_world s) \<noteq> Some (CUpdateExecution (exec_id c) fs))"
      using past [OF status_at_past [OF s]] past [OF update_call_past] ok(1) False j
      by (auto simp: sys_ok_def job_eid_ident job_eid_def dest!: inj_onD [where x = i and y = j])
    with s ok(2) w show ?thesis
      by (auto simp: status_ok_def intro: step_call_status_other)
  qed
qed

lemma exec_run_status:
  assumes "exec_run jobs w0 s" and "store_ok (meta_of w0)" and "\<And>i. job_ok (jobs i)"
  shows "status_ok jobs s"
  using assms(1)
proof (induction rule: exec_run.induct)
  case start
  then show ?case by (simp add: status_ok_def start_sys_def)
next
  case (job s i)
  then show ?case using exec_run_ok [OF job.hyps assms(2,3)] run_begun [OF job.hyps]
    by (intro sys_step_status) auto
next
  case (meta s c)
  then show ?case using grown_status [OF quiet_rows [OF meta.hyps(2)]] by (auto simp: status_ok_def)
next
  case (other s w)
  then show ?case by (simp add: status_ok_def)
qed

text \<open>A status only moves on: from queued to running to a terminal one, which stays.\<close>

definition status_rank :: "string \<Rightarrow> nat" where
  "status_rank st = (if st = ''queued'' then 0 else if st = ''running'' then 1 else 2)"

lemma update_status_cases:
  assumes "set_columns fs = Inr f" and "row_status m eid = Some a"
  shows "\<exists>r. row_status (snd (update_execution eid fs m)) eid \<in> {Some a, Some (xr_status (f r))}"
  using update_rows [of eid fs m] assms set_columns_frame [OF assms(1)]
  by (auto simp: row_status_def ex_tab.look_upd)

lemma exec_step_own_status:
  assumes "row_status (meta_of w) (exec_id c) = Some a" and "\<And>st. status_at k = Some st \<Longrightarrow> a = st"
  shows "\<exists>b. row_status (meta_of (snd (exec_step c wid rq k w))) (exec_id c) = Some b \<and>
    (b = a \<or> status_rank a < status_rank b)"
proof (cases "\<exists>fs. step_call c wid rq k w = Some (CUpdateExecution (exec_id c) fs)")
  case False
  with assms(1) show ?thesis using step_call_status_other [of "exec_id c" c wid rq k w a] by auto
next
  case True
  then obtain fs where fs: "step_call c wid rq k w = Some (CUpdateExecution (exec_id c) fs)" by blast
  have "\<exists>f. set_columns fs = Inr f \<and> (\<forall>r. status_rank a < status_rank (xr_status (f r)))"
    using fs assms(2)
    by (cases "(c, wid, rq, k, w)" rule: exec_step.cases)
      (auto simp: finish_fields_def status_rank_def classify_status_def split: sum.splits)
  then obtain f where f: "set_columns fs = Inr f" "\<And>r. status_rank a < status_rank (xr_status (f r))" by blast
  from update_status_cases [OF f(1) assms(1)] f(2) fs show ?thesis
    by (auto simp: exec_step_meta after_call_def)
qed

lemma status_moves_on:
  assumes "status_ok jobs s" and "row_status (meta_of (sy_world s)) e = Some a"
  shows "\<exists>b. row_status (meta_of (sy_world (sys_step jobs i s))) e = Some b \<and> (b = a \<or> status_rank a < status_rank b)"
proof -
  obtain c wid rq where j: "jobs i = (c, wid, rq)" by (cases "jobs i")
  have w: "sy_world (sys_step jobs i s) = snd (exec_step c wid rq (sy_pc s i) (sy_world s))"
    by (simp add: sys_step_def j split: prod.split)
  show ?thesis
  proof (cases "e = exec_id c")
    case True
    have "\<And>st. status_at (sy_pc s i) = Some st \<Longrightarrow> a = st"
      using status_okD [OF assms(1) _ j] assms(2) True by fastforce
    with exec_step_own_status [of "sy_world s" c a "sy_pc s i" wid rq] assms(2) True w show ?thesis by simp
  next
    case False
    with step_call_status_other [of e c wid rq "sy_pc s i" "sy_world s" a] assms(2) w show ?thesis by simp
  qed
qed

end
