(* ===== verification/Exec_Replay.thy ===== *)
theory Exec_Replay
  imports Exec_Runs
begin

text \<open>
  One request after another: what a request that ran to its end leaves in the metastore, and what
  a second request with its idempotency key is then answered.
\<close>

lemma find_map: "(\<And>r. P (h r) = P r) \<Longrightarrow> List.find P (map h xs) = map_option h (List.find P xs)"
  by (induction xs) auto

lemma find_idem_update:
  assumes "set_columns fs = Inr f"
  shows "List.find (same_idem wid key) (tbl_update xr_id eid f t) =
    map_option (\<lambda>r. if xr_id r = eid then f r else r) (List.find (same_idem wid key) t)"
  unfolding tbl_update_def using set_columns_frame [OF assms]
  by (intro find_map) (simp add: same_idem_def)

text \<open>A successful update, taken apart.\<close>

lemma update_executionE:
  assumes "update_execution eid fs m = (Inr (), m')" and "fs \<noteq> []"
  obtains f where "ms_open m" and "set_columns fs = Inr f" 
    and "m' = m\<lparr>ms_file := Some (migrate (ms_file m)\<lparr>t_executions := tbl_update xr_id eid f (rows_of m)\<rparr>)\<rparr>"
  using assms
  by (cases "ms_open m"; cases "set_columns fs") (auto simp: update_execution_def op_simps rows_of_def split: if_splits)

text \<open>The row of a finished execution.\<close>

definition done_row :: "exec_ctx \<Rightarrow> string \<Rightarrow> exec_request \<Rightarrow> execution_result \<Rightarrow> ex_row" where
  "done_row c wid rq res =
     \<lparr>xr_id = exec_id c, xr_workspace_id = wid, xr_environment_id = None,
      xr_command_json = JArr (map JStr (rq_command rq)), xr_shell = (if rq_shell rq then 1 else 0),
      xr_status = execution_status_str (classify_status (er_exit_code res)),
      xr_exit_code = Some (er_exit_code res), xr_truncated = (if er_truncated res then 1 else 0),
      xr_output_path = er_output_path res, xr_started_at = Some (isoformat (xc_started c)),
      xr_finished_at = Some (isoformat (xc_finished c)), xr_idempotency_key = rq_idempotency_key rq\<rparr>"

definition done_execution :: "exec_ctx \<Rightarrow> string \<Rightarrow> exec_request \<Rightarrow> execution_result \<Rightarrow> execution" where
  "done_execution c wid rq res =
     \<lparr>ex_id = exec_id c, ex_workspace_id = wid, ex_environment_id = None, ex_command = rq_command rq,
      ex_shell = rq_shell rq, ex_status = classify_status (er_exit_code res),
      ex_exit_code = Some (er_exit_code res), ex_truncated = er_truncated res,
      ex_output_path = er_output_path res, ex_started_at = Some (xc_started c),
      ex_finished_at = Some (xc_finished c), ex_idempotency_key = rq_idempotency_key rq\<rparr>"

lemma done_row_execution:
  "ts_ok (xc_started c) \<Longrightarrow> ts_ok (xc_finished c) \<Longrightarrow>
    row_to_execution (done_row c wid rq res) = Inr (done_execution c wid rq res)"
  by (simp add: row_to_execution_def done_row_def done_execution_def parse_iso_col_def
      fromisoformat_isoformat ts_ok_def)

lemma exec_from_step: "0 < awaits_left k \<Longrightarrow>
    exec_from c wid rq k w = (case exec_step c wid rq k w of (k', w') \<Rightarrow> exec_from c wid rq k' w')"
  by (subst exec_from.simps) (cases k; simp split: prod.split)

lemma exec_from_done [simp]: "exec_from c wid rq (ExecDone r) w = (r, w)"
  by (subst exec_from.simps) simp

lemma await_from:
  "(case await (bindM m (\<lambda>x. retM (k x))) w of (k', w') \<Rightarrow> exec_from c wid rq k' w') =
    (case m w of (Inl e, w') \<Rightarrow> (Inl e, w') | (Inr x, w') \<Rightarrow> exec_from c wid rq (k x) w')"
  by (simp add: await_bind split: prod.split sum.split)

text \<open>The whole request as one chain of operations.\<close>

lemma exec_request_chain:
  "exec_request_op c wid rq =
     bindM (in_meta (get_workspace wid)) (\<lambda>ws.
     bindM (find_cached c wid rq) (\<lambda>hit. case hit of
       Some r \<Rightarrow> retM r
     | None \<Rightarrow> bindM (queue_execution c wid rq) (\<lambda>_.
         bindM (mark_running c wid) (\<lambda>_.
         bindM (liftR (prepare_command rq)) (\<lambda>cmd.
         case xc_run c wid (spec_image (ws_spec ws)) cmd (rq_env rq) (rq_timeout_seconds rq) (rq_max_output_bytes rq) of
           Inl e \<Rightarrow> bindM (finish_failed c wid e) (\<lambda>_. raiseM e)
         | Inr r \<Rightarrow> finish_ok c wid r)))))"
proof (rule ext)
  fix w
  have fin: "exec_from c wid rq (AtFinish (Inl e)) v = bindM (finish_failed c wid e) (\<lambda>_. raiseM e) v"
    "exec_from c wid rq (AtFinish (Inr r)) v = finish_ok c wid r v" for e r v
    by (simp_all add: exec_from_step await_from bindM_apply raiseM_apply split: prod.split sum.split)
  have run: "exec_from c wid rq (AtRun ws cmd) v =
      (case xc_run c wid (spec_image (ws_spec ws)) cmd (rq_env rq) (rq_timeout_seconds rq) (rq_max_output_bytes rq) of
           Inl e \<Rightarrow> bindM (finish_failed c wid e) (\<lambda>_. raiseM e)
         | Inr r \<Rightarrow> finish_ok c wid r) v" for ws cmd v
    by (simp add: exec_from_step [of "AtRun ws cmd"] fin split: sum.split)
  have mark: "exec_from c wid rq (AtMark ws) v = bindM (mark_running c wid) (\<lambda>_.
         bindM (liftR (prepare_command rq)) (\<lambda>cmd. exec_from c wid rq (AtRun ws cmd))) v" for ws v
    by (simp add: exec_from_step [of "AtMark ws"] await_bind_lift bindM_apply liftR_apply split: prod.split sum.split)
  have create: "exec_from c wid rq (AtCreate ws) v =
      bindM (queue_execution c wid rq) (\<lambda>_. exec_from c wid rq (AtMark ws)) v" for ws v
    by (simp add: exec_from_step [of "AtCreate ws"] await_from bindM_apply split: prod.split sum.split)
  have look: "exec_from c wid rq (AtLookup ws) v = bindM (find_cached c wid rq) (\<lambda>hit. case hit of
       Some r \<Rightarrow> retM r | None \<Rightarrow> exec_from c wid rq (AtCreate ws)) v" for ws v
    by (simp add: exec_from_step [of "AtLookup ws"] await_from bindM_apply retM_apply split: prod.split sum.split option.split)
  have "exec_request_op c wid rq w = bindM (in_meta (get_workspace wid)) (\<lambda>ws. exec_from c wid rq (AtLookup ws)) w"
    by (simp add: exec_request_op_def exec_from_step [of AtGet] await_from bindM_apply split: prod.split sum.split)
  then show "exec_request_op c wid rq w =
     bindM (in_meta (get_workspace wid)) (\<lambda>ws.
     bindM (find_cached c wid rq) (\<lambda>hit. case hit of
       Some r \<Rightarrow> retM r
     | None \<Rightarrow> bindM (queue_execution c wid rq) (\<lambda>_.
         bindM (mark_running c wid) (\<lambda>_.
         bindM (liftR (prepare_command rq)) (\<lambda>cmd.
         case xc_run c wid (spec_image (ws_spec ws)) cmd (rq_env rq) (rq_timeout_seconds rq) (rq_max_output_bytes rq) of
           Inl e \<Rightarrow> bindM (finish_failed c wid e) (\<lambda>_. raiseM e)
         | Inr r \<Rightarrow> finish_ok c wid r))))) w"
    unfolding look [abs_def] create [abs_def] mark [abs_def] run [abs_def] .
qed

section \<open>What a finished request leaves\<close>

lemma in_meta_InrE:
  assumes "in_meta m w = (Inr x, w')"
  obtains v where "m (meta_of w) = (Inr x, v)" and "meta_of w' = v"
  using assms by (auto simp: in_meta_apply split: prod.splits)

lemma publish_event_InrE:
  assumes "publish_event c k wid p w = (Inr u, w')"
  shows "meta_of w' = meta_of w"
  using publish_event_meta [of c k wid p w] assms by simp

lemma queue_executionE:
  assumes "queue_execution c wid rq w = (Inr (), w')"
  obtains r where "ms_open (meta_of w)" and "r = done_row c wid rq res\<lparr>xr_status := ''queued'', xr_exit_code := None,
      xr_truncated := 0, xr_output_path := None, xr_started_at := None, xr_finished_at := None\<rparr>"
    and "rows_of (meta_of w') = rows_of (meta_of w) @ [r]" and "ms_open (meta_of w')"
    and "t_workspaces (db_of w') = t_workspaces (db_of w)"
    and "\<not> idem_taken r (rows_of (meta_of w))"
proof -
  from assms obtain v where "in_meta (create_execution (exec_row c wid rq)) w = (Inr (), v)" and "meta_of w' = meta_of v"
    by (auto simp: queue_execution_def elim!: bindM_InrE dest: publish_event_InrE)
  then obtain m where m: "create_execution (exec_row c wid rq) (meta_of w) = (Inr (), m)" "meta_of w' = m"
    by (auto elim: in_meta_InrE)
  from m(1) obtain r d where o: "ms_open (meta_of w)" and r: "execution_row (exec_row c wid rq) = Inr r"
    and d: "insert_ex r (migrate (ms_file (meta_of w))) = Some d" and m': "m = (meta_of w)\<lparr>ms_file := Some d\<rparr>"
    by (rule create_executionE)
  have "r = done_row c wid rq res\<lparr>xr_status := ''queued'', xr_exit_code := None,
      xr_truncated := 0, xr_output_path := None, xr_started_at := None, xr_finished_at := None\<rparr>"
    using r by (auto simp: execution_row_def exec_row_def new_execution_def iso_col_def done_row_def bindR_Inr_iff)
  moreover have "t_executions d = rows_of (meta_of w) @ [r]" "t_workspaces d = t_workspaces (db_of w)"
    "\<not> idem_taken r (rows_of (meta_of w))"
    using d by (auto simp: insert_ex_def rows_of_def db_of_def split: if_splits dest!: tbl_insert_SomeD)
  ultimately show thesis using o m' m(2) by (intro that) (simp_all add: rows_of_def db_of_def)
qed

lemma in_meta_updateE:
  assumes "in_meta (update_execution eid fs) w = (Inr (), w')" and "fs \<noteq> []" and "set_columns fs = Inr f"
  shows "ms_open (meta_of w')" and "rows_of (meta_of w') = tbl_update xr_id eid f (rows_of (meta_of w))"
    and "t_workspaces (db_of w') = t_workspaces (db_of w)"
proof -
  from assms(1) obtain m where m: "update_execution eid fs (meta_of w) = (Inr (), m)" "meta_of w' = m"
    by (rule in_meta_InrE)
  from m(1) assms(2) obtain g where "ms_open (meta_of w)" "set_columns fs = Inr g"
    "m = (meta_of w)\<lparr>ms_file := Some (migrate (ms_file (meta_of w))\<lparr>t_executions := tbl_update xr_id eid g (rows_of (meta_of w))\<rparr>)\<rparr>"
    by (rule update_executionE)
  with assms(3) m(2) show "ms_open (meta_of w')" "rows_of (meta_of w') = tbl_update xr_id eid f (rows_of (meta_of w))"
    "t_workspaces (db_of w') = t_workspaces (db_of w)"
    by (simp_all add: rows_of_def db_of_def)
qed

lemma mark_runningE:
  assumes "mark_running c wid w = (Inr (), w')"
  shows "ms_open (meta_of w')" and "rows_of (meta_of w') = tbl_update xr_id (exec_id c)
      (\<lambda>r. r\<lparr>xr_status := ''running'', xr_started_at := Some (isoformat (xc_started c))\<rparr>) (rows_of (meta_of w))"
    and "t_workspaces (db_of w') = t_workspaces (db_of w)"
proof -
  from assms obtain v where v: "in_meta (update_execution (exec_id c)
      [FStatus ''running'', FStartedAt (TsText (isoformat (xc_started c)))]) w = (Inr (), v)"
    and m: "meta_of w' = meta_of v"
    by (auto simp: mark_running_def elim!: bindM_InrE dest: publish_event_InrE)
  note u = in_meta_updateE [OF v, of "\<lambda>r. r\<lparr>xr_status := ''running'', xr_started_at := Some (isoformat (xc_started c))\<rparr>"]
  show "ms_open (meta_of w')" "rows_of (meta_of w') = tbl_update xr_id (exec_id c)
      (\<lambda>r. r\<lparr>xr_status := ''running'', xr_started_at := Some (isoformat (xc_started c))\<rparr>) (rows_of (meta_of w))"
    "t_workspaces (db_of w') = t_workspaces (db_of w)"
    using u m by (simp_all add: db_of_def)
qed

lemma finish_okE:
  assumes "finish_ok c wid r w = (Inr res, w')"
  shows "ms_open (meta_of w')" and "t_workspaces (db_of w') = t_workspaces (db_of w)"
    and "er_execution_id res = exec_id c" and "er_exit_code res = er_exit_code r"
    and "er_truncated res = er_truncated r" and "er_output res = er_output r"
    and "\<not> er_truncated r \<Longrightarrow> er_output_path res = None"
    and "rows_of (meta_of w') = tbl_update xr_id (exec_id c)
      (\<lambda>q. q\<lparr>xr_status := execution_status_str (classify_status (er_exit_code r)), xr_exit_code := Some (er_exit_code r),
        xr_truncated := (if er_truncated r then 1 else 0), xr_output_path := er_output_path res,
        xr_finished_at := Some (isoformat (xc_finished c))\<rparr>) (rows_of (meta_of w))"
proof -
  from assms obtain p v v' where sp: "spill_of c wid r w = (Inr p, v)"
    and u: "in_meta (update_execution (exec_id c) (finish_fields c r p)) v = (Inr (), v')"
    and w': "meta_of w' = meta_of v'"
    and res: "res = \<lparr>er_execution_id = exec_id c, er_output = er_output r, er_exit_code = er_exit_code r,
       er_truncated = er_truncated r, er_output_path = p, er_duration_ms = xc_duration_ms c\<rparr>"
    unfolding finish_ok_def spill_of_def [symmetric] finish_fields_def [symmetric] Let_def
    by (auto simp: retM_apply elim!: bindM_InrE dest!: publish_event_InrE)
  have v: "meta_of v = meta_of w" using spill_of_meta [of c wid r w] sp by simp
  have "p = None" if "\<not> er_truncated r" using sp that by (simp add: spill_of_def retM_apply)
  moreover note in_meta_updateE [OF u, of "\<lambda>q. q\<lparr>xr_status := execution_status_str (classify_status (er_exit_code r)),
      xr_exit_code := Some (er_exit_code r), xr_truncated := (if er_truncated r then 1 else 0), xr_output_path := p,
      xr_finished_at := Some (isoformat (xc_finished c))\<rparr>"]
  ultimately show "ms_open (meta_of w')" "t_workspaces (db_of w') = t_workspaces (db_of w)"
    "er_execution_id res = exec_id c" "er_exit_code res = er_exit_code r" "er_truncated res = er_truncated r"
    "er_output res = er_output r" "\<not> er_truncated r \<Longrightarrow> er_output_path res = None"
    "rows_of (meta_of w') = tbl_update xr_id (exec_id c)
      (\<lambda>q. q\<lparr>xr_status := execution_status_str (classify_status (er_exit_code r)), xr_exit_code := Some (er_exit_code r),
        xr_truncated := (if er_truncated r then 1 else 0), xr_output_path := er_output_path res,
        xr_finished_at := Some (isoformat (xc_finished c))\<rparr>) (rows_of (meta_of w))"
    using res w' v by (simp_all add: finish_fields_def db_of_def)
qed

lemma with_meta_same [simp]: "with_meta (meta_of w) w = w"
  by (simp add: with_meta_def meta_of_def)

lemma in_meta_get_workspace: "in_meta (get_workspace wid) w = (fst (get_workspace wid (meta_of w)), w)"
  using get_workspace_state [of wid "meta_of w"] by (cases "get_workspace wid (meta_of w)") (simp add: in_meta_apply)

lemma in_meta_idempotency:
  "in_meta (get_execution_by_idempotency wid key) w = (fst (get_execution_by_idempotency wid key (meta_of w)), w)"
  using get_idempotency_state [of wid key "meta_of w"]
  by (cases "get_execution_by_idempotency wid key (meta_of w)") (simp add: in_meta_apply)

lemma find_cached_None_state: "find_cached c wid rq w = (Inr None, v) \<Longrightarrow> v = w"
  by (auto simp: find_cached_def bindM_apply retM_apply in_meta_idempotency split: option.splits if_splits sum.splits prod.splits)

lemma finished_request:
  assumes run: "exec_request_op c wid rq w = (Inr res, w')" and new: "fst (find_cached c wid rq w) = Inr None"
    and key: "rq_idempotency_key rq = Some key"
  shows "ms_open (meta_of w') \<and> t_workspaces (db_of w') = t_workspaces (db_of w) \<and>
    List.find (same_idem wid key) (rows_of (meta_of w')) = Some (done_row c wid rq res) \<and>
    er_execution_id res = exec_id c \<and> (\<not> er_truncated res \<longrightarrow> er_output_path res = None) \<and>
    (\<exists>ws. get_workspace wid (meta_of w) = (Inr ws, meta_of w))"
proof -
  from new have fc: "find_cached c wid rq w = (Inr None, w)"
    using find_cached_None_state [of c wid rq w] by (cases "find_cached c wid rq w") auto
  from run [unfolded exec_request_chain] obtain ws v where g: "in_meta (get_workspace wid) w = (Inr ws, v)"
    and 0: "bindM (find_cached c wid rq) (\<lambda>hit. case hit of
       Some r \<Rightarrow> retM r
     | None \<Rightarrow> bindM (queue_execution c wid rq) (\<lambda>_.
         bindM (mark_running c wid) (\<lambda>_.
         bindM (liftR (prepare_command rq)) (\<lambda>cmd.
         case xc_run c wid (spec_image (ws_spec ws)) cmd (rq_env rq) (rq_timeout_seconds rq) (rq_max_output_bytes rq) of
           Inl e \<Rightarrow> bindM (finish_failed c wid e) (\<lambda>_. raiseM e)
         | Inr r \<Rightarrow> finish_ok c wid r)))) v = (Inr res, w')"
    by (rule bindM_InrE)
  from g have ws: "fst (get_workspace wid (meta_of w)) = Inr ws" and v: "v = w"
    by (auto simp: in_meta_get_workspace)
  note 1 = 0 [unfolded v]
  from 1 fc obtain w1 w2 r where q: "queue_execution c wid rq w = (Inr (), w1)" and m: "mark_running c wid w1 = (Inr (), w2)"
    and f: "finish_ok c wid r w2 = (Inr res, w')"
    by (auto simp: bindM_apply [of "find_cached c wid rq"] liftR_apply raiseM_apply bindM_apply [of "liftR x" for x]
        elim!: bindM_InrE split: sum.splits)
  from queue_executionE [OF q, of res] obtain row where row: "row = done_row c wid rq res\<lparr>xr_status := ''queued'', xr_exit_code := None,
      xr_truncated := 0, xr_output_path := None, xr_started_at := None, xr_finished_at := None\<rparr>"
    and rows: "rows_of (meta_of w1) = rows_of (meta_of w) @ [row]" and t1: "t_workspaces (db_of w1) = t_workspaces (db_of w)"
    and free: "\<not> idem_taken row (rows_of (meta_of w))" by metis
  note fin = finish_okE [OF f] and mk = mark_runningE [OF m]
  have "List.find (same_idem wid key) (rows_of (meta_of w)) = None"
    using free key row by (auto simp: idem_taken_def done_row_def find_None_conv list_ex_iff)
  moreover have "same_idem wid key row" using row key by (simp add: same_idem_def done_row_def)
  ultimately have "List.find (same_idem wid key) (rows_of (meta_of w1)) = Some row"
    by (simp add: rows find_append)
  then have "List.find (same_idem wid key) (rows_of (meta_of w')) = Some (done_row c wid rq res)"
    unfolding fin(8) mk(2)
    by (subst find_idem_update [of "[FStatus (execution_status_str (classify_status (er_exit_code r))), FExitCode (Some (er_exit_code r)),
          FTruncated (er_truncated r), FOutputPath (er_output_path res), FFinishedAt (TsText (isoformat (xc_finished c)))]"], simp,
        subst find_idem_update [of "[FStatus ''running'', FStartedAt (TsText (isoformat (xc_started c)))]"], simp)
      (simp add: row done_row_def fin(4,5))
  then show ?thesis using fin mk t1 ws get_workspace_state [of wid "meta_of w"]
    by (auto intro!: exI [of _ ws] prod_eqI)
qed

text \<open>A second request with the same key, whatever else it asks for.\<close>

lemma replayed_request:
  assumes run: "exec_request_op c wid rq w = (Inr res, w')" and new: "fst (find_cached c wid rq w) = Inr None"
    and key: "rq_idempotency_key rq = Some key" "key \<noteq> []" "rq_idempotency_key rq' = Some key"
    and ts: "ts_ok (xc_started c)" "ts_ok (xc_finished c)" and small: "\<not> er_truncated res"
  shows "exec_request_op c' wid rq' w' = (Inr (res\<lparr>er_output := [],
    er_duration_ms := duration_between (Some (xc_started c)) (Some (xc_finished c))\<rparr>), w')"
proof -
  note f = finished_request [OF run new key(1)]
  have g: "fst (get_workspace wid (meta_of w')) = fst (get_workspace wid (meta_of w))"
  proof (cases "ms_open (meta_of w)")
    case True
    with f show ?thesis by (simp add: get_workspace_apply db_of_def split: option.split)
  next
    case False
    with f show ?thesis by (auto simp: get_workspace_def op_simps)
  qed
  have x: "get_execution_by_idempotency wid key (meta_of w') = (Inr (Some (done_execution c wid rq res)), meta_of w')"
    using f done_row_execution [OF ts]
    by (simp add: get_execution_by_idempotency_def op_simps rows_of_def [symmetric])
  have r: "result_from_terminal b wid (done_execution c wid rq res) = retM (res\<lparr>er_output := [],
    er_duration_ms := duration_between (Some (xc_started c)) (Some (xc_finished c))\<rparr>)" for b
    using f small by (cases res) (simp add: result_from_terminal_def done_execution_def)
  have s: "in_fs (retM y) w' = (Inr y, w')" for y :: execution_result
    by (simp add: in_fs_def on_fs_def focusM_apply retM_apply)
  have t: "terminal (ex_status (done_execution c wid rq res))" by (simp add: done_execution_def classify_status_def)
  have "find_cached c' wid rq' w' = (Inr (Some (res\<lparr>er_output := [],
    er_duration_ms := duration_between (Some (xc_started c)) (Some (xc_finished c))\<rparr>)), w')"
    using key t by (simp add: find_cached_def bindM_apply in_meta_idempotency retM_apply x r s)
  with f g show ?thesis
    by (auto simp: exec_request_chain bindM_apply in_meta_get_workspace retM_apply)
qed

end
