(* ===== verification/Meta_Props.thy ===== *)
theory Meta_Props
  imports Meta_Runs
begin

text \<open>
  The properties of the metastore, each with a concrete input where its hypotheses hold: the
  schema invariant of every run, exact read-back, cascading deletes, the idempotency key,
  partial updates and chronological listings.
\<close>

section \<open>Concrete inputs\<close>

definition demo_time :: datetime where
  "demo_time = \<lparr>dt_year = 2025, dt_month = 1, dt_day = 31, dt_hour = 23, dt_minute = 59,
     dt_second = 1, dt_micro = 42, dt_tz = Some 0\<rparr>"

definition demo_ws :: "string \<Rightarrow> workspace" where
  "demo_ws wid = \<lparr>ws_id = wid, ws_spec = default_spec ''img'', ws_status = WsReady,
     ws_name = None, ws_metadata = [(''k'', ''v'')], ws_created_at = demo_time,
     ws_updated_at = demo_time\<rparr>"

definition demo_ex :: "string \<Rightarrow> string \<Rightarrow> execution" where
  "demo_ex eid key = (new_execution eid ''w1'' [''ls''])
     \<lparr>ex_started_at := Some demo_time, ex_idempotency_key := Some key\<rparr>"

definition demo_store :: metastore where
  "demo_store = snd (run_call (CCreateExecution (demo_ex ''e1'' ''k1''))
     (snd (run_call (CCreateWorkspace (demo_ws ''w2''))
     (snd (run_call (CCreateWorkspace (demo_ws ''w1''))
     (snd (run_call CConnect (new_store True))))))))"

lemma demo_time_ok [simp]: "ts_ok demo_time"
  by (simp add: ts_ok_def demo_time_def valid_datetime_def days_in_month_def)

lemma demo_time_tz [simp]: "dt_tz demo_time = Some 0" "valid_datetime demo_time"
  using demo_time_ok by (simp_all add: ts_ok_def)

lemma demo_store_run: "store_run demo_store"
  unfolding demo_store_def
  by (intro store_run.intros) (simp_all add: demo_ws_def demo_ex_def opt_ts_ok_def new_execution_def)

lemma demo_iso [simp]:
  "iso_required demo_time = Inr (isoformat demo_time)"
  "iso_col (Some demo_time) = Inr (Some (isoformat demo_time))"
  "iso_col None = Inr None"
  by (simp_all add: iso_required_def iso_col_def)

lemma demo_store_eval:
  "demo_store = \<lparr>ms_memory = True, ms_open = True, ms_file = Some
     (empty_db\<lparr>t_workspaces := [projr (workspace_row (demo_ws ''w1'')), projr (workspace_row (demo_ws ''w2''))],
       t_executions := [projr (execution_row (demo_ex ''e1'' ''k1''))]\<rparr>)\<rparr>"
  by (simp add: demo_store_def new_store_def connect_def create_workspace_def
      create_execution_def op_simps integrity_def commit_def workspace_row_def demo_ws_def
      insert_ws_def tbl_insert_def migrate_def empty_db_def execution_row_def demo_ex_def
      new_execution_def iso_col_def insert_ex_def idem_taken_def has_workspace_def)

lemma demo_open [simp]: "ms_open demo_store"
  by (simp add: demo_store_eval)


section \<open>Every run\<close>



text \<open>C13: In every run, listing workspaces never fails, with any status filter and any limit; it
  returns the stored workspaces (the first ones, under a limit) in the order of their creation
  times, and does not change the store.\<close>

theorem list_workspaces_chronological:
  assumes "store_run m" and "ms_open m"
  shows "\<exists>ws. list_workspaces st n m = (Inr ws, m) \<and>
    map ws_id ws = map wr_id (sql_limit n (sort_key wr_created_at
      (case st of None \<Rightarrow> t_workspaces (migrate (ms_file m))
       | Some s \<Rightarrow> filter (\<lambda>r. wr_status r = s) (t_workspaces (migrate (ms_file m)))))) \<and>
    sorted (map (\<lambda>w. dt_fields (ws_created_at w)) ws)"
  by (rule list_workspaces_sorted [OF store_run_ok [OF assms(1)] assms(2)])

theorem list_workspaces_chronological_witness:
  "\<exists>ws. list_workspaces None (Some 1) demo_store = (Inr ws, demo_store)"
  using list_workspaces_chronological [OF demo_store_run demo_open, of None "Some 1"] by blast

section \<open>Round trips\<close>

text \<open>A workspace that was created is read back exactly: every field, the environment and
  metadata dictionaries in order, and both times to the microsecond.\<close>

theorem create_get_workspace:
  assumes "create_workspace w m = (Inr (), m')"
    and "ts_ok (ws_created_at w)" and "ts_ok (ws_updated_at w)"
  shows "get_workspace (ws_id w) m' = (Inr w, m')"
  using assms by (intro create_then_get_workspace) (simp_all add: ts_ok_def)

lemma demo_create:
  "create_workspace (demo_ws ''w3'') demo_store = (Inr (), snd (create_workspace (demo_ws ''w3'') demo_store))"
  by (simp add: demo_store_eval create_workspace_def op_simps integrity_def commit_def
      workspace_row_def demo_ws_def insert_ws_def tbl_insert_def migrate_def empty_db_def)

theorem create_get_workspace_witness:
  "fst (get_workspace ''w3'' (snd (create_workspace (demo_ws ''w3'') demo_store))) = Inr (demo_ws ''w3'')"
  using create_get_workspace [OF demo_create] by (simp add: demo_ws_def)

text \<open>An execution row that was created is read back exactly: command, flags, status and the
  optional times.\<close>

theorem create_get_execution:
  assumes "create_execution x m = (Inr (), m')"
    and "opt_ts_ok (ex_started_at x)" and "opt_ts_ok (ex_finished_at x)"
  shows "get_execution (ex_id x) m' = (Inr x, m')"
  using assms by (intro create_then_get_execution) (auto simp: opt_ts_ok_def ts_ok_def)

lemma demo_create_ex:
  "create_execution (demo_ex ''e2'' ''k2'') demo_store =
    (Inr (), snd (create_execution (demo_ex ''e2'' ''k2'') demo_store))"
  by (simp add: demo_store_eval create_execution_def op_simps integrity_def commit_def
      execution_row_def demo_ex_def new_execution_def insert_ex_def tbl_insert_def migrate_def
      empty_db_def idem_taken_def same_idem_def has_workspace_def workspace_row_def demo_ws_def)

theorem create_get_execution_witness:
  "fst (get_execution ''e2'' (snd (create_execution (demo_ex ''e2'' ''k2'') demo_store))) =
    Inr (demo_ex ''e2'' ''k2'')"
  using create_get_execution [OF demo_create_ex] by (simp add: demo_ex_def new_execution_def opt_ts_ok_def)


section \<open>Deleting, updating, idempotency keys\<close>


lemma demo_delete:
  "delete_workspace ''w1'' demo_store = (Inr (), snd (delete_workspace ''w1'' demo_store))"
  by (simp add: demo_store_eval delete_workspace_def op_simps commit_def migrate_def empty_db_def
      tbl_find_def workspace_row_def demo_ws_def)


text \<open>An idempotency key names at most one execution of a workspace: inserting another with
  a key that is taken raises IntegrityError and leaves the store as it was.\<close>

theorem idempotency_key_taken:
  assumes "ms_open m" and "get_execution_by_idempotency wid key m = (Inr (Some y), m)"
    and "ex_workspace_id x = wid" and "ex_idempotency_key x = Some key"
    and "opt_ts_ok (ex_started_at x)" and "opt_ts_ok (ex_finished_at x)"
  shows "create_execution x m = (Inl IntegrityError, m)"
proof -
  from assms(1,2) have "List.find (same_idem wid key) (t_executions (migrate (ms_file m))) \<noteq> None"
    by (auto simp: get_execution_by_idempotency_def op_simps split: option.splits)
  then have taken: "list_ex (same_idem wid key) (t_executions (migrate (ms_file m)))"
    by (auto simp: find_None_conv list_ex_iff)
  obtain r where r: "execution_row x = Inr r"
    using assms(5,6) by (auto simp: execution_row_def opt_ts_ok_def ts_ok_def iso_col_def
        split: option.splits)
  with taken assms(3,4) have "insert_ex r (migrate (ms_file m)) = None"
    by (auto simp: insert_ex_def idem_taken_def dest!: execution_row_id)
  with assms(1) r show ?thesis
    by (simp add: create_execution_def op_simps integrity_def)
qed

theorem idempotency_key_taken_witness:
  "create_execution (demo_ex ''e9'' ''k1'') demo_store = (Inl IntegrityError, demo_store)"
proof (rule idempotency_key_taken)
  show "get_execution_by_idempotency ''w1'' ''k1'' demo_store =
      (Inr (Some (demo_ex ''e1'' ''k1'')), demo_store)"
    using row_to_execution_row [of "demo_ex ''e1'' ''k1''"]
    by (simp add: demo_store_eval get_execution_by_idempotency_def op_simps same_idem_def
        execution_row_def demo_ex_def new_execution_def)
qed (simp_all add: demo_ex_def new_execution_def opt_ts_ok_def)

text \<open>C15: Updating an execution with an unknown column raises ConfigError and changes nothing;
  with known columns it touches only that row, and never its id, workspace or idempotency key.\<close>

theorem update_execution_frame:
  assumes "ms_open m"
  shows "if list_ex is_unknown fs then update_execution eid fs m = (Inl ConfigError, m)
    else (\<forall>other. other \<noteq> eid \<longrightarrow>
      fst (get_execution other (snd (update_execution eid fs m))) = fst (get_execution other m)) \<and>
     map (\<lambda>r. (xr_id r, xr_workspace_id r, xr_idempotency_key r, xr_command_json r))
       (t_executions (migrate (ms_file (snd (update_execution eid fs m))))) =
     map (\<lambda>r. (xr_id r, xr_workspace_id r, xr_idempotency_key r, xr_command_json r))
       (t_executions (migrate (ms_file m)))"
proof (cases "set_columns fs")
  case (Inl e)
  with assms show ?thesis
    by (auto simp: update_execution_def op_simps)
next
  case (Inr f)
  note fr = set_columns_frame [OF Inr]
  have cmd: "xr_command_json (f r) = xr_command_json r" for r
    using Inr
  proof (induction fs arbitrary: f r)
    case (Cons x fs)
    then obtain g h where g: "set_column x = Inr g" and h: "set_columns fs = Inr h"
      and f: "f = (\<lambda>r. h (g r))" by (auto simp: bindR_Inr_iff)
    from g have "xr_command_json (g r) = xr_command_json r" by (cases x) (auto simp: bindR_Inr_iff)
    with Cons.IH [OF h, of "g r"] f show ?case by simp
  qed auto
  show ?thesis
    using assms Inr fr cmd
    by (auto simp: update_execution_def op_simps get_execution_apply ex_tab.look_upd
        map_tbl_update split: option.split)
qed

theorem update_execution_frame_witness:
  "map xr_id (t_executions (migrate (ms_file (snd (update_execution ''e1'' [FStatus ''failed''] demo_store)))))
    = [''e1''] \<and> update_execution ''e1'' [FUnknown ''command''] demo_store = (Inl ConfigError, demo_store)"
proof -
  let ?u = "snd (update_execution ''e1'' [FStatus ''failed''] demo_store)"
  have "map (\<lambda>r. (xr_id r, xr_workspace_id r, xr_idempotency_key r, xr_command_json r))
      (t_executions (migrate (ms_file ?u))) =
    map (\<lambda>r. (xr_id r, xr_workspace_id r, xr_idempotency_key r, xr_command_json r))
      (t_executions (migrate (ms_file demo_store)))"
    using update_execution_frame [OF demo_open, of "[FStatus ''failed'']" "''e1''"] by simp
  then have "map fst (map (\<lambda>r. (xr_id r, xr_workspace_id r, xr_idempotency_key r, xr_command_json r))
      (t_executions (migrate (ms_file ?u)))) = [''e1'']"
    by (simp only:) (simp add: demo_store_eval execution_row_def demo_ex_def new_execution_def)
  moreover have "update_execution ''e1'' [FUnknown ''command''] demo_store = (Inl ConfigError, demo_store)"
    using update_execution_frame [OF demo_open, of "[FUnknown ''command'']" "''e1''"] by simp
  ultimately show ?thesis by (simp add: comp_def)
qed

end
