(* ===== verification/Exec_Props.thy ===== *)
theory Exec_Props
  imports Exec_Replay Files_Props Meta_Props
begin

text \<open>
  The properties of the execution service: requests that interleave, a request alone, its replay,
  and the runs in which a row stays behind or an output goes astray.
\<close>

section \<open>Concrete inputs\<close>

definition demo_result :: "int \<Rightarrow> bool \<Rightarrow> execution_result" where
  "demo_result code trunc = \<lparr>er_execution_id = ''ex_0'', er_output = [104, 105], er_exit_code = code,
     er_truncated = trunc, er_output_path = None, er_duration_ms = 5\<rparr>"

definition demo_ctx :: "string \<Rightarrow> bool \<Rightarrow> exec_ctx" where
  "demo_ctx hex trunc = \<lparr>xc_base = demo_base, xc_hex = hex, xc_event_ts = (\<lambda>_. demo_time),
     xc_started = demo_time, xc_finished = demo_time, xc_duration_ms = 7, xc_error_text = (\<lambda>_. []),
     xc_run = (\<lambda>wid img cmd env t mx. Inr (demo_result 0 trunc))\<rparr>"

definition demo_rq :: "string list \<Rightarrow> exec_request" where
  "demo_rq cmd = (new_exec_request cmd)\<lparr>rq_idempotency_key := Some ''k2''\<rparr>"

definition demo_world :: "fs \<Rightarrow> world" where
  "demo_world f = \<lparr>w_stores = \<lparr>st_meta = demo_store, st_fs = f\<rparr>, w_bus = new_bus 256\<rparr>"

definition demo_jobs :: "nat \<Rightarrow> job" where
  "demo_jobs i = (demo_ctx (if i = 0 then ''aa'' else ''bb'') False, ''w1'', demo_rq [''ls''])"

lemma demo_world_ok: "store_ok (meta_of (demo_world f))"
  using store_run_ok [OF demo_store_run] by (simp add: demo_world_def meta_of_def)

lemma demo_jobs_ok: "job_ok (demo_jobs i)"
  by (simp add: demo_jobs_def job_ok_def demo_ctx_def)

definition demo_run :: "nat list \<Rightarrow> exec_sys" where
  "demo_run js = fold (sys_step demo_jobs) js (start_sys (demo_world []))"

lemma exec_run_fold: "exec_run jobs w0 s \<Longrightarrow> exec_run jobs w0 (fold (sys_step jobs) js s)"
  by (induction js arbitrary: s) (auto intro: exec_run.intros)

lemma demo_run_ok: "exec_run demo_jobs (demo_world []) (demo_run js)"
  unfolding demo_run_def by (intro exec_run_fold exec_run.start)

lemmas demo_defs = demo_ctx_def demo_rq_def demo_world_def demo_jobs_def demo_ws_def demo_ex_def new_exec_request_def

lemma demo_get: "get_workspace ''w1'' demo_store = (Inr (demo_ws ''w1''), demo_store)"
  by (simp add: demo_store_eval get_workspace_apply migrate_def empty_db_def tbl_find_def workspace_row_def demo_ws_def
      row_to_workspace_def op_simps required_ts_isoformat parse_workspace_status_str [of WsReady, simplified])

lemma demo_free: "get_execution_by_idempotency ''w1'' ''k2'' demo_store = (Inr None, demo_store)"
  by (simp add: demo_store_eval get_execution_by_idempotency_def migrate_def empty_db_def execution_row_def demo_ex_def
      new_execution_def same_idem_def op_simps)

definition demo_queued :: "string \<Rightarrow> string list \<Rightarrow> metastore" where
  "demo_queued hex cmd = snd (create_execution (exec_row (demo_ctx hex False) ''w1'' (demo_rq cmd)) demo_store)"

lemmas demo_insert = create_execution_def op_simps integrity_def commit_def execution_row_def demo_ex_def
  new_execution_def insert_ex_def tbl_insert_def migrate_def empty_db_def idem_taken_def same_idem_def
  has_workspace_def workspace_row_def demo_ws_def exec_row_def exec_id_def demo_ctx_def demo_rq_def new_exec_request_def

lemma demo_queue: "create_execution (exec_row (demo_ctx ''aa'' False) ''w1'' (demo_rq [''ls''])) demo_store =
    (Inr (), demo_queued ''aa'' [''ls''])"
  by (simp add: demo_store_eval demo_queued_def demo_insert)

lemma demo_clash: "create_execution (exec_row (demo_ctx ''bb'' False) ''w1'' (demo_rq [''ls''])) (demo_queued ''aa'' [''ls'']) =
    (Inl IntegrityError, demo_queued ''aa'' [''ls''])"
  by (simp add: demo_store_eval demo_queued_def demo_insert)

text \<open>Two requests with one key that look it up before either has made its row.\<close>

lemma demo_meta [simp]: "meta_of (demo_world f) = demo_store"
  by (simp add: demo_world_def meta_of_def)

lemma with_meta_twice [simp]: "with_meta m (with_meta n w) = with_meta m w"
  by (simp add: with_meta_def)

lemma demo_same [simp]: "with_meta demo_store (demo_world f) = demo_world f"
  by (simp add: demo_world_def with_meta_def)

lemma demo_publish [simp]:
  "publish_event c k wid p (demo_world f) = (Inr (), demo_world f)"
  "publish_event c k wid p (with_meta m (demo_world f)) = (Inr (), with_meta m (demo_world f))"
  by (simp_all add: publish_event_def publish_def demo_world_def new_bus_def with_meta_def)

lemma demo_steps:
  "exec_step c ''w1'' (demo_rq cmd) AtGet (demo_world f) = (AtLookup (demo_ws ''w1''), demo_world f)"
  "exec_step c ''w1'' (demo_rq cmd) (AtLookup ws) (demo_world f) = (AtCreate ws, demo_world f)"
  "exec_step (demo_ctx ''aa'' False) ''w1'' (demo_rq [''ls'']) (AtCreate ws) (demo_world f) =
    (AtMark ws, with_meta (demo_queued ''aa'' [''ls'']) (demo_world f))"
  "exec_step (demo_ctx ''bb'' False) ''w1'' (demo_rq [''ls'']) (AtCreate ws) (with_meta (demo_queued ''aa'' [''ls'']) (demo_world f)) =
    (ExecDone (Inl IntegrityError), with_meta (demo_queued ''aa'' [''ls'']) (demo_world f))"
  by (simp_all add: await_bind in_meta_get_workspace demo_get find_cached_def bindM_apply in_meta_idempotency demo_free retM_apply
      queue_execution_def in_meta_apply demo_queue demo_clash)
    (simp_all add: demo_rq_def in_meta_idempotency bindM_apply demo_free retM_apply)

lemma demo_race: "sy_begun (demo_run [0, 1, 0, 1, 0, 1]) = {0} \<and>
    sy_pc (demo_run [0, 1, 0, 1, 0, 1]) 1 = ExecDone (Inl IntegrityError)"
  by (simp add: demo_run_def start_sys_def sys_step_def demo_jobs_def demo_steps del: exec_step.simps)

section \<open>Requests that interleave\<close>

text \<open>C23: Of all the requests with one idempotency key in one workspace, at most one ever makes an
  execution, and only such a request can be at its command: however requests interleave with each
  other and with other users of the metastore, the command of a key runs at most once.\<close>

theorem command_runs_once:
  assumes "exec_run jobs w0 s" and "store_ok (meta_of w0)" and "\<And>i. job_ok (jobs i)"
  shows "{i. past_create (sy_pc s i)} \<subseteq> sy_begun s \<and>
    (\<exists>i. {j \<in> sy_begun s. snd (job_ident (jobs j)) = (wid, Some key)} \<subseteq> {i})"
proof
  show "{i. past_create (sy_pc s i)} \<subseteq> sy_begun s" using run_begun [OF assms(1)] by blast
  from begun_once [OF exec_run_ok [OF assms]] 
  show "\<exists>i. {j \<in> sy_begun s. snd (job_ident (jobs j)) = (wid, Some key)} \<subseteq> {i}" by blast
qed

theorem command_runs_once_witness:
  "sy_begun (demo_run [0, 1, 0, 1, 0, 1]) = {0} \<and> sy_pc (demo_run [0, 1, 0, 1, 0, 1]) 1 = ExecDone (Inl IntegrityError) \<and>
   (\<exists>i. {j \<in> sy_begun (demo_run [0, 1, 0, 1, 0, 1]). snd (job_ident (demo_jobs j)) = (''w1'', Some ''k2'')} \<subseteq> {i})"
  using demo_race command_runs_once [OF demo_run_ok demo_world_ok demo_jobs_ok, of "[0, 1, 0, 1, 0, 1]" "''w1''" "''k2''"]
  by simp


lemma demo_running: "sy_pc (demo_run [0, 0, 0]) 0 = AtMark (demo_ws ''w1'')"
  by (simp add: demo_run_def start_sys_def sys_step_def demo_jobs_def demo_steps del: exec_step.simps)


lemma sys_step_awaits:
  "awaits_left (sy_pc (sys_step jobs j s) i) \<le> awaits_left (sy_pc s i) - (if j = i then 1 else 0)"
proof (cases "j = i")
  case True
  obtain c wid rq where j: "jobs i = (c, wid, rq)" by (cases "jobs i")
  have "awaits_left (fst (exec_step c wid rq k w)) \<le> awaits_left k - 1" for k w
    using exec_step_progress [of k c wid rq w] by (cases "awaits_left k") (auto simp: done_iff)
  from this [of "sy_pc s i" "sy_world s"] True j show ?thesis
    by (cases "exec_step c wid rq (sy_pc s i) (sy_world s)") (simp add: sys_step_def)
qed (simp add: sys_step_def split: prod.split)

lemma run_awaits:
  "awaits_left (sy_pc (fold (sys_step jobs) js s) i) \<le> awaits_left (sy_pc s i) - count_list js i"
proof (induction js arbitrary: s)
  case (Cons j js)
  from Cons [of "sys_step jobs j s"] sys_step_awaits [of jobs j s i] show ?case by (auto split: if_splits)
qed simp

lemma awaits_bound: "awaits_left k \<le> 6"
  by (cases k) auto

lemma done_stays: "sy_pc s i = ExecDone r \<Longrightarrow> sy_pc (sys_step jobs j s) i = ExecDone r"
  by (simp add: sys_step_def split: prod.split) (metis exec_step.simps(8) prod.inject)



section \<open>A request alone\<close>

text \<open>A request that no other interleaves with is the handler read from top to bottom: the
  workspace is looked up, then the key; on a hit the recorded result is returned; otherwise the
  row is made, marked, the command is run, and its outcome is recorded before it is returned or
  raised.\<close>

theorem request_alone_is_sequential:
  "exec_request_op c wid rq =
     bindM (in_meta (get_workspace wid)) (\<lambda>ws.
     bindM (find_cached c wid rq) (\<lambda>hit. case hit of
       Some r \<Rightarrow> retM r
     | None \<Rightarrow> bindM (queue_execution c wid rq) (\<lambda>_.
         bindM (mark_running c wid) (\<lambda>_.
         bindM (liftR (prepare_command rq)) (\<lambda>cmd.
         case xc_run c wid (spec_image (ws_spec ws)) cmd (rq_env rq) (rq_timeout_seconds rq) (rq_max_output_bytes rq) of
           Inl e \<Rightarrow> bindM (finish_failed c wid e) (\<lambda>_. raiseM e)
         | Inr r \<Rightarrow> finish_ok c wid r)))))"
  by (rule exec_request_chain)


definition demo_marked :: "string list \<Rightarrow> metastore" where
  "demo_marked cmd = snd (update_execution ''ex_aa'' [FStatus ''running'', FStartedAt (TsText (isoformat demo_time))]
     (demo_queued ''aa'' cmd))"

lemma demo_queue': "create_execution (exec_row (demo_ctx ''aa'' t) ''w1'' (demo_rq cmd)) demo_store =
    (Inr (), demo_queued ''aa'' cmd)"
  by (simp add: demo_store_eval demo_queued_def demo_insert)

lemma demo_mark: "update_execution ''ex_aa'' [FStatus ''running'', FStartedAt (TsText (isoformat demo_time))]
     (demo_queued ''aa'' cmd) = (Inr (), demo_marked cmd)"
  by (simp add: demo_store_eval demo_marked_def demo_queued_def demo_insert update_execution_def tbl_find_def tbl_update_def)

lemma demo_ctx_sel [simp]: "exec_id (demo_ctx ''aa'' t) = ''ex_aa''" "xc_started (demo_ctx h t) = demo_time"
  "xc_finished (demo_ctx h t) = demo_time" "xc_duration_ms (demo_ctx h t) = 7" "xc_base (demo_ctx h t) = demo_base"
  "xc_run (demo_ctx h t) wid img cmd env tm mx = Inr (demo_result 0 t)"
  by (simp_all add: demo_ctx_def exec_id_def)

lemma demo_find_cached: "find_cached c ''w1'' (demo_rq cmd) (demo_world f) = (Inr None, demo_world f)"
  by (simp add: find_cached_def demo_rq_def bindM_apply in_meta_idempotency demo_free retM_apply)

lemma demo_upto_mark:
  "exec_request_op (demo_ctx ''aa'' t) ''w1'' (demo_rq cmd) (demo_world f) =
    bindM (liftR (prepare_command (demo_rq cmd))) (\<lambda>_. finish_ok (demo_ctx ''aa'' t) ''w1'' (demo_result 0 t))
      (with_meta (demo_marked cmd) (demo_world f))"
  by (simp add: exec_request_chain bindM_apply in_meta_get_workspace demo_get demo_find_cached queue_execution_def
      mark_running_def in_meta_apply demo_queue' demo_mark split: sum.split)

lemma demo_finish: "fst (update_execution ''ex_aa'' [FStatus ''succeeded'', FExitCode (Some 0), FTruncated t, FOutputPath q,
     FFinishedAt (TsText (isoformat demo_time))] (demo_marked cmd)) = Inr ()"
  by (simp add: demo_store_eval demo_marked_def demo_queued_def demo_insert update_execution_def tbl_find_def tbl_update_def)

lemma demo_prepare [simp]: "prepare_command (demo_rq cmd) = (if cmd = [] then Inl ValueError else Inr cmd)"
  by (simp add: prepare_command_def demo_rq_def new_exec_request_def)

lemma demo_first: "fst (exec_request_op (demo_ctx ''aa'' False) ''w1'' (demo_rq [''ls'']) (demo_world f)) =
    Inr ((demo_result 0 False)\<lparr>er_execution_id := ''ex_aa'', er_duration_ms := 7\<rparr>)"
  using demo_finish [of False None "[''ls'']"]
  by (auto simp: demo_upto_mark bindM_apply liftR_apply finish_ok_def
      demo_result_def in_meta_apply classify_status_def retM_apply Let_def split: prod.splits sum.splits)


section \<open>What goes astray\<close>

lemma demo_stuck_row: "t_executions (migrate (ms_file (demo_marked []))) =
    [projr (execution_row (demo_ex ''e1'' ''k1'')),
     (projr (execution_row (exec_row (demo_ctx ''aa'' False) ''w1'' (demo_rq []))))
       \<lparr>xr_status := ''running'', xr_started_at := Some (isoformat demo_time)\<rparr>] \<and>
   t_workspaces (migrate (ms_file (demo_marked []))) = t_workspaces (migrate (ms_file demo_store)) \<and> ms_open (demo_marked [])"
  by (simp add: demo_store_eval demo_marked_def demo_queued_def demo_insert update_execution_def tbl_find_def tbl_update_def)

lemma demo_stuck_again:
  "find_cached (demo_ctx ''bb'' False) ''w1'' (demo_rq [''ls'']) (with_meta (demo_marked []) (demo_world f)) =
    (Inr None, with_meta (demo_marked []) (demo_world f))"
  "get_workspace ''w1'' (demo_marked []) = (Inr (demo_ws ''w1''), demo_marked [])"
  "create_execution (exec_row (demo_ctx ''bb'' False) ''w1'' (demo_rq [''ls''])) (demo_marked []) =
    (Inl IntegrityError, demo_marked [])"
proof -
  show "get_workspace ''w1'' (demo_marked []) = (Inr (demo_ws ''w1''), demo_marked [])"
    using demo_get demo_stuck_row by (simp add: get_workspace_apply split: option.splits)
  show "create_execution (exec_row (demo_ctx ''bb'' False) ''w1'' (demo_rq [''ls''])) (demo_marked []) =
      (Inl IntegrityError, demo_marked [])"
    using demo_stuck_row by (simp add: demo_insert)
  have "get_execution_by_idempotency ''w1'' ''k2'' (demo_marked []) = (Inr (Some
      ((exec_row (demo_ctx ''aa'' False) ''w1'' (demo_rq []))\<lparr>ex_status := ExRunning, ex_started_at := Some demo_time\<rparr>)), demo_marked [])"
    using demo_stuck_row
    by (simp add: get_execution_by_idempotency_def op_simps demo_insert row_to_execution_def parse_iso_col_def
        fromisoformat_isoformat parse_status_texts)
  then show "find_cached (demo_ctx ''bb'' False) ''w1'' (demo_rq [''ls'']) (with_meta (demo_marked []) (demo_world f)) =
    (Inr None, with_meta (demo_marked []) (demo_world f))"
    by (simp add: find_cached_def bindM_apply in_meta_idempotency retM_apply) (simp add: demo_rq_def bindM_apply in_meta_idempotency retM_apply)
qed

text \<open>An empty command is refused after its execution has been made and marked: the row stays
  in the state running, and the key is lost, since a second request with it raises the bare
  IntegrityError of the database.\<close>

theorem empty_command_stays_running:
  "\<exists>w. exec_request_op (demo_ctx ''aa'' False) ''w1'' (demo_rq []) (demo_world []) = (Inl ValueError, w) \<and>
    row_status (meta_of w) ''ex_aa'' = Some ''running'' \<and>
    fst (exec_request_op (demo_ctx ''bb'' False) ''w1'' (demo_rq [''ls'']) w) = Inl IntegrityError"
proof -
  have "exec_request_op (demo_ctx ''aa'' False) ''w1'' (demo_rq []) (demo_world []) =
      (Inl ValueError, with_meta (demo_marked []) (demo_world []))"
    by (simp add: demo_upto_mark bindM_apply liftR_apply)
  moreover have "row_status (demo_marked []) ''ex_aa'' = Some ''running''"
    by (simp add: row_status_def rows_of_def demo_store_eval demo_marked_def demo_queued_def demo_insert
        update_execution_def tbl_find_def tbl_update_def)
  moreover have "fst (exec_request_op (demo_ctx ''bb'' False) ''w1'' (demo_rq [''ls''])
      (with_meta (demo_marked []) (demo_world []))) = Inl IntegrityError"
    by (simp add: exec_request_chain bindM_apply in_meta_get_workspace demo_stuck_again queue_execution_def in_meta_apply)
  ultimately show ?thesis by simp
qed

definition spill_fs :: fs where
  "spill_fs = set_node [''data'', ''workspaces'', ''w1'', ''.forge'', ''exec''] (Link ''/etc'') demo_fs"

lemma demo_spill: "spill_overflow demo_base ''w1'' ''ex_aa'' [104, 105] spill_fs =
    (Inr ''.forge/exec/ex_aa.log'', spill_fs @ [([''etc'', ''ex_aa.log''], File [104, 105])])"
proof -
  have "resolve_path spill_fs (demo_base @ [''w1'', ''.forge'', ''exec'']) = [''etc'']"
    "resolve_path spill_fs (demo_base @ [''w1'', ''.forge'', ''exec'', ''ex_aa.log'']) = [''etc'', ''ex_aa.log'']"
    "mkdir_p [''etc''] spill_fs = (Inr (), spill_fs)" "look spill_fs [''etc''] = Some Dir"
    "look spill_fs [''etc'', ''ex_aa.log''] = None"
    "set_node [''etc'', ''ex_aa.log''] (File [104, 105]) spill_fs = spill_fs @ [([''etc'', ''ex_aa.log''], File [104, 105])]"
    by code_simp+
  moreover have "utf8_encode [104, 105] = Some [104, 105]"
    by (simp add: utf8_encode_def scalar_def utf8_char_def byte_of_def)
  ultimately show ?thesis
    by (simp add: spill_overflow_def ws_path_def validate_workspace_id_def valid_workspace_id_def slash_def dot_def dotdot_def
        bindM_apply retM_apply at_path_def spill_name_def spill_rel_def FORGE_META_DIR_def write_text_def write_bytes_def)
qed

lemma demo_in_fs: "in_fs m (with_meta x (demo_world f)) = (fst (m f), with_meta x (demo_world (snd (m f))))"
  by (simp add: in_fs_def on_fs_def focusM_apply demo_world_def with_meta_def split: prod.split)

lemma demo_world_fs: "st_fs (w_stores (with_meta x (demo_world f))) = f"
  by (simp add: demo_world_def with_meta_def)

lemma spill_fs_look: "look spill_fs [''etc'', ''ex_aa.log''] = None"
  "look (spill_fs @ [([''etc'', ''ex_aa.log''], File [104, 105])]) [''etc'', ''ex_aa.log''] = Some (File [104, 105])"
  by code_simp+

text \<open>An output that was cut off is written to the reserved directory of the workspace without
  a look at links: where a command has replaced that directory by one, the host writes outside of
  the workspace.\<close>

theorem spill_leaves_workspace:
  "look (st_fs (w_stores (snd (exec_request_op (demo_ctx ''aa'' True) ''w1'' (demo_rq [''ls'']) (demo_world spill_fs)))))
     [''etc'', ''ex_aa.log''] = Some (File [104, 105]) \<and> look spill_fs [''etc'', ''ex_aa.log''] = None"
  using demo_finish [of True "Some ''.forge/exec/ex_aa.log''" "[''ls'']"]
  by (auto simp: demo_upto_mark bindM_apply liftR_apply finish_ok_def demo_in_fs demo_world_fs
      demo_result_def demo_spill in_meta_apply classify_status_def retM_apply Let_def spill_fs_look split: prod.splits sum.splits)

end
