(* ===== verification/Workspace_Laws.thy ===== *)
theory Workspace_Laws
  imports Workspace_Store Files_Search Meta_Runs
begin

text \<open>
  The two stores of the workspace service agree: a directory for every row and a row for every
  directory, whatever an operation answers.
\<close>

section \<open>Directories\<close>

lemma proper_fs_iff: "proper_fs f \<longleftrightarrow> wf_fs f \<and> (\<forall>p. look f p \<noteq> None \<longrightarrow> list_all proper_name p)"
proof
  assume r: "wf_fs f \<and> (\<forall>p. look f p \<noteq> None \<longrightarrow> list_all proper_name p)"
  have "list_all proper_name (fst e)" if "e \<in> set f" for e
  proof -
    have "map_of f (fst e) \<noteq> None" using that by (simp add: map_of_eq_None_iff)
    with r show ?thesis by (cases "fst e = []") (simp_all add: look_def)
  qed
  with r show "proper_fs f" by (auto simp: proper_fs_def list_all_iff)
qed (auto simp: look_proper, auto simp: proper_fs_def)

lemma mkdirs_succeeds:
  "(\<And>q. strict_prefix d q \<Longrightarrow> prefix q (d @ ns) \<Longrightarrow> look f q \<in> {None, Some Dir}) \<Longrightarrow> \<exists>g. mkdirs d ns f = Inr g"
proof (induction d ns f rule: mkdirs.induct)
  case (2 d n ns f)
  have set: "look (set_node (d @ [n]) Dir f) q = (if q = d @ [n] then Some Dir else look f q)" for q by simp
  have n: "look f (d @ [n]) \<in> {None, Some Dir}" by (rule "2.prems") (simp_all add: strict_prefix_def)
  have q: "look f q \<in> {None, Some Dir}" if "strict_prefix (d @ [n]) q" "prefix q ((d @ [n]) @ ns)" for q
    using that by (intro "2.prems") (auto simp: strict_prefix_def prefix_def)
  show ?case
  proof (cases "look f (d @ [n])")
    case None
    have "\<exists>g. mkdirs (d @ [n]) ns (set_node (d @ [n]) Dir f) = Inr g"
      using q by (intro "2.IH"(1) [OF None]) (simp add: set)
    with None show ?thesis by simp
  next
    case (Some x)
    with n q "2.IH"(2) [OF Some] show ?thesis by auto
  qed
qed simp

lemma look_mkdirs_root:
  "mkdirs [] p f = Inr g \<Longrightarrow> look g q = (if look f q = None \<and> prefix q p then Some Dir else look f q)"
  using look_mkdirs [of "[]" p f g q] by (cases "q = []") (auto simp: strict_prefix_def)

lemma mkdir_p_clear:
  assumes "wf_fs f" and "\<And>q. prefix q p \<Longrightarrow> look f q \<in> {None, Some Dir}"
  shows "\<exists>g. mkdir_p p f = (Inr (), g) \<and> wf_fs g \<and>
    (\<forall>q. look g q = (if look f q = None \<and> prefix q p then Some Dir else look f q))"
proof -
  obtain g where g: "mkdirs [] p f = Inr g" using mkdirs_succeeds [of "[]" p f] assms(2) by auto
  with look_mkdirs_root [OF g] wf_mkdirs [OF assms(1) _ g] show ?thesis
    by (simp add: mkdir_p_def)
qed

lemma mkdir_p_new:
  assumes "wf_fs f" and "look f b = Some Dir" and "\<And>q. strict_prefix b q \<Longrightarrow> look f q \<in> {None, Some Dir}" and "prefix b p"
  shows "\<exists>g. mkdir_p p f = (Inr (), g) \<and> wf_fs g \<and>
    (\<forall>q. look g q = (if look f q = None \<and> prefix q p then Some Dir else look f q))"
proof (rule mkdir_p_clear [OF assms(1)])
  fix q assume "prefix q p"
  with assms(4) consider "strict_prefix q b" | "q = b" | "strict_prefix b q"
    by (metis prefix_order.le_less prefix_same_cases)
  then show "look f q \<in> {None, Some Dir}" using assms(1-3) prefix_dir [of f b q] by cases auto
qed

lemma nothing_below: "wf_fs f \<Longrightarrow> look f d = None \<Longrightarrow> prefix d q \<Longrightarrow> look f q = None"
  using prefix_dir [of f q d] by (cases "look f q"; cases "d = q") (auto simp: strict_prefix_def)

lemma realpath_missing:
  assumes "wf_fs f" and "look f (d @ ns) = Some Dir" and "list_all proper_name (ns @ [m])" and "look f (d @ ns @ [m]) = None"
  shows "realpath True f seen (map Part (ns @ [m])) d = None"
  using assms(2-)
proof (induction ns arbitrary: d)
  case (Cons n ns)
  have "look f q = Some Dir" if "q \<in> {d, d @ [n]}" for q
    using that Cons.prems(1) prefix_dir [OF assms(1), of "d @ n # ns" q]
    by (cases "q = d @ n # ns") (auto simp: strict_prefix_def)
  with Cons show ?case by (auto simp: proper_name_def)
qed (auto simp: proper_name_def)

lemma stat_node_missing:
  "proper_fs f \<Longrightarrow> look f b = Some Dir \<Longrightarrow> proper_name m \<Longrightarrow> look f (b @ [m]) = None \<Longrightarrow> stat_node f (b @ [m]) = None"
  using realpath_missing [of f "[]" b m] look_proper [of f b]
  by (simp add: stat_node_def follow_def proper_fs_def)

definition fresh_tree :: "path \<Rightarrow> path set" where
  "fresh_tree d = {d, d @ [FORGE_META_DIR], d @ [FORGE_META_DIR, ''exec'']}"

lemma ws_create_new:
  assumes f: "proper_fs f" "look f base = Some Dir" "look f (base @ [wid]) = None" and v: "valid_workspace_id wid"
  shows "\<exists>g. ws_create base wid f = (Inr (base @ [wid]), g) \<and> proper_fs g \<and>
    (\<forall>q. look g q = (if q \<in> fresh_tree (base @ [wid]) then Some Dir else look f q))"
proof -
  let ?d = "base @ [wid]"
  have wf: "wf_fs f" using f(1) by (simp add: proper_fs_def)
  have none: "look f q = None" if "prefix ?d q" for q by (rule nothing_below [OF wf f(3) that])
  have up: "look f q \<noteq> None" if "prefix q ?d" "q \<noteq> ?d" for q
    using that f(2) prefix_dir [OF wf, of base q] by (cases "q = base") (auto simp: strict_prefix_def)
  obtain g1 where g1: "mkdir_p ?d f = (Inr (), g1)" "wf_fs g1" "\<And>q. look g1 q = (if q = ?d then Some Dir else look f q)"
  proof -
    have "\<exists>g. mkdirs [] ?d f = Inr g"
      using up none f(2) prefix_dir [OF wf, of base] by (intro mkdirs_succeeds) (auto simp: strict_prefix_def)
    then obtain g where g: "mkdirs [] ?d f = Inr g" ..
    show thesis
    proof (rule that)
      show "mkdir_p ?d f = (Inr (), g)" using g by (simp add: mkdir_p_def)
      show "wf_fs g" using wf_mkdirs [OF wf _ g] by simp
      show "look g q = (if q = ?d then Some Dir else look f q)" for q
        using look_mkdirs_root [OF g, of q] up [of q] f(3) by (cases "q = ?d") auto
    qed
  qed
  obtain g where g: "mkdir_p (?d @ [FORGE_META_DIR, ''exec'']) g1 = (Inr (), g)" "wf_fs g"
    "\<And>q. look g q = (if look g1 q = None \<and> prefix q (?d @ [FORGE_META_DIR, ''exec'']) then Some Dir else look g1 q)"
  proof -
    have "look g1 q \<in> {None, Some Dir}" if "strict_prefix ?d q" for q
      using that none [of q] g1(3) [of q] by (auto simp: strict_prefix_def)
    with mkdir_p_new [OF g1(2), of ?d "?d @ [FORGE_META_DIR, ''exec'']"] g1(3) [of ?d] that show thesis
      by auto
  qed
  have l: "look g q = (if q \<in> fresh_tree ?d then Some Dir else look f q)" for q
  proof -
    have "prefix q (?d @ [FORGE_META_DIR, ''exec'']) \<longleftrightarrow> prefix q base \<or> q \<in> fresh_tree ?d"
      by (auto simp: fresh_tree_def prefix_append prefix_Cons)
    moreover have "look f q \<noteq> None" if "prefix q base" using up [of q] that by (auto simp: prefix_def)
    ultimately show ?thesis using g(3) [of q] g1(3) [of q] none [of q] by (auto simp: fresh_tree_def)
  qed
  have "list_all proper_name ?d" using v look_proper [OF f(1), of base] f(2)
    by (auto simp: valid_workspace_id_def proper_name_def)
  then have "list_all proper_name q" if "q \<in> fresh_tree ?d" for q using that
    by (auto simp: fresh_tree_def FORGE_META_DIR_def proper_name_def dot_def dotdot_def slash_def)
  then have "proper_fs g" using g(2) f(1) l by (auto simp: proper_fs_iff)
  moreover have "proper_name wid" using v by (auto simp: valid_workspace_id_def proper_name_def)
  with stat_node_missing [OF f(1,2) _ f(3)] have "\<not> path_exists ?d f" by (simp add: path_exists_def)
  ultimately show ?thesis using g(1) g1(1) v f(3) l
    by (auto simp: ws_create_def ws_path_def validate_workspace_id_def bindM_apply retM_apply mkdir_new_def)
qed

section \<open>Rows\<close>

definition row_ids :: "metastore \<Rightarrow> string set" where
  "row_ids m = wr_id ` set (t_workspaces (migrate (ms_file m)))"

lemma create_workspace_rows:
  "row_ids (snd (create_workspace w m)) =
    (case fst (create_workspace w m) of Inl e \<Rightarrow> row_ids m | Inr u \<Rightarrow> insert (ws_id w) (row_ids m))"
proof (cases "fst (create_workspace w m)")
  case (Inl e)
  then show ?thesis
    by (cases "ms_open m"; cases "workspace_row w")
      (auto simp: create_workspace_def op_simps integrity_apply split: option.splits)
next
  case (Inr u)
  then have "create_workspace w m = (Inr (), snd (create_workspace w m))" by (metis old.unit.exhaust prod.collapse)
  then obtain r d where "workspace_row w = Inr r" "insert_ws r (migrate (ms_file m)) = Some d"
    "snd (create_workspace w m) = m\<lparr>ms_file := Some d\<rparr>" by (rule create_workspaceE)
  with Inr workspace_row_id show ?thesis
    by (auto simp: row_ids_def insert_ws_def dest!: tbl_insert_SomeD)
qed

lemma update_status_rows [simp]:
  "row_ids (snd (update_workspace_status wid st now m)) = row_ids m"
  "ms_open (snd (update_workspace_status wid st now m)) = ms_open m"
proof -
  have u: "wr_id ` set (tbl_update wr_id wid (\<lambda>r. r\<lparr>wr_status := st, wr_updated_at := ts\<rparr>) t) = wr_id ` set t" for ts t
    unfolding image_set using keys_tbl_update [of wr_id "\<lambda>r. r\<lparr>wr_status := st, wr_updated_at := ts\<rparr>" wid t] by simp
  show "row_ids (snd (update_workspace_status wid st now m)) = row_ids m"
    by (cases "ms_open m"; cases "iso_required now") (simp_all add: update_workspace_status_def op_simps row_ids_def u)
  show "ms_open (snd (update_workspace_status wid st now m)) = ms_open m"
    by (cases "ms_open m"; cases "iso_required now") (simp_all add: update_workspace_status_def op_simps)
qed

lemma delete_workspace_rows:
  "row_ids (snd (delete_workspace wid m)) = (if ms_open m then row_ids m - {wid} else row_ids m)"
  by (auto simp: delete_workspace_def op_simps row_ids_def cascade_delete_def has_workspace_def tbl_delete_def)

lemma get_workspace_known: "get_workspace wid m = (Inr w, m') \<Longrightarrow> m' = m \<and> ms_open m \<and> wid \<in> row_ids m"
  by (cases "ms_open m") (auto simp: get_workspace_def op_simps row_ids_def dest: tbl_find_SomeD split: option.splits)

section \<open>Both stores\<close>

definition in_sync :: "path \<Rightarrow> stores \<Rightarrow> bool" where
  "in_sync base s \<longleftrightarrow> proper_fs (st_fs s) \<and> look (st_fs s) base = Some Dir \<and>
     (\<forall>wid. valid_workspace_id wid \<longrightarrow>
       look (st_fs s) (base @ [wid]) = (if wid \<in> row_ids (st_meta s) then Some Dir else None))"

lemma other_workspace: "w \<noteq> wid \<Longrightarrow> \<not> prefix (base @ [wid]) (base @ [w])"
  by (auto simp: prefix_def)

lemma fresh_tree_below: "q \<in> fresh_tree d \<Longrightarrow> prefix d q"
  by (auto simp: fresh_tree_def)

lemma ws_delete_tree:
  assumes "proper_fs f" and "look f (base @ [wid]) = Some Dir" and "valid_workspace_id wid"
  shows "\<exists>g. ws_delete base wid f = (Inr (), g) \<and> proper_fs g \<and>
    (\<forall>q. look g q = (if prefix (base @ [wid]) q then None else look f q))"
proof -
  have "path_exists (base @ [wid]) f" using stat_node_real [OF assms(1,2)] by (simp add: path_exists_def)
  then have d: "ws_delete base wid f = rmtree (base @ [wid]) f"
    using assms(3) by (simp add: ws_delete_def ws_path_def validate_workspace_id_def bindM_apply retM_apply)
  have l: "look (snd (rmtree (base @ [wid]) f)) q = (if prefix (base @ [wid]) q then None else look f q)" for q
    using rmtree_look [OF _ assms(2)] by simp
  have "proper_fs (snd (rmtree (base @ [wid]) f))"
    using rmtree_frame [of f "base @ [wid]"] assms(1) l by (auto simp: proper_fs_iff)
  with l d assms(2) show ?thesis by (auto simp: rmtree_def)
qed

lemma service_create_sync:
  assumes "in_sync base s"
  shows "in_sync base (snd (service_create base hex now spec name md s)) \<and>
    (case fst (service_create base hex now spec name md s) of
       Inl e \<Rightarrow> row_ids (st_meta (snd (service_create base hex now spec name md s))) = row_ids (st_meta s) \<and>
         (\<forall>q. look (st_fs (snd (service_create base hex now spec name md s))) q = look (st_fs s) q)
     | Inr ws \<Rightarrow> ws_id ws = workspace_id hex \<and> ws_id ws \<notin> row_ids (st_meta s) \<and>
         row_ids (st_meta (snd (service_create base hex now spec name md s))) = insert (ws_id ws) (row_ids (st_meta s)) \<and>
         (\<forall>q. look (st_fs (snd (service_create base hex now spec name md s))) q =
           (if q \<in> fresh_tree (base @ [ws_id ws]) then Some Dir else look (st_fs s) q)))"
proof -
  let ?wid = "workspace_id hex"
  let ?d = "base @ [?wid]"
  let ?ws = "\<lparr>ws_id = ?wid, ws_spec = spec, ws_status = WsReady, ws_name = name,
                ws_metadata = (case md of None \<Rightarrow> [] | Some m \<Rightarrow> m), ws_created_at = now, ws_updated_at = now\<rparr>"
  show ?thesis
  proof (cases "valid_workspace_id ?wid \<and> look (st_fs s) ?d = None")
    case False
    have "\<exists>e. ws_create base ?wid (st_fs s) = (Inl e, st_fs s)"
    proof (cases "valid_workspace_id ?wid")
      case True
      with False assms have "look (st_fs s) ?d = Some Dir" by (auto simp: in_sync_def split: if_splits)
      with True assms stat_node_real [of "st_fs s" ?d Dir] show ?thesis
        by (simp add: in_sync_def ws_create_def ws_path_def validate_workspace_id_def bindM_apply retM_apply path_exists_def)
    qed (simp add: ws_create_def ws_path_def validate_workspace_id_def bindM_apply raiseM_apply)
    with assms show ?thesis by (auto simp: service_create_def Let_def bindM_apply on_fs_def focusM_apply)
  next
    case True
    with assms have new: "?wid \<notin> row_ids (st_meta s)" by (auto simp: in_sync_def split: if_splits)
    from True assms ws_create_new [of "st_fs s" base ?wid] obtain g where
      g: "ws_create base ?wid (st_fs s) = (Inr ?d, g)" "proper_fs g"
        "\<And>q. look g q = (if q \<in> fresh_tree ?d then Some Dir else look (st_fs s) q)"
      unfolding in_sync_def by blast
    obtain r m where m: "create_workspace ?ws (st_meta s) = (r, m)" by force
    note rows = create_workspace_rows [of ?ws "st_meta s", unfolded m, simplified]
    have gd: "look g ?d = Some Dir" using g(3) by (simp add: fresh_tree_def)
    show ?thesis
    proof (cases r)
      case (Inr u)
      with m g(1) have "service_create base hex now spec name md s = (Inr ?ws, \<lparr>st_meta = m, st_fs = g\<rparr>)"
        by (simp add: service_create_def Let_def bindM_apply on_fs_def on_meta_def focusM_apply catchM_apply retM_apply)
      moreover have "base @ [w] \<in> fresh_tree ?d \<longleftrightarrow> w = ?wid" for w
        by (auto simp: fresh_tree_def)
      moreover have "base \<notin> fresh_tree ?d" by (auto simp: fresh_tree_def)
      ultimately show ?thesis using Inr rows new assms g gd True by (simp add: in_sync_def)
    next
      case (Inl e)
      from ws_delete_tree [OF g(2) gd] True obtain h where h: "ws_delete base ?wid g = (Inr (), h)" "proper_fs h"
        "\<And>q. look h q = (if prefix ?d q then None else look g q)" by blast
      have wf: "wf_fs (st_fs s)" using assms by (simp add: in_sync_def proper_fs_def)
      have undo: "look h q = look (st_fs s) q" for q
        using h(3) [of q] g(3) [of q] nothing_below [OF wf, of ?d q] True fresh_tree_below [of q ?d] by auto
      have "service_create base hex now spec name md s = (Inl e, \<lparr>st_meta = m, st_fs = h\<rparr>)"
        using Inl m g(1) h(1)
        by (simp add: service_create_def Let_def bindM_apply on_fs_def on_meta_def focusM_apply catchM_apply raiseM_apply)
      with Inl rows assms h(2) undo show ?thesis by (auto simp: in_sync_def)
    qed
  qed
qed

lemma service_delete_sync:
  assumes "in_sync base s"
  shows "in_sync base (snd (service_delete base wid now s)) \<and>
    (case fst (service_delete base wid now s) of
       Inl e \<Rightarrow> row_ids (st_meta (snd (service_delete base wid now s))) = row_ids (st_meta s) \<and>
         st_fs (snd (service_delete base wid now s)) = st_fs s
     | Inr u \<Rightarrow> wid \<in> row_ids (st_meta s) \<and>
         row_ids (st_meta (snd (service_delete base wid now s))) = row_ids (st_meta s) - {wid} \<and>
         (\<forall>q. look (st_fs (snd (service_delete base wid now s))) q =
           (if prefix (base @ [wid]) q then None else look (st_fs s) q)))"
proof -
  obtain r m0 where g: "get_workspace wid (st_meta s) = (r, m0)" by force
  show ?thesis
  proof (cases r)
    case (Inl e)
    with assms g get_workspace_state [of wid "st_meta s"] show ?thesis
      by (simp add: service_delete_def bindM_apply on_meta_def focusM_apply)
  next
    case (Inr w)
    from get_workspace_known [OF g [unfolded Inr]] have m0: "m0 = st_meta s" and o: "ms_open (st_meta s)"
      and known: "wid \<in> row_ids (st_meta s)" by simp_all
    obtain r1 m1 where u: "update_workspace_status wid (workspace_status_str WsDeleting) now (st_meta s) = (r1, m1)" by force
    have m1: "row_ids m1 = row_ids (st_meta s)" "ms_open m1"
      using u o update_status_rows [of wid "workspace_status_str WsDeleting" now "st_meta s"] by simp_all
    have sync1: "in_sync base (s\<lparr>st_meta := m1\<rparr>)" using assms m1 by (simp add: in_sync_def)
    show ?thesis
    proof (cases "valid_workspace_id wid \<and> (\<exists>x. r1 = Inr x)")
      case False
      then have "\<exists>e. service_delete base wid now s = (Inl e, s\<lparr>st_meta := m1\<rparr>)"
        using g Inr m0 u
        by (cases r1) (auto simp: service_delete_def bindM_apply on_meta_def on_fs_def focusM_apply catchM_apply raiseM_apply
            ws_delete_def ws_path_def validate_workspace_id_def)
      with sync1 m1 show ?thesis by auto
    next
      case True
      with assms known have "look (st_fs s) (base @ [wid]) = Some Dir" "proper_fs (st_fs s)" by (auto simp: in_sync_def)
      with ws_delete_tree True obtain h where h: "ws_delete base wid (st_fs s) = (Inr (), h)" "proper_fs h"
        "\<And>q. look h q = (if prefix (base @ [wid]) q then None else look (st_fs s) q)" by blast
      have d: "delete_workspace wid m1 = (Inr (), snd (delete_workspace wid m1))"
        using m1 known by (auto simp: delete_workspace_def op_simps row_ids_def tbl_find_None_iff)
      have "service_delete base wid now s = (Inr (), \<lparr>st_meta = snd (delete_workspace wid m1), st_fs = h\<rparr>)"
        using g Inr m0 u True h(1) d
        by (auto simp: service_delete_def bindM_apply on_meta_def on_fs_def focusM_apply catchM_apply split: prod.split)
      moreover have "\<not> prefix (base @ [wid]) base" by (auto dest: prefix_length_le)
      ultimately show ?thesis using assms known m1 delete_workspace_rows [of wid m1] h
        by (auto simp: in_sync_def other_workspace)
    qed
  qed
qed

section \<open>Every run of the service\<close>

datatype ws_op =
    WsCreate string datetime workspace_spec "string option" "dict option"
  | WsGet string
  | WsList "string option" "int option"
  | WsDelete string datetime

fun run_ws_op :: "path \<Rightarrow> ws_op \<Rightarrow> stores \<Rightarrow> stores" where
  "run_ws_op base (WsCreate hex now spec name md) s = snd (service_create base hex now spec name md s)"
| "run_ws_op base (WsGet wid) s = snd (service_get wid s)"
| "run_ws_op base (WsList st lmt) s = snd (service_list st lmt s)"
| "run_ws_op base (WsDelete wid now) s = snd (service_delete base wid now s)"

lemma list_workspaces_state [simp]: "snd (list_workspaces st lmt m) = m"
  by (cases "ms_open m") (simp_all add: list_workspaces_def op_simps split: sum.split)

lemma run_ws_op_sync:
  assumes "in_sync base s"
  shows "in_sync base (run_ws_op base x s)"
proof (cases x)
  case WsCreate
  with service_create_sync [OF assms] show ?thesis by simp
next
  case WsDelete
  with service_delete_sync [OF assms] show ?thesis by simp
next
  case (WsGet wid)
  with assms get_workspace_state [of wid "st_meta s"] show ?thesis
    by (cases "get_workspace wid (st_meta s)") (simp add: service_get_def on_meta_def focusM_apply)
next
  case (WsList st lmt)
  with assms list_workspaces_state [of st lmt "st_meta s"] show ?thesis
    by (cases "list_workspaces st lmt (st_meta s)") (simp add: service_list_def on_meta_def focusM_apply)
qed

lemma run_ws_ops_sync: "in_sync base s \<Longrightarrow> in_sync base (fold (run_ws_op base) xs s)"
  by (induction xs arbitrary: s) (auto simp: run_ws_op_sync)

end
