(* ===== verification/Docker_Laws.thy ===== *)
theory Docker_Laws
  imports Docker_Driver
begin

text \<open>
  What the driver's helpers compute: the buffer of a drained stream is a prefix of the output, a
  memory limit is a number of bytes, the environment of an exec keeps what the caller gave; and
  which containers are left when creating one fails.
\<close>

section \<open>The bounded buffer\<close>

lemma drain_chunk_prefix:
  assumes "0 < m"
  shows "drain_chunk m c (take (nat m) s, m \<le> int (length s)) = (take (nat m) (s @ c), m \<le> int (length (s @ c)))"
  using assms by (auto simp: drain_chunk_def Let_def nat_diff_distrib' split: if_splits)

lemma drain_prefix:
  assumes "0 < m"
  shows "drain m chunks = (take (nat m) (concat chunks), m \<le> int (length (concat chunks)))"
proof -
  have "fold (drain_chunk m) chunks (take (nat m) s, m \<le> int (length s)) =
      (take (nat m) (s @ concat chunks), m \<le> int (length (s @ concat chunks)))" for s
    by (induction chunks arbitrary: s) (simp_all add: drain_chunk_prefix [OF assms] del: take_append length_append)
  from this [of "[]"] show ?thesis using assms by (simp add: drain_def)
qed

lemma drain_none: "m \<le> 0 \<Longrightarrow> drain m chunks = ([], chunks \<noteq> [])"
proof -
  assume m: "m \<le> 0"
  have "fold (drain_chunk m) cs ([], b) = ([], b \<or> cs \<noteq> [])" for cs b
    using m by (induction cs arbitrary: b) (auto simp: drain_chunk_def Let_def)
  from this [of chunks False] show ?thesis by (simp add: drain_def)
qed

section \<open>Memory limits\<close>

definition number_char :: "char \<Rightarrow> bool" where
  "number_char c \<longleftrightarrow> digit_value c \<noteq> None \<or> c = CHR ''_''"

lemma digits_from_chars: "digits_from a s = Some n \<Longrightarrow> list_all number_char s"
  by (induction a s rule: digits_from.induct)
    (auto simp: number_char_def split: option.splits if_splits list.splits)

lemma py_nat_chars: "py_nat s = Some n \<Longrightarrow> s \<noteq> [] \<and> list_all number_char s \<and> digit_value (hd s) \<noteq> None"
  by (auto simp: py_nat_def number_char_def split: list.splits option.splits dest: digits_from_chars)

lemma number_char_plain:
  "number_char c \<Longrightarrow> \<not> py_space c \<and> c \<noteq> CHR ''.'' \<and> c \<noteq> CHR ''e'' \<and> c \<noteq> CHR ''E'' \<and> c \<noteq> CHR ''i'' \<and> memory_unit c = None"
  by (auto simp: number_char_def digit_value_def py_space_def memory_unit_def Let_def split: if_splits)

lemma strip_plain: "list_all (\<lambda>c. \<not> py_space c) s \<Longrightarrow> py_strip s = s"
proof -
  assume a: "list_all (\<lambda>c. \<not> py_space c) s"
  have d: "dropWhile py_space t = t" if "list_all (\<lambda>c. \<not> py_space c) t" for t
    using that by (cases t) auto
  from a have "list_all (\<lambda>c. \<not> py_space c) (rev s)" by (auto simp: list_all_iff)
  with d a show ?thesis by (simp add: py_strip_def)
qed

lemma py_strip_number: "list_all number_char s \<Longrightarrow> py_strip s = s"
  by (rule strip_plain) (auto simp: list_all_iff dest: number_char_plain)

lemma not_sign: "digit_value c \<noteq> None \<Longrightarrow> c \<noteq> CHR ''-'' \<and> c \<noteq> CHR ''+''"
  by (auto simp: digit_value_def)

lemma signed_number: "py_nat s = Some n \<Longrightarrow> signed neg parse s = parse s"
  using py_nat_chars [of s n] not_sign [of "hd s"] by (auto simp: signed_def split: list.split)

lemma takeWhile_number:
  assumes "list_all number_char s" and "\<And>c. number_char c \<Longrightarrow> P c"
  shows "takeWhile P s = s" and "dropWhile P s = []"
  using assms by (auto simp: list_all_iff takeWhile_eq_all_conv)

lemma py_float_nat:
  assumes "py_nat s = Some n"
  shows "py_float s = Some (of_nat n)"
proof -
  have c: "list_all number_char s" using py_nat_chars [OF assms] by simp
  have t: "takeWhile P s = s" "dropWhile P s = []" if "\<And>c. number_char c \<Longrightarrow> P c" for P
    using takeWhile_number [OF c that] by simp_all
  have p: "takeWhile (\<lambda>c. c \<noteq> CHR ''.'') s = s" "dropWhile (\<lambda>c. c \<noteq> CHR ''.'') s = []"
    by (rule t, simp add: number_char_plain)+
  have e: "takeWhile (\<lambda>c. c \<noteq> CHR ''e'' \<and> c \<noteq> CHR ''E'') s = s"
    "dropWhile (\<lambda>c. c \<noteq> CHR ''e'' \<and> c \<noteq> CHR ''E'') s = []"
    by (rule t, simp add: number_char_plain)+
  have "unsigned_float s = Some (of_nat n)"
    unfolding unsigned_float_def e Let_def mantissa_def p by (simp add: assms)
  then show ?thesis by (simp add: py_float_def py_strip_number [OF c] signed_number [OF assms])
qed

lemma py_int_nat: "py_nat s = Some n \<Longrightarrow> py_int s = Some (int n)"
  using py_nat_chars [of s n] by (simp add: py_int_def py_strip_number signed_number)

lemma memory_unit_plain:
  "memory_unit c = Some u \<Longrightarrow> \<not> py_space c \<and> c \<noteq> CHR ''i''"
  by (auto simp: memory_unit_def py_space_def split: if_splits)

lemma scaled_memory_nat: "py_nat s = Some n \<Longrightarrow> scaled_memory s u = Inr (int (n * u))"
proof -
  assume "py_nat s = Some n"
  moreover have "py_trunc (of_nat n * of_nat u) = int (n * u)"
    by (simp add: py_trunc_def flip: of_nat_mult)
  ultimately show ?thesis by (simp add: scaled_memory_def py_float_nat)
qed

lemma parse_memory_units:
  assumes "py_nat ds = Some n"
  shows "parse_memory ds = Inr (int n)"
    and "memory_unit c = Some u \<Longrightarrow> parse_memory (ds @ [c]) = Inr (int (n * u))"
    and "memory_unit c = Some u \<Longrightarrow> parse_memory (ds @ [c, CHR ''i'']) = Inr (int (n * u))"
proof -
  have ds: "ds \<noteq> []" "list_all number_char ds" using py_nat_chars [OF assms] by simp_all
  then have plain: "list_all (\<lambda>c. \<not> py_space c) ds" "memory_unit (last ds) = None" "last ds \<noteq> CHR ''i''"
    using number_char_plain last_in_set [OF ds(1)] by (auto simp: list_all_iff)
  have "last (drop (length ds - 2) ds) = last ds" using ds(1) by (cases ds rule: rev_cases) (auto simp: last_drop)
  then show "parse_memory ds = Inr (int n)"
    using plain py_int_nat [OF assms] by (simp add: parse_memory_def Let_def strip_plain)
  assume u: "memory_unit c = Some u"
  note c = memory_unit_plain [OF u]
  have "py_strip (ds @ [c]) = ds @ [c]" "py_strip (ds @ [c, CHR ''i'']) = ds @ [c, CHR ''i'']"
    using plain(1) c by (auto intro!: strip_plain simp: py_space_def)
  moreover have "last (drop (length ds - 1) (ds @ [c])) = c" by simp
  ultimately show "parse_memory (ds @ [c]) = Inr (int (n * u))"
      "parse_memory (ds @ [c, CHR ''i'']) = Inr (int (n * u))"
    using c u scaled_memory_nat [OF assms] by (simp_all add: parse_memory_def Let_def)
qed

section \<open>The environment of an exec\<close>

lemma map_of_dict_set: "map_of (dict_set k v d) j = (if j = k then Some v else map_of d j)"
  by (induction k v d rule: dict_set.induct) auto

lemma map_of_dict_update:
  "distinct (map fst new) \<Longrightarrow> map_of (dict_update d new) k = (case map_of new k of None \<Rightarrow> map_of d k | Some v \<Rightarrow> Some v)"
proof (induction new arbitrary: d)
  case (Cons e new)
  have "map_of new (fst e) = None" using Cons.prems by (simp add: map_of_eq_None_iff)
  with Cons show ?case
    by (cases e) (auto simp: dict_update_def map_of_dict_set split: option.split)
qed (simp add: dict_update_def)

section \<open>A buffered execution\<close>

definition messages_in_time :: "rat option \<Rightarrow> exec_stream \<Rightarrow> bytes" where
  "messages_in_time timeout st =
     concat (map (snd \<circ> snd) (takeWhile (in_time (time_limit timeout) \<circ> fst) (xs_msgs st)))"

definition ends_in_time :: "rat option \<Rightarrow> exec_stream \<Rightarrow> bool" where
  "ends_in_time timeout st \<longleftrightarrow> (case xs_end st of None \<Rightarrow> False | Some (t, r) \<Rightarrow> in_time (time_limit timeout) t)"

text \<open>Every outcome of an execution whose output ends properly, or does not end in time.\<close>

lemma exec_in_environment_cases:
  fixes timeout :: "rat option" and hex :: string and dur :: int
  assumes "api_exec api eid (''forge-run'' # cmd) (env_text (build_exec_env wid env)) d = (Inr x, d1)"
    and "api_start_exec api x d1 = (Inr st, d2)" and "0 < m"
    and "\<And>t e. xs_end st \<noteq> Some (t, Some e)"
  defines "data \<equiv> messages_in_time timeout st"
  defines "res \<equiv> \<lambda>code. \<lparr>er_execution_id = ''ex_'' @ take 16 hex, er_output = utf8_decode_replace (take (nat m) data),
      er_exit_code = code, er_truncated = (m \<le> int (length data)), er_output_path = None,
      er_duration_ms = dur\<rparr>"
  shows "exec_in_environment api hex dur eid cmd wid env timeout m d =
    (if ends_in_time timeout st
     then (case exit_code_of api x d2 of (Inr c, d3) \<Rightarrow> (Inr (Some (res c)), d3) | (Inl e, d3) \<Rightarrow> (Inl e, d3))
     else if time_limit timeout = None then (Inr None, d2) else (Inr (Some (res 124)), d2))"
proof -
  have dr: "drain_stream timeout m st = Inr
     (if ends_in_time timeout st then Some ((take (nat m) data, m \<le> int (length data)), False)
      else if time_limit timeout = None then None
      else Some ((take (nat m) data, m \<le> int (length data)), True))"
    using assms(4) drain_prefix [OF assms(3)]
    by (cases "xs_end st") (auto simp: drain_stream_def Let_def data_def messages_in_time_def ends_in_time_def
        in_time_def split: option.splits)
  from assms(1) have "docker_raises RuntimeDriverError
      (api_exec api eid (''forge-run'' # cmd) (env_text (build_exec_env wid env))) d = (Inr x, d1)"
    by (simp add: docker_raises_def catchM_apply)
  with assms(2) dr show ?thesis
    by (simp add: exec_in_environment_def bindM_apply retM_apply res_def split: prod.split sum.split)
qed

section \<open>Containers\<close>

text \<open>
  What the driver relies on in the client, over the set of containers that exist: creating adds a
  new one, deleting removes the one named, a call that raises has no effect on the set, and no
  other call has one.
\<close>

definition client_ok :: "'d docker_api \<Rightarrow> ('d \<Rightarrow> string set) \<Rightarrow> bool" where
  "client_ok api cs \<longleftrightarrow>
     (\<forall>img. keeps cs (api_inspect_image api img) \<and> keeps cs (api_pull api img)) \<and>
     (\<forall>n c d. case api_create_or_replace api n c d of
        (Inl e, d') \<Rightarrow> cs d' = cs d | (Inr i, d') \<Rightarrow> i \<notin> cs d \<and> cs d' = insert i (cs d)) \<and>
     (\<forall>i p. keeps cs (api_start api i) \<and> keeps cs (api_put_archive api i p) \<and> keeps cs (api_kill api i) \<and> keeps cs (api_stop api i)) \<and>
     (\<forall>i d. case api_delete api i d of (Inl e, d') \<Rightarrow> cs d' = cs d | (Inr u, d') \<Rightarrow> cs d' = cs d - {i})"

lemma keeps_docker_raises: "keeps cs m \<Longrightarrow> keeps cs (docker_raises x m)"
  unfolding docker_raises_def by (rule keeps_catch) simp_all

lemma keeps_suppress: "keeps cs m \<Longrightarrow> keeps cs (suppress m)"
  unfolding suppress_def by (rule keeps_catch) simp_all

lemma keeps_ensure_image: "client_ok api cs \<Longrightarrow> keeps cs (ensure_image api img)"
  unfolding ensure_image_def
  by (rule keeps_catch) (auto simp: client_ok_def intro: keeps_docker_raises)

text \<open>A call on a container that raised.\<close>

definition raised :: "('d, 'a) docker_op \<Rightarrow> bool" where
  "raised m \<longleftrightarrow> (\<exists>d e d'. m d = (Inl e, d'))"

lemma suppress_apply:
  "suppress m d = (case m d of (Inl (DErr st), d') \<Rightarrow> (Inr (), d') | r \<Rightarrow> r)"
  by (simp add: suppress_def op_simps split: prod.split sum.split docker_exn.split)

lemma install_or_remove:
  assumes ok: "client_ok api cs" and i: "i \<notin> C" "cs d = insert i C"
    and r: "catchM (install_forge_run api i) (\<lambda>_. True)
        (\<lambda>e. bindM (suppress (api_kill api i)) (\<lambda>_. bindM (suppress (api_delete api i)) (\<lambda>_. raiseM e))) d = (r, d')"
  shows "case r of Inr u \<Rightarrow> cs d' = insert i C
    | Inl e \<Rightarrow> cs d' = C \<or> cs d' = insert i C \<and> (raised (api_kill api i) \<or> raised (api_delete api i))"
proof -
  obtain r1 d1 where 1: "install_forge_run api i d = (r1, d1)" by force
  have c1: "cs d1 = cs d" using ok 1 unfolding client_ok_def install_forge_run_def by (meson keepsD)
  obtain r2 d2 where 2: "api_kill api i d1 = (r2, d2)" by force
  have c2: "cs d2 = cs d1" using ok 2 unfolding client_ok_def by (meson keepsD)
  obtain r3 d3 where 3: "api_delete api i d2 = (r3, d3)" by force
  have c3: "case r3 of Inl e \<Rightarrow> cs d3 = cs d2 | Inr u \<Rightarrow> cs d3 = cs d2 - {i}"
  proof -
    have "case api_delete api i d2 of (Inl e, d') \<Rightarrow> cs d' = cs d2 | (Inr u, d') \<Rightarrow> cs d' = cs d2 - {i}"
      using ok by (simp add: client_ok_def)
    with 3 show ?thesis by (simp split: sum.splits)
  qed
  have k: "raised (api_kill api i)" if "r2 = Inl e" for e using 2 that unfolding raised_def by blast
  have l: "raised (api_delete api i)" if "r3 = Inl e" for e using 3 that unfolding raised_def by blast
  show ?thesis
    using r 1 2 3 c1 c2 c3 i k l
    by (auto simp: catchM_apply bindM_apply suppress_apply raiseM_apply split: sum.splits docker_exn.splits)
qed

lemma boot_container:
  assumes ok: "client_ok api cs"
    and r: "docker_raises ContainerStartError (bindM (api_create_or_replace api n c) (\<lambda>i. bindM (api_start api i) (\<lambda>_. retM i))) d = (r, d')"
  shows "case r of Inr i \<Rightarrow> i \<notin> cs d \<and> cs d' = insert i (cs d)
    | Inl e \<Rightarrow> cs d' = cs d \<or> (\<exists>i. i \<notin> cs d \<and> cs d' = insert i (cs d) \<and> raised (api_start api i))"
proof -
  obtain r1 d1 where 1: "api_create_or_replace api n c d = (r1, d1)" by force
  have "case api_create_or_replace api n c d of
        (Inl e, d') \<Rightarrow> cs d' = cs d | (Inr i, d') \<Rightarrow> i \<notin> cs d \<and> cs d' = insert i (cs d)"
    using ok by (simp add: client_ok_def)
  with 1 have c1: "case r1 of Inl e \<Rightarrow> cs d1 = cs d | Inr i \<Rightarrow> i \<notin> cs d \<and> cs d1 = insert i (cs d)"
    by (simp split: sum.splits)
  have c2: "api_start api i d1 = (r2, d2) \<Longrightarrow> cs d2 = cs d1" for i r2 d2
    using ok unfolding client_ok_def by (meson keepsD)
  have s: "api_start api i d1 = (Inl e, d2) \<Longrightarrow> raised (api_start api i)" for i e d2
    unfolding raised_def by blast
  show ?thesis
    using r 1 c1 c2 s
    by (auto simp: docker_raises_def catchM_apply bindM_apply raiseM_apply retM_apply split: sum.splits prod.splits if_splits)
qed

lemma create_environment_containers:
  assumes ok: "client_ok api cs" and r: "create_environment api pre hex img mounts res d = (r, d')"
  shows "case r of
      Inr h \<Rightarrow> eh_id h \<notin> cs d \<and> cs d' = insert (eh_id h) (cs d) \<and> eh_image h = img
    | Inl e \<Rightarrow> cs d' = cs d \<or> (\<exists>i. i \<notin> cs d \<and> cs d' = insert i (cs d) \<and>
        (raised (api_start api i) \<or> raised (api_kill api i) \<or> raised (api_delete api i)))"
proof -
  obtain r0 d0 where e0: "ensure_image api img d = (r0, d0)" by force
  have c0: "cs d0 = cs d" using keepsD [OF keeps_ensure_image [OF ok] e0] .
  note unfold = create_environment_def Let_def bindM_apply liftR_apply
  show ?thesis
  proof (cases "(\<exists>u. r0 = Inr u) \<and> (\<exists>hc. build_host_config mounts res = Inr hc)")
    case False
    with r e0 c0 show ?thesis
      by (cases r0; cases "build_host_config mounts res") (auto simp: unfold)
  next
    case True
    then obtain hc where hc: "build_host_config mounts res = Inr hc" and r0: "r0 = Inr ()" by auto
    obtain r1 d1 where e1: "docker_raises ContainerStartError
        (bindM (api_create_or_replace api (pre @ take 12 hex) (new_container_config img hc)) (\<lambda>i. bindM (api_start api i) (\<lambda>_. retM i))) d0 = (r1, d1)"
      by force
    note b = boot_container [OF ok e1, unfolded c0]
    show ?thesis
    proof (cases r1)
      case (Inl e)
      with r e0 r0 hc e1 b show ?thesis by (auto simp: unfold bindM_apply)
    next
      case r1: (Inr i)
      then have i: "i \<notin> cs d" "cs d1 = insert i (cs d)" using b by auto
      obtain r2 d2 where e2: "catchM (install_forge_run api i) (\<lambda>_. True)
          (\<lambda>e. bindM (suppress (api_kill api i)) (\<lambda>_. bindM (suppress (api_delete api i)) (\<lambda>_. raiseM e))) d1 = (r2, d2)" by force
      have "(r, d') = (case r2 of Inl e \<Rightarrow> (Inl e, d2) | Inr u \<Rightarrow>
          (Inr \<lparr>eh_id = i, eh_image = img, eh_driver = ''docker'', eh_labels = [(''name'', pre @ take 12 hex)]\<rparr>, d2))"
        using r e0 r0 hc e1 r1 e2
        by (auto simp: create_environment_def Let_def bindM_apply [of "ensure_image api img"] bindM_apply [of "liftR z" for z]
            bindM_apply [of "docker_raises y m" for y m] bindM_apply [of "catchM w P h" for w P h] liftR_apply retM_apply split: sum.split)
      with install_or_remove [OF ok i e2] i show ?thesis by (auto split: sum.splits)
    qed
  qed
qed

end
