(* ===== verification/Service_Props.thy ===== *)
theory Service_Props
  imports Workspace_Laws Event_Bus Docker_Laws Files_Props Meta_Props
begin

text \<open>
  The properties of the workspace service, the event bus and the Docker driver.
\<close>

section \<open>The workspace service\<close>

text \<open>C27: The directories and the rows of workspaces never part: whatever sequence of creations,
  reads, listings and deletions is asked for, whichever of them raise, afterwards a directory
  stands below the root for exactly the ids that have a row.\<close>

theorem stores_stay_in_sync:
  assumes "in_sync base s"
  shows "in_sync base (fold (run_ws_op base) ops s)"
  using assms by (rule run_ws_ops_sync)

definition demo_stores :: stores where
  "demo_stores = \<lparr>st_meta = snd (connect (new_store True)), st_fs = [([''data''], Dir), (demo_base, Dir)]\<rparr>"

lemma demo_in_sync: "in_sync demo_base demo_stores"
  by (auto simp: in_sync_def demo_stores_def demo_base_def proper_fs_def wf_fs_def look_def proper_name_def slash_def dot_def
      dotdot_def row_ids_def connect_def new_store_def migrate_def empty_db_def)

theorem stores_stay_in_sync_witness:
  "in_sync demo_base (fold (run_ws_op demo_base)
     [WsCreate ''abc'' demo_time (default_spec ''img'') None None, WsDelete ''ws_abc'' demo_time, WsDelete ''x/y'' demo_time]
     demo_stores)"
  using stores_stay_in_sync [OF demo_in_sync] .

lemma demo_creation:
  "\<exists>ws s'. service_create demo_base ''abc'' demo_time (default_spec ''img'') None None demo_stores = (Inr ws, s')"
proof -
  obtain r s' where c: "service_create demo_base ''abc'' demo_time (default_spec ''img'') None None demo_stores = (r, s')" by force
  have "ws_create demo_base ''ws_abc'' (st_fs demo_stores) = (Inr (demo_base @ [''ws_abc'']), snd (ws_create demo_base ''ws_abc'' (st_fs demo_stores)))"
    using ws_create_new [of "st_fs demo_stores" demo_base "''ws_abc''"] demo_in_sync
    by (auto simp: in_sync_def demo_stores_def valid_workspace_id_def look_def demo_base_def slash_def dot_def dotdot_def)
  then obtain g where g: "ws_create demo_base ''ws_abc'' (st_fs demo_stores) = (Inr (demo_base @ [''ws_abc'']), g)" by blast
  have "\<exists>ws. r = Inr ws"
    using c g by (simp add: service_create_def workspace_id_def Let_def bindM_apply on_fs_def on_meta_def focusM_apply catchM_apply)
      (auto simp: demo_stores_def connect_def new_store_def create_workspace_def op_simps integrity_def commit_def
        workspace_row_def insert_ws_def tbl_insert_def migrate_def empty_db_def split: prod.splits)
  with c show ?thesis by blast
qed



section \<open>The event bus\<close>

text \<open>C29: A subscription gets the events that were published after it came into being and that
  match its filter, in their order and none twice; the ones it missed are counted, it never holds
  more than the bus allows, and as long as none was lost it has had, or has waiting, every one.\<close>

theorem subscriber_gets_events:
  assumes "bus_ok b" and "subscribe k w e b = (n, b')" and "Close n \<notin> set xs"
  shows "\<exists>s. find_sub n (fold bus_step xs b') = Some s \<and>
    (let events = filter (ev_match k w e) (concat (map (\<lambda>x. case x of Publish ev \<Rightarrow> [ev] | _ \<Rightarrow> []) xs));
         got = received n xs b' @ sub_queue s
     in subseq got events \<and> length got + sub_lost s = length events \<and>
        (sub_lost s = 0 \<longrightarrow> got = events) \<and> cap_ok (bus_queue_size b) s)"
proof -
  from find_new_sub [OF assms(1,2)] obtain s where s: "find_sub n b' = Some s" "sub_queue s = []" "sub_lost s = 0"
    "sub_match s = ev_match k w e" by blast
  have "bus_queue_size b' = bus_queue_size b" using assms(2) by (auto simp: subscribe_def)
  with bus_delivery [OF s(1-3) assms(3)] s(4) show ?thesis by (simp add: wanted_def Let_def)
qed

definition demo_event :: "string \<Rightarrow> forge_event" where
  "demo_event kind = \<lparr>ev_kind = kind, ev_ts = demo_time, ev_workspace_id = None, ev_execution_id = None, ev_payload = []\<rparr>"

theorem subscriber_gets_events_witness:
  "\<exists>s. find_sub 0 (fold bus_step [Publish (demo_event ''a''), Publish (demo_event ''b''), Receive 0]
       (snd (subscribe None None None (new_bus 1)))) = Some s \<and> sub_lost s = 1 \<and>
     received 0 [Publish (demo_event ''a''), Publish (demo_event ''b''), Receive 0]
       (snd (subscribe None None None (new_bus 1))) = [demo_event ''a'']"
proof -
  have r: "received 0 [Publish (demo_event ''a''), Publish (demo_event ''b''), Receive 0]
       (snd (subscribe None None None (new_bus 1))) = [demo_event ''a'']"
    and q: "\<And>s. find_sub 0 (fold bus_step [Publish (demo_event ''a''), Publish (demo_event ''b''), Receive 0]
       (snd (subscribe None None None (new_bus 1)))) = Some s \<Longrightarrow> sub_queue s = []"
    by (simp_all add: new_bus_def subscribe_def publish_def deliver_def sub_match_def ev_match_def offer_def put_nowait_def
        next_event_def find_sub_def take_event_def)
  have "bus_ok (new_bus 1)" "subscribe None None None (new_bus 1) = (0, snd (subscribe None None None (new_bus 1)))"
    by (simp_all add: bus_ok_def new_bus_def subscribe_def)
  from subscriber_gets_events [OF this, of "[Publish (demo_event ''a''), Publish (demo_event ''b''), Receive 0]"]
  obtain s where "find_sub 0 (fold bus_step [Publish (demo_event ''a''), Publish (demo_event ''b''), Receive 0]
       (snd (subscribe None None None (new_bus 1)))) = Some s"
    "length (received 0 [Publish (demo_event ''a''), Publish (demo_event ''b''), Receive 0]
       (snd (subscribe None None None (new_bus 1))) @ sub_queue s) + sub_lost s = 2"
    by (auto simp: ev_match_def Let_def simp del: fold_simps received.simps)
  with r q show ?thesis by (simp del: fold_simps received.simps)
qed

section \<open>The Docker driver\<close>

text \<open>A client over a list of container ids: creating invents an id, starting may be refused.\<close>

definition demo_api :: "bool \<Rightarrow> exec_stream \<Rightarrow> (string list) docker_api" where
  "demo_api refuse st = \<lparr>api_inspect_image = (\<lambda>img. raiseM (DErr (Some 404))), api_pull = (\<lambda>img. retM ()),
     api_create_or_replace = (\<lambda>n c d. (Inr (CHR ''c'' # concat d), (CHR ''c'' # concat d) # d)),
     api_start = (\<lambda>i. if refuse then raiseM (DErr None) else retM ()), api_put_archive = (\<lambda>i p. retM ()),
     api_kill = (\<lambda>i. retM ()), api_stop = (\<lambda>i. retM ()), api_delete = (\<lambda>i d. (Inr (), filter (\<lambda>j. j \<noteq> i) d)),
     api_show = (\<lambda>i. retM True), api_exec = (\<lambda>i cmd env. retM ''x''), api_start_exec = (\<lambda>x. retM st),
     api_inspect_exec = (\<lambda>x. retM (Some 0))\<rparr>"

definition demo_stream :: exec_stream where
  "demo_stream = \<lparr>xs_msgs = [(1, 1, [104, 101]), (2, 2, [108, 108, 111]), (9, 1, [33])], xs_end = Some (9, None)\<rparr>"

lemma longer_fresh: "CHR ''c'' # concat d \<notin> set d"
proof
  assume "CHR ''c'' # concat d \<in> set d"
  then have "Suc (length (concat d)) \<in> set (map length d)" by force
  from member_le_sum_list [OF this] show False by (simp add: length_concat)
qed

lemma demo_client_ok: "client_ok (demo_api refuse st) set"
  using longer_fresh by (auto simp: client_ok_def demo_api_def keeps_def op_simps)



text \<open>C31: A buffered execution returns the first bytes of what arrived in time, up to the limit, decoded,
  with the flag set when there were at least as many as the limit; with exit code 124 when the
  output did not end in time, and with the code of the process otherwise. Without a time limit it
  does not return while the process runs.\<close>

theorem execution_output_is_prefix:
  assumes "api_exec api eid (''forge-run'' # cmd) (env_text (build_exec_env wid env)) d = (Inr x, d1)"
    and "api_start_exec api x d1 = (Inr st, d2)" and "0 < m" and "\<And>t e. xs_end st \<noteq> Some (t, Some e)"
  shows "exec_in_environment api hex dur eid cmd wid env timeout m d =
    (let data = messages_in_time timeout st;
         res = (\<lambda>code. \<lparr>er_execution_id = ''ex_'' @ take 16 hex, er_output = utf8_decode_replace (take (nat m) data),
           er_exit_code = code, er_truncated = (m \<le> int (length data)), er_output_path = None, er_duration_ms = dur\<rparr>)
     in if ends_in_time timeout st
        then (case exit_code_of api x d2 of (Inr c, d3) \<Rightarrow> (Inr (Some (res c)), d3) | (Inl e, d3) \<Rightarrow> (Inl e, d3))
        else if time_limit timeout = None then (Inr None, d2) else (Inr (Some (res 124)), d2))"
  using exec_in_environment_cases [OF assms] by (simp only: Let_def)

theorem execution_output_is_prefix_witness:
  "exec_in_environment (demo_api False demo_stream) ''ab'' 7 ''c'' [''ls''] ''w1'' [] (Some 5) 4 [''c''] =
    (Inr (Some \<lparr>er_execution_id = ''ex_ab'', er_output = utf8_decode_replace [104, 101, 108, 108], er_exit_code = 124,
       er_truncated = True, er_output_path = None, er_duration_ms = 7\<rparr>), [''c''])"
proof -
  have "exec_in_environment (demo_api False demo_stream) ''ab'' 7 ''c'' [''ls''] ''w1'' [] (Some 5) 4 [''c''] =
    (let data = messages_in_time (Some 5) demo_stream;
         res = (\<lambda>code. \<lparr>er_execution_id = ''ex_'' @ take 16 ''ab'', er_output = utf8_decode_replace (take (nat 4) data),
           er_exit_code = code, er_truncated = (4 \<le> int (length data)), er_output_path = None, er_duration_ms = 7\<rparr>)
     in if ends_in_time (Some 5) demo_stream
        then (case exit_code_of (demo_api False demo_stream) ''x'' [''c''] of (Inr c, d3) \<Rightarrow> (Inr (Some (res c)), d3) | (Inl e, d3) \<Rightarrow> (Inl e, d3))
        else if time_limit (Some 5) = None then (Inr None, [''c'']) else (Inr (Some (res 124)), [''c'']))"
    by (rule execution_output_is_prefix) (simp_all add: demo_api_def op_simps demo_stream_def)
  moreover have "messages_in_time (Some 5) demo_stream = [104, 101, 108, 108, 111]" "\<not> ends_in_time (Some 5) demo_stream"
    "time_limit (Some 5) \<noteq> None"
    by (simp_all add: messages_in_time_def ends_in_time_def demo_stream_def time_limit_def in_time_def)
  ultimately show ?thesis by (simp add: Let_def)
qed

end
