(* ===== verification/Snapshots.thy ===== *)
theory Snapshots
  imports Workspace_Store "HOL-Library.Multiset"
begin

text \<open>
  Snapshots: the archive store (\<open>forge/storage/snapshot_store.py\<close>) and the service over it
  (\<open>forge/services/snapshot_service.py\<close>). An archive is a list of members, directories and files
  by their names; how tar and zstandard turn it into bytes and back is a parameter. Reading an
  archive gives the members up to its end, or up to the point where it turns out to be damaged.
\<close>

datatype tar_member = TarDir string | TarFile string bytes

record archiver =
  ar_pack :: "tar_member list \<Rightarrow> bytes"
  ar_unpack :: "bytes \<Rightarrow> tar_member list \<times> exn option"

definition EXCLUDE_PREFIXES :: "string list" where
  "EXCLUDE_PREFIXES = [''.forge/exec/'']"

section \<open>Walking the workspace\<close>

text \<open>\<open>_iter_files\<close>: the stack of directories, its top first. Links are skipped.\<close>

definition real_children :: "fs \<Rightarrow> path \<Rightarrow> path list" where
  "real_children f d =
     filter (\<lambda>p. case look f p of Some (Link t) \<Rightarrow> False | _ \<Rightarrow> True) (map (\<lambda>n. d @ [n]) (sort (entries f d)))"

definition sub_dirs :: "fs \<Rightarrow> path \<Rightarrow> path list" where
  "sub_dirs f d = filter (\<lambda>p. look f p = Some Dir) (real_children f d)"

lemma sub_dirs_below: "p \<in> set (sub_dirs f d) \<Longrightarrow> below f p < below f d"
  by (auto simp: sub_dirs_def real_children_def entries_below)

function iter_files :: "fs \<Rightarrow> path list \<Rightarrow> path list" where
  "iter_files f [] = []"
| "iter_files f (d # stack) = real_children f d @ iter_files f (rev (sub_dirs f d) @ stack)"
  by pat_completeness auto
termination
proof (relation "inv_image (mult less_than) (\<lambda>(f, stack). mset (map (below f) stack))", goal_cases)
  case 1
  show ?case by (intro wf_inv_image wf_mult wf_less_than)
next
  case (2 f d stack)
  have "(mset (map (below f) stack) + mset (map (below f) (sub_dirs f d)), mset (map (below f) stack) + {#below f d#}) \<in> mult less_than"
    by (rule one_step_implies_mult) (auto simp: sub_dirs_below)
  then show ?case by (simp add: add.commute)
qed

declare iter_files.simps [simp del]

section \<open>The store\<close>

definition snapshot_id :: "string \<Rightarrow> string" where
  "snapshot_id hex = ''snap_'' @ take 16 hex"

definition archive_path :: "path \<Rightarrow> string \<Rightarrow> path" where
  "archive_path sroot sid = sroot @ [sid @ ''.tar.zst'']"

definition archive_member :: "fs \<Rightarrow> path \<Rightarrow> path \<Rightarrow> tar_member" where
  "archive_member f source p =
     (let rel = as_posix (drop (length source) p) in
      case look f p of Some (File b) \<Rightarrow> TarFile rel b | _ \<Rightarrow> TarDir rel)"

definition excluded :: "tar_member \<Rightarrow> bool" where
  "excluded m \<longleftrightarrow> (let rel = (case m of TarDir n \<Rightarrow> n | TarFile n b \<Rightarrow> n) in
     list_ex (\<lambda>pre. prefix pre rel) EXCLUDE_PREFIXES)"

definition archive_members :: "fs \<Rightarrow> path \<Rightarrow> tar_member list" where
  "archive_members f source =
     filter (\<lambda>m. \<not> excluded m) (map (archive_member f source) (iter_files f [source]))"

definition write_archive :: "archiver \<Rightarrow> path \<Rightarrow> path \<Rightarrow> unit fs_op" where
  "write_archive ar source target = (\<lambda>f.
     let src = resolve_path f source in
     if node_at f src \<noteq> Some Dir then (Inl SnapshotError, f)
     else write_bytes target (ar_pack ar (archive_members f src)) f)"

definition store_snapshot ::
  "archiver \<Rightarrow> path \<Rightarrow> string \<Rightarrow> datetime \<Rightarrow> string \<Rightarrow> path \<Rightarrow> string option \<Rightarrow> string option \<Rightarrow> snapshot fs_op" where
  "store_snapshot ar sroot hex now wid wpath name parent =
     (let sid = snapshot_id hex; target = archive_path sroot sid in
      bindM (catchM (write_archive ar wpath target) (\<lambda>e. is_instance e OSError) (\<lambda>_. raiseM SnapshotError)) (\<lambda>_ f.
        case stat_node f target of
          Some (File b) \<Rightarrow> (Inr \<lparr>snap_id = sid, snap_workspace_id = wid, snap_name = name, snap_size_bytes = int (length b),
             snap_parent_id = parent, snap_created_at = now\<rparr>, f)
        | _ \<Rightarrow> (Inl OSError, f)))"

text \<open>
  Extraction with the filter \<open>data\<close>: leading slashes are dropped, and a member that would land
  outside of the destination is an error. Missing parents are created.
\<close>

definition member_parts :: "tar_member \<Rightarrow> string list" where
  "member_parts m = (case m of TarDir n \<Rightarrow> pure_parts n | TarFile n b \<Rightarrow> pure_parts n)"

definition extract_member :: "path \<Rightarrow> tar_member \<Rightarrow> unit fs_op" where
  "extract_member dest m = (\<lambda>f.
     let p = dest @ member_parts m in
     if \<not> prefix (resolve_path f dest) (resolve_path f p) then (Inl TarError, f)
     else (case m of
        TarDir n \<Rightarrow> at_path mkdir_p p f
      | TarFile n b \<Rightarrow> bindM (at_path mkdir_p (butlast p)) (\<lambda>_. at_path (\<lambda>q. write_bytes q b) p) f))"

fun extract_all :: "path \<Rightarrow> tar_member list \<Rightarrow> unit fs_op" where
  "extract_all dest [] = retM ()"
| "extract_all dest (m # ms) = bindM (extract_member dest m) (\<lambda>_. extract_all dest ms)"

definition read_archive :: "archiver \<Rightarrow> bytes \<Rightarrow> path \<Rightarrow> unit fs_op" where
  "read_archive ar raw dest =
     (case ar_unpack ar raw of (ms, e) \<Rightarrow>
        bindM (extract_all dest ms) (\<lambda>_. case e of None \<Rightarrow> retM () | Some x \<Rightarrow> raiseM x))"

definition restore_error :: "exn \<Rightarrow> bool" where
  "restore_error e \<longleftrightarrow> is_instance e OSError \<or> is_instance e TarError \<or> is_instance e ZstdError"

definition store_restore :: "archiver \<Rightarrow> path \<Rightarrow> string \<Rightarrow> path \<Rightarrow> unit fs_op" where
  "store_restore ar sroot sid dest = (\<lambda>f.
     case stat_node f (archive_path sroot sid) of
       Some (File raw) \<Rightarrow>
         if stat_node f dest \<noteq> Some Dir then (Inl SnapshotError, f)
         else catchM (read_archive ar raw dest) restore_error (\<lambda>_. raiseM SnapshotError) f
     | _ \<Rightarrow> (Inl SnapshotError, f))"

definition store_delete :: "path \<Rightarrow> string \<Rightarrow> unit fs_op" where
  "store_delete sroot sid = (\<lambda>f.
     if look f (archive_path sroot sid) = None then (Inr (), f) else unlink (archive_path sroot sid) f)"

text \<open>The directory is a real one: the service has just created it.\<close>

definition ensure_dir_empty :: "path \<Rightarrow> unit fs_op" where
  "ensure_dir_empty p = (\<lambda>f.
     if look f p \<noteq> Some Dir then (Inl OSError, f)
     else if entries f p = [] then (Inr (), f)
     else bindM (rmtree p) (\<lambda>_. mkdir_new p) f)"

section \<open>The service\<close>

text \<open>Where the services keep their trees.\<close>

record layout =
  lay_workspaces :: path
  lay_snapshots :: path
  lay_artifacts :: path

definition snapshot_create ::
  "archiver \<Rightarrow> layout \<Rightarrow> string \<Rightarrow> datetime \<Rightarrow> string \<Rightarrow> string option \<Rightarrow> snapshot svc_op" where
  "snapshot_create ar lay hex now wid name =
     bindM (service_get wid) (\<lambda>ws.
     bindM (on_fs (ws_path (lay_workspaces lay) wid)) (\<lambda>p.
     bindM (on_fs (store_snapshot ar (lay_snapshots lay) hex now (ws_id ws) p name None)) (\<lambda>snap.
     bindM (catchM (on_meta (create_snapshot snap)) (\<lambda>e. is_instance e PyException)
       (\<lambda>e. bindM (on_fs (store_delete (lay_snapshots lay) (snap_id snap))) (\<lambda>_. raiseM e))) (\<lambda>_.
     retM snap))))"

definition snapshot_get :: "string \<Rightarrow> snapshot svc_op" where
  "snapshot_get sid = on_meta (get_snapshot sid)"

definition snapshot_list :: "string \<Rightarrow> snapshot list svc_op" where
  "snapshot_list wid = on_meta (list_snapshots wid)"

definition copy_spec :: "workspace_spec \<Rightarrow> workspace_spec" where
  "copy_spec s = \<lparr>spec_image = spec_image s, spec_runtime = spec_runtime s, spec_working_dir = spec_working_dir s,
     spec_env = spec_env s, spec_resources = spec_resources s\<rparr>"

definition ensure_forge_meta :: "path \<Rightarrow> unit fs_op" where
  "ensure_forge_meta dest = at_path mkdir_p (dest @ [''.forge'', ''exec''])"

definition snapshot_restore ::
  "archiver \<Rightarrow> layout \<Rightarrow> string \<Rightarrow> datetime \<Rightarrow> datetime \<Rightarrow> string \<Rightarrow> string option \<Rightarrow> dict option \<Rightarrow> workspace svc_op" where
  "snapshot_restore ar lay hex now later sid name metadata =
     bindM (on_meta (get_snapshot sid)) (\<lambda>snap.
     bindM (service_get (snap_workspace_id snap)) (\<lambda>source.
     bindM (service_create (lay_workspaces lay) hex now (copy_spec (ws_spec source)) name metadata) (\<lambda>new_ws.
     bindM (on_fs (ws_path (lay_workspaces lay) (ws_id new_ws))) (\<lambda>dest.
     bindM (on_fs (ensure_dir_empty dest)) (\<lambda>_.
     bindM (catchM (on_fs (store_restore ar (lay_snapshots lay) sid dest)) (\<lambda>e. is_instance e SnapshotError)
       (\<lambda>e. bindM (service_delete (lay_workspaces lay) (ws_id new_ws) later) (\<lambda>_. raiseM e))) (\<lambda>_.
     bindM (on_fs (ensure_forge_meta dest)) (\<lambda>_. retM new_ws)))))))"

end
