(* ===== verification/Snapshot_Laws.thy ===== *)
theory Snapshot_Laws
  imports Snapshots Workspace_Laws
begin

text \<open>
  What an archive holds of a workspace, and that extracting it into a fresh directory gives that
  back: the tree without links and without the logs of executions.
\<close>

section \<open>Names\<close>

lemma split_join: "ns \<noteq> [] \<Longrightarrow> list_all (\<lambda>n. c \<notin> set n) ns \<Longrightarrow> split_on c (join_with c ns) = ns"
  by (induction c ns rule: join_with.induct) (auto simp: split_on_none split_on_append)

lemma proper_no_slash: "list_all proper_name ns \<Longrightarrow> list_all (\<lambda>n. slash \<notin> set n) ns"
  by (auto simp: list_all_iff proper_name_def)

lemma pure_parts_posix: "list_all proper_name ns \<Longrightarrow> pure_parts (as_posix ns) = ns"
proof (cases "ns = []")
  case True
  then show ?thesis by (simp add: as_posix_def pure_parts_def dot_def slash_def)
next
  case False
  assume p: "list_all proper_name ns"
  then have "filter (\<lambda>x. x \<noteq> [] \<and> x \<noteq> dot) ns = ns" by (auto simp: list_all_iff proper_name_def)
  with False p show ?thesis by (simp add: as_posix_def pure_parts_def split_join proper_no_slash)
qed

lemma excluded_posix:
  assumes "list_all proper_name q"
  shows "prefix ''.forge/exec/'' (as_posix q) \<longleftrightarrow> strict_prefix [FORGE_META_DIR, ''exec''] q"
proof (cases "q = []")
  case True
  then show ?thesis by (simp add: as_posix_def dot_def)
next
  case False
  have lead: "''.forge/exec/'' @ r = FORGE_META_DIR @ slash # ''exec'' @ slash # r" for r
    by (simp add: FORGE_META_DIR_def slash_def)
  have sl: "slash \<notin> set FORGE_META_DIR" "slash \<notin> set ''exec''" by (auto simp: FORGE_META_DIR_def slash_def)
  show ?thesis
  proof
    assume "prefix ''.forge/exec/'' (as_posix q)"
    then obtain r where "join_with slash q = ''.forge/exec/'' @ r" using False by (auto simp: as_posix_def prefix_def)
    then have "split_on slash (join_with slash q) = FORGE_META_DIR # ''exec'' # split_on slash r"
      unfolding lead by (simp add: split_on_append [OF sl(1)] split_on_append [OF sl(2)] del: append_Cons)
    with assms False have "q = [FORGE_META_DIR, ''exec''] @ split_on slash r" by (simp add: split_join proper_no_slash)
    moreover have "split_on slash r \<noteq> []" by (induction r) (auto split: list.split)
    ultimately show "strict_prefix [FORGE_META_DIR, ''exec''] q" by (auto simp: strict_prefix_def)
  next
    assume "strict_prefix [FORGE_META_DIR, ''exec''] q"
    then obtain x xs where "q = FORGE_META_DIR # ''exec'' # x # xs" by (auto elim: strict_prefixE')
    then show "prefix ''.forge/exec/'' (as_posix q)"
      by (simp add: as_posix_def FORGE_META_DIR_def slash_def)
  qed
qed

lemma list_all_prefix: "list_all P ys \<Longrightarrow> prefix xs ys \<Longrightarrow> list_all P xs"
  by (auto simp: prefix_def)

section \<open>The members of an archive\<close>

fun plain_node :: "node option \<Rightarrow> bool" where
  "plain_node (Some Dir) = True"
| "plain_node (Some (File b)) = True"
| "plain_node _ = False"

lemma real_children_iff:
  "q \<in> set (real_children f d) \<longleftrightarrow> (\<exists>n. q = d @ [n]) \<and> plain_node (look f q)"
proof -
  have "plain_node (look f q) \<longleftrightarrow> look f q \<noteq> None \<and> (case look f q of Some (Link t) \<Rightarrow> False | _ \<Rightarrow> True)"
    by (cases "look f q" rule: plain_node.cases) auto
  then show ?thesis by (auto simp: real_children_def entries_iff)
qed

lemma below_link: "wf_fs f \<Longrightarrow> strict_prefix p q \<Longrightarrow> look f q \<noteq> None \<Longrightarrow> look f p = Some Dir"
  by (rule prefix_dir)

lemma iter_files_iff:
  assumes "wf_fs f"
  shows "q \<in> set (iter_files f stack) \<longleftrightarrow> plain_node (look f q) \<and> (\<exists>d \<in> set stack. strict_prefix d q)"
  using assms
proof (induction f stack rule: iter_files.induct)
  case (1 f)
  then show ?case by (simp add: iter_files.simps)
next
  case (2 f d stack)
  have "plain_node (look f q) \<and> strict_prefix d q \<longleftrightarrow>
      q \<in> set (real_children f d) \<or> plain_node (look f q) \<and> (\<exists>p \<in> set (sub_dirs f d). strict_prefix p q)"
  proof (intro iffI; (elim conjE)?)
    assume a: "plain_node (look f q)" "strict_prefix d q"
    then obtain n ns where q: "q = d @ n # ns" by (auto elim: strict_prefixE')
    show "q \<in> set (real_children f d) \<or> plain_node (look f q) \<and> (\<exists>p \<in> set (sub_dirs f d). strict_prefix p q)"
    proof (cases "ns = []")
      case True
      with a(1) q show ?thesis by (simp add: real_children_iff)
    next
      case False
      with q have p: "strict_prefix (d @ [n]) q" by (auto simp: strict_prefix_def)
      moreover have "look f q \<noteq> None" using a(1) by (cases "look f q") auto
      ultimately have "look f (d @ [n]) = Some Dir" by (rule below_link [OF "2.prems"])
      then have "d @ [n] \<in> set (sub_dirs f d)" by (simp add: sub_dirs_def real_children_iff)
      with p a(1) show ?thesis by blast
    qed
  next
    assume "q \<in> set (real_children f d) \<or> plain_node (look f q) \<and> (\<exists>p \<in> set (sub_dirs f d). strict_prefix p q)"
    then show "plain_node (look f q) \<and> strict_prefix d q"
      by (auto simp: real_children_iff sub_dirs_def strict_prefix_def prefix_def)
  qed
  with 2 show ?case by (subst iter_files.simps) auto
qed

text \<open>What a restored tree holds at a path below its root.\<close>

definition logs :: path where "logs = [FORGE_META_DIR, ''exec'']"

definition kept_node :: "fs \<Rightarrow> path \<Rightarrow> path \<Rightarrow> node option" where
  "kept_node f src q =
     (if strict_prefix logs q then None else if plain_node (look f (src @ q)) then look f (src @ q) else None)"

fun member_node :: "tar_member \<Rightarrow> node" where
  "member_node (TarDir n) = Dir"
| "member_node (TarFile n b) = File b"

lemma archive_members_iff:
  assumes "proper_fs f"
  shows "m \<in> set (archive_members f src) \<longleftrightarrow>
    (\<exists>q. q \<noteq> [] \<and> kept_node f src q \<noteq> None \<and> m = archive_member f src (src @ q))"
proof -
  have wf: "wf_fs f" using assms by (simp add: proper_fs_def)
  have ex: "excluded (archive_member f src (src @ q)) \<longleftrightarrow> strict_prefix logs q" if "plain_node (look f (src @ q))" for q
  proof -
    from that have "look f (src @ q) \<noteq> None" by (cases "look f (src @ q)") auto
    with look_proper [OF assms, of "src @ q"] have "list_all proper_name q" by simp
    from excluded_posix [OF this] show ?thesis
      by (auto simp: excluded_def archive_member_def EXCLUDE_PREFIXES_def logs_def Let_def split: option.split node.split)
  qed
  have k: "kept_node f src q \<noteq> None \<longleftrightarrow> plain_node (look f (src @ q)) \<and> \<not> strict_prefix logs q" for q
    by (cases "look f (src @ q)") (auto simp: kept_node_def)
  have "m \<in> set (archive_members f src) \<longleftrightarrow> (\<exists>p. plain_node (look f p) \<and> strict_prefix src p \<and>
      m = archive_member f src p \<and> \<not> excluded m)"
    by (auto simp: archive_members_def iter_files_iff [OF wf])
  also have "\<dots> \<longleftrightarrow> (\<exists>q. q \<noteq> [] \<and> plain_node (look f (src @ q)) \<and> m = archive_member f src (src @ q) \<and> \<not> excluded m)"
    by (auto simp: strict_prefix_def prefix_def)
  also have "\<dots> \<longleftrightarrow> (\<exists>q. q \<noteq> [] \<and> kept_node f src q \<noteq> None \<and> m = archive_member f src (src @ q))"
    unfolding k by (intro iff_exI) (auto simp: ex)
  finally show ?thesis .
qed

lemma archive_member_at:
  assumes "proper_fs f" and "kept_node f src q = Some n"
  shows "member_parts (archive_member f src (src @ q)) = q" and "member_node (archive_member f src (src @ q)) = n"
proof -
  from assms(2) have n: "look f (src @ q) = Some n" "plain_node (Some n)" by (auto simp: kept_node_def split: if_splits)
  with look_proper [OF assms(1), of "src @ q"] have "list_all proper_name q" by simp
  from pure_parts_posix [OF this] n
  show "member_parts (archive_member f src (src @ q)) = q" "member_node (archive_member f src (src @ q)) = n"
    by (cases n; simp add: archive_member_def member_parts_def)+
qed

lemma kept_parent:
  assumes "wf_fs f" and "kept_node f src q \<noteq> None" and "strict_prefix p q" and "look f src = Some Dir"
  shows "kept_node f src p = Some Dir"
proof -
  from assms(2) have q: "\<not> strict_prefix logs q" "look f (src @ q) \<noteq> None"
    by (auto simp: kept_node_def split: if_splits)
  have "strict_prefix (src @ p) (src @ q)" using assms(3) by (auto simp: strict_prefix_def)
  from below_link [OF assms(1) this q(2)] have "look f (src @ p) = Some Dir" .
  moreover have "\<not> strict_prefix logs p" using q(1) assms(3) by (meson prefix_order.less_trans)
  ultimately show ?thesis by (simp add: kept_node_def)
qed

section \<open>Extraction\<close>

lemma realpath_plain:
  assumes "list_all proper_name ns" and "\<And>q t. q \<noteq> [] \<Longrightarrow> prefix q ns \<Longrightarrow> look f (d @ q) \<noteq> Some (Link t)"
  shows "realpath False f seen (map Part ns) d = Some (d @ ns)"
  using assms
proof (induction ns arbitrary: d)
  case (Cons n ns)
  have "look f (d @ [n]) \<noteq> Some (Link t)" for t by (rule Cons.prems(2)) auto
  then have "link_of f (d @ [n]) = None" by (auto simp: link_of_def split: option.split node.split)
  moreover have "realpath False f seen (map Part ns) (d @ [n]) = Some ((d @ [n]) @ ns)"
    using Cons.prems Cons.prems(2) [of "n # q" for q] by (intro Cons.IH) auto
  ultimately show ?case using Cons.prems(1) by (simp add: realpath_link_of proper_name_def del: realpath.simps)
qed simp

lemma resolve_plain:
  "list_all proper_name p \<Longrightarrow> (\<And>q t. prefix q p \<Longrightarrow> look f q \<noteq> Some (Link t)) \<Longrightarrow> resolve_path f p = p"
  using realpath_plain [of p f "[]"] by (simp add: resolve_path_def)

text \<open>A directory in which a part of the kept tree of \<open>src\<close> in \<open>f\<close> has been restored.\<close>

definition restoring :: "fs \<Rightarrow> path \<Rightarrow> path \<Rightarrow> fs \<Rightarrow> bool" where
  "restoring f src dest g \<longleftrightarrow> proper_fs g \<and> look g dest = Some Dir \<and>
     (\<forall>q. q \<noteq> [] \<longrightarrow> look g (dest @ q) = None \<or> look g (dest @ q) = kept_node f src q)"

definition adds_below :: "path \<Rightarrow> fs \<Rightarrow> fs \<Rightarrow> bool" where
  "adds_below dest g h \<longleftrightarrow> (\<forall>p. look g p \<noteq> None \<or> \<not> prefix dest p \<longrightarrow> look h p = look g p)"

lemma adds_below_trans: "adds_below d f g \<Longrightarrow> adds_below d g h \<Longrightarrow> adds_below d f h"
  by (auto simp: adds_below_def)

lemma kept_not_link: "kept_node f src q \<noteq> Some (Link t)"
  by (auto simp: kept_node_def split: if_splits)

lemma restoring_no_link:
  assumes "restoring f src dest g" and "prefix p (dest @ q)"
  shows "look g p \<noteq> Some (Link t)"
proof -
  from assms(2) consider "strict_prefix p dest" | "p = dest" | r where "p = dest @ r" "r \<noteq> []"
    by (metis append_Nil2 prefix_append strict_prefix_def)
  then show ?thesis
  proof cases
    case 1
    with prefix_dir [of g dest p] assms(1) show ?thesis by (auto simp: restoring_def proper_fs_def)
  next
    case 3
    with assms(1) kept_not_link [of f src r t] show ?thesis by (auto simp: restoring_def)
  qed (use assms(1) in \<open>simp add: restoring_def\<close>)
qed

lemma restoring_resolve:
  assumes "restoring f src dest g" and "list_all proper_name q"
  shows "resolve_path g (dest @ q) = dest @ q"
proof (rule resolve_plain)
  have "list_all proper_name dest" using assms(1) look_proper [of g dest] by (simp add: restoring_def)
  with assms(2) show "list_all proper_name (dest @ q)" by simp
qed (rule restoring_no_link [OF assms(1)])

text \<open>Making the directories down to a kept one.\<close>

lemma restoring_mkdir:
  assumes g: "restoring f src dest g" and wf: "wf_fs f" "look f src = Some Dir"
    and q: "kept_node f src q \<noteq> None" "list_all proper_name q" "prefix p q" "p \<noteq> [] \<Longrightarrow> kept_node f src p = Some Dir"
  shows "\<exists>h. mkdir_p (dest @ p) g = (Inr (), h) \<and> restoring f src dest h \<and> adds_below dest g h \<and>
    look h (dest @ p) = Some Dir"
proof -
  have gw: "wf_fs g" "look g dest = Some Dir" using g by (auto simp: restoring_def proper_fs_def)
  have kd: "kept_node f src r = Some Dir" if "prefix r p" "r \<noteq> []" for r
    using that q(4) kept_parent [OF wf(1) _ _ wf(2), of p r]
    by (cases "r = p"; cases "p = []") (auto simp: strict_prefix_def)
  have at: "look g x \<in> {None, Some Dir}" if "prefix x (dest @ p)" for x
  proof -
    from that consider "strict_prefix x dest" | "x = dest" | r where "x = dest @ r" "r \<noteq> []" "prefix r p"
      by (metis append_Nil2 prefix_append same_prefix_prefix strict_prefix_def)
    then show ?thesis
    proof cases
      case 1
      with prefix_dir [of g dest x] gw show ?thesis by auto
    next
      case 3
      with g kd [of r] show ?thesis by (auto simp: restoring_def)
    qed (use gw in simp)
  qed
  from mkdir_p_clear [OF gw(1) at] obtain h where h: "mkdir_p (dest @ p) g = (Inr (), h)" "wf_fs h"
    "\<And>x. look h x = (if look g x = None \<and> prefix x (dest @ p) then Some Dir else look g x)" by blast
  have up: "look g x \<noteq> None" if "prefix x dest" for x
    using that gw prefix_dir [of g dest x] by (cases "x = dest") (auto simp: strict_prefix_def)
  have "look h x = look g x" if "look g x \<noteq> None \<or> \<not> prefix dest x" for x
    using that h(3) [of x] up [of x] by (cases "prefix x dest") (auto simp: prefix_append)
  then have "adds_below dest g h" by (simp add: adds_below_def)
  moreover have "proper_fs h"
  proof -
    have "list_all proper_name dest" using g look_proper [of g dest] by (simp add: restoring_def)
    with q(2,3) have "list_all proper_name (dest @ p)" by (auto simp: prefix_def)
    then have "list_all proper_name x" if "prefix x (dest @ p)" for x using that by (rule list_all_prefix)
    with g h(2,3) show ?thesis unfolding proper_fs_iff restoring_def by (metis (full_types))
  qed
  moreover have "look h (dest @ r) = None \<or> look h (dest @ r) = kept_node f src r" if "r \<noteq> []" for r
    using that h(3) [of "dest @ r"] g kd [of r] by (auto simp: restoring_def)
  moreover have "look h dest = Some Dir" "look h (dest @ p) = Some Dir"
    using h(3) gw(2) at [of "dest @ p"] by auto
  ultimately show ?thesis using h(1) by (auto simp: restoring_def)
qed

lemma extract_member_kept:
  assumes g: "restoring f src dest g" and f: "proper_fs f" "look f src = Some Dir"
    and q: "q \<noteq> []" "kept_node f src q = Some n"
  shows "\<exists>h. extract_member dest (archive_member f src (src @ q)) g = (Inr (), h) \<and> restoring f src dest h \<and>
    adds_below dest g h \<and> look h (dest @ q) = Some n"
proof -
  let ?m = "archive_member f src (src @ q)"
  note m = archive_member_at [OF f(1) q(2)]
  have wf: "wf_fs f" using f(1) by (simp add: proper_fs_def)
  have "look f (src @ q) \<noteq> None" using q(2) by (auto simp: kept_node_def split: if_splits)
  with look_proper [OF f(1), of "src @ q"] have pq: "list_all proper_name q" by simp
  have inside: "prefix (resolve_path g dest) (resolve_path g (dest @ q))"
    using restoring_resolve [OF g, of "[]"] restoring_resolve [OF g pq] by simp
  show ?thesis
  proof (cases ?m)
    case (TarDir s)
    with m q(2) have "kept_node f src q = Some Dir" "n = Dir" by auto
    with restoring_mkdir [OF g wf f(2), of q q] pq obtain h where
      "mkdir_p (dest @ q) g = (Inr (), h)" "restoring f src dest h" "adds_below dest g h" "look h (dest @ q) = Some Dir" by auto
    with TarDir m inside restoring_resolve [OF g pq] \<open>n = Dir\<close> show ?thesis
      by (auto simp: extract_member_def Let_def at_path_def)
  next
    case (TarFile s b)
    with m have n: "n = File b" by simp
    let ?p = "butlast q"
    have pp: "prefix ?p q" "strict_prefix ?p q" using q(1) by (auto simp: strict_prefix_def prefixeq_butlast) (metis append_butlast_last_id not_Cons_self2 append_self_conv)
    have pl: "list_all proper_name ?p" using pq by (metis in_set_butlastD list_all_iff)
    have "?p \<noteq> [] \<Longrightarrow> kept_node f src ?p = Some Dir"
      using kept_parent [OF wf _ pp(2) f(2)] q(2) by simp
    with restoring_mkdir [OF g wf f(2) _ pq pp(1)] q(2) obtain h where
      h: "mkdir_p (dest @ ?p) g = (Inr (), h)" "restoring f src dest h" "adds_below dest g h" "look h (dest @ ?p) = Some Dir" by auto
    have bl: "butlast (dest @ q) = dest @ ?p" using q(1) by (simp add: butlast_append)
    have "look h (dest @ q) = None \<or> look h (dest @ q) = Some (File b)"
      using h(2) q n by (auto simp: restoring_def)
    then have w: "write_bytes (dest @ q) b h = (Inr (), set_node (dest @ q) (File b) h)"
      using h(4) bl q(1) by (auto simp: write_bytes_def)
    let ?k = "set_node (dest @ q) (File b) h"
    have "proper_fs ?k"
    proof -
      have "list_all proper_name dest" using g look_proper [of g dest] by (simp add: restoring_def)
      moreover have "wf_fs ?k" using write_bytes_frame [of h "[]" "dest @ q" b] w h(2) by (simp add: restoring_def proper_fs_def)
      ultimately show ?thesis using h(2) pq q(1) by (auto simp: proper_fs_iff restoring_def)
    qed
    then have "restoring f src dest ?k" using h(2) q n by (auto simp: restoring_def)
    moreover have "adds_below dest g ?k"
      using h(3) q(1) w \<open>look h (dest @ q) = None \<or> _\<close> by (auto simp: adds_below_def)
    moreover have "extract_member dest ?m g = (Inr (), ?k)"
      using TarFile m inside restoring_resolve [OF g pl] restoring_resolve [OF h(2) pq] h(1) w bl q(1)
      by (simp add: extract_member_def Let_def at_path_def bindM_apply)
    ultimately show ?thesis using n q(1) by auto
  qed
qed

lemma extract_all_kept:
  assumes f: "proper_fs f" "look f src = Some Dir" and ms: "set ms \<subseteq> set (archive_members f src)"
  shows "restoring f src dest g \<Longrightarrow> \<exists>h. extract_all dest ms g = (Inr (), h) \<and> restoring f src dest h \<and> adds_below dest g h \<and>
    (\<forall>q n. q \<noteq> [] \<longrightarrow> kept_node f src q = Some n \<longrightarrow> archive_member f src (src @ q) \<in> set ms \<longrightarrow> look h (dest @ q) = Some n)"
  using ms
proof (induction ms arbitrary: g)
  case Nil
  then show ?case by (auto simp: retM_apply adds_below_def)
next
  case (Cons m ms)
  then have "m \<in> set (archive_members f src)" by simp
  then obtain q n where q: "q \<noteq> []" "kept_node f src q = Some n" "m = archive_member f src (src @ q)"
    unfolding archive_members_iff [OF f(1)] by auto
  from extract_member_kept [OF Cons.prems(1) f q(1,2)] q(3) obtain h where
    h: "extract_member dest m g = (Inr (), h)" "restoring f src dest h" "adds_below dest g h" "look h (dest @ q) = Some n" by auto
  from Cons.IH [OF h(2)] Cons.prems(2) obtain k where
    k: "extract_all dest ms h = (Inr (), k)" "restoring f src dest k" "adds_below dest h k"
      "\<And>q n. q \<noteq> [] \<Longrightarrow> kept_node f src q = Some n \<Longrightarrow> archive_member f src (src @ q) \<in> set ms \<Longrightarrow> look k (dest @ q) = Some n" by auto
  have "look k (dest @ r) = Some n'" if r: "r \<noteq> []" "kept_node f src r = Some n'" "archive_member f src (src @ r) \<in> set (m # ms)" for r n'
  proof (cases "archive_member f src (src @ r) \<in> set ms")
    case True
    with k(4) r show ?thesis by blast
  next
    case False
    with r(3) q(3) have same: "archive_member f src (src @ r) = archive_member f src (src @ q)" by simp
    have "r = q"
      using archive_member_at(1) [OF f(1) r(2), unfolded same] archive_member_at(1) [OF f(1) q(2)] by (rule trans [OF sym])
    moreover have "look k (dest @ q) = look h (dest @ q)"
      using k(3) h(4) unfolding adds_below_def by (metis option.distinct(1))
    ultimately show ?thesis using h(4) r(2) q(2) by simp
  qed
  moreover have "extract_all dest (m # ms) g = (Inr (), k)" using h(1) k(1) by (simp add: bindM_apply)
  ultimately show ?case using k(2) adds_below_trans [OF h(3) k(3)] by blast
qed

text \<open>The whole archive into an empty directory.\<close>

lemma extract_archive:
  assumes f: "proper_fs f" "look f src = Some Dir"
    and g: "proper_fs g" "look g dest = Some Dir" "\<And>q. q \<noteq> [] \<Longrightarrow> look g (dest @ q) = None"
  shows "\<exists>h. extract_all dest (archive_members f src) g = (Inr (), h) \<and> proper_fs h \<and> adds_below dest g h \<and>
    (\<forall>q. q \<noteq> [] \<longrightarrow> look h (dest @ q) = kept_node f src q)"
proof -
  have "restoring f src dest g" using g by (simp add: restoring_def)
  from extract_all_kept [OF f order_refl this] obtain h where
    h: "extract_all dest (archive_members f src) g = (Inr (), h)" "restoring f src dest h" "adds_below dest g h"
     "\<And>q n. q \<noteq> [] \<Longrightarrow> kept_node f src q = Some n \<Longrightarrow> archive_member f src (src @ q) \<in> set (archive_members f src) \<Longrightarrow>
        look h (dest @ q) = Some n" by auto
  have "look h (dest @ q) = kept_node f src q" if "q \<noteq> []" for q
  proof (cases "kept_node f src q")
    case None
    with h(2) that show ?thesis by (auto simp: restoring_def)
  next
    case (Some n)
    have "archive_member f src (src @ q) \<in> set (archive_members f src)"
      unfolding archive_members_iff [OF f(1)] using Some that by auto
    with h(4) [OF that Some] Some show ?thesis by simp
  qed
  with h(1-3) show ?thesis by (auto simp: restoring_def)
qed

end
