(* ===== verification/Forge_Run.thy ===== *)
theory Forge_Run
  imports Driver Docker_Laws Snapshot_Laws Workspace_Laws
begin

text \<open>
  The script \<open>forge-run\<close> (\<open>_FORGE_RUN_SCRIPT\<close> in \<open>forge/drivers/docker_driver.py\<close>), which every
  command of every workspace is run by, on the file system of its container. A process gets its
  variables as lines \<open>name=value\<close>. The program \<open>ln\<close> is a tool of the container's image and a
  parameter: what it makes of the file system when it is called as \<open>ln -sfn target /workspace\<close>;
  the script ignores its exit status.
\<close>

section \<open>The script\<close>

definition env_lookup :: "string \<Rightarrow> string list \<Rightarrow> string option" where
  "env_lookup name lines = map_option (drop (Suc (length name))) (List.find (prefix (name @ ''='')) (rev lines))"

definition WORKSPACE_DIR :: string where "WORKSPACE_DIR = ''FORGE_WORKSPACE_DIR''"

definition workspace_link :: path where "workspace_link = [''workspace'']"

text \<open>
  The script exits with a status, or fails to enter the directory (with a status that depends on
  the shell), or becomes the command, in a working directory.
\<close>

datatype run_outcome = RunExit int | RunNoDir | RunExec path "string list"

definition forge_run :: "(string \<Rightarrow> fs \<Rightarrow> fs) \<Rightarrow> string list \<Rightarrow> string list \<Rightarrow> fs \<Rightarrow> run_outcome \<times> fs" where
  "forge_run ln_sfn lines argv f =
     (let dir = (case env_lookup WORKSPACE_DIR lines of None \<Rightarrow> [] | Some d \<Rightarrow> d) in
      if dir = [] then (RunExit 64, f)
      else let f' = ln_sfn dir f in
        (case follow f' workspace_link of
           None \<Rightarrow> (RunNoDir, f')
         | Some p \<Rightarrow> (if node_at f' p \<noteq> Some Dir then RunNoDir
                     else if argv = [] then RunExit 0 else RunExec p argv, f')))"

text \<open>
  What the script relies on in \<open>ln -sfn\<close>: it replaces what is at \<open>/workspace\<close> by the link unless
  that is a directory, which it never replaces.
\<close>

definition link_tool :: "(string \<Rightarrow> fs \<Rightarrow> fs) \<Rightarrow> bool" where
  "link_tool ln_sfn \<longleftrightarrow>
     (\<forall>d f. is_absolute d \<longrightarrow> look f workspace_link \<noteq> Some Dir \<longrightarrow>
        look (ln_sfn d f) workspace_link = Some (Link d) \<and> (\<forall>q. q \<noteq> workspace_link \<longrightarrow> look (ln_sfn d f) q = look f q)) \<and>
     (\<forall>d f. look f workspace_link = Some Dir \<longrightarrow> look (ln_sfn d f) workspace_link = Some Dir)"

section \<open>The variable\<close>

text \<open>The directory the script is told: the request's own variable comes before the one of the session.\<close>

definition told_dir :: "string \<Rightarrow> dict \<Rightarrow> string" where
  "told_dir wid env = (case map_of env WORKSPACE_DIR of Some d \<Rightarrow> d | None \<Rightarrow> ''/workspaces/'' @ wid)"

text \<open>A dictionary of variables with ordinary names.\<close>

definition plain_env :: "dict \<Rightarrow> bool" where
  "plain_env env \<longleftrightarrow> distinct (map fst env) \<and> list_all (\<lambda>e. CHR ''='' \<notin> set (fst e)) env"

lemma keys_dict_set: "fst ` set (dict_set k v d) = insert k (fst ` set d)"
  by (induction k v d rule: dict_set.induct) auto

lemma distinct_dict_set: "distinct (map fst d) \<Longrightarrow> distinct (map fst (dict_set k v d))"
  by (induction k v d rule: dict_set.induct) (auto simp: keys_dict_set image_iff)

lemma dict_update_simps [simp]:
  "dict_update d [] = d" "dict_update d (e # new) = dict_update (dict_set (fst e) (snd e) d) new"
  by (simp_all add: dict_update_def case_prod_unfold)

lemma keys_dict_update: "fst ` set (dict_update d new) = fst ` set d \<union> fst ` set new"
  by (induction new arbitrary: d) (simp_all add: keys_dict_set)

lemma distinct_dict_update: "distinct (map fst d) \<Longrightarrow> distinct (map fst (dict_update d new))"
  by (induction new arbitrary: d) (simp_all add: distinct_dict_set)

lemma prefix_of_line:
  assumes "c \<notin> set name" and "c \<notin> set k"
  shows "prefix (name @ [c]) (k @ c # v) \<longleftrightarrow> k = name"
proof
  assume "prefix (name @ [c]) (k @ c # v)"
  then obtain w where w: "k @ c # v = name @ c # w" by (auto simp: prefix_def)
  have "takeWhile (\<lambda>x. x \<noteq> c) (xs @ c # ys) = xs" if "c \<notin> set xs" for xs ys
    using that by (induction xs) auto
  with w assms show "k = name" by metis
qed simp

lemma env_lookup_line:
  assumes "CHR ''='' \<notin> set name" and "distinct (map fst env)" and "list_all (\<lambda>e. CHR ''='' \<notin> set (fst e)) env"
  shows "env_lookup name (env_text env) = map_of env name"
proof -
  have find: "List.find (prefix (name @ ''='')) (env_text e) = map_option (\<lambda>v. name @ ''='' @ v) (map_of e name)"
    if "list_all (\<lambda>e. CHR ''='' \<notin> set (fst e)) e" for e
    using that
  proof (induction e)
    case (Cons kv e)
    obtain k v where kv: "kv = (k, v)" by force
    with Cons.prems have k: "CHR ''='' \<notin> set k" by simp
    from Cons show ?case by (simp add: kv env_text_def prefix_of_line [OF assms(1) k])
  qed (simp add: env_text_def)
  have "rev (env_text env) = env_text (rev env)" by (simp add: env_text_def rev_map)
  moreover have "map_of (rev env) name = map_of env name" using assms(2) 
    map_of_eq_None_iff [of "rev env" name] map_of_eq_None_iff [of env name]
    by (cases "map_of env name") (simp_all add: map_of_eq_Some_iff flip: rev_map)
  ultimately show ?thesis using find [of "rev env"] assms(3)
    by (cases "map_of env name") (simp_all add: env_lookup_def list_all_iff)
qed

lemma exec_env_dir:
  assumes "plain_env env"
  shows "env_lookup WORKSPACE_DIR (env_text (build_exec_env wid env)) = Some (told_dir wid env)"
proof -
  let ?base = "[(''FORGE_WORKSPACE_DIR'', ''/workspaces/'' @ wid), (''FORGE_WORKSPACE_ID'', wid), (''PWD'', ''/workspace'')]"
  have "\<forall>k \<in> fst ` set (build_exec_env wid env). CHR ''='' \<notin> set k"
    using assms unfolding build_exec_env_def keys_dict_update by (auto simp: plain_env_def list_all_iff)
  then have "list_all (\<lambda>e. CHR ''='' \<notin> set (fst e)) (build_exec_env wid env)" by (simp add: list_all_iff)
  moreover have "distinct (map fst (build_exec_env wid env))"
    unfolding build_exec_env_def by (rule distinct_dict_update) simp
  moreover have "map_of (build_exec_env wid env) WORKSPACE_DIR = Some (told_dir wid env)"
    using assms unfolding build_exec_env_def
    by (subst map_of_dict_update) (simp_all add: plain_env_def told_dir_def WORKSPACE_DIR_def split: option.split)
  ultimately show ?thesis by (subst env_lookup_line) (simp_all add: WORKSPACE_DIR_def)
qed

section \<open>Where a command runs\<close>

text \<open>A bind mount: the target shows the directory of the host.\<close>

definition shows_mount :: "fs \<Rightarrow> fs \<Rightarrow> mount \<Rightarrow> bool" where
  "shows_mount host f m \<longleftrightarrow> (\<forall>q. look f (pure_parts (mt_target m) @ q) = look host (pure_parts (mt_source m) @ q))"

lemma pure_parts_host_str: "list_all proper_name p \<Longrightarrow> pure_parts (host_str p) = p"
proof (cases "p = []")
  case False
  assume p: "list_all proper_name p"
  then have "pure_parts (as_posix p) = p" by (rule pure_parts_posix)
  with False show ?thesis by (simp add: pure_parts_def host_str_def as_posix_def)
qed (simp add: pure_parts_def host_str_def dot_def slash_def)

lemma follow_link_to_workspace:
  assumes "look f workspace_link = Some (Link (''/workspaces/'' @ wid))" and "slash \<notin> set wid"
    and "wid \<noteq> []" "wid \<noteq> dot" "wid \<noteq> dotdot"
    and "look f [''workspaces''] = Some Dir" and "look f [''workspaces'', wid] = Some Dir"
  shows "follow f workspace_link = Some [''workspaces'', wid]"
proof -
  have "split_on slash (''/workspaces/'' @ wid) = [] # ''workspaces'' # [wid]"
    using split_on_append [of slash "''workspaces''" wid] split_on_none [OF assms(2)] by (simp add: slash_def)
  with assms show ?thesis
    by (simp add: follow_def workspace_link_def link_start_def is_absolute_def slash_def dot_def dotdot_def)
qed

lemma forge_run_enters:
  assumes tool: "link_tool ln_sfn" and img: "look f workspace_link \<noteq> Some Dir"
    and env: "plain_env env" and told: "told_dir w env = ''/workspaces/'' @ wid"
    and mnt: "shows_mount host f \<lparr>mt_source = host_str top_dir, mt_target = ''/workspaces'', mt_read_only = ro\<rparr>"
    and top_dir: "list_all proper_name top_dir" "look host top_dir = Some Dir"
    and wid: "valid_workspace_id wid" "look host (top_dir @ [wid]) = Some Dir" and argv: "argv \<noteq> []"
  obtains f' where "forge_run ln_sfn (env_text (build_exec_env w env)) argv f = (RunExec [''workspaces'', wid] argv, f')"
    and "\<And>q. look f' ([''workspaces'', wid] @ q) = look host ((top_dir @ [wid]) @ q)"
    and "look f' workspace_link = Some (Link (''/workspaces/'' @ wid))"
proof
  let ?d = "''/workspaces/'' @ wid" and ?f = "ln_sfn (''/workspaces/'' @ wid) f"
  have abs: "is_absolute ?d" by (simp add: is_absolute_def slash_def)
  with tool img show l: "look ?f workspace_link = Some (Link ?d)" by (simp add: link_tool_def)
  have same: "look ?f q = look f q" if "q \<noteq> workspace_link" for q using tool img abs that by (simp add: link_tool_def)
  have "pure_parts ''/workspaces'' = [''workspaces'']" by (simp add: pure_parts_def slash_def dot_def)
  with mnt top_dir(1) have m: "look f (''workspaces'' # q) = look host (top_dir @ q)" for q
    by (simp add: shows_mount_def pure_parts_host_str)
  have m': "look ?f (''workspaces'' # q) = look host (top_dir @ q)" for q
    using m [of q] same [of "''workspaces'' # q"] by (simp add: workspace_link_def)
  then show "look ?f ([''workspaces'', wid] @ q) = look host ((top_dir @ [wid]) @ q)" for q by simp
  from m' [of "[]"] m' [of "[wid]"] top_dir(2) wid have dirs: "look ?f [''workspaces''] = Some Dir" "look ?f [''workspaces'', wid] = Some Dir"
    by simp_all
  have fl: "follow ?f workspace_link = Some [''workspaces'', wid]"
    by (rule follow_link_to_workspace [OF l _ _ _ _ dirs]) (use wid(1) in \<open>simp_all add: valid_workspace_id_def\<close>)
  with argv dirs(2) exec_env_dir [OF env, of w] told
  show "forge_run ln_sfn (env_text (build_exec_env w env)) argv f = (RunExec [''workspaces'', wid] argv, ?f)"
    by (simp add: forge_run_def Let_def node_at_def)
qed

text \<open>A directory of the image at \<open>/workspace\<close> stays, and every command is run in it.\<close>

lemma forge_run_in_image_directory:
  assumes "link_tool ln_sfn" and "look f workspace_link = Some Dir" and "plain_env env" and "told_dir w env \<noteq> []" and "argv \<noteq> []"
  shows "fst (forge_run ln_sfn (env_text (build_exec_env w env)) argv f) = RunExec workspace_link argv"
proof -
  have "look (ln_sfn (told_dir w env) f) workspace_link = Some Dir" using assms(1,2) by (simp add: link_tool_def)
  moreover from this have "follow (ln_sfn (told_dir w env) f) workspace_link = Some workspace_link"
    by (simp add: follow_def workspace_link_def dot_def dotdot_def)
  ultimately show ?thesis using assms(4,5) exec_env_dir [OF assms(3), of w]
    by (simp add: forge_run_def Let_def node_at_def)
qed

text \<open>Without the variable the script does nothing.\<close>

lemma forge_run_unset: "env_lookup WORKSPACE_DIR lines = None \<Longrightarrow> forge_run ln_sfn lines argv f = (RunExit 64, f)"
  by (simp add: forge_run_def)

end
