(* ===== verification/Pool_Cancel.thy ===== *)
theory Pool_Cancel
  imports Pool_Props
begin

text \<open>
  Cancellation of a session by its caller, which the transition system of the pool leaves out: the
  coroutine gets a \<open>CancelledError\<close> at the \<open>await\<close> it is suspended at. That is no \<open>Exception\<close>, so no
  clause of \<open>_acquire\<close> and \<open>_release\<close> takes it; an \<open>async with\<close> gives its lock back, and a
  \<open>finally\<close> runs. The end by cancellation is recorded as \<open>Ended (Some PyException)\<close>.
\<close>

section \<open>Cancelling a session\<close>

definition cancelled_end :: pc where "cancelled_end = Ended (Some PyException)"

fun cancel_local :: "bool \<Rightarrow> pc \<Rightarrow> sub_pool \<Rightarrow> local_result" where
  "cancel_local down (Creating s) sp = (sp\<lparr>sp_lock := None\<rparr>, cancelled_end, [])"
| "cancel_local down (Leased h) sp = (sp, if down then Closing h else Releasing h, [])"
| "cancel_local down p sp = (sp, cancelled_end, [])"

definition cancel_session :: "nat \<Rightarrow> pool \<Rightarrow> pool option" where
  "cancel_session n p =
     (case pl_tasks p (Sess n) of
        None \<Rightarrow> None
      | Some t \<Rightarrow> if ended (tk_pc t) then None
          else (case get_sub (tk_image t) p of
             None \<Rightarrow> None
           | Some sp \<Rightarrow> Some (put_local (Sess n) t (cancel_local (pl_closed p) (tk_pc t) sp) p)))"

text \<open>Runs in which sessions may be cancelled, and what may follow a state.\<close>

inductive later :: "pool \<Rightarrow> pool \<Rightarrow> bool" for p where
  now: "later p p"
| step: "later p q \<Longrightarrow> pool_step ev q = Some r \<Longrightarrow> later p r"
| cancel: "later p q \<Longrightarrow> cancel_session n q = Some r \<Longrightarrow> later p r"

section \<open>Placeholders\<close>

definition pending :: "actor \<Rightarrow> string \<Rightarrow> pool \<Rightarrow> bool" where
  "pending b img p \<longleftrightarrow> (\<exists>sp. get_sub img p = Some sp \<and> PendingSlot b \<in> set (sp_in_use sp))"

text \<open>Who creates an environment does so for its own placeholder, which is in use.\<close>

definition makers_ok :: "pool \<Rightarrow> bool" where
  "makers_ok p \<longleftrightarrow> (\<forall>a t s. pl_tasks p a = Some t \<longrightarrow> tk_pc t = Creating s \<longrightarrow>
     (\<exists>n. a = Sess n) \<and> s = PendingSlot a \<and> pending a (tk_image t) p)"

text \<open>A placeholder whose session has ended.\<close>

definition lost :: "nat \<Rightarrow> string \<Rightarrow> pool \<Rightarrow> bool" where
  "lost n img p \<longleftrightarrow> pending (Sess n) img p \<and> (\<exists>t. pl_tasks p (Sess n) = Some t \<and> ended (tk_pc t))"

lemma pending_put_local:
  assumes "get_sub (tk_image t) p = Some sp"
  shows "pending b img (put_local a t (sp', c', ids) p) \<longleftrightarrow>
    (if img = tk_image t then PendingSlot b \<in> set (sp_in_use sp') else pending b img p)"
  using assms by (simp add: pending_def put_local_def)

lemma tasks_put_local: "pl_tasks (put_local a t (sp', c', ids) p) = (pl_tasks p)(a \<mapsto> t\<lparr>tk_pc := c'\<rparr>)"
  by (simp add: put_local_def set_task_def doom_def set_sub_def)

lemma pending_frames [simp]:
  "pending b img (note_created out j p) = pending b img p" "pending b img (set_task a u p) = pending b img p"
  "pending b img (p\<lparr>pl_now := x\<rparr>) = pending b img p" "pending b img (p\<lparr>pl_reaper := y\<rparr>) = pending b img p"
  by (simp_all add: pending_def)

lemma pending_ensure: "pending b img p \<Longrightarrow> pending b img (ensure_subpool j p)"
  by (auto simp: pending_def get_sub_ensure)

text \<open>Warming and reaping do not touch the slots in use.\<close>

lemma maint_slots:
  "warm_begin sp = (sp', c', ids) \<Longrightarrow> sp_in_use sp' = sp_in_use sp \<and> \<not> creating c'"
  "reap_dead es sp = (sp', c', ids) \<Longrightarrow> sp_in_use sp' = sp_in_use sp \<and> \<not> creating c'"
  "reap_kept now es sv d sp = (sp', c', ids) \<Longrightarrow> sp_in_use sp' = sp_in_use sp \<and> \<not> creating c'"
proof -
  show w: "warm_begin sp = (sp', c', ids) \<Longrightarrow> sp_in_use sp' = sp_in_use sp \<and> \<not> creating c'" for sp
    by (auto simp: warm_begin_def Let_def split: if_splits)
  show d: "reap_dead es sp = (sp', c', ids) \<Longrightarrow> sp_in_use sp' = sp_in_use sp \<and> \<not> creating c'" for es sp
    by (cases es) (auto dest: w)
  show "reap_kept now es sv d sp = (sp', c', ids) \<Longrightarrow> sp_in_use sp' = sp_in_use sp \<and> \<not> creating c'"
    by (induction es arbitrary: sv) (auto dest: d split: if_splits)
qed

lemma visit_begin_slots: "visit_begin a now sp = (sp', c', ids) \<Longrightarrow> sp_in_use sp' = sp_in_use sp \<and> \<not> creating c'"
  by (auto simp: visit_begin_def reap_begin_def Let_def dest: maint_slots split: if_splits)

lemma maint_step_slots:
  "maint_step now pnow out c sp = Some (sp', c', ids) \<Longrightarrow> sp_in_use sp' = sp_in_use sp \<and> \<not> creating c'"
  by (cases c) (auto simp: warm_step_def put_idle_def dest: maint_slots split: if_splits outcome.splits)

lemma acquire_top_slots:
  "acquire_top a now started sp = (sp', c', ids) \<Longrightarrow> creating c' \<Longrightarrow>
    c' = Creating (PendingSlot a) \<and> PendingSlot a \<in> set (sp_in_use sp')"
  "acquire_top a now started sp = (sp', c', ids) \<Longrightarrow> set (sp_in_use sp) \<subseteq> set (sp_in_use sp')"
  by (auto simp: acquire_top_def local_ops split: if_splits list.splits)

lemma session_step_creates:
  assumes "session_step a down now started out c sp = Some (sp', c', ids)" and "creating c'"
  shows "c' = Creating (PendingSlot a) \<and> PendingSlot a \<in> set (sp_in_use sp')"
proof -
  have "c = AtAcquire"
    using assms by (cases c; cases out) (auto simp: returned_def Let_def split: if_splits list.splits)
  with assms(1) have "acquire_top a now started sp = (sp', c', ids)" by (auto split: if_splits)
  from acquire_top_slots(1) [OF this assms(2)] show ?thesis .
qed

lemma session_step_keeps:
  assumes "session_step a down now started out c sp = Some (sp', c', ids)"
    and "PendingSlot b \<in> set (sp_in_use sp)" and "c \<noteq> Creating (PendingSlot b)"
  shows "PendingSlot b \<in> set (sp_in_use sp')"
proof (cases "c = AtAcquire")
  case True
  with assms(1) have "acquire_top a now started sp = (sp', c', ids)" by (auto split: if_splits)
  from acquire_top_slots(2) [OF this] assms(2) show ?thesis by blast
next
  case False
  with assms show ?thesis
    by (cases c; cases out) (auto simp: returned_def local_ops Let_def split: if_splits list.splits)
qed

text \<open>A step keeps every placeholder but the one of an actor that is just creating.\<close>

definition slots_grow :: "pool \<Rightarrow> pool \<Rightarrow> bool" where
  "slots_grow p q \<longleftrightarrow> makers_ok q \<and> (\<forall>n img. lost n img p \<longrightarrow> lost n img q)"

lemma visit_step:
  assumes "get_sub j p = Some sp"
  obtains p1 c where "visit a now (j # rest) p = (if ended c then visit a now rest p1 else p1)"
    and "\<And>b img. pending b img p1 = pending b img p" and "\<And>b. b \<noteq> a \<Longrightarrow> pl_tasks p1 b = pl_tasks p b"
    and "\<And>t. pl_tasks p1 a = Some t \<Longrightarrow> \<not> creating (tk_pc t)"
proof -
  obtain sp' c' ids where r: "visit_begin a now sp = (sp', c', ids)" by (cases "visit_begin a now sp") auto
  let ?p = "put_local a \<lparr>tk_image = j, tk_started = now, tk_pc = Ended None, tk_rest = rest\<rparr> (sp', c', ids) p"
  show thesis
  proof (rule that)
    show "visit a now (j # rest) p = (if ended c' then visit a now rest ?p else ?p)"
      using assms r by (simp add: Let_def)
    show "pending b img ?p = pending b img p" for b img
      using assms visit_begin_slots [OF r] by (auto simp: pending_put_local) (simp_all add: pending_def)
  qed (use visit_begin_slots [OF r] in \<open>simp_all add: tasks_put_local\<close>)
qed

lemma visit_pending [simp]: "pending b img (visit a now imgs p) = pending b img p"
proof (induction imgs arbitrary: p)
  case (Cons j rest)
  show ?case
  proof (cases "get_sub j p")
    case (Some sp)
    from visit_step [OF Some, of a now rest] obtain p1 c where
      "visit a now (j # rest) p = (if ended c then visit a now rest p1 else p1)" "pending b img p1 = pending b img p" by metis
    with Cons.IH [of p1] show ?thesis by (cases "ended c") (simp_all del: visit.simps)
  qed (simp add: Cons.IH)
qed simp

lemma visit_other: "b \<noteq> a \<Longrightarrow> pl_tasks (visit a now imgs p) b = pl_tasks p b"
proof (induction imgs arbitrary: p)
  case (Cons j rest)
  show ?case
  proof (cases "get_sub j p")
    case (Some sp)
    from visit_step [OF Some, of a now rest] Cons.prems obtain p1 c where
      "visit a now (j # rest) p = (if ended c then visit a now rest p1 else p1)" "pl_tasks p1 b = pl_tasks p b" by metis
    with Cons.IH [OF Cons.prems, of p1] show ?thesis by (cases "ended c") (simp_all del: visit.simps)
  qed (simp add: Cons)
qed (simp add: set_task_def)

lemma visit_creates_nothing:
  "(\<And>t. pl_tasks p a = Some t \<Longrightarrow> \<not> creating (tk_pc t)) \<Longrightarrow>
    pl_tasks (visit a now imgs p) a = Some t \<Longrightarrow> \<not> creating (tk_pc t)"
proof (induction imgs arbitrary: p)
  case (Cons j rest)
  show ?case
  proof (cases "get_sub j p")
    case None
    with Cons.prems(2) Cons.IH [OF Cons.prems(1)] show ?thesis by simp
  next
    case (Some sp)
    from visit_step [OF Some, of a now rest] obtain p1 c where
      "visit a now (j # rest) p = (if ended c then visit a now rest p1 else p1)"
      "\<And>t. pl_tasks p1 a = Some t \<Longrightarrow> \<not> creating (tk_pc t)" by metis
    with Cons.IH [of p1] Cons.prems(2) show ?thesis by metis
  qed
qed (simp add: set_task_def)

lemma makers_visit:
  assumes "makers_ok p" and "\<And>t. pl_tasks p a = Some t \<Longrightarrow> \<not> creating (tk_pc t)"
  shows "makers_ok (visit a now imgs p)"
  unfolding makers_ok_def
proof (intro allI impI)
  fix b t s assume t: "pl_tasks (visit a now imgs p) b = Some t" "tk_pc t = Creating s"
  then have b: "b \<noteq> a" using visit_creates_nothing [OF assms(2)] by fastforce
  with t assms(1) show "(\<exists>n. b = Sess n) \<and> s = PendingSlot b \<and> pending b (tk_image t) (visit a now imgs p)"
    by (simp add: makers_ok_def visit_other)
qed

lemma lost_visit: "lost n img p \<Longrightarrow> a \<noteq> Sess n \<Longrightarrow> lost n img (visit a now imgs p)"
  by (simp add: lost_def visit_other [of "Sess n" a])

lemma grow_visit:
  assumes "makers_ok p" and "\<And>n. a \<noteq> Sess n" and "\<And>t. pl_tasks p a = Some t \<Longrightarrow> \<not> creating (tk_pc t)"
  shows "slots_grow p (visit a now imgs p)"
  using makers_visit [OF assms(1,3)] lost_visit assms(2) by (auto simp: slots_grow_def)

lemma grow_local:
  assumes "makers_ok p" and "pl_tasks p a = Some t" and "get_sub (tk_image t) p = Some sp" and "\<not> ended (tk_pc t)"
    and "creating c' \<Longrightarrow> (\<exists>n. a = Sess n) \<and> c' = Creating (PendingSlot a) \<and> PendingSlot a \<in> set (sp_in_use sp')"
    and "\<And>b. PendingSlot b \<in> set (sp_in_use sp) \<Longrightarrow> tk_pc t \<noteq> Creating (PendingSlot b) \<Longrightarrow> PendingSlot b \<in> set (sp_in_use sp')"
  shows "slots_grow p (put_local a t (sp', c', ids) (note_created out j p))"
proof -
  let ?q = "put_local a t (sp', c', ids) (note_created out j p)"
  have keep: "pending b img ?q" if "pending b img p" "b \<noteq> a" for b img
  proof -
    have "tk_pc t \<noteq> Creating (PendingSlot b)" using assms(1,2) that(2) by (auto simp: makers_ok_def)
    with that assms(3,6) show ?thesis by (auto simp: pending_put_local) (auto simp: pending_def)
  qed
  have "makers_ok ?q" unfolding makers_ok_def
  proof (intro allI impI)
    fix b u s assume u: "pl_tasks ?q b = Some u" "tk_pc u = Creating s"
    show "(\<exists>n. b = Sess n) \<and> s = PendingSlot b \<and> pending b (tk_image u) ?q"
    proof (cases "b = a")
      case True
      with u assms(3,5) show ?thesis by (auto simp: tasks_put_local pending_put_local)
    next
      case False
      with u assms(1) keep show ?thesis by (auto simp: tasks_put_local makers_ok_def)
    qed
  qed
  moreover have "lost n img ?q" if "lost n img p" for n img
    using that keep assms(2,4) by (auto simp: lost_def tasks_put_local)
  ultimately show ?thesis by (simp add: slots_grow_def)
qed

lemma slots_grow_trans: "slots_grow p q \<Longrightarrow> slots_grow q r \<Longrightarrow> slots_grow p r"
  by (simp add: slots_grow_def)

lemma grow_ensure: "makers_ok p \<Longrightarrow> slots_grow p (ensure_subpool img p)"
  by (auto simp: slots_grow_def makers_ok_def lost_def pending_ensure)

lemma grow_fold_ensure: "makers_ok p \<Longrightarrow> slots_grow p (fold ensure_subpool imgs p)"
proof (induction imgs arbitrary: p)
  case (Cons i imgs)
  from grow_ensure [OF Cons.prems, of i] Cons.IH [of "ensure_subpool i p"] slots_grow_trans
  show ?case by (auto simp: slots_grow_def)
qed (simp add: slots_grow_def)

lemma makers_task: "makers_ok p \<Longrightarrow> pl_tasks p a = Some t \<Longrightarrow> (\<And>n. a \<noteq> Sess n) \<Longrightarrow> \<not> creating (tk_pc t)"
  by (cases "tk_pc t") (auto simp: makers_ok_def)

lemma grow_frames [simp]:
  "makers_ok (p\<lparr>pl_now := x\<rparr>) = makers_ok p" "makers_ok (p\<lparr>pl_reaper := y\<rparr>) = makers_ok p"
  "lost n img (p\<lparr>pl_now := x\<rparr>) = lost n img p" "lost n img (p\<lparr>pl_reaper := y\<rparr>) = lost n img p"
  by (simp_all add: makers_ok_def lost_def)

lemma grow_step:
  assumes p: "makers_ok p" "shut_ok p" and st: "pool_step ev p = Some q" and o: "\<not> pl_closed q"
  shows "slots_grow p q"
proof -
  have op: "\<not> pl_closed p" using pool_step_closed [OF st] o by blast
  show ?thesis
  proof (cases ev)
    case (EvTick dt)
    with st p show ?thesis by (auto simp: slots_grow_def split: if_splits)
  next
    case (EvStart imgs)
    let ?i = "dedup (pc_image (fc_default_pool (pl_config p)) # imgs)"
    let ?p = "fold ensure_subpool ?i (p\<lparr>pl_reaper := True\<rparr>)"
    have e: "slots_grow (p\<lparr>pl_reaper := True\<rparr>) ?p" using p by (intro grow_fold_ensure) simp
    then have m: "makers_ok ?p" by (simp add: slots_grow_def)
    have na: "Starter \<noteq> Sess n" for n by simp
    have "slots_grow ?p (visit Starter (pl_now p) ?i ?p)"
      by (rule grow_visit [OF m na makers_task [OF m _ na]])
    with e have "slots_grow p (visit Starter (pl_now p) ?i ?p)" by (auto simp: slots_grow_def)
    with st EvStart op p show ?thesis by (auto simp: Let_def slots_grow_def split: if_splits)
  next
    case (EvSession n img)
    let ?p = "ensure_subpool img p"
    from st EvSession have q: "q = set_task (Sess n) (Some \<lparr>tk_image = img, tk_started = pl_now p, tk_pc = AtAcquire, tk_rest = []\<rparr>) ?p"
      and new: "pl_tasks p (Sess n) = None" by (auto split: if_splits)
    have m: "makers_ok ?p" using grow_ensure [OF p(1), of img] by (simp add: slots_grow_def)
    have pq: "pending b j q = pending b j ?p" for b j by (simp add: q)
    have tq: "pl_tasks q = (pl_tasks ?p)(Sess n \<mapsto> \<lparr>tk_image = img, tk_started = pl_now p, tk_pc = AtAcquire, tk_rest = []\<rparr>)"
      by (simp add: q set_task_def)
    have "makers_ok q" using m unfolding makers_ok_def pq tq by (simp split: if_split)
    moreover have "lost i j q" if "lost i j ?p" for i j
      using that new unfolding lost_def pq tq by auto
    ultimately have "slots_grow ?p q" by (simp add: slots_grow_def)
    with grow_ensure [OF p(1), of img] show ?thesis by (rule slots_grow_trans)
  next
    case (EvStep a out)
    with st obtain t sp where t: "pl_tasks p a = Some t" and g: "get_sub (tk_image t) p = Some sp"
      by (auto split: option.splits if_splits)
    show ?thesis
    proof (cases "\<exists>n. a = Sess n")
      case True
      with st EvStep t g obtain r where
        r: "session_step a (pl_closed p) (pl_now p) (tk_started t) out (tk_pc t) sp = Some r"
        and q: "q = put_local a t r (note_created out (tk_image t) p)"
        by (auto split: option.splits if_splits)
      obtain sp' c' ids where rr: "r = (sp', c', ids)" by (cases r) auto
      have "\<not> ended (tk_pc t)" using r by (cases "tk_pc t") simp_all
      from grow_local [OF p(1) t g this] session_step_creates [OF r [unfolded rr]] session_step_keeps [OF r [unfolded rr]] True
      show ?thesis unfolding q rr by blast
    next
      case False
      then have na: "\<And>n. a \<noteq> Sess n" by blast
      with st EvStep t g obtain r where
        r: "maint_step (pl_now p) (tk_started t) out (tk_pc t) sp = Some r"
        and q: "q = (let p1 = put_local a t r (note_created out (tk_image t) p) in
          if ended (fst (snd r)) then visit a (tk_started t) (tk_rest t) p1 else p1)"
        by (cases a) (auto simp: Let_def split: option.splits if_splits)
      obtain sp' c' ids where rr: "r = (sp', c', ids)" by (cases r) auto
      have "\<not> ended (tk_pc t)" using r by (cases "tk_pc t") simp_all
      with maint_step_slots [OF r [unfolded rr]]
      have l: "slots_grow p (put_local a t r (note_created out (tk_image t) p))" (is "slots_grow p ?p")
        unfolding rr by (intro grow_local [OF p(1) t g]) simp_all
      then have m: "makers_ok ?p" by (simp add: slots_grow_def)
      have "slots_grow ?p (visit a (tk_started t) (tk_rest t) ?p)"
        by (rule grow_visit [OF m na makers_task [OF m _ na]])
      with l q slots_grow_trans [OF l] show ?thesis by (auto simp: Let_def)
    qed
  next
    case EvReapWake
    with st p show ?thesis by (auto intro!: grow_visit split: if_splits)
  next
    case EvShutdown
    with st o op show ?thesis by (auto split: if_splits)
  next
    case EvShutdownStep
    with st p(2) op show ?thesis by (simp add: shut_ok_def)
  qed
qed

lemma grow_cancel:
  assumes "makers_ok p" and "cancel_session n p = Some q"
  shows "slots_grow p q"
proof -
  from assms(2) obtain t sp where t: "pl_tasks p (Sess n) = Some t" "\<not> ended (tk_pc t)" and g: "get_sub (tk_image t) p = Some sp"
    and q: "q = put_local (Sess n) t (cancel_local (pl_closed p) (tk_pc t) sp) p"
    by (auto simp: cancel_session_def split: option.splits if_splits)
  obtain sp' c' ids where r: "cancel_local (pl_closed p) (tk_pc t) sp = (sp', c', ids)" by (cases "cancel_local (pl_closed p) (tk_pc t) sp") auto
  have "sp_in_use sp' = sp_in_use sp \<and> \<not> creating c'"
    using r by (cases "tk_pc t") (auto simp: cancelled_end_def split: if_splits)
  with grow_local [OF assms(1) t(1) g t(2), of c' sp' ids OGo "[]"] show ?thesis by (simp add: q r)
qed

lemma cancel_shut: "cancel_session n p = Some q \<Longrightarrow> pl_closed q = pl_closed p \<and> pl_shutdown q = pl_shutdown p"
  by (auto simp: cancel_session_def split: option.splits if_splits)

lemma later_grow:
  assumes "later p q" and "shut_ok p"
  shows "shut_ok q \<and> (pl_closed p \<longrightarrow> pl_closed q) \<and> (makers_ok p \<longrightarrow> \<not> pl_closed q \<longrightarrow> slots_grow p q)"
  using assms(1)
proof (induction rule: later.induct)
  case now
  then show ?case by (simp add: assms(2) slots_grow_def)
next
  case (step q ev r)
  with pool_step_shut [OF step.hyps(2)] pool_step_closed [OF step.hyps(2)] grow_step [OF _ _ step.hyps(2)]
  show ?case by (auto simp: slots_grow_def)
next
  case (cancel q n r)
  with cancel_shut [OF cancel.hyps(2)] grow_cancel [OF _ cancel.hyps(2)]
  show ?case by (auto simp: slots_grow_def shut_ok_def)
qed

lemma later_trans: "later q r \<Longrightarrow> later p q \<Longrightarrow> later p r"
  by (induction rule: later.induct) (auto intro: later.intros)

lemma later_events: "run_events evs q = Some r \<Longrightarrow> later p q \<Longrightarrow> later p r"
  by (induction evs arbitrary: q) (auto split: option.splits intro: later.step simp del: pool_step.simps)

lemma makers_ok_new: "makers_ok (new_pool c) \<and> shut_ok (new_pool c)"
  by (simp add: makers_ok_def new_pool_def shut_ok_def)

text \<open>Cancelled while it creates, a session leaves its placeholder behind.\<close>

lemma cancelled_creation_lost:
  assumes run: "later (new_pool c) p" and t: "pl_tasks p (Sess n) = Some t" "tk_pc t = Creating s"
    and q: "cancel_session n p = Some q" and r: "later q r" "\<not> pl_closed r"
  shows "lost n (tk_image t) r \<and> makers_ok r \<and> s = PendingSlot (Sess n)"
proof -
  have g0: "shut_ok p" "\<not> pl_closed p \<longrightarrow> makers_ok p"
    using later_grow [OF run] makers_ok_new [of c] by (auto simp: slots_grow_def)
  with cancel_shut [OF q] have sq: "shut_ok q" by (simp add: shut_ok_def)
  note g1 = later_grow [OF r(1) sq]
  with r(2) have oq: "\<not> pl_closed q" by blast
  with g0 cancel_shut [OF q] have mp: "makers_ok p" by simp
  with t have s: "s = PendingSlot (Sess n)" "pending (Sess n) (tk_image t) p" by (auto simp: makers_ok_def)
  have mq: "makers_ok q" using grow_cancel [OF mp q] by (simp add: slots_grow_def)
  obtain sp where g: "get_sub (tk_image t) p = Some sp" "PendingSlot (Sess n) \<in> set (sp_in_use sp)"
    using s(2) by (auto simp: pending_def)
  have "q = put_local (Sess n) t (sp\<lparr>sp_lock := None\<rparr>, cancelled_end, []) p"
    using q t g(1) by (simp add: cancel_session_def)
  then have "lost n (tk_image t) q"
    using g by (simp add: lost_def pending_put_local tasks_put_local cancelled_end_def)
  with g1 mq r(2) s(1) show ?thesis by (simp add: slots_grow_def)
qed

lemma lost_unheld:
  assumes "lost n img r" and "makers_ok r" and "pl_tasks r b = Some u"
  shows "held (tk_pc u) \<noteq> Some (PendingSlot (Sess n))"
proof
  assume "held (tk_pc u) = Some (PendingSlot (Sess n))"
  then have "tk_pc u = Creating (PendingSlot (Sess n))" by (cases "tk_pc u") (simp_all add: entry_slot_def)
  moreover from this assms(2,3) have "b = Sess n" by (auto simp: makers_ok_def)
  ultimately show False using assms(1,3) by (simp add: lost_def)
qed

end
