(* ===== verification/Driver_Pool.thy ===== *)
theory Driver_Pool
  imports Driver Pool_Bounds
begin

text \<open>
  The pool on top of a runtime driver: a coroutine that is suspended at a call of the driver is
  resumed with what the driver answers, in whatever state the runtime is by then. The context of a
  call (its uuid) is free.
\<close>

section \<open>The pool over a driver\<close>

fun resumes :: "event \<Rightarrow> bool" where
  "resumes (EvStep a out) = True"
| "resumes ev = False"

inductive driven_run :: "('x \<Rightarrow> 'd runtime_driver) \<Rightarrow> forge_config \<Rightarrow> pool \<Rightarrow> bool" for drv c where
  start: "driven_run drv c (new_pool c)"
| own: "driven_run drv c p \<Longrightarrow> \<not> resumes ev \<Longrightarrow> pool_step ev p = Some q \<Longrightarrow> driven_run drv c q"
| answer: "driven_run drv c p \<Longrightarrow> pl_tasks p a = Some t \<Longrightarrow> get_sub (tk_image t) p = Some sp \<Longrightarrow>
    out \<in> set (driver_answers (drv x) c sp (tk_pc t) d) \<Longrightarrow> pool_step (EvStep a out) p = Some q \<Longrightarrow> driven_run drv c q"

lemma driven_run_run: "driven_run drv c p \<Longrightarrow> pool_run c p"
proof (induction rule: driven_run.induct)
  case (own p ev q)
  from own(4,3) show ?case by (rule pool_run.step)
next
  case (answer p a t sp out x d q)
  from answer(6,5) show ?case by (rule pool_run.step)
qed (rule pool_run.start)

text \<open>
  What the pool relies on in a driver: a probe of an environment says yes or no, or does not answer,
  but does not raise, and a created environment is one of the image that was asked for.
\<close>

locale pool_driver =
  fixes drv :: "'x \<Rightarrow> 'd runtime_driver"
  assumes probe_quiet: "rd_health (drv x) eid d \<noteq> (Inl e, d')"
    and create_image: "rd_create (drv x) img mounts res d = (Inr h, d') \<Longrightarrow> eh_image h = img"
begin

lemma probe_answer: "ORaised e \<notin> set (driver_answers (drv x) c sp (Checking en) d)"
proof (cases "rd_health (drv x) (entry_id en) d")
  case (Pair r d')
  with probe_quiet [of x "entry_id en" d _ d'] show ?thesis
    by (cases r) (auto simp: health_outcome_def split: option.splits)
qed

lemma driven_quiet: "driven_run drv c p \<Longrightarrow> quiet_run c p"
proof (induction rule: driven_run.induct)
  case start
  show ?case by (rule quiet_run.start)
next
  case (own p ev q)
  from own(2) have "quiet_event ev p" by (cases ev) (simp_all add: quiet_event_def)
  from quiet_run.step [OF own(4) this own(3)] show ?case .
next
  case (answer p a t sp out x d q)
  have "quiet_event (EvStep a out) p"
  proof (cases out)
    case (ORaised e)
    with answer(4) probe_answer [of e x c sp] have "tk_pc t \<noteq> Checking en" for en by auto
    with answer(2) show ?thesis by (simp add: quiet_event_def split: outcome.split pc.split)
  qed (simp_all add: quiet_event_def)
  from quiet_run.step [OF answer(6) this answer(5)] show ?case .
qed

lemma created_image:
  assumes "OCreated h \<in> set (driver_answers (drv x) c sp p d)"
  shows "eh_image h = pc_image (sp_config sp)"
proof -
  obtain r d' where "create_env (drv x) c sp d = (r, d')" by force
  with assms create_image [of x "pc_image (sp_config sp)" "pool_mounts c (sp_config sp)" None d h d'] show ?thesis
    by (cases p) (auto simp: create_env_def created_outcome_def done_outcome_def health_outcome_def map_option_case split: sum.splits option.splits)
qed

end

text \<open>The Docker driver keeps to this over every client.\<close>

lemma docker_health_quiet: "health_check api eid d \<noteq> (Inl e, d')"
  by (auto simp: health_check_def catchM_apply op_simps split: prod.splits sum.splits)

lemma docker_create_image: "create_environment api pre hex img mounts res d = (Inr h, d') \<Longrightarrow> eh_image h = img"
  by (auto simp: create_environment_def Let_def retM_apply elim!: bindM_InrE)

interpretation docker_pool: pool_driver "docker_runtime dk" for dk
proof
  show "rd_health (docker_runtime dk x) eid d \<noteq> (Inl e, d')" for x eid d e d'
  proof (cases "health_check (dk_api dk) eid d")
    case (Pair r d1)
    with docker_health_quiet [of "dk_api dk" eid d _ d1] show ?thesis
      by (cases r) (auto simp: docker_runtime_def as_exn_apply)
  qed
  show "eh_image h = img" if "rd_create (docker_runtime dk x) img mounts res d = (Inr h, d')" for x img mounts res d h d'
  proof (cases "create_environment (dk_api dk) (dk_label_prefix dk) (dx_hex x) img mounts res d")
    case (Pair r d1)
    with that docker_create_image show ?thesis
      by (cases r) (auto simp: docker_runtime_def as_exn_apply)
  qed
qed

section \<open>The image of an environment\<close>

fun handles :: "pc \<Rightarrow> env_handle list" where
  "handles (Checking e) = [ie_env e]"
| "handles (Confirming e) = [ie_env e]"
| "handles (Discarding e) = [ie_env e]"
| "handles (Destroying h) = [h]"
| "handles (Leased h) = [h]"
| "handles (Closing h) = [h]"
| "handles (Releasing h) = [h]"
| "handles (Returning h b) = [h]"
| "handles (Disposing h) = [h]"
| "handles (ReapKept h todo surv dead) = h # map ie_env (todo @ surv @ dead)"
| "handles (ReapDead h dead) = h # map ie_env dead"
| "handles _ = []"

fun made :: "outcome \<Rightarrow> env_handle set" where
  "made (OCreated h) = {h}"
| "made out = {}"

definition idle_handles :: "sub_pool \<Rightarrow> env_handle set" where
  "idle_handles sp = ie_env ` set (sp_idle sp)"

lemma idle_handles_simps [simp]:
  "idle_handles (sp\<lparr>sp_idle := es\<rparr>) = ie_env ` set es"
  "idle_handles (put_idle e sp) = insert (ie_env e) (idle_handles sp)"
  by (auto simp: idle_handles_def put_idle_def)

lemma idle_handles_tl: "ie_env ` set (tl (sp_idle sp)) \<subseteq> idle_handles sp"
  by (cases "sp_idle sp") (auto simp: idle_handles_def)

text \<open>A step finds its environments where they were, or the driver has just made one.\<close>

lemma acquire_top_handles:
  "acquire_top a now started sp = (sp', c', ids) \<Longrightarrow> set (handles c') \<union> idle_handles sp' \<subseteq> idle_handles sp"
  by (auto simp: acquire_top_def idle_handles_def local_ops split: if_splits list.splits)

lemma session_step_handles:
  assumes "session_step a down now started out c sp = Some (sp', c', ids)"
  shows "set (handles c') \<union> idle_handles sp' \<subseteq> set (handles c) \<union> idle_handles sp \<union> made out"
proof (cases "c = AtAcquire")
  case True
  with assms have "acquire_top a now started sp = (sp', c', ids)" by (auto split: if_splits)
  from acquire_top_handles [OF this] True show ?thesis by auto
next
  case False
  with assms show ?thesis
    by (cases c; cases out) (auto simp: returned_def idle_handles_def local_ops Let_def split: if_splits list.splits)
qed

lemma warm_begin_handles: "warm_begin sp = (sp', c', ids) \<Longrightarrow> set (handles c') \<union> idle_handles sp' \<subseteq> idle_handles sp"
  by (auto simp: warm_begin_def Let_def split: if_splits)

lemma reap_dead_handles:
  "reap_dead es sp = (sp', c', ids) \<Longrightarrow> set (handles c') \<union> idle_handles sp' \<subseteq> idle_handles sp \<union> ie_env ` set es"
  by (cases es) (auto dest: warm_begin_handles)

lemma reap_kept_handles:
  "reap_kept now es sv d sp = (sp', c', ids) \<Longrightarrow>
    set (handles c') \<union> idle_handles sp' \<subseteq> idle_handles sp \<union> ie_env ` set (es @ sv @ d)"
proof (induction es arbitrary: sv)
  case Nil
  then have "reap_dead d (sp\<lparr>sp_idle := sv\<rparr>) = (sp', c', ids)" by simp
  from reap_dead_handles [OF this] show ?case by auto
next
  case (Cons e es)
  show ?case
  proof (cases "now - ie_since e > of_int (pc_idle_ttl_seconds (sp_config sp))")
    case True
    with Cons.prems have "sp' = sp\<lparr>sp_idle := tl (sp_idle sp)\<rparr>" "c' = ReapKept (ie_env e) es sv d" by auto
    with idle_handles_tl [of sp] show ?thesis by auto
  next
    case False
    with Cons.prems Cons.IH [of "sv @ [e]"] show ?thesis by auto
  qed
qed

lemma visit_begin_handles:
  assumes "visit_begin a now sp = (sp', c', ids)"
  shows "set (handles c') \<union> idle_handles sp' \<subseteq> idle_handles sp"
proof (cases "a = Reaper")
  case True
  define A B where "A = take (keep_target sp) (youngest_first (sp_idle sp))" and "B = drop (keep_target sp) (youngest_first (sp_idle sp))"
  have "set A \<subseteq> set (sp_idle sp)" "set B \<subseteq> set (sp_idle sp)"
    by (auto simp: A_def B_def youngest_first_def dest: in_set_takeD in_set_dropD)
  then have sub: "ie_env ` set A \<subseteq> idle_handles sp" "ie_env ` set B \<subseteq> idle_handles sp" by (auto simp: idle_handles_def)
  from True assms have "reap_kept now A [] B (sp\<lparr>sp_idle := A\<rparr>) = (sp', c', ids)"
    by (simp add: visit_begin_def reap_begin_def Let_def A_def B_def)
  from reap_kept_handles [OF this] sub show ?thesis by (simp add: image_Un) blast
next
  case False
  with assms warm_begin_handles show ?thesis by (simp add: visit_begin_def)
qed

lemma maint_step_handles:
  assumes "maint_step now pnow out c sp = Some (sp', c', ids)"
  shows "set (handles c') \<union> idle_handles sp' \<subseteq> set (handles c) \<union> idle_handles sp \<union> made out"
proof (cases c)
  case (Warming n)
  with assms show ?thesis by (cases out) (auto simp: warm_step_def split: if_splits)
next
  case (ReapKept h es surv dead)
  with assms have "reap_kept pnow es surv dead sp = (sp', c', ids)" by (auto split: if_splits)
  from reap_kept_handles [OF this] ReapKept show ?thesis by auto
next
  case (ReapDead h es)
  with assms have "reap_dead es sp = (sp', c', ids)" by (auto split: if_splits)
  from reap_dead_handles [OF this] ReapDead show ?thesis by auto
qed (use assms in simp_all)

section \<open>Every environment is of its image\<close>

definition images_ok :: "pool \<Rightarrow> bool" where
  "images_ok p \<longleftrightarrow>
     (\<forall>img sp. get_sub img p = Some sp \<longrightarrow> sp_config sp = pool_config_for (pl_config p) img \<and>
        (\<forall>h \<in> idle_handles sp. eh_image h = pc_image (pool_config_for (pl_config p) img))) \<and>
     (\<forall>a t. pl_tasks p a = Some t \<longrightarrow> (\<forall>h \<in> set (handles (tk_pc t)). eh_image h = pc_image (pool_config_for (pl_config p) (tk_image t))))"

lemma images_local:
  assumes p: "images_ok p" and g: "get_sub (tk_image t) p = Some sp"
    and old: "\<And>u. pl_tasks p a = Some u \<Longrightarrow> u = t" and new: "pl_tasks p a = None \<Longrightarrow> handles (tk_pc t) = []"
    and cfg: "sp_config sp' = sp_config sp"
    and sub: "set (handles c') \<union> idle_handles sp' \<subseteq> set (handles (tk_pc t)) \<union> idle_handles sp \<union> made out"
    and img: "\<And>h. out = OCreated h \<Longrightarrow> eh_image h = pc_image (pool_config_for (pl_config p) (tk_image t))"
  shows "images_ok (put_local a t (sp', c', ids) (note_created out j p))"
proof -
  let ?q = "put_local a t (sp', c', ids) (note_created out j p)"
  let ?i = "pc_image (pool_config_for (pl_config p) (tk_image t))"
  have q: "pl_tasks ?q = (pl_tasks p)(a \<mapsto> t\<lparr>tk_pc := c'\<rparr>)" "pl_config ?q = pl_config p"
    by (simp_all add: put_local_def set_task_def doom_def set_sub_def)
  have s: "get_sub k ?q = (if k = tk_image t then Some sp' else get_sub k p)" for k
    by (simp add: put_local_def)
  have "eh_image h = ?i" if "h \<in> set (handles c') \<union> idle_handles sp'" for h
  proof -
    from that sub consider "h \<in> set (handles (tk_pc t))" | "h \<in> idle_handles sp" | "out = OCreated h"
      by (cases out) auto
    then show ?thesis
    proof cases
      case 1
      with p old new show ?thesis unfolding images_ok_def by (cases "pl_tasks p a") auto
    qed (use p g img in \<open>auto simp: images_ok_def\<close>)
  qed
  with p g cfg show ?thesis unfolding images_ok_def q s by auto
qed

lemma images_sub:
  assumes "images_ok p" and "get_sub j p = Some sp" and "sp_config sp' = sp_config sp" and "idle_handles sp' \<subseteq> idle_handles sp"
  shows "images_ok (set_sub j sp' p)"
  using assms unfolding images_ok_def by (auto simp: set_sub_def get_sub_def update_conv')

lemma images_frames [simp]:
  "images_ok (doom ids p) = images_ok p" "images_ok (p\<lparr>pl_shutdown := x\<rparr>) = images_ok p"
  "images_ok (p\<lparr>pl_now := t\<rparr>) = images_ok p" "images_ok (p\<lparr>pl_reaper := y\<rparr>) = images_ok p"
  "images_ok (p\<lparr>pl_closed := y\<rparr>) = images_ok p"
  by (simp_all add: images_ok_def doom_def get_sub_def)

lemma images_forget: "images_ok p \<Longrightarrow> images_ok (set_task a None p)"
  by (auto simp: images_ok_def set_task_def get_sub_def)

lemma images_ensure: "images_ok p \<Longrightarrow> images_ok (ensure_subpool img p)"
  by (auto simp: images_ok_def get_sub_ensure new_sub_pool_def idle_handles_def split: if_splits)

lemma images_fold_ensure: "images_ok p \<Longrightarrow> images_ok (fold ensure_subpool imgs p)"
  by (induction imgs arbitrary: p) (simp_all add: images_ensure)

lemma images_visit: "images_ok p \<Longrightarrow> images_ok (visit a now imgs p)"
proof (induction imgs arbitrary: p)
  case Nil
  then show ?case by (simp add: images_forget)
next
  case (Cons img rest)
  show ?case
  proof (cases "get_sub img p")
    case None
    with Cons show ?thesis by simp
  next
    case (Some sp)
    define t where "t = \<lparr>tk_image = img, tk_started = now, tk_pc = Ended None, tk_rest = rest\<rparr>"
    obtain sp' c' ids where r: "visit_begin a now sp = (sp', c', ids)" by (cases "visit_begin a now sp") auto
    have cfg: "sp_config sp' = sp_config sp"
      using r by (auto simp: visit_begin_def dest: reap_begin_config warm_begin_config split: if_splits)
    have g: "get_sub (tk_image t) (set_task a None p) = Some sp" using Some by (simp add: t_def)
    have "images_ok (put_local a t (sp', c', ids) (note_created OGo [] (set_task a None p)))"
      using visit_begin_handles [OF r] by (intro images_local [OF images_forget [OF Cons.prems] g _ _ cfg])
        (auto simp: set_task_def t_def)
    then have "images_ok (put_local a t (sp', c', ids) p)" by (simp add: put_local_forget)
    from Cons.IH [OF this] this Some r show ?thesis by (simp add: Let_def t_def)
  qed
qed

lemma images_shutdown: "images_ok p \<Longrightarrow> images_ok (shutdown_next imgs p)"
proof (induction imgs p rule: shutdown_next.induct)
  case (2 img rest p)
  then show ?case
    by (auto split: option.splits list.splits intro!: images_sub) (auto simp: idle_handles_def)
qed simp

lemma images_step:
  assumes p: "images_ok p" and st: "pool_step ev p = Some q"
    and img: "\<And>a h t. ev = EvStep a (OCreated h) \<Longrightarrow> pl_tasks p a = Some t \<Longrightarrow>
      eh_image h = pc_image (pool_config_for (pl_config p) (tk_image t))"
  shows "images_ok q"
proof (cases ev)
  case (EvTick dt)
  with st p show ?thesis by (auto split: if_splits)
next
  case (EvStart imgs)
  with st p show ?thesis by (auto simp: Let_def intro!: images_visit images_fold_ensure split: if_splits)
next
  case (EvSession n img)
  with st have q: "q = set_task (Sess n) (Some \<lparr>tk_image = img, tk_started = pl_now p, tk_pc = AtAcquire, tk_rest = []\<rparr>) (ensure_subpool img p)"
    by (auto split: if_splits)
  from images_ensure [OF p, of img] show ?thesis
    unfolding q images_ok_def by (simp add: set_task_def) (simp add: get_sub_def)
next
  case (EvStep a out)
  with st obtain t sp where t: "pl_tasks p a = Some t" and g: "get_sub (tk_image t) p = Some sp"
    by (auto split: option.splits if_splits)
  have new: "images_ok (put_local a t (sp', c', ids) (note_created out (tk_image t) p))"
    if "sp_config sp' = sp_config sp"
      "set (handles c') \<union> idle_handles sp' \<subseteq> set (handles (tk_pc t)) \<union> idle_handles sp \<union> made out" for sp' c' ids
    using t img EvStep by (intro images_local [OF p g _ _ that]) auto
  show ?thesis
  proof (cases "\<exists>n. a = Sess n")
    case True
    with st EvStep t g obtain r where
      r: "session_step a (pl_closed p) (pl_now p) (tk_started t) out (tk_pc t) sp = Some r"
      and q: "q = put_local a t r (note_created out (tk_image t) p)"
      by (auto split: option.splits if_splits)
    obtain sp' c' ids where rr: "r = (sp', c', ids)" by (cases r) auto
    from new [OF session_step_config [OF r [unfolded rr]] session_step_handles [OF r [unfolded rr]]] show ?thesis
      by (simp add: q rr)
  next
    case False
    with st EvStep t g obtain r where
      r: "maint_step (pl_now p) (tk_started t) out (tk_pc t) sp = Some r"
      and q: "q = (let p1 = put_local a t r (note_created out (tk_image t) p) in
        if ended (fst (snd r)) then visit a (tk_started t) (tk_rest t) p1 else p1)"
      by (cases a) (auto simp: Let_def split: option.splits if_splits)
    obtain sp' c' ids where rr: "r = (sp', c', ids)" by (cases r) auto
    from new [OF maint_step_config [OF r [unfolded rr]] maint_step_handles [OF r [unfolded rr]]] show ?thesis
      by (auto simp: q rr Let_def intro!: images_visit)
  qed
next
  case EvReapWake
  with st p show ?thesis by (auto intro!: images_visit split: if_splits)
next
  case EvShutdown
  with st p show ?thesis by (auto intro!: images_shutdown images_forget [of "p\<lparr>pl_closed := b, pl_reaper := c, pl_shutdown := s\<rparr>" for b c s] split: if_splits)
next
  case EvShutdownStep
  with st p show ?thesis
    by (auto split: shutdown_pc.splits list.splits option.splits intro!: images_shutdown images_sub) (auto simp: idle_handles_def)
qed

context pool_driver
begin

lemma driven_images: "driven_run drv c p \<Longrightarrow> images_ok p \<and> pl_config p = c"
proof (induction rule: driven_run.induct)
  case start
  show ?case by (simp add: images_ok_def new_pool_def get_sub_def)
next
  case (own p ev q)
  from own(2) have "images_ok q" by (intro images_step [OF _ own(3)]) (use own(4) in auto)
  with own(4) pool_step_config [OF own(3)] show ?case by simp
next
  case (answer p a t sp out x d q)
  have "sp_config sp = pool_config_for c (tk_image t)" using answer(3,6) by (auto simp: images_ok_def)
  with created_image [of _ x c sp "tk_pc t" d] answer(2,4,6) have "images_ok q"
    by (intro images_step [OF _ answer(5)]) auto
  with answer(6) pool_step_config [OF answer(5)] show ?case by simp
qed

end

end
