(* ===== verification/Runtime_Props.thy ===== *)
theory Runtime_Props
  imports Service_Props Forge_Run Pool_Cancel Driver_Pool
begin

text \<open>
  The properties of a session as a whole: the environment the pool hands out, the exec the driver
  asks Docker for, the script that runs in the container, and the directory of the host the command
  finds itself in; and what is left behind when a session is cancelled or the pool shut down.
\<close>

section \<open>A container\<close>

text \<open>A container of an empty image, with a directory of the host mounted at \<open>/workspaces\<close>.\<close>

definition container_fs :: "path \<Rightarrow> fs \<Rightarrow> fs" where
  "container_fs r host = ([''workspaces''], Dir) #
     map (\<lambda>(p, n). (''workspaces'' # drop (length r) p, n)) (filter (\<lambda>e. strict_prefix r (fst e)) host)"

lemma map_of_moved:
  "q \<noteq> [] \<Longrightarrow> map_of (map (\<lambda>(p, n). (x # drop (length r) p, n)) (filter (\<lambda>e. strict_prefix r (fst e)) host)) (x # q) =
    map_of host (r @ q)"
proof (induction host)
  case (Cons e host)
  obtain p n where e: "e = (p, n)" by force
  have "strict_prefix r (r @ q)" using Cons.prems by (simp add: strict_prefix_def)
  moreover have "drop (length r) p = q \<longleftrightarrow> p = r @ q" if "strict_prefix r p"
    using that by (auto simp: strict_prefix_def prefix_def)
  ultimately show ?case using Cons by (auto simp: e)
qed simp

lemma container_fs_look:
  assumes "look host r = Some Dir"
  shows "look (container_fs r host) (''workspaces'' # q) = look host (r @ q)"
  using assms map_of_moved [of q "''workspaces''" r host] by (cases "q = []") (auto simp: look_def container_fs_def)

lemma container_fs_no_workspace: "look (container_fs r host) workspace_link = None"
proof -
  have "map_of (map (\<lambda>(p, n). (''workspaces'' # g p, n)) xs) [''workspace''] = None" for g and xs :: fs
    by (induction xs) auto
  then show ?thesis by (simp add: look_def workspace_link_def container_fs_def)
qed

text \<open>What \<open>ln -sfn\<close> does, as its manual says: inside a directory the link gets the name of its target.\<close>

definition gnu_ln :: "string \<Rightarrow> fs \<Rightarrow> fs" where
  "gnu_ln d f =
     (if look f workspace_link = Some Dir
      then (let q = workspace_link @ [last (pure_parts d)] in
        if pure_parts d = [] \<or> look f q = Some Dir then f else set_node q (Link d) f)
      else set_node workspace_link (Link d) f)"

lemma gnu_ln_tool: "link_tool gnu_ln"
  by (auto simp: link_tool_def gnu_ln_def workspace_link_def Let_def)

section \<open>Properties\<close>

text \<open>C3: A command runs in the directory of its workspace. A session asks Docker for one exec, of
  \<open>forge-run\<close> with the command, and Docker's answer to it decides all that follows. In a container
  with the mount of the pool and without a directory of its own at \<open>/workspace\<close>, and unless the
  request sets the variable itself, \<open>forge-run\<close> becomes the command, in a working directory below
  which lies exactly what lies below the directory of the session's workspace on the host; and the
  container is then ready for the next workspace.\<close>

theorem command_runs_in_its_workspace:
  assumes "in_sync (workspaces_root c) st" and "se_workspace_id s \<in> row_ids (st_meta st)" "valid_workspace_id (se_workspace_id s)"
    and "\<not> se_closed s" and "pc_workspaces_mount (se_config s) = ''/workspaces''"
    and "\<forall>m \<in> set (pool_mounts c (se_config s)). shows_mount (st_fs st) f m"
    and "look f workspace_link \<noteq> Some Dir" and "link_tool ln_sfn"
    and "plain_env env" and "map_of env WORKSPACE_DIR = None" and "command \<noteq> []"
  shows "(\<exists>k. \<forall>d. rs_exec (pooled_session (docker_runtime dk x) s) command (Some env) timeout m d =
      k (api_exec (dk_api dk) (eh_id (se_env s)) (''forge-run'' # command) (exec_lines s (Some env)) d)) \<and>
    (\<exists>cwd f'. forge_run ln_sfn (exec_lines s (Some env)) command f = (RunExec cwd command, f') \<and>
      (\<forall>q. look f' (cwd @ q) = look (st_fs st) ((workspaces_root c @ [se_workspace_id s]) @ q)) \<and>
      look f' workspace_link \<noteq> Some Dir)"
proof -
  let ?r = "workspaces_root c" and ?w = "se_workspace_id s"
  have host: "proper_fs (st_fs st)" "look (st_fs st) ?r = Some Dir" "look (st_fs st) (?r @ [?w]) = Some Dir"
    using assms(1-3) by (auto simp: in_sync_def)
  then have names: "list_all proper_name ?r" by (auto simp: proper_fs_iff)
  have mnt: "shows_mount (st_fs st) f \<lparr>mt_source = host_str ?r, mt_target = ''/workspaces'', mt_read_only = False\<rparr>"
    using assms(5,6) by (simp add: pool_mounts_def)
  have told: "told_dir ?w env = ''/workspaces/'' @ ?w" using assms(10) by (simp add: told_dir_def)
  obtain f' where "forge_run ln_sfn (env_text (build_exec_env ?w env)) command f = (RunExec [''workspaces'', ?w] command, f')"
    "\<And>q. look f' ([''workspaces'', ?w] @ q) = look (st_fs st) ((?r @ [?w]) @ q)" "look f' workspace_link = Some (Link (''/workspaces/'' @ ?w))"
    by (rule forge_run_enters [OF assms(8,7,9) told mnt names host(2) assms(3) host(3) assms(11)]) blast
  then have "\<exists>cwd f'. forge_run ln_sfn (exec_lines s (Some env)) command f = (RunExec cwd command, f') \<and>
      (\<forall>q. look f' (cwd @ q) = look (st_fs st) ((?r @ [?w]) @ q)) \<and> look f' workspace_link \<noteq> Some Dir"
    by (intro exI [of _ "[''workspaces'', ?w]"] exI [of _ f']) (simp add: exec_lines_def)
  with session_asks_docker [OF assms(4)] show ?thesis by blast
qed

definition rt_stores :: stores where
  "rt_stores = snd (service_create demo_base ''abc'' demo_time (default_spec ''img'') None None demo_stores)"

lemma rt_stores_facts: "in_sync demo_base rt_stores" "''ws_abc'' \<in> row_ids (st_meta rt_stores)"
proof -
  from demo_creation obtain ws where c: "service_create demo_base ''abc'' demo_time (default_spec ''img'') None None demo_stores = (Inr ws, rt_stores)"
    by (auto simp: rt_stores_def)
  from service_create_sync [OF demo_in_sync, of "''abc''" demo_time "default_spec ''img''" None None] c
  show "in_sync demo_base rt_stores" "''ws_abc'' \<in> row_ids (st_meta rt_stores)" by (auto simp: workspace_id_def)
qed

definition rt_config :: forge_config where
  "rt_config = make_config (Some [''data'']) None [] None (\<lambda>i. None)"

lemma rt_config_root: "workspaces_root rt_config = demo_base"
  by (simp add: rt_config_def make_config_def workspaces_root_def demo_base_def Let_def)

definition rt_session :: session where
  "rt_session = open_session ''ws_abc'' ''img'' (test_env ''c1'') (new_sub_pool (pool_config_for rt_config ''img''))"

lemma rt_session_facts: "\<not> se_closed rt_session" "se_workspace_id rt_session = ''ws_abc''"
  "pc_workspaces_mount (se_config rt_session) = ''/workspaces''"
  by (simp_all add: rt_session_def open_session_def new_sub_pool_def pool_config_for_def rt_config_def make_config_def
      default_pool_config_def Let_def)

theorem command_runs_in_its_workspace_witness:
  "\<exists>cwd f'. forge_run gnu_ln (exec_lines rt_session (Some [(''LANG'', ''C'')])) [''ls''] (container_fs demo_base (st_fs rt_stores)) =
      (RunExec cwd [''ls''], f') \<and> look f' cwd = Some Dir"
proof -
  note sync = rt_stores_facts(1)
  then have d: "look (st_fs rt_stores) demo_base = Some Dir" "look (st_fs rt_stores) (demo_base @ [''ws_abc'']) = Some Dir"
    using rt_stores_facts(2) by (auto simp: in_sync_def valid_workspace_id_def slash_def dot_def dotdot_def)
  let ?f = "container_fs demo_base (st_fs rt_stores)"
  have "pure_parts ''/workspaces'' = [''workspaces'']" "pure_parts (host_str demo_base) = demo_base"
    by (simp_all add: pure_parts_def host_str_def demo_base_def slash_def dot_def)
  then have "\<forall>m \<in> set (pool_mounts rt_config (se_config rt_session)). shows_mount (st_fs rt_stores) ?f m"
    by (simp add: pool_mounts_def shows_mount_def rt_config_root rt_session_facts container_fs_look [OF d(1)])
  moreover have "valid_workspace_id ''ws_abc''" "plain_env [(''LANG'', ''C'')]" "map_of [(''LANG'', ''C'')] WORKSPACE_DIR = None"
    by (simp_all add: valid_workspace_id_def slash_def dot_def dotdot_def plain_env_def WORKSPACE_DIR_def)
  ultimately obtain cwd f' where "forge_run gnu_ln (exec_lines rt_session (Some [(''LANG'', ''C'')])) [''ls''] ?f = (RunExec cwd [''ls''], f')"
    and at: "\<And>q. look f' (cwd @ q) = look (st_fs rt_stores) ((demo_base @ [''ws_abc'']) @ q)"
    using conjunct2 [OF command_runs_in_its_workspace [of rt_config rt_stores rt_session ?f gnu_ln "[(''LANG'', ''C'')]" "[''ls'']"]]
      sync rt_stores_facts(2) rt_session_facts container_fs_no_workspace gnu_ln_tool
    by (auto simp: rt_config_root)
  with at [of "[]"] d(2) show ?thesis by auto
qed

text \<open>C11: A directory that the image has at \<open>/workspace\<close> hides every workspace: the script cannot put its
  link there, does not notice, and whatever the workspace of the session, every command is run in
  that directory of the container, which all workspaces share that the container serves.\<close>

theorem image_directory_hides_workspaces:
  assumes "link_tool ln_sfn" and "look f workspace_link = Some Dir" and "plain_env env" and "map_of env WORKSPACE_DIR = None" and "command \<noteq> []"
  shows "\<forall>s. fst (forge_run ln_sfn (exec_lines s (Some env)) command f) = RunExec workspace_link command"
proof
  fix s :: session
  have "told_dir (se_workspace_id s) env \<noteq> []" using assms(4) by (simp add: told_dir_def)
  from forge_run_in_image_directory [OF assms(1-3) this assms(5)]
  show "fst (forge_run ln_sfn (exec_lines s (Some env)) command f) = RunExec workspace_link command" by (simp add: exec_lines_def)
qed

theorem image_directory_hides_workspaces_witness:
  "fst (forge_run gnu_ln (exec_lines rt_session (Some [])) [''ls''] [([''workspaces''], Dir), (workspace_link, Dir)]) =
    RunExec workspace_link [''ls'']"
  using image_directory_hides_workspaces [OF gnu_ln_tool, of "[([''workspaces''], Dir), (workspace_link, Dir)]" "[]" "[''ls'']"]
  by (simp add: look_def workspace_link_def plain_env_def)

text \<open>A request that sets the variable itself runs in the directory of another workspace.\<close>

lemma request_chooses_directory:
  assumes "in_sync (workspaces_root c) st" and "wid \<in> row_ids (st_meta st)" "valid_workspace_id wid"
    and "pc_workspaces_mount (se_config s) = ''/workspaces''"
    and "\<forall>m \<in> set (pool_mounts c (se_config s)). shows_mount (st_fs st) f m"
    and "look f workspace_link \<noteq> Some Dir" and "link_tool ln_sfn" and "command \<noteq> []"
  shows "\<exists>cwd f'. forge_run ln_sfn (exec_lines s (Some [(WORKSPACE_DIR, ''/workspaces/'' @ wid)])) command f = (RunExec cwd command, f') \<and>
    (\<forall>q. look f' (cwd @ q) = look (st_fs st) ((workspaces_root c @ [wid]) @ q))"
proof -
  let ?r = "workspaces_root c" and ?env = "[(WORKSPACE_DIR, ''/workspaces/'' @ wid)]"
  have host: "proper_fs (st_fs st)" "look (st_fs st) ?r = Some Dir" "look (st_fs st) (?r @ [wid]) = Some Dir"
    using assms(1-3) by (auto simp: in_sync_def)
  then have names: "list_all proper_name ?r" by (auto simp: proper_fs_iff)
  have mnt: "shows_mount (st_fs st) f \<lparr>mt_source = host_str ?r, mt_target = ''/workspaces'', mt_read_only = False\<rparr>"
    using assms(4,5) by (simp add: pool_mounts_def)
  have env: "plain_env ?env" "told_dir (se_workspace_id s) ?env = ''/workspaces/'' @ wid"
    by (simp_all add: plain_env_def told_dir_def WORKSPACE_DIR_def)
  obtain f' where "forge_run ln_sfn (env_text (build_exec_env (se_workspace_id s) ?env)) command f = (RunExec [''workspaces'', wid] command, f')"
    "\<And>q. look f' ([''workspaces'', wid] @ q) = look (st_fs st) ((?r @ [wid]) @ q)"
    by (rule forge_run_enters [OF assms(7,6) env mnt names host(2) assms(3) host(3) assms(8)]) blast
  then show ?thesis by (intro exI [of _ "[''workspaces'', wid]"] exI [of _ f']) (simp add: exec_lines_def)
qed


definition rt_driver :: "string list docker_driver" where
  "rt_driver = new_docker_driver (demo_api False demo_stream) None None"

definition rt_ctx :: driver_ctx where
  "rt_ctx = \<lparr>dx_hex = ''ab'', dx_duration_ms = 7, dx_clock = (\<lambda>i. (0, demo_time))\<rparr>"

definition rt_handle :: env_handle where
  "rt_handle = \<lparr>eh_id = ''c'', eh_image = ''img'', eh_driver = ''docker'', eh_labels = [(''name'', ''forge-ab'')]\<rparr>"

lemma rt_creates: "pc_image (sp_config sp) = ''img'' \<Longrightarrow> fst (create_env (docker_runtime rt_driver rt_ctx) c sp []) = Inr rt_handle"
  by (simp add: create_env_def docker_runtime_def as_exn_apply rt_driver_def rt_ctx_def new_docker_driver_def create_environment_def
      pool_host_config ensure_image_def docker_raises_def install_forge_run_def demo_api_def op_simps rt_handle_def)


text \<open>C10: A session that is cancelled while its container is being created takes a slot away for good:
  whatever happens afterwards, cancellations included, until shutdown the placeholder stays among
  the slots in use, and no coroutine accounts for it.\<close>

theorem cancelled_creation_costs_a_slot:
  assumes "later (new_pool c) p" and "pl_tasks p (Sess n) = Some t" and "tk_pc t = Creating s"
    and "cancel_session n p = Some q" and "later q r" and "\<not> pl_closed r"
  shows "\<exists>sp. get_sub (tk_image t) r = Some sp \<and> s \<in> set (sp_in_use sp) \<and>
    (\<forall>b u. pl_tasks r b = Some u \<longrightarrow> held (tk_pc u) \<noteq> Some s)"
proof -
  from cancelled_creation_lost [OF assms] have l: "lost n (tk_image t) r" "makers_ok r" and s: "s = PendingSlot (Sess n)" by simp_all
  with lost_unheld [OF l] show ?thesis by (auto simp: lost_def pending_def)
qed

text \<open>With room for one environment, one cancellation is enough: the next session waits in vain.\<close>

theorem cancelled_creation_costs_a_slot_witness:
  "\<exists>r sp t. later (new_pool overfull_config) r \<and> get_sub ''img'' r = Some sp \<and> sp_in_use sp = [PendingSlot (Sess 0)] \<and>
     (\<forall>b u. pl_tasks r b = Some u \<longrightarrow> held (tk_pc u) \<noteq> Some (PendingSlot (Sess 0))) \<and>
     pl_tasks r (Sess 1) = Some t \<and> tk_pc t = Ended (Some PoolExhaustedError)"
proof -
  let ?p0 = "new_pool overfull_config"
  obtain p where p: "run_events [EvSession 0 ''img'', EvStep (Sess 0) OGo] ?p0 = Some p"
    and t: "pl_tasks p (Sess 0) = Some \<lparr>tk_image = ''img'', tk_started = 0, tk_pc = Creating (PendingSlot (Sess 0)), tk_rest = []\<rparr>"
    by (simp add: pool_eval overfull_config_def)
  obtain q where q: "cancel_session 0 p = Some q"
    using p by (auto simp: cancel_session_def pool_eval overfull_config_def)
  have "\<exists>r sp t. run_events [EvSession 1 ''img'', EvStep (Sess 1) OGo, EvTick 30, EvStep (Sess 1) OTimeout] q = Some r \<and> \<not> pl_closed r \<and>
      get_sub ''img'' r = Some sp \<and> sp_in_use sp = [PendingSlot (Sess 0)] \<and>
      pl_tasks r (Sess 1) = Some t \<and> tk_pc t = Ended (Some PoolExhaustedError)"
    using p q by (auto simp: cancel_session_def pool_eval overfull_config_def cancelled_end_def)
  then obtain r sp t1 where r: "run_events [EvSession 1 ''img'', EvStep (Sess 1) OGo, EvTick 30, EvStep (Sess 1) OTimeout] q = Some r"
      "\<not> pl_closed r" "get_sub ''img'' r = Some sp" "sp_in_use sp = [PendingSlot (Sess 0)]"
      "pl_tasks r (Sess 1) = Some t1" "tk_pc t1 = Ended (Some PoolExhaustedError)" by blast
  have lp: "later ?p0 p" by (rule later_events [OF p later.now])
  have lr: "later q r" by (rule later_events [OF r(1) later.now])
  from cancelled_creation_costs_a_slot [OF lp t _ q lr r(2)] have
    "\<forall>b u. pl_tasks r b = Some u \<longrightarrow> held (tk_pc u) \<noteq> Some (PendingSlot (Sess 0))" by auto
  moreover have "later ?p0 r" by (rule later_trans [OF lr later.cancel [OF lp q]])
  ultimately show ?thesis using r by blast
qed

text \<open>C9: A shutdown can miss environments: it cancels the reaper, and those the reaper has taken off the
  idle queue and not yet destroyed are then known to nobody. In the default configuration, three
  sessions that have ended within five seconds of each other are enough.\<close>

definition miss_events :: "event list" where
  "miss_events =
     concat (map (\<lambda>(n, i). [EvSession n ''img'', EvStep (Sess n) OGo, EvStep (Sess n) (OCreated (test_env i))])
       [(0, ''a''), (1, ''b''), (2, ''c'')]) @
     concat (map (\<lambda>n. [EvStep (Sess n) OGo, EvStep (Sess n) (OHealth True), EvStep (Sess n) OGo]) [0, 1, 2]) @
     [EvStart [], EvReapWake, EvShutdown, EvShutdownStep, EvShutdownStep]"

theorem shutdown_can_miss_environment:
  "\<exists>p. pool_run (race_config 1) p \<and> pl_shutdown p = ShDown \<and> pl_owner p ''c'' = Some ''img'' \<and> ''c'' \<notin> pl_doomed p \<and>
     (\<exists>sp. pl_subs p = [(''img'', sp)] \<and> sp_total sp = 0) \<and> all_ended p"
proof -
  have "\<exists>p. run_events miss_events (new_pool (race_config 1)) = Some p \<and> pl_shutdown p = ShDown \<and>
     pl_owner p ''c'' = Some ''img'' \<and> ''c'' \<notin> pl_doomed p \<and> (\<exists>sp. pl_subs p = [(''img'', sp)] \<and> sp_total sp = 0) \<and> all_ended p"
    by (simp add: all_ended_def miss_events_def pool_eval idle_ids_def)
  then show ?thesis using pool_run_events [OF pool_run.start] by blast
qed

end
