(* ===== verification/Artifacts.thy ===== *)
theory Artifacts
  imports Snapshots Files
begin

text \<open>
  Artifacts: files exported from a workspace (\<open>forge/storage/artifact_store.py\<close>) and the service
  over them (\<open>forge/services/artifact_service.py\<close>). The guess of a content type by the file name
  is a parameter.
\<close>

section \<open>The store\<close>

definition CHUNK :: nat where "CHUNK = 64 * 1024"

definition artifact_id :: "string \<Rightarrow> string" where
  "artifact_id hex = ''art_'' @ take 16 hex"

text \<open>\<open>shutil.copyfile\<close> of a file to a new name.\<close>

definition copy_file :: "path \<Rightarrow> path \<Rightarrow> unit fs_op" where
  "copy_file source target = (\<lambda>f. case stat_node f source of
     Some (File b) \<Rightarrow> write_bytes target b f
   | _ \<Rightarrow> (Inl OSError, f))"

text \<open>\<open>rmtree(ignore_errors=True)\<close>\<close>

definition remove_tree :: "path \<Rightarrow> unit fs_op" where
  "remove_tree p = catchM (rmtree p) (\<lambda>e. is_instance e OSError) (\<lambda>_. retM ())"

definition store_export ::
  "(string \<Rightarrow> string option) \<Rightarrow> path \<Rightarrow> string \<Rightarrow> datetime \<Rightarrow> string \<Rightarrow> path \<Rightarrow> string \<Rightarrow> string option \<Rightarrow> artifact fs_op" where
  "store_export guess aroot hex now wid source rel content_type = (\<lambda>f.
     if \<not> path_is_file source f then (Inl ArtifactError, f)
     else let aid = artifact_id hex; dir = aroot @ [aid]; target = dir @ [last source];
              ct = (case content_type of Some c \<Rightarrow> if c = [] then guess (last source) else Some c
                    | None \<Rightarrow> guess (last source)) in
       bindM (mkdir_new dir) (\<lambda>_.
       bindM (catchM (copy_file source target) (\<lambda>e. is_instance e OSError)
         (\<lambda>_. bindM (remove_tree dir) (\<lambda>_. raiseM ArtifactError))) (\<lambda>_ g.
       case stat_node g target of
         Some (File b) \<Rightarrow> (Inr \<lparr>art_id = aid, art_workspace_id = wid, art_path = rel, art_size_bytes = int (length b),
            art_content_type = ct, art_created_at = now\<rparr>, g)
       | _ \<Rightarrow> (Inl OSError, g))) f)"

definition store_remove :: "path \<Rightarrow> string \<Rightarrow> unit fs_op" where
  "store_remove aroot aid = (\<lambda>f. if path_is_dir (aroot @ [aid]) f then remove_tree (aroot @ [aid]) f else (Inr (), f))"

text \<open>The slices a file is read in, and the reader: it raises when it is first advanced.\<close>

function chunks :: "nat \<Rightarrow> 'a list \<Rightarrow> 'a list list" where
  "chunks n xs = (if n = 0 \<or> xs = [] then [] else take n xs # chunks n (drop n xs))"
  by pat_completeness auto
termination
  by (relation "measure (\<lambda>(n, xs). length xs)") auto

declare chunks.simps [simp del]

definition store_read :: "path \<Rightarrow> string \<Rightarrow> string \<Rightarrow> bytes list fs_op" where
  "store_read aroot aid filename = (\<lambda>f. case stat_node f (aroot @ [aid, filename]) of
     Some (File b) \<Rightarrow> (Inr (chunks CHUNK b), f)
   | _ \<Rightarrow> (Inl ArtifactError, f))"

section \<open>The service\<close>

text \<open>The text after the last slash.\<close>

definition base_name :: "string \<Rightarrow> string" where
  "base_name s = last (split_on slash s)"

definition join_path :: "path \<Rightarrow> string \<Rightarrow> path" where
  "join_path d s = (if is_absolute s then pure_parts s else d @ pure_parts s)"

definition export_source :: "path \<Rightarrow> string \<Rightarrow> string \<Rightarrow> (path \<times> string) fs_op" where
  "export_source base wid path =
     bindM (ws_path base wid) (\<lambda>d f.
       let rdir = resolve_path f d; candidate = resolve_path f (join_path rdir path) in
       if \<not> prefix rdir candidate then (Inl PathEscapeError, f)
       else if reserved rdir candidate then (Inl PathEscapeError, f)
       else if \<not> path_is_file candidate f then (Inl ArtifactError, f)
       else (Inr (candidate, rel_posix rdir candidate), f))"

definition artifact_export ::
  "(string \<Rightarrow> string option) \<Rightarrow> layout \<Rightarrow> string \<Rightarrow> datetime \<Rightarrow> string \<Rightarrow> string \<Rightarrow> string option \<Rightarrow> artifact svc_op" where
  "artifact_export guess lay hex now wid path content_type =
     bindM (service_get wid) (\<lambda>_.
     bindM (on_fs (export_source (lay_workspaces lay) wid path)) (\<lambda>(candidate, rel).
     bindM (on_fs (store_export guess (lay_artifacts lay) hex now wid candidate rel content_type)) (\<lambda>art.
     bindM (catchM (on_meta (create_artifact art)) (\<lambda>e. is_instance e PyException)
       (\<lambda>e. bindM (on_fs (store_remove (lay_artifacts lay) (art_id art))) (\<lambda>_. raiseM e))) (\<lambda>_.
     retM art))))"

definition artifact_get :: "string \<Rightarrow> artifact svc_op" where
  "artifact_get aid = on_meta (get_artifact aid)"

definition artifact_list :: "string \<Rightarrow> artifact list svc_op" where
  "artifact_list wid = on_meta (list_artifacts wid)"

text \<open>What reading to the end gives: the slices, or an exception at the call or at the first slice.\<close>

definition artifact_read :: "layout \<Rightarrow> string \<Rightarrow> bytes list svc_op" where
  "artifact_read lay aid =
     bindM (on_meta (get_artifact aid)) (\<lambda>row. on_fs (store_read (lay_artifacts lay) aid (base_name (art_path row))))"

end
