(* ===== verification/Snapshot_Roundtrip.thy ===== *)
theory Snapshot_Roundtrip
  imports Snapshot_Laws
begin

text \<open>
  Taking a snapshot and restoring it: a successful restore makes a new workspace with the kept
  tree of the old one as it was when the snapshot was taken.
\<close>

section \<open>Trees that do not overlap\<close>

definition apart :: "path \<Rightarrow> path \<Rightarrow> bool" where
  "apart a b \<longleftrightarrow> \<not> prefix a b \<and> \<not> prefix b a"

lemma apart_below: "apart a b \<Longrightarrow> apart (a @ x) (b @ y)"
  unfolding apart_def by (metis append_prefixD prefix_append prefix_order.dual_order.trans prefix_same_cases prefixI)

lemma apart_ne: "apart a b \<Longrightarrow> a @ x \<noteq> b @ y"
  using apart_below [of a b x y] by (auto simp: apart_def)

section \<open>Taking a snapshot\<close>

lemma real_resolve:
  assumes "proper_fs f" and "look f p = Some Dir"
  shows "resolve_path f p = p"
proof (rule resolve_plain)
  show "list_all proper_name p" using look_proper [of f p] assms by simp
  show "look f q \<noteq> Some (Link t)" if "prefix q p" for q t
    using that assms prefix_dir [of f p q] by (cases "q = p") (auto simp: proper_fs_def strict_prefix_def)
qed

lemma create_snapshot_rows: "row_ids (snd (create_snapshot x m)) = row_ids m"
  by (cases "ms_open m"; cases "snapshot_row x")
    (auto simp: create_snapshot_def op_simps integrity_apply row_ids_def insert_snap_def split: option.splits if_splits)

lemma in_sync_put:
  assumes "in_sync base s" and "apart base d" and "look (st_fs s) d = Some Dir" and "proper_name n"
    and "look (st_fs s) (d @ [n]) \<noteq> Some Dir" and "row_ids m = row_ids (st_meta s)"
  shows "in_sync base \<lparr>st_meta = m, st_fs = set_node (d @ [n]) (File b) (st_fs s)\<rparr>"
proof -
  have "proper_fs (set_node (d @ [n]) (File b) (st_fs s))"
  proof -
    have "wf_fs (set_node (d @ [n]) (File b) (st_fs s))"
      using assms(1,3,5) by (intro wf_set_node) (auto simp: in_sync_def proper_fs_def)
    moreover have "list_all proper_name (d @ [n])"
      using assms(1,3,4) look_proper [of "st_fs s" d] by (simp add: in_sync_def)
    ultimately show ?thesis using assms(1) by (auto simp: in_sync_def proper_fs_iff)
  qed
  moreover have "base \<noteq> d @ [n]" "base \<noteq> d"
    using apart_ne [OF assms(2), of "[]"] assms(2) by (auto simp: apart_def)
  ultimately show ?thesis using assms(1,6) by (simp add: in_sync_def)
qed

definition archive_name :: "string \<Rightarrow> string" where
  "archive_name hex = snapshot_id hex @ ''.tar.zst''"

lemma archive_name_proper: "slash \<notin> set hex \<Longrightarrow> proper_name (archive_name hex)"
  by (auto simp: archive_name_def snapshot_id_def proper_name_def dot_def dotdot_def slash_def dest: in_set_takeD)

lemma archive_path_name: "archive_path sroot (snapshot_id hex) = sroot @ [archive_name hex]"
  by (simp add: archive_path_def archive_name_def)

lemma snapshot_createE:
  assumes sync: "in_sync (lay_workspaces lay) s" and ap: "apart (lay_workspaces lay) (lay_snapshots lay)"
    and hex: "slash \<notin> set hex" and run: "snapshot_create ar lay hex now wid name s = (Inr snap, s1)"
  shows "snap_id snap = snapshot_id hex" and "in_sync (lay_workspaces lay) s1"
    and "valid_workspace_id wid" and "look (st_fs s) (lay_workspaces lay @ [wid]) = Some Dir"
    and "st_fs s1 = set_node (lay_snapshots lay @ [archive_name hex])
      (File (ar_pack ar (archive_members (st_fs s) (lay_workspaces lay @ [wid])))) (st_fs s)"
proof -
  let ?b = "lay_workspaces lay" and ?t = "lay_snapshots lay @ [archive_name hex]"
  let ?w = "File (ar_pack ar (archive_members (st_fs s) (?b @ [wid])))"
  from run obtain ws where ws: "get_workspace wid (st_meta s) = (Inr ws, st_meta s)"
    using get_workspace_known [of wid "st_meta s"]
    by (auto simp: snapshot_create_def service_get_def on_meta_def focusM_apply elim!: bindM_InrE split: prod.splits)
  then have known: "wid \<in> row_ids (st_meta s)" using get_workspace_known by blast
  have valid: "valid_workspace_id wid"
  proof (rule ccontr)
    assume "\<not> valid_workspace_id wid"
    with run ws show False
      by (simp add: snapshot_create_def service_get_def on_meta_def on_fs_def focusM_apply bindM_apply ws_path_def
          validate_workspace_id_def raiseM_apply)
  qed
  then show "valid_workspace_id wid" .
  from valid known sync show dir: "look (st_fs s) (?b @ [wid]) = Some Dir" by (auto simp: in_sync_def)
  have res: "resolve_path (st_fs s) (?b @ [wid]) = ?b @ [wid]" using sync dir by (intro real_resolve) (simp_all add: in_sync_def)
  have p: "ws_path ?b wid = retM (?b @ [wid])" using valid by (simp add: ws_path_def validate_workspace_id_def)
  from run ws p obtain s0 where st: "on_fs (store_snapshot ar (lay_snapshots lay) hex now (ws_id ws) (?b @ [wid]) name None) s = (Inr snap, s0)"
    and cr: "catchM (on_meta (create_snapshot snap)) (\<lambda>e. is_instance e PyException)
       (\<lambda>e. bindM (on_fs (store_delete (lay_snapshots lay) (snap_id snap))) (\<lambda>_. raiseM e)) s0 = (Inr (), s1)"
    by (auto simp: snapshot_create_def service_get_def on_meta_def [of "get_workspace wid"] on_fs_def [of "retM x" for x] focusM_apply
        retM_apply bindM_apply [of "focusM g q (get_workspace wid)" for g q] bindM_apply [of "focusM g q (retM x)" for g q x] elim!: bindM_InrE)
  from st obtain f1 where st': "store_snapshot ar (lay_snapshots lay) hex now (ws_id ws) (?b @ [wid]) name None (st_fs s) = (Inr snap, f1)"
    and s0: "s0 = s\<lparr>st_fs := f1\<rparr>"
    by (auto simp: on_fs_def focusM_apply split: prod.splits)
  have wa: "write_archive ar (?b @ [wid]) ?t (st_fs s) = write_bytes ?t (ar_pack ar (archive_members (st_fs s) (?b @ [wid]))) (st_fs s)"
    by (simp add: write_archive_def res dir Let_def)
  from st' have wr: "write_bytes ?t (ar_pack ar (archive_members (st_fs s) (?b @ [wid]))) (st_fs s) = (Inr (), f1)"
    and id: "snap_id snap = snapshot_id hex"
    by (auto simp: store_snapshot_def Let_def archive_path_name bindM_apply catchM_apply raiseM_apply wa
        split: prod.splits sum.splits if_splits option.splits node.splits)
  then show "snap_id snap = snapshot_id hex" by simp
  have f1: "f1 = set_node ?t ?w (st_fs s)" and d: "look (st_fs s) (lay_snapshots lay) = Some Dir" "look (st_fs s) ?t \<noteq> Some Dir"
    using wr by (auto simp: write_bytes_def split: if_splits option.splits node.splits)
  from catch_cleanup [OF cr] s0 obtain m1 where m1: "create_snapshot snap (st_meta s) = (Inr (), m1)"
      "s1 = s\<lparr>st_fs := f1, st_meta := m1\<rparr>"
    by (auto simp: on_meta_def focusM_apply split: prod.splits)
  then show "st_fs s1 = set_node ?t ?w (st_fs s)" using f1 by simp
  have "row_ids m1 = row_ids (st_meta s)" using create_snapshot_rows [of snap "st_meta s"] m1(1) by simp
  from in_sync_put [OF sync ap d(1) archive_name_proper [OF hex] d(2) this] f1 m1(2)
  show "in_sync ?b s1" by (cases s) simp
qed

section \<open>Restoring it\<close>

lemma mkdirs_dirs: "mkdirs d ns f = Inr g \<Longrightarrow> strict_prefix d q \<Longrightarrow> prefix q (d @ ns) \<Longrightarrow> look g q = Some Dir"
proof (induction d ns f rule: mkdirs.induct)
  case (2 d n ns f)
  from "2.prems"(1) obtain f' where f': "mkdirs (d @ [n]) ns f' = Inr g" "look f' (d @ [n]) = Some Dir"
    and IH: "strict_prefix (d @ [n]) q \<Longrightarrow> prefix q ((d @ [n]) @ ns) \<Longrightarrow> look g q = Some Dir"
    using "2.IH" by (auto split: option.splits node.splits)
  show ?case
  proof (cases "q = d @ [n]")
    case True
    with look_mkdirs [OF f'(1), of q] f'(2) show ?thesis by simp
  next
    case False
    with "2.prems"(2,3) have "strict_prefix (d @ [n]) q" by (auto simp: strict_prefix_def prefix_def append_eq_append_conv2 Cons_eq_append_conv)
    with IH "2.prems"(3) show ?thesis by simp
  qed
qed (auto simp: strict_prefix_def)

lemma mkdir_p_Inr:
  assumes "mkdir_p p f = (Inr (), g)"
  shows "look g q = (if prefix q p then Some Dir else look f q)"
proof -
  from assms have g: "mkdirs [] p f = Inr g" by (auto simp: mkdir_p_def split: sum.splits)
  from look_mkdirs_root [OF g, of q] mkdirs_dirs [OF g, of q] show ?thesis
    by (cases "q = []") (auto simp: strict_prefix_def)
qed

lemma empty_dir:
  assumes f: "proper_fs f" "look f d = Some Dir" "d \<noteq> []" and run: "ensure_dir_empty d f = (Inr (), g)"
  shows "proper_fs g \<and> (\<forall>q. look g q = (if strict_prefix d q then None else look f q))"
proof (cases "entries f d = []")
  case True
  have wf: "wf_fs f" using f(1) by (simp add: proper_fs_def)
  have "look f q = None" if "strict_prefix d q" for q
  proof -
    from that obtain n ns where q: "q = d @ n # ns" by (auto elim: strict_prefixE')
    have "look f (d @ [n]) = None" using True entries_iff [of n f d] by auto
    from nothing_below [OF wf this, of q] q show ?thesis by simp
  qed
  moreover have "g = f" using run True f(2) by (simp add: ensure_dir_empty_def)
  ultimately show ?thesis using f(1) by auto
next
  case False
  with run f(2) obtain h where h: "rmtree d f = (Inr (), h)" "mkdir_new d h = (Inr (), g)"
    by (auto simp: ensure_dir_empty_def elim!: bindM_InrE)
  have lh: "look h q = (if prefix d q then None else look f q)" for q
    using rmtree_look [OF f(3,2), of q] h(1) by simp
  have ph: "proper_fs h" using rmtree_frame [of f d d] f(1) h(1) lh by (auto simp: proper_fs_iff)
  from h(2) lh have mk: "mkdir_p d h = (Inr (), g)" by (auto simp: mkdir_new_def split: if_splits)
  have wg: "wf_fs g" using mkdir_p_frame [of h "[]" d] ph mk by (simp add: proper_fs_def)
  have up: "look f q = Some Dir" if "prefix q d" for q
    using that f prefix_dir [of f d q] by (cases "q = d") (auto simp: proper_fs_def strict_prefix_def)
  have lg: "look g q = (if strict_prefix d q then None else look f q)" for q
    using mkdir_p_Inr [OF mk, of q] lh [of q] up [of q] f(2) by (auto simp: strict_prefix_def)
  with f(1) wg show ?thesis by (auto simp: proper_fs_iff)
qed

lemma on_meta_same: "snd (op0 (st_meta s)) = st_meta s \<Longrightarrow> on_meta op0 s = (fst (op0 (st_meta s)), s)"
  by (cases "op0 (st_meta s)") (simp add: on_meta_def focusM_apply)

lemma get_snapshot_state [simp]: "snd (get_snapshot sid m) = m"
  by (cases "ms_open m") (simp_all add: get_snapshot_def op_simps split: option.split)

lemma on_fs_InrE:
  assumes "on_fs op0 s = (Inr x, s')"
  obtains g where "op0 (st_fs s) = (Inr x, g)" and "s' = s\<lparr>st_fs := g\<rparr>"
  using assms by (auto simp: on_fs_def focusM_apply split: prod.splits)

text \<open>The restore, taken apart.\<close>

lemma snapshot_restore_steps:
  assumes "snapshot_restore ar lay hex now later sid name md s = (Inr ws, s')"
  obtains spec s1 g1 g2 g3 where "service_create (lay_workspaces lay) hex now spec name md s = (Inr ws, s1)"
    and "ensure_dir_empty (lay_workspaces lay @ [ws_id ws]) (st_fs s1) = (Inr (), g1)"
    and "store_restore ar (lay_snapshots lay) sid (lay_workspaces lay @ [ws_id ws]) g1 = (Inr (), g2)"
    and "ensure_forge_meta (lay_workspaces lay @ [ws_id ws]) g2 = (Inr (), g3)" and "s' = s1\<lparr>st_fs := g3\<rparr>"
    and "valid_workspace_id (ws_id ws)"
proof -
  let ?b = "lay_workspaces lay"
  have gs: "on_meta (get_snapshot sid) s = (fst (get_snapshot sid (st_meta s)), s)" by (rule on_meta_same) simp
  have gw: "service_get w s = (fst (get_workspace w (st_meta s)), s)" for w
    unfolding service_get_def by (rule on_meta_same) simp
  let ?rest = "\<lambda>new_ws. bindM (on_fs (ws_path ?b (ws_id new_ws))) (\<lambda>dest.
     bindM (on_fs (ensure_dir_empty dest)) (\<lambda>_.
     bindM (catchM (on_fs (store_restore ar (lay_snapshots lay) sid dest)) (\<lambda>e. is_instance e SnapshotError)
       (\<lambda>e. bindM (service_delete ?b (ws_id new_ws) later) (\<lambda>_. raiseM e))) (\<lambda>_.
     bindM (on_fs (ensure_forge_meta dest)) (\<lambda>_. retM new_ws))))"
  from assms obtain snap s0 where "on_meta (get_snapshot sid) s = (Inr snap, s0)" and
    0: "bindM (service_get (snap_workspace_id snap)) (\<lambda>source.
      bindM (service_create ?b hex now (copy_spec (ws_spec source)) name md) ?rest) s0 = (Inr ws, s')"
    unfolding snapshot_restore_def by (rule bindM_InrE)
  with gs have s0: "s0 = s" by simp
  from 0 obtain source s0' where "service_get (snap_workspace_id snap) s0 = (Inr source, s0')" and
    1: "bindM (service_create ?b hex now (copy_spec (ws_spec source)) name md) ?rest s0' = (Inr ws, s')"
    by (rule bindM_InrE)
  with gw s0 have s0': "s0' = s" by simp
  from 1 obtain ws' s1 where c': "service_create ?b hex now (copy_spec (ws_spec source)) name md s = (Inr ws', s1)"
    and r': "?rest ws' s1 = (Inr ws, s')" unfolding s0' by (rule bindM_InrE)
  from r' have "ws' = ws" by (auto simp: retM_apply elim!: bindM_InrE)
  with c' r' have c: "service_create ?b hex now (copy_spec (ws_spec source)) name md s = (Inr ws, s1)"
    and r: "?rest ws s1 = (Inr ws, s')" by simp_all
  from r have v: "valid_workspace_id (ws_id ws)"
    by (rule_tac ccontr) (simp add: bindM_apply on_fs_def focusM_apply ws_path_def validate_workspace_id_def raiseM_apply)
  then have p: "on_fs (ws_path ?b (ws_id ws)) s1 = (Inr (?b @ [ws_id ws]), s1)"
    by (simp add: on_fs_def focusM_apply ws_path_def validate_workspace_id_def retM_apply bindM_apply)
  let ?d = "?b @ [ws_id ws]"
  from r p obtain s2 s3 where e: "on_fs (ensure_dir_empty ?d) s1 = (Inr (), s2)"
    and t: "catchM (on_fs (store_restore ar (lay_snapshots lay) sid ?d)) (\<lambda>e. is_instance e SnapshotError)
       (\<lambda>e. bindM (service_delete ?b (ws_id ws) later) (\<lambda>_. raiseM e)) s2 = (Inr (), s3)"
    and f: "on_fs (ensure_forge_meta ?d) s3 = (Inr (), s')"
    by (auto simp: bindM_apply [of "on_fs (ws_path ?b (ws_id ws))"] retM_apply elim!: bindM_InrE)
  from t have t': "on_fs (store_restore ar (lay_snapshots lay) sid ?d) s2 = (Inr (), s3)"
    by (rule catch_cleanup)
  from e obtain g1 where g1: "ensure_dir_empty ?d (st_fs s1) = (Inr (), g1)" "s2 = s1\<lparr>st_fs := g1\<rparr>" by (rule on_fs_InrE)
  from t' obtain g2 where g2: "store_restore ar (lay_snapshots lay) sid ?d (st_fs s2) = (Inr (), g2)" "s3 = s2\<lparr>st_fs := g2\<rparr>" by (rule on_fs_InrE)
  from f obtain g3 where g3: "ensure_forge_meta ?d (st_fs s3) = (Inr (), g3)" "s' = s3\<lparr>st_fs := g3\<rparr>" by (rule on_fs_InrE)
  show thesis by (rule that [OF c g1(1) _ _ _ v]) (use g1 g2 g3 in simp_all)
qed

lemma prefix_logs: "prefix q logs \<longleftrightarrow> q = [] \<or> q = [FORGE_META_DIR] \<or> q = logs"
  by (auto simp: logs_def prefix_Cons)

lemma snapshot_restoreE:
  assumes sync: "in_sync (lay_workspaces lay) s" and ap: "apart (lay_workspaces lay) (lay_snapshots lay)"
    and arc: "look (st_fs s) (archive_path (lay_snapshots lay) sid) = Some (File raw)"
    and unp: "ar_unpack ar raw = (archive_members f src, None)" and f: "proper_fs f" "look f src = Some Dir"
    and run: "snapshot_restore ar lay hex now later sid name md s = (Inr ws, s')"
  shows "ws_id ws \<notin> row_ids (st_meta s) \<and> row_ids (st_meta s') = insert (ws_id ws) (row_ids (st_meta s)) \<and>
    (\<forall>q. q \<noteq> [] \<longrightarrow> look (st_fs s') (lay_workspaces lay @ ws_id ws # q) = (if prefix q logs then Some Dir else kept_node f src q)) \<and>
    (\<forall>p. \<not> prefix (lay_workspaces lay @ [ws_id ws]) p \<longrightarrow> look (st_fs s') p = look (st_fs s) p)"
proof -
  let ?d = "lay_workspaces lay @ [ws_id ws]"
  from run obtain spec s1 g1 g2 g3 where c: "service_create (lay_workspaces lay) hex now spec name md s = (Inr ws, s1)"
    and e: "ensure_dir_empty ?d (st_fs s1) = (Inr (), g1)" and t: "store_restore ar (lay_snapshots lay) sid ?d g1 = (Inr (), g2)"
    and m: "ensure_forge_meta ?d g2 = (Inr (), g3)" and s': "s' = s1\<lparr>st_fs := g3\<rparr>" by (rule snapshot_restore_steps)
  from service_create_sync [OF sync, of hex now spec name md] c
  have new: "ws_id ws \<notin> row_ids (st_meta s)" "row_ids (st_meta s1) = insert (ws_id ws) (row_ids (st_meta s))"
    and l1: "\<And>q. look (st_fs s1) q = (if q \<in> fresh_tree ?d then Some Dir else look (st_fs s) q)"
    and p1: "proper_fs (st_fs s1)" by (auto simp: in_sync_def)
  have d1: "look (st_fs s1) ?d = Some Dir" using l1 [of ?d] by (simp add: fresh_tree_def)
  from empty_dir [OF p1 d1 _ e] have p2: "proper_fs g1"
    and l2: "\<And>q. look g1 q = (if strict_prefix ?d q then None else look (st_fs s1) q)" by auto
  have out1: "look g1 p = look (st_fs s) p" if "\<not> prefix ?d p" for p
    using that l1 [of p] l2 [of p] fresh_tree_below [of p ?d] by (auto simp: strict_prefix_def)
  have d2: "look g1 ?d = Some Dir" "\<And>q. q \<noteq> [] \<Longrightarrow> look g1 (?d @ q) = None"
    using l2 d1 by (simp_all add: strict_prefix_def)
  have "\<not> prefix ?d (archive_path (lay_snapshots lay) sid)"
    using apart_below [OF ap, of "[ws_id ws]" "[sid @ ''.tar.zst'']"] by (simp add: apart_def archive_path_def)
  from out1 [OF this] arc have "look g1 (archive_path (lay_snapshots lay) sid) = Some (File raw)" by simp
  with stat_node_real [OF p2] have st: "stat_node g1 (archive_path (lay_snapshots lay) sid) = Some (File raw)" by simp
  from extract_archive [OF f p2 d2] obtain h where
    h: "extract_all ?d (archive_members f src) g1 = (Inr (), h)" "proper_fs h" "adds_below ?d g1 h"
      "\<And>q. q \<noteq> [] \<Longrightarrow> look h (?d @ q) = kept_node f src q" by auto
  from t st stat_node_real [OF p2 d2(1)] unp h(1) have g2: "g2 = h"
    by (simp add: store_restore_def read_archive_def catchM_apply bindM_apply retM_apply)
  have dh: "look h ?d = Some Dir" using h(3) d2(1) by (simp add: adds_below_def)
  have pl: "list_all proper_name (?d @ logs)" using look_proper [OF h(2), of ?d] dh
    by (auto simp: logs_def FORGE_META_DIR_def proper_name_def dot_def dotdot_def slash_def)
  have "look h q \<noteq> Some (Link t)" if "prefix q (?d @ logs)" for q t
  proof -
    from that have "prefix q ?d \<or> (\<exists>r. q = ?d @ r \<and> prefix r logs)" by (simp only: prefix_append)
    then consider "prefix q ?d" | r where "q = ?d @ r" "r \<noteq> []" by (metis append_Nil2 prefix_order.order_refl)
    then show ?thesis
    proof cases
      case 1
      with dh prefix_dir [of h ?d q] h(2) show ?thesis by (cases "q = ?d") (auto simp: proper_fs_def strict_prefix_def)
    next
      case 2
      with h(4) [of r] kept_not_link [of f src r t] show ?thesis by simp
    qed
  qed
  from resolve_plain [OF pl this] have "resolve_path h (?d @ [''.forge'', ''exec'']) = ?d @ logs"
    by (simp add: logs_def FORGE_META_DIR_def)
  with m g2 have mk: "mkdir_p (?d @ logs) h = (Inr (), g3)" by (simp add: ensure_forge_meta_def at_path_def)
  have "look g3 (?d @ q) = (if prefix q logs then Some Dir else kept_node f src q)" if "q \<noteq> []" for q
    using mkdir_p_Inr [OF mk, of "?d @ q"] h(4) [OF that] by simp
  moreover have "look g3 p = look (st_fs s) p" if "\<not> prefix ?d p" for p
  proof -
    have "look h p = look (st_fs s) p" using h(3) out1 that by (auto simp: adds_below_def)
    moreover have "look h p = Some Dir" if "prefix p (?d @ logs)"
    proof -
      from that \<open>\<not> prefix ?d p\<close> have "strict_prefix p ?d" by (metis prefix_append prefix_same_cases strict_prefix_def prefixI)
      with dh prefix_dir [of h ?d p] h(2) show ?thesis by (auto simp: proper_fs_def)
    qed
    ultimately show ?thesis using mkdir_p_Inr [OF mk, of p] by simp
  qed
  ultimately show ?thesis using new s' by simp
qed

text \<open>Both together.\<close>

lemma snapshot_then_restore:
  assumes sync: "in_sync (lay_workspaces lay) s" and ap: "apart (lay_workspaces lay) (lay_snapshots lay)"
    and hex: "slash \<notin> set hex" and run: "snapshot_create ar lay hex now wid name s = (Inr snap, s1)"
    and rest: "snapshot_restore ar lay hex' now' later (snap_id snap) name' md s1 = (Inr ws, s2)"
    and unp: "ar_unpack ar (ar_pack ar (archive_members (st_fs s) (lay_workspaces lay @ [wid]))) =
      (archive_members (st_fs s) (lay_workspaces lay @ [wid]), None)"
  shows "ws_id ws \<noteq> wid \<and>
    (\<forall>q. q \<noteq> [] \<longrightarrow> look (st_fs s2) (lay_workspaces lay @ ws_id ws # q) =
      (if prefix q logs then Some Dir else kept_node (st_fs s) (lay_workspaces lay @ [wid]) q)) \<and>
    (\<forall>q. look (st_fs s2) (lay_workspaces lay @ wid # q) = look (st_fs s) (lay_workspaces lay @ wid # q))"
proof -
  note c = snapshot_createE [OF sync ap hex run]
  let ?a = "lay_snapshots lay @ [archive_name hex]"
  have arc: "look (st_fs s1) (archive_path (lay_snapshots lay) (snap_id snap)) =
      Some (File (ar_pack ar (archive_members (st_fs s) (lay_workspaces lay @ [wid]))))"
    by (simp add: c(1,5) archive_path_name)
  have pf: "proper_fs (st_fs s)" using sync by (simp add: in_sync_def)
  note r = snapshot_restoreE [OF c(2) ap arc unp pf c(4) rest]
  have same: "look (st_fs s1) (lay_workspaces lay @ p) = look (st_fs s) (lay_workspaces lay @ p)" for p
    using c(5) apart_ne [OF ap, of p "[archive_name hex]"] by simp
  have "wid \<in> row_ids (st_meta s1)"
    using c(2,3,4) same [of "[wid]"] by (auto simp: in_sync_def split: if_splits)
  with r have ne: "ws_id ws \<noteq> wid" by auto
  then have "\<not> prefix (lay_workspaces lay @ [ws_id ws]) (lay_workspaces lay @ wid # q)" for q by (auto simp: prefix_def)
  with r same [of "wid # q" for q] ne show ?thesis by simp
qed

end
