(* ===== verification/Artifact_Laws.thy ===== *)
theory Artifact_Laws
  imports Artifacts Snapshot_Roundtrip
begin

text \<open>
  An exported artifact reads back as the file it was exported from, whatever becomes of the
  workspace.
\<close>

lemma concat_chunks: "0 < n \<Longrightarrow> concat (chunks n xs) = xs"
  by (induction n xs rule: chunks.induct) (subst chunks.simps, simp)

lemma chunks_size: "c \<in> set (chunks n xs) \<Longrightarrow> c \<noteq> [] \<and> length c \<le> n"
  by (induction n xs rule: chunks.induct) (subst (asm) (2) chunks.simps, auto split: if_splits)

lemma create_then_get_artifact:
  assumes c: "create_artifact a m = (Inr (), m')" and v: "ts_ok (art_created_at a)"
  shows "get_artifact (art_id a) m' = (Inr a, m')"
proof -
  from c obtain r d where o: "ms_open m" and r: "artifact_row a = Inr r"
    and i: "insert_art r (migrate (ms_file m)) = Some d" and m': "m' = m\<lparr>ms_file := Some d\<rparr>"
    by (cases "ms_open m") (auto simp: create_artifact_def op_simps integrity_apply split: sum.splits option.splits)
  from i obtain t where t: "tbl_insert ar_id r (t_artifacts (migrate (ms_file m))) = Some t"
    and d: "d = migrate (ms_file m)\<lparr>t_artifacts := t\<rparr>"
    by (auto simp: insert_art_def split: if_splits)
  have id: "ar_id r = art_id a" using r by (auto simp: artifact_row_def bindR_Inr_iff)
  have "tbl_find ar_id (art_id a) t = Some r"
    using tbl_find_insert [OF t, of "art_id a"] id by simp
  then show ?thesis
    using o d m' row_to_artifact_row [OF r] v by (simp add: get_artifact_def op_simps ts_ok_def)
qed

lemma base_name_posix: "list_all proper_name q \<Longrightarrow> q \<noteq> [] \<Longrightarrow> base_name (as_posix q) = last q"
  by (simp add: base_name_def as_posix_def split_join proper_no_slash)

section \<open>Paths that are followed\<close>

lemma split_on_parts: "x \<in> set (split_on c s) \<Longrightarrow> c \<notin> set x"
  by (induction s arbitrary: x) (auto split: if_splits list.splits)

fun part_ok :: "work \<Rightarrow> bool" where
  "part_ok (Part n) = (slash \<notin> set n)"
| "part_ok (EndOf l) = True"

lemma realpath_proper:
  "realpath strict f seen work p = Some q \<Longrightarrow> list_all proper_name p \<Longrightarrow> list_all part_ok work \<Longrightarrow>
    (\<And>l r. seen l = Some (Some r) \<Longrightarrow> list_all proper_name r) \<Longrightarrow> list_all proper_name q"
proof (induction strict f seen work p rule: realpath.induct)
  case (1 strict f seen p)
  then show ?case by simp
next
  case (2 strict f seen l rest p)
  show ?case
  proof (rule "2.IH")
    show "realpath strict f (seen(l \<mapsto> Some p)) rest p = Some q" using "2.prems"(1) by simp
    show "list_all proper_name r" if "(seen(l' \<mapsto> Some p)) l = Some (Some r)" for l l' r
      using that "2.prems"(2,4) by (auto split: if_splits)
  qed (use "2.prems" in simp_all)
next
  case (3 strict f seen n rest p)
  have bl: "list_all proper_name (butlast p)" using "3.prems"(2) by (auto simp: list_all_iff dest: in_set_butlastD)
  have rest: "list_all part_ok rest" using "3.prems"(3) by simp
  have tg: "list_all part_ok (map Part (split_on slash t) @ EndOf (p @ [n]) # rest)" for t
    using rest by (auto simp: list_all_iff split_on_parts)
  show ?case
  proof (cases "n = [] \<or> n = dot \<or> n = dotdot")
    case True
    with "3.prems"(1) "3.IH"(1,2) "3.prems"(2,4) bl rest show ?thesis by (auto split: if_splits)
  next
    case False
    then have pn: "list_all proper_name (p @ [n])" using "3.prems"(2,3) by (simp add: proper_name_def [of n])
    have ls: "list_all proper_name (link_start t p)" for t using "3.prems"(2) by (simp add: link_start_def)
    from False have ns: "\<not> (n = [] \<or> n = dot)" "n \<noteq> dotdot" by auto
    have c: "\<not> (strict \<and> look f p \<noteq> Some Dir)" using "3.prems"(1) by (auto split: if_splits)
    show ?thesis
    proof (cases "look f (p @ [n])")
      case None
      with "3.prems"(1) ns c have k: "\<not> strict" "realpath strict f seen rest (p @ [n]) = Some q" by (auto split: if_splits)
      from "3.IH"(3) [OF c ns refl None k pn rest "3.prems"(4)] show ?thesis .
    next
      case (Some x)
      show ?thesis
      proof (cases x)
        case Dir
        with "3.prems"(1) ns c Some have k: "realpath strict f seen rest (p @ [n]) = Some q" by (auto split: if_splits)
        from "3.IH"(4) [OF c ns refl Some Dir k pn rest "3.prems"(4)] show ?thesis .
      next
        case (File b)
        with "3.prems"(1) ns c Some have k: "realpath strict f seen rest (p @ [n]) = Some q" by (auto split: if_splits)
        from "3.IH"(5) [OF c ns refl Some File k pn rest "3.prems"(4)] show ?thesis .
      next
        case (Link t)
        show ?thesis
        proof (cases "seen (p @ [n])")
          case None
          with "3.prems"(1) ns c Some Link have k: "realpath strict f (seen(p @ [n] \<mapsto> None))
              (map Part (split_on slash t) @ EndOf (p @ [n]) # rest) (link_start t p) = Some q" by (auto simp: Let_def split: if_splits)
          show ?thesis
            by (rule "3.IH"(6) [OF c ns refl Some Link None k ls tg]) (use "3.prems"(4) in \<open>auto split: if_splits\<close>)
        next
          case (Some v)
          note sv = this
          show ?thesis
          proof (cases v)
            case None
            with "3.prems"(1) ns c \<open>look f (p @ [n]) = _\<close> Link sv have k: "\<not> strict" "realpath strict f seen rest (p @ [n]) = Some q"
              by (auto split: if_splits)
            from "3.IH"(7) [OF c ns refl \<open>look f (p @ [n]) = _\<close> Link sv None k pn rest "3.prems"(4)] show ?thesis .
          next
            case (Some r)
            with "3.prems"(1) ns c \<open>look f (p @ [n]) = _\<close> Link sv have k: "realpath strict f seen rest r = Some q"
              by (auto split: if_splits)
            have "list_all proper_name r" using "3.prems"(4) sv Some by blast
            from "3.IH"(8) [OF c ns refl \<open>look f (p @ [n]) = _\<close> Link sv Some k this rest "3.prems"(4)] show ?thesis .
          qed
        qed
      qed
    qed
  qed
qed

lemma realpath_grown:
  "realpath True f seen work p = Some q \<Longrightarrow> (\<And>x n. look f x = Some n \<Longrightarrow> look g x = Some n) \<Longrightarrow>
    realpath True g seen work p = Some q"
proof (induction "True" f seen work p rule: realpath.induct)
  case (3 f seen n rest p)
  have d: "look f p = Some Dir" using "3.prems"(1) by (auto split: if_splits)
  then have dg: "look g p = Some Dir" by (rule "3.prems"(2))
  show ?case
  proof (cases "n = [] \<or> n = dot \<or> n = dotdot")
    case True
    with 3(1,2) "3.prems" d dg show ?thesis by (auto split: if_splits)
  next
    case False
    then have ns: "\<not> (n = [] \<or> n = dot)" "n \<noteq> dotdot" by auto
    with "3.prems"(1) d obtain x where x: "look f (p @ [n]) = Some x" by (cases "look f (p @ [n])") auto
    then have xg: "look g (p @ [n]) = Some x" by (rule "3.prems"(2))
    from 3(3-8) "3.prems" d dg ns x xg show ?thesis
      by (cases x) (auto simp: Let_def split: option.splits)
  qed
qed auto

lemma stat_node_grown:
  assumes "stat_node f p = Some n" and "\<And>x n. look f x = Some n \<Longrightarrow> look g x = Some n"
  shows "stat_node g p = Some n"
proof -
  from assms(1) obtain q where q: "follow f p = Some q" "node_at f q = Some n" by (auto simp: stat_node_def split: option.splits)
  from q(1) realpath_grown [of f Map.empty "map Part p" "[]" q g] assms(2) have "follow g p = Some q" by (simp add: follow_def)
  moreover have "node_at g q = Some n" using q(2) assms(2) by (auto simp: node_at_def split: option.splits node.splits)
  ultimately show ?thesis by (simp add: stat_node_def)
qed

lemma resolve_path_proper: "list_all (\<lambda>n. slash \<notin> set n) p \<Longrightarrow> list_all proper_name (resolve_path f p)"
  using realpath_proper [OF resolve_path_Some, of p f] by (auto simp: list_all_iff)

lemma store_exportE:
  assumes f: "proper_fs f" "stat_node f source = Some (File b)" "proper_name (last source)" and hex: "slash \<notin> set hex"
    and root: "look f aroot = Some Dir" and run: "store_export guess aroot hex now wid source rel ct f = (Inr art, g)"
  shows "art_id art = artifact_id hex" and "art_path art = rel" and "art_created_at art = now"
    and "proper_fs g" and "look g (aroot @ [artifact_id hex, last source]) = Some (File b)"
    and "art_size_bytes art = int (length b)"
proof -
  let ?dir = "aroot @ [artifact_id hex]" and ?t = "aroot @ [artifact_id hex, last source]"
  let ?ct = "case ct of Some c \<Rightarrow> if c = [] then guess (last source) else Some c | None \<Rightarrow> guess (last source)"
  let ?fill = "bindM (catchM (copy_file source ?t) (\<lambda>e. is_instance e OSError)
         (\<lambda>_. bindM (remove_tree ?dir) (\<lambda>_. raiseM ArtifactError))) (\<lambda>_ g.
       case stat_node g ?t of
         Some (File b) \<Rightarrow> (Inr \<lparr>art_id = artifact_id hex, art_workspace_id = wid, art_path = rel, art_size_bytes = int (length b),
            art_content_type = ?ct, art_created_at = now\<rparr>, g)
       | _ \<Rightarrow> (Inl OSError, g))"
  have "bindM (mkdir_new ?dir) (\<lambda>_. ?fill) f = (Inr art, g)"
    using run f(2) by (simp add: store_export_def path_is_file_def Let_def)
  then obtain f1 where mk: "mkdir_new ?dir f = (Inr (), f1)" and r: "?fill f1 = (Inr art, g)"
    by (auto elim: bindM_InrE)
  from mk have new: "look f ?dir = None" and mp: "mkdir_p ?dir f = (Inr (), f1)"
    by (auto simp: mkdir_new_def split: if_splits)
  have l1: "look f1 q = (if prefix q ?dir then Some Dir else look f q)" for q by (rule mkdir_p_Inr [OF mp])
  have wf: "wf_fs f" using f(1) by (simp add: proper_fs_def)
  have up: "look f q = Some Dir" if "prefix q aroot" for q
    using that root prefix_dir [OF wf, of aroot q] by (cases "q = aroot") (auto simp: strict_prefix_def)
  have proper: "list_all proper_name (?dir @ [last source])"
  proof -
    have "list_all proper_name aroot" using look_proper [OF f(1), of aroot] root by simp
    moreover have "proper_name (artifact_id hex)"
      using hex by (auto simp: artifact_id_def proper_name_def dot_def dotdot_def slash_def dest: in_set_takeD)
    ultimately show ?thesis using f(3) by simp
  qed
  have p1: "proper_fs f1"
  proof -
    have "wf_fs f1" using mkdir_p_frame [of f "[]" ?dir] wf mp by simp
    moreover have "list_all proper_name q" if "prefix q ?dir" for q
      using proper that by (auto intro: list_all_prefix [of _ ?dir])
    ultimately show ?thesis using f(1) l1 by (auto simp: proper_fs_iff)
  qed
  have "look f1 x = Some n" if "look f x = Some n" for x n
    using that l1 [of x] new up [of x] by auto
  with stat_node_grown [OF f(2)] have s1: "stat_node f1 source = Some (File b)" by blast
  have "look f ?t = None" using nothing_below [OF wf new, of ?t] by simp
  then have n1: "look f1 ?t = None" using l1 [of ?t] by (simp add: prefix_def)
  let ?g = "set_node ?t (File b) f1"
  have w: "write_bytes ?t b f1 = (Inr (), ?g)" using n1 l1 [of ?dir] by (simp add: write_bytes_def butlast_append)
  have pg: "proper_fs ?g"
  proof -
    have "wf_fs ?g" using write_bytes_frame [of f1 "[]" ?t b] w p1 by (simp add: proper_fs_def)
    with p1 proper show ?thesis by (auto simp: proper_fs_iff)
  qed
  have "stat_node ?g ?t = Some (File b)" by (rule stat_node_real [OF pg]) simp_all
  with r s1 w show "art_id art = artifact_id hex" "art_path art = rel" "art_created_at art = now"
    "proper_fs g" "look g ?t = Some (File b)" "art_size_bytes art = int (length b)"
    using pg by (auto simp: bindM_apply catchM_apply copy_file_def)
qed

lemma export_then_read:
  assumes sync: "in_sync (lay_workspaces lay) s" and root: "look (st_fs s) (lay_artifacts lay) = Some Dir"
    and hex: "slash \<notin> set hex" and now: "ts_ok now"
    and run: "artifact_export guess lay hex now wid path ct s = (Inr art, s')"
  shows "\<exists>p b. strict_prefix (lay_workspaces lay @ [wid]) p \<and> \<not> reserved (lay_workspaces lay @ [wid]) p \<and>
    stat_node (st_fs s) p = Some (File b) \<and> art_path art = rel_posix (lay_workspaces lay @ [wid]) p \<and>
    art_size_bytes art = int (length b) \<and> artifact_read lay (art_id art) s' = (Inr (chunks CHUNK b), s')"
proof -
  let ?b = "lay_workspaces lay" and ?f = "st_fs s"
  from run obtain ws s0 where g: "service_get wid s = (Inr ws, s0)" and
    r: "bindM (on_fs (export_source ?b wid path)) (\<lambda>(candidate, rel).
     bindM (on_fs (store_export guess (lay_artifacts lay) hex now wid candidate rel ct)) (\<lambda>art.
     bindM (catchM (on_meta (create_artifact art)) (\<lambda>e. is_instance e PyException)
       (\<lambda>e. bindM (on_fs (store_remove (lay_artifacts lay) (art_id art))) (\<lambda>_. raiseM e))) (\<lambda>_.
     retM art))) s0 = (Inr art, s')"
    unfolding artifact_export_def by (rule bindM_InrE)
  have "service_get wid s = (fst (get_workspace wid (st_meta s)), s)"
    unfolding service_get_def by (rule on_meta_same) simp
  with g have s0: "s0 = s" and gw: "get_workspace wid (st_meta s) = (Inr ws, st_meta s)"
    using get_workspace_state [of wid "st_meta s"] by (auto intro: prod_eqI)
  from get_workspace_known [OF gw] have known: "wid \<in> row_ids (st_meta s)" by simp
  let ?put = "\<lambda>art. bindM (catchM (on_meta (create_artifact art)) (\<lambda>e. is_instance e PyException)
       (\<lambda>e. bindM (on_fs (store_remove (lay_artifacts lay) (art_id art))) (\<lambda>_. raiseM e))) (\<lambda>_. retM art)"
  from r obtain cr s1 where "on_fs (export_source ?b wid path) s = (Inr cr, s1)" and
    "(case cr of (candidate, rel) \<Rightarrow> bindM (on_fs (store_export guess (lay_artifacts lay) hex now wid candidate rel ct)) ?put) s1 =
      (Inr art, s')" unfolding s0 by (rule bindM_InrE)
  then obtain src rel where e: "on_fs (export_source ?b wid path) s = (Inr (src, rel), s1)" and
    r1: "bindM (on_fs (store_export guess (lay_artifacts lay) hex now wid src rel ct)) ?put s1 = (Inr art, s')"
    by (cases cr) simp
  from e have valid: "valid_workspace_id wid"
    by (auto simp: on_fs_def focusM_apply export_source_def ws_path_def validate_workspace_id_def bindM_apply raiseM_apply
        split: if_splits)
  with known sync have dir: "look ?f (?b @ [wid]) = Some Dir" and pf: "proper_fs ?f" by (auto simp: in_sync_def)
  from e valid real_resolve [OF pf dir] have s1: "s1 = s" and src: "prefix (?b @ [wid]) src" "\<not> reserved (?b @ [wid]) src"
      "path_is_file src ?f" "rel = rel_posix (?b @ [wid]) src" "src = resolve_path ?f (join_path (?b @ [wid]) path)"
    by (auto simp: on_fs_def focusM_apply export_source_def ws_path_def validate_workspace_id_def bindM_apply retM_apply Let_def
        split: if_splits)
  from src(3) obtain b where st: "stat_node ?f src = Some (File b)"
    by (auto simp: path_is_file_def split: option.splits node.splits)
  with stat_node_real [OF pf dir] have "src \<noteq> ?b @ [wid]" by auto
  with src(1) have sp: "strict_prefix (?b @ [wid]) src" by (auto simp: strict_prefix_def)
  have "list_all (\<lambda>n. slash \<notin> set n) (join_path (?b @ [wid]) path)"
    using proper_no_slash [OF look_proper [OF pf, of "?b @ [wid]"]] dir
    by (auto simp: join_path_def pure_parts_def list_all_iff dest: split_on_parts)
  with src(5) have names: "list_all proper_name src" by (simp add: resolve_path_proper)
  then have "proper_name (last src)" using sp by (cases src rule: rev_cases) simp_all
  from r1 obtain art' s2 where "on_fs (store_export guess (lay_artifacts lay) hex now wid src rel ct) s = (Inr art', s2)"
    and r2': "?put art' s2 = (Inr art, s')" unfolding s1 by (rule bindM_InrE)
  then obtain f2 where x: "store_export guess (lay_artifacts lay) hex now wid src rel ct ?f = (Inr art', f2)"
    and r2: "?put art' (s\<lparr>st_fs := f2\<rparr>) = (Inr art, s')" by (auto elim!: on_fs_InrE)
  note ex = store_exportE [OF pf st \<open>proper_name (last src)\<close> hex root x]
  from r2 obtain s3 where "on_meta (create_artifact art') (s\<lparr>st_fs := f2\<rparr>) = (Inr (), s3)" and "(Inr art', s3) = (Inr art, s')"
    by (auto simp: retM_apply elim!: bindM_InrE dest!: catch_cleanup)
  then obtain m where m: "create_artifact art' (st_meta s) = (Inr (), m)" "art' = art" "s' = s\<lparr>st_fs := f2, st_meta := m\<rparr>"
    by (auto simp: on_meta_def focusM_apply split: prod.splits)
  have ga: "get_artifact (art_id art) m = (Inr art, m)"
    using create_then_get_artifact [OF m(1)] m(2) ex(3) now by simp
  let ?q = "drop (length (?b @ [wid])) src"
  have q: "?q \<noteq> []" "last ?q = last src" "list_all proper_name ?q"
    using sp names by (auto elim!: strict_prefixE' simp: list_all_iff dest: in_set_dropD)
  then have "base_name (art_path art) = last src"
    using ex(2) m(2) src(4) base_name_posix [OF q(3,1)] by (simp add: rel_posix_def)
  with m(2) ex(1,4,5) have "store_read (lay_artifacts lay) (art_id art) (base_name (art_path art)) f2 = (Inr (chunks CHUNK b), f2)"
    using stat_node_real [OF ex(4,5)] by (simp add: store_read_def)
  with ga m(3) have "artifact_read lay (art_id art) s' = (Inr (chunks CHUNK b), s')"
    by (cases s) (simp add: artifact_read_def bindM_apply on_meta_def on_fs_def focusM_apply)
  with sp src(2,4) st ex(2,6) m(2) show ?thesis by blast
qed

end
