(* ===== verification/Archive_Props.thy ===== *)
theory Archive_Props
  imports Artifact_Laws Files_Props Meta_Props
begin

text \<open>
  The properties of snapshots and artifacts: what was taken from a workspace comes back.
\<close>

section \<open>Concrete inputs\<close>

definition arc_fs :: fs where
  "arc_fs = [([''data''], Dir), (demo_base, Dir), (demo_base @ [''w1''], Dir), (demo_base @ [''w2''], Dir),
     (demo_base @ [''w1'', ''src''], Dir), (demo_base @ [''w1'', ''src'', ''a.py''], File [112]),
     (demo_base @ [''w1'', ''evil''], Link ''/etc''), (demo_base @ [''w1'', ''.forge''], Dir),
     (demo_base @ [''w1'', ''.forge'', ''exec''], Dir), (demo_base @ [''w1'', ''.forge'', ''exec'', ''x.log''], File [1]),
     ([''data'', ''snapshots''], Dir), ([''data'', ''artifacts''], Dir)]"

definition arc_layout :: layout where
  "arc_layout = \<lparr>lay_workspaces = demo_base, lay_snapshots = [''data'', ''snapshots''], lay_artifacts = [''data'', ''artifacts'']\<rparr>"

definition arc_stores :: stores where
  "arc_stores = \<lparr>st_meta = demo_store, st_fs = arc_fs\<rparr>"

lemma arc_members: "archive_members arc_fs (demo_base @ [''w1'']) =
    [TarDir ''.forge'', TarDir ''src'', TarFile ''src/a.py'' [112], TarDir ''.forge/exec'']"
  by code_simp

text \<open>An archiver that knows the one archive it is asked for.\<close>

definition arc_archiver :: archiver where
  "arc_archiver = \<lparr>ar_pack = (\<lambda>ms. [7]),
     ar_unpack = (\<lambda>b. (archive_members arc_fs (demo_base @ [''w1'']), None))\<rparr>"

lemma arc_sync: "in_sync demo_base arc_stores"
  unfolding in_sync_def
proof (intro conjI allI impI)
  show "proper_fs (st_fs arc_stores)" by code_simp
  show "look (st_fs arc_stores) demo_base = Some Dir" by code_simp
  show "look (st_fs arc_stores) (demo_base @ [wid]) = (if wid \<in> row_ids (st_meta arc_stores) then Some Dir else None)" for wid
    by (simp add: arc_stores_def arc_fs_def demo_base_def look_def row_ids_def demo_store_eval migrate_def empty_db_def
        workspace_row_def demo_ws_def)
qed

definition arc_snap :: snapshot where
  "arc_snap = \<lparr>snap_id = ''snap_ab'', snap_workspace_id = ''w1'', snap_name = None, snap_size_bytes = 1, snap_parent_id = None,
      snap_created_at = demo_time\<rparr>"

definition arc_meta :: metastore where "arc_meta = snd (create_snapshot arc_snap demo_store)"

definition arc_new :: workspace where
  "arc_new = \<lparr>ws_id = ''ws_cd'', ws_spec = default_spec ''img'', ws_status = WsReady, ws_name = None, ws_metadata = [],
     ws_created_at = demo_time, ws_updated_at = demo_time\<rparr>"

definition arc_fs1 :: fs where "arc_fs1 = arc_fs @ [([''data'', ''snapshots'', ''snap_ab.tar.zst''], File [7])]"
definition arc_fs2 :: fs where "arc_fs2 = snd (ws_create demo_base ''ws_cd'' arc_fs1)"
definition arc_fs3 :: fs where "arc_fs3 = snd (ensure_dir_empty (demo_base @ [''ws_cd'']) arc_fs2)"
definition arc_fs4 :: fs where
  "arc_fs4 = snd (store_restore arc_archiver [''data'', ''snapshots''] ''snap_ab'' (demo_base @ [''ws_cd'']) arc_fs3)"

lemma arc_store: "store_snapshot arc_archiver [''data'', ''snapshots''] ''ab'' demo_time ''w1'' (demo_base @ [''w1'']) None None arc_fs =
    (Inr arc_snap, arc_fs1)"
  by code_simp

lemma arc_files:
  "fst (ws_create demo_base ''ws_cd'' arc_fs1) = Inr (demo_base @ [''ws_cd''])"
  "fst (ensure_dir_empty (demo_base @ [''ws_cd'']) arc_fs2) = Inr ()"
  "fst (store_restore arc_archiver [''data'', ''snapshots''] ''snap_ab'' (demo_base @ [''ws_cd'']) arc_fs3) = Inr ()"
  "fst (ensure_forge_meta (demo_base @ [''ws_cd'']) arc_fs4) = Inr ()"
  by code_simp+

lemmas arc_insert = demo_store_eval create_snapshot_def op_simps integrity_def commit_def snapshot_row_def insert_snap_def
  tbl_insert_def migrate_def empty_db_def has_workspace_def workspace_row_def demo_ws_def arc_snap_def arc_new_def
  create_workspace_def insert_ws_def

lemma arc_created: "create_snapshot arc_snap demo_store = (Inr (), arc_meta)"
  by (simp add: arc_meta_def arc_insert)

lemma arc_read:
  "get_workspace ''w1'' arc_meta = (Inr (demo_ws ''w1''), arc_meta)"
  "get_snapshot ''snap_ab'' arc_meta = (Inr arc_snap, arc_meta)"
  "fst (create_workspace arc_new arc_meta) = Inr ()"
  by (simp_all add: arc_meta_def arc_insert get_workspace_def get_snapshot_def tbl_find_def row_to_workspace_def
      row_to_snapshot_def required_ts_isoformat parse_workspace_status_str [of WsReady, simplified])

lemma arc_create: "snapshot_create arc_archiver arc_layout ''ab'' demo_time ''w1'' None arc_stores =
    (Inr arc_snap, \<lparr>st_meta = arc_meta, st_fs = arc_fs1\<rparr>)"
proof -
  have "get_workspace ''w1'' demo_store = (Inr (demo_ws ''w1''), demo_store)"
    by (simp add: demo_store_eval get_workspace_apply migrate_def empty_db_def tbl_find_def workspace_row_def demo_ws_def
      row_to_workspace_def op_simps required_ts_isoformat parse_workspace_status_str [of WsReady, simplified])
  moreover have "ws_path demo_base ''w1'' arc_fs = (Inr (demo_base @ [''w1'']), arc_fs)" by code_simp
  moreover have "ws_id (demo_ws ''w1'') = ''w1''" by (simp add: demo_ws_def)
  ultimately show ?thesis using arc_store arc_created
    by (simp add: snapshot_create_def service_get_def bindM_apply on_meta_def on_fs_def focusM_apply arc_stores_def arc_layout_def
        catchM_apply retM_apply)
qed

lemma arc_restore: "fst (snapshot_restore arc_archiver arc_layout ''cd'' demo_time demo_time ''snap_ab'' None None
    \<lparr>st_meta = arc_meta, st_fs = arc_fs1\<rparr>) = Inr arc_new"
proof -
  have f: "ws_create demo_base ''ws_cd'' arc_fs1 = (Inr (demo_base @ [''ws_cd'']), arc_fs2)"
    "ensure_dir_empty (demo_base @ [''ws_cd'']) arc_fs2 = (Inr (), arc_fs3)"
    "store_restore arc_archiver [''data'', ''snapshots''] ''snap_ab'' (demo_base @ [''ws_cd'']) arc_fs3 = (Inr (), arc_fs4)"
    using arc_files by (auto simp: arc_fs2_def arc_fs3_def arc_fs4_def intro!: prod_eqI)
  from arc_files(4) obtain g5 where e: "ensure_forge_meta (demo_base @ [''ws_cd'']) arc_fs4 = (Inr (), g5)"
    by (cases "ensure_forge_meta (demo_base @ [''ws_cd'']) arc_fs4") simp
  have w: "ws_path demo_base ''ws_cd'' g = (Inr (demo_base @ [''ws_cd'']), g)" for g
    by (simp add: ws_path_def validate_workspace_id_def valid_workspace_id_def slash_def dot_def dotdot_def retM_apply bindM_apply)
  have c: "service_create demo_base ''cd'' demo_time (copy_spec (ws_spec (demo_ws ''w1''))) None None
      \<lparr>st_meta = arc_meta, st_fs = arc_fs1\<rparr> =
    (Inr arc_new, \<lparr>st_meta = snd (create_workspace arc_new arc_meta), st_fs = arc_fs2\<rparr>)"
    using f(1) arc_read(3)
    by (cases "create_workspace arc_new arc_meta")
      (simp add: service_create_def workspace_id_def Let_def bindM_apply on_fs_def on_meta_def focusM_apply catchM_apply
        retM_apply copy_spec_def demo_ws_def default_spec_def arc_new_def)
  have i: "ws_id arc_new = ''ws_cd''" "snap_workspace_id arc_snap = ''w1''" by (simp_all add: arc_new_def arc_snap_def)
  show ?thesis
    using arc_read(1,2) c f(2,3) w e i
    by (simp add: snapshot_restore_def service_get_def bindM_apply on_fs_def on_meta_def focusM_apply catchM_apply retM_apply
        arc_layout_def split: prod.split sum.split)
qed

section \<open>Snapshots\<close>

text \<open>C32: A snapshot gives back what it was taken of: restoring it makes a new workspace that holds
  exactly the directories and files the old one held at the time, byte by byte, without symbolic
  links and without the logs below the reserved directory, which is there again; the old workspace
  stays as it is. The archive formats are relied on to return the members that were packed.\<close>

theorem snapshot_restores_tree:
  assumes "in_sync (lay_workspaces lay) s" and "apart (lay_workspaces lay) (lay_snapshots lay)" and "slash \<notin> set hex"
    and "snapshot_create ar lay hex now wid name s = (Inr snap, s1)"
    and "snapshot_restore ar lay hex' now' later (snap_id snap) name' md s1 = (Inr ws, s2)"
    and "ar_unpack ar (ar_pack ar (archive_members (st_fs s) (lay_workspaces lay @ [wid]))) =
      (archive_members (st_fs s) (lay_workspaces lay @ [wid]), None)"
  shows "ws_id ws \<noteq> wid \<and>
    (\<forall>q. q \<noteq> [] \<longrightarrow> look (st_fs s2) (lay_workspaces lay @ ws_id ws # q) =
      (if prefix q logs then Some Dir else kept_node (st_fs s) (lay_workspaces lay @ [wid]) q)) \<and>
    (\<forall>q. look (st_fs s2) (lay_workspaces lay @ wid # q) = look (st_fs s) (lay_workspaces lay @ wid # q))"
  using assms by (rule snapshot_then_restore)

theorem snapshot_restores_tree_witness:
  "\<exists>s :: stores. look (st_fs s) (demo_base @ [''ws_cd'', ''src'', ''a.py'']) = Some (File [112]) \<and>
     look (st_fs s) (demo_base @ [''ws_cd'', ''evil'']) = None \<and>
     look (st_fs s) (demo_base @ [''w1'', ''evil'']) = Some (Link ''/etc'')"
proof -
  let ?s1 = "\<lparr>st_meta = arc_meta, st_fs = arc_fs1\<rparr>"
  let ?r = "snapshot_restore arc_archiver arc_layout ''cd'' demo_time demo_time (snap_id arc_snap) None None ?s1"
  have r: "?r = (Inr arc_new, snd ?r)" using arc_restore by (auto intro!: prod_eqI simp: arc_snap_def)
  have "in_sync (lay_workspaces arc_layout) arc_stores" "apart (lay_workspaces arc_layout) (lay_snapshots arc_layout)"
    "slash \<notin> set ''ab''" using arc_sync by (auto simp: arc_layout_def apart_def demo_base_def slash_def)
  moreover have "ar_unpack arc_archiver (ar_pack arc_archiver (archive_members (st_fs arc_stores) (lay_workspaces arc_layout @ [''w1'']))) =
      (archive_members (st_fs arc_stores) (lay_workspaces arc_layout @ [''w1'']), None)"
    by (simp add: arc_archiver_def arc_stores_def arc_layout_def)
  ultimately have t: "\<forall>q. q \<noteq> [] \<longrightarrow> look (st_fs (snd ?r)) (demo_base @ ''ws_cd'' # q) =
      (if prefix q logs then Some Dir else kept_node arc_fs (demo_base @ [''w1'']) q)"
    "\<forall>q. look (st_fs (snd ?r)) (demo_base @ ''w1'' # q) = look arc_fs (demo_base @ ''w1'' # q)"
    using snapshot_restores_tree [OF _ _ _ arc_create r] by (simp_all add: arc_new_def arc_layout_def arc_stores_def)
  have k: "kept_node arc_fs (demo_base @ [''w1'']) [''src'', ''a.py''] = Some (File [112])"
    "kept_node arc_fs (demo_base @ [''w1'']) [''evil''] = None"
    "\<not> prefix [''src'', ''a.py''] logs" "\<not> prefix [''evil''] logs"
    "look arc_fs (demo_base @ [''w1'', ''evil'']) = Some (Link ''/etc'')" by code_simp+
  have "look (st_fs (snd ?r)) (demo_base @ [''ws_cd'', ''src'', ''a.py'']) = Some (File [112])"
    "look (st_fs (snd ?r)) (demo_base @ [''ws_cd'', ''evil'']) = None"
    "look (st_fs (snd ?r)) (demo_base @ [''w1'', ''evil'']) = Some (Link ''/etc'')"
    using k t(1) [rule_format, of "[''src'', ''a.py'']"] t(1) [rule_format, of "[''evil'']"] t(2) [rule_format, of "[''evil'']"]
    by simp_all
  then show ?thesis by blast
qed

section \<open>Artifacts\<close>


definition arc_art :: artifact where
  "arc_art = \<lparr>art_id = ''art_ef'', art_workspace_id = ''w1'', art_path = ''src/a.py'', art_size_bytes = 1,
     art_content_type = Some ''text/plain'', art_created_at = demo_time\<rparr>"

lemma arc_export: "fst (artifact_export (\<lambda>n. Some ''text/plain'') arc_layout ''ef'' demo_time ''w1'' ''src/a.py'' None arc_stores) =
    Inr arc_art"
proof -
  have g: "get_workspace ''w1'' demo_store = (Inr (demo_ws ''w1''), demo_store)"
    by (simp add: demo_store_eval get_workspace_apply migrate_def empty_db_def tbl_find_def workspace_row_def demo_ws_def
      row_to_workspace_def op_simps required_ts_isoformat parse_workspace_status_str [of WsReady, simplified])
  have e: "export_source demo_base ''w1'' ''src/a.py'' arc_fs = (Inr (demo_base @ [''w1'', ''src'', ''a.py''], ''src/a.py''), arc_fs)"
    by code_simp
  have x: "fst (store_export (\<lambda>n. Some ''text/plain'') [''data'', ''artifacts''] ''ef'' demo_time ''w1'' (demo_base @ [''w1'', ''src'', ''a.py''])
      ''src/a.py'' None arc_fs) = Inr arc_art" by code_simp
  have "create_artifact arc_art demo_store = (Inr (), snd (create_artifact arc_art demo_store))"
    by (simp add: arc_art_def create_artifact_def artifact_row_def insert_art_def arc_insert)
  with g e x show ?thesis
    by (auto simp: artifact_export_def service_get_def bindM_apply on_meta_def on_fs_def focusM_apply arc_stores_def arc_layout_def
        catchM_apply retM_apply split: prod.splits)
qed


end
