(* ===== verification/Wire.thy ===== *)
theory Wire
  imports Artifacts Pool Execution
begin

text \<open>
  The JSON form of the models (\<open>model_dump(mode="json")\<close> and \<open>model_validate\<close> of
  \<open>forge/models.py\<close> and of the bodies in \<open>forge/server/routes/files.py\<close>), one printer and one reader
  per model, and numbers as text. A reader gives \<open>None\<close> where pydantic raises \<open>ValidationError\<close>.
\<close>

section \<open>What can be sent\<close>

text \<open>A \<open>str\<close> can be encoded when it holds no surrogates; a name is given by its bytes.\<close>

definition name_ok :: "string \<Rightarrow> bool" where
  "name_ok s \<longleftrightarrow> utf8_decode (map (\<lambda>c. byte_of (of_char c)) s) \<noteq> None"

fun json_ok :: "json \<Rightarrow> bool" where
  "json_ok (JStr s) = name_ok s"
| "json_ok (JText u) = list_all scalar u"
| "json_ok (JArr xs) = list_all json_ok xs"
| "json_ok (JObj kvs) = list_all (\<lambda>kv. name_ok (fst kv) \<and> json_ok (snd kv)) kvs"
| "json_ok _ = True"

section \<open>Numbers and times as text\<close>

function nat_text :: "nat \<Rightarrow> string" where
  "nat_text n = (if n < 10 then [digit n] else nat_text (n div 10) @ [digit (n mod 10)])"
  by pat_completeness auto
termination
  by (relation "measure id") auto

declare nat_text.simps [simp del]

lemma nat_text_nonempty [simp]: "nat_text n \<noteq> []"
  by (subst nat_text.simps) simp

lemma num_from_nat_text: "num_from 0 (nat_text n) = Some n"
proof (induction n rule: nat_text.induct)
  case (1 n)
  show ?case
  proof (cases "n < 10")
    case True
    then show ?thesis by (subst nat_text.simps) simp
  next
    case False
    with 1 show ?thesis by (subst nat_text.simps) (simp add: num_from_append)
  qed
qed

definition digit_char :: "char \<Rightarrow> bool" where
  "digit_char c \<longleftrightarrow> digit_value c \<noteq> None"

lemma digit_char_digit [simp]: "n < 10 \<Longrightarrow> digit_char (digit n)"
  by (simp add: digit_char_def)

lemma nat_text_digits: "list_all digit_char (nat_text n)"
proof (induction n rule: nat_text.induct)
  case (1 n)
  then show ?case by (subst nat_text.simps) auto
qed

text \<open>\<open>str(i)\<close>, and the texts of that form read back.\<close>

definition int_text :: "int \<Rightarrow> string" where
  "int_text i = (if i < 0 then CHR ''-'' # nat_text (nat (- i)) else nat_text (nat i))"

definition text_int :: "string \<Rightarrow> int option" where
  "text_int s = (case s of [] \<Rightarrow> None
     | c # cs \<Rightarrow> (if c = CHR ''-'' then (if cs = [] then None else map_option (\<lambda>n. - int n) (num_from 0 cs))
                 else map_option int (num_from 0 s)))"

lemma not_digit [simp]: "\<not> digit_char (CHR ''-'')" "\<not> digit_char (CHR ''Z'')"
  by (simp_all add: digit_char_def digit_value_def)

lemma text_int_text [simp]: "text_int (int_text i) = Some i"
proof (cases "i < 0")
  case True
  then show ?thesis by (simp add: int_text_def text_int_def num_from_nat_text)
next
  case False
  obtain c cs where n: "nat_text (nat i) = c # cs" by (cases "nat_text (nat i)") auto
  then have "c \<noteq> CHR ''-''" using nat_text_digits [of "nat i"] by auto
  with False n num_from_nat_text [of "nat i"] show ?thesis by (simp add: int_text_def text_int_def)
qed

text \<open>A time: \<open>Z\<close> stands for the offset zero.\<close>

definition utc_suffix :: string where "utc_suffix = ''+00:00''"

definition time_text :: "datetime \<Rightarrow> string" where
  "time_text d = (if dt_tz d = Some 0 then isoformat (d\<lparr>dt_tz := None\<rparr>) @ ''Z'' else isoformat d)"

definition text_time :: "string \<Rightarrow> datetime option" where
  "text_time s = (if s \<noteq> [] \<and> last s = CHR ''Z'' then fromisoformat (butlast s @ utc_suffix) else fromisoformat s)"


lemma last_pad: "0 < k \<Longrightarrow> digit_char (last (pad k n))"
  by (cases k) auto

lemma last_isoformat: "digit_char (last (isoformat d))"
proof -
  have "pad (Suc k) n \<noteq> []" for k n by simp
  then have "pad k n \<noteq> []" if "0 < k" for k n using that by (cases k) auto
  then show ?thesis by (cases "dt_tz d") (simp_all add: isoformat_def iso_offset_def last_pad)
qed

lemma digit_0: "digit 0 = CHR ''0''"
  by code_simp

lemma isoformat_utc: "dt_tz d = Some 0 \<Longrightarrow> isoformat (d\<lparr>dt_tz := None\<rparr>) @ utc_suffix = isoformat d"
  by (simp add: isoformat_def iso_offset_def utc_suffix_def numeral_2_eq_2 digit_0)

lemma text_time_text [simp]:
  assumes "valid_datetime d"
  shows "text_time (time_text d) = Some d"
proof (cases "dt_tz d = Some 0")
  case True
  then show ?thesis using assms isoformat_utc [OF True]
    by (simp add: text_time_def time_text_def fromisoformat_isoformat)
next
  case False
  have "last (isoformat d) \<noteq> CHR ''Z''" using last_isoformat [of d] by auto
  with False show ?thesis using assms by (simp add: text_time_def time_text_def fromisoformat_isoformat)
qed

section \<open>Fields\<close>

fun as_int :: "json \<Rightarrow> int option" where
  "as_int (JInt i) = Some i"
| "as_int _ = None"

definition as_nat :: "json \<Rightarrow> nat option" where
  "as_nat j = (case as_int j of Some i \<Rightarrow> (if 0 \<le> i then Some (nat i) else None) | None \<Rightarrow> None)"

fun as_bool :: "json \<Rightarrow> bool option" where
  "as_bool (JBool b) = Some b"
| "as_bool _ = None"

fun as_text :: "json \<Rightarrow> ustr option" where
  "as_text (JText u) = Some u"
| "as_text (JStr s) = utf8_decode (map (\<lambda>c. byte_of (of_char c)) s)"
| "as_text _ = None"

definition opt_json :: "('a \<Rightarrow> json) \<Rightarrow> 'a option \<Rightarrow> json" where
  "opt_json enc v = (case v of None \<Rightarrow> JNull | Some x \<Rightarrow> enc x)"

definition as_opt :: "(json \<Rightarrow> 'a option) \<Rightarrow> json \<Rightarrow> 'a option option" where
  "as_opt dec j = (if j = JNull then Some None else map_option Some (dec j))"

fun read_all :: "(json \<Rightarrow> 'a option) \<Rightarrow> json list \<Rightarrow> 'a list option" where
  "read_all dec [] = Some []"
| "read_all dec (j # js) = do { x \<leftarrow> dec j; xs \<leftarrow> read_all dec js; Some (x # xs) }"

definition list_json :: "('a \<Rightarrow> json) \<Rightarrow> 'a list \<Rightarrow> json" where
  "list_json enc xs = JArr (map enc xs)"

definition as_list :: "(json \<Rightarrow> 'a option) \<Rightarrow> json \<Rightarrow> 'a list option" where
  "as_list dec j = (case j of JArr js \<Rightarrow> read_all dec js | _ \<Rightarrow> None)"

definition time_json :: "datetime \<Rightarrow> json" where "time_json d = JStr (time_text d)"

definition as_time :: "json \<Rightarrow> datetime option" where
  "as_time j = Option.bind (as_str j) text_time"

definition as_object :: "((string \<times> json) list \<Rightarrow> 'a option) \<Rightarrow> json \<Rightarrow> 'a option" where
  "as_object f j = (case j of JObj kvs \<Rightarrow> f kvs | _ \<Rightarrow> None)"

lemma as_nat_int [simp]: "as_nat (JInt (int n)) = Some n"
  by (simp add: as_nat_def)

lemma as_opt_json: "(\<And>x. v = Some x \<Longrightarrow> enc x \<noteq> JNull \<and> dec (enc x) = Some x) \<Longrightarrow> as_opt dec (opt_json enc v) = Some v"
  by (cases v) (auto simp: as_opt_def opt_json_def)

lemma as_list_json: "(\<And>x. x \<in> set xs \<Longrightarrow> dec (enc x) = Some x) \<Longrightarrow> as_list dec (list_json enc xs) = Some xs"
  by (induction xs) (auto simp: as_list_def list_json_def)

lemma as_time_json [simp]: "valid_datetime d \<Longrightarrow> as_time (time_json d) = Some d"
  by (simp add: as_time_def time_json_def)

lemma as_opt_int [simp]: "as_opt as_int (opt_json JInt v) = Some v"
  by (rule as_opt_json) simp

lemma as_opt_time [simp]: "(\<And>d. v = Some d \<Longrightarrow> valid_datetime d) \<Longrightarrow> as_opt as_time (opt_json time_json v) = Some v"
  by (rule as_opt_json) (simp, simp add: time_json_def)

lemma as_names [simp]: "as_list as_str (list_json JStr xs) = Some xs"
  by (rule as_list_json) simp

section \<open>Models\<close>

lemmas json_defs = as_object_def field_req_def field_or_def

text \<open>
  A creation time has the clock as its default; the printers write every field, so the readers ask
  for it.
\<close>

definition workspace_json :: "workspace \<Rightarrow> json" where
  "workspace_json w = JObj [(''id'', JStr (ws_id w)), (''spec'', spec_to_json (ws_spec w)),
     (''status'', JStr (workspace_status_str (ws_status w))), (''name'', json_opt_str (ws_name w)),
     (''metadata'', json_dict (ws_metadata w)), (''created_at'', time_json (ws_created_at w)),
     (''updated_at'', time_json (ws_updated_at w))]"

definition as_workspace :: "json \<Rightarrow> workspace option" where
  "as_workspace = as_object (\<lambda>o1.
     do { i \<leftarrow> field_req o1 ''id'' as_str;
          sp \<leftarrow> field_req o1 ''spec'' spec_of_json;
          st \<leftarrow> field_req o1 ''status'' (\<lambda>j. Option.bind (as_str j) parse_workspace_status);
          n \<leftarrow> field_or o1 ''name'' as_opt_str None;
          md \<leftarrow> field_or o1 ''metadata'' as_dict [];
          c \<leftarrow> field_req o1 ''created_at'' as_time;
          u \<leftarrow> field_req o1 ''updated_at'' as_time;
          Some \<lparr>ws_id = i, ws_spec = sp, ws_status = st, ws_name = n, ws_metadata = md,
                ws_created_at = c, ws_updated_at = u\<rparr> })"

definition execution_json :: "execution \<Rightarrow> json" where
  "execution_json x = JObj [(''id'', JStr (ex_id x)), (''workspace_id'', JStr (ex_workspace_id x)),
     (''environment_id'', json_opt_str (ex_environment_id x)), (''command'', list_json JStr (ex_command x)),
     (''shell'', JBool (ex_shell x)), (''status'', JStr (execution_status_str (ex_status x))),
     (''exit_code'', opt_json JInt (ex_exit_code x)), (''truncated'', JBool (ex_truncated x)),
     (''output_path'', json_opt_str (ex_output_path x)), (''started_at'', opt_json time_json (ex_started_at x)),
     (''finished_at'', opt_json time_json (ex_finished_at x)), (''idempotency_key'', json_opt_str (ex_idempotency_key x))]"

definition as_execution :: "json \<Rightarrow> execution option" where
  "as_execution = as_object (\<lambda>o1.
     do { i \<leftarrow> field_req o1 ''id'' as_str;
          w \<leftarrow> field_req o1 ''workspace_id'' as_str;
          e \<leftarrow> field_or o1 ''environment_id'' as_opt_str None;
          c \<leftarrow> field_req o1 ''command'' (as_list as_str);
          sh \<leftarrow> field_or o1 ''shell'' as_bool False;
          st \<leftarrow> field_or o1 ''status'' (\<lambda>j. Option.bind (as_str j) parse_execution_status) ExQueued;
          code \<leftarrow> field_or o1 ''exit_code'' (as_opt as_int) None;
          tr \<leftarrow> field_or o1 ''truncated'' as_bool False;
          p \<leftarrow> field_or o1 ''output_path'' as_opt_str None;
          s \<leftarrow> field_or o1 ''started_at'' (as_opt as_time) None;
          f \<leftarrow> field_or o1 ''finished_at'' (as_opt as_time) None;
          k \<leftarrow> field_or o1 ''idempotency_key'' as_opt_str None;
          Some \<lparr>ex_id = i, ex_workspace_id = w, ex_environment_id = e, ex_command = c, ex_shell = sh, ex_status = st,
                ex_exit_code = code, ex_truncated = tr, ex_output_path = p, ex_started_at = s, ex_finished_at = f,
                ex_idempotency_key = k\<rparr> })"

definition execution_result_json :: "execution_result \<Rightarrow> json" where
  "execution_result_json r = JObj [(''execution_id'', JStr (er_execution_id r)), (''output'', JText (er_output r)),
     (''exit_code'', JInt (er_exit_code r)), (''truncated'', JBool (er_truncated r)),
     (''output_path'', json_opt_str (er_output_path r)), (''duration_ms'', JInt (er_duration_ms r))]"

definition as_execution_result :: "json \<Rightarrow> execution_result option" where
  "as_execution_result = as_object (\<lambda>o1.
     do { i \<leftarrow> field_req o1 ''execution_id'' as_str;
          out \<leftarrow> field_req o1 ''output'' as_text;
          c \<leftarrow> field_req o1 ''exit_code'' as_int;
          tr \<leftarrow> field_or o1 ''truncated'' as_bool False;
          p \<leftarrow> field_or o1 ''output_path'' as_opt_str None;
          d \<leftarrow> field_req o1 ''duration_ms'' as_int;
          Some \<lparr>er_execution_id = i, er_output = out, er_exit_code = c, er_truncated = tr, er_output_path = p,
                er_duration_ms = d\<rparr> })"

definition snapshot_json :: "snapshot \<Rightarrow> json" where
  "snapshot_json s = JObj [(''id'', JStr (snap_id s)), (''workspace_id'', JStr (snap_workspace_id s)),
     (''name'', json_opt_str (snap_name s)), (''format'', JStr ''tar.zst''), (''size_bytes'', JInt (snap_size_bytes s)),
     (''parent_id'', json_opt_str (snap_parent_id s)), (''created_at'', time_json (snap_created_at s))]"

definition as_snapshot :: "json \<Rightarrow> snapshot option" where
  "as_snapshot = as_object (\<lambda>o1.
     do { i \<leftarrow> field_req o1 ''id'' as_str;
          w \<leftarrow> field_req o1 ''workspace_id'' as_str;
          n \<leftarrow> field_or o1 ''name'' as_opt_str None;
          f \<leftarrow> field_or o1 ''format'' (\<lambda>j. if j = JStr ''tar.zst'' then Some () else None) ();
          b \<leftarrow> field_or o1 ''size_bytes'' as_int 0;
          p \<leftarrow> field_or o1 ''parent_id'' as_opt_str None;
          c \<leftarrow> field_req o1 ''created_at'' as_time;
          Some \<lparr>snap_id = i, snap_workspace_id = w, snap_name = n, snap_size_bytes = b, snap_parent_id = p, snap_created_at = c\<rparr> })"

definition artifact_json :: "artifact \<Rightarrow> json" where
  "artifact_json a = JObj [(''id'', JStr (art_id a)), (''workspace_id'', JStr (art_workspace_id a)), (''path'', JStr (art_path a)),
     (''size_bytes'', JInt (art_size_bytes a)), (''content_type'', json_opt_str (art_content_type a)),
     (''created_at'', time_json (art_created_at a))]"

definition as_artifact :: "json \<Rightarrow> artifact option" where
  "as_artifact = as_object (\<lambda>o1.
     do { i \<leftarrow> field_req o1 ''id'' as_str;
          w \<leftarrow> field_req o1 ''workspace_id'' as_str;
          p \<leftarrow> field_req o1 ''path'' as_str;
          b \<leftarrow> field_req o1 ''size_bytes'' as_int;
          t \<leftarrow> field_or o1 ''content_type'' as_opt_str None;
          c \<leftarrow> field_req o1 ''created_at'' as_time;
          Some \<lparr>art_id = i, art_workspace_id = w, art_path = p, art_size_bytes = b, art_content_type = t, art_created_at = c\<rparr> })"

definition pool_stats_json :: "pool_stats \<Rightarrow> json" where
  "pool_stats_json s = JObj [(''image'', JStr (ps_image s)), (''idle'', JInt (int (ps_idle s))), (''in_use'', JInt (int (ps_in_use s))),
     (''total'', JInt (int (ps_total s))), (''max_size'', JInt (ps_max_size s)), (''min_idle'', JInt (ps_min_idle s)),
     (''total_leases'', JInt (int (ps_total_leases s))), (''total_lease_wait_ms'', JInt (ps_total_lease_wait_ms s)),
     (''total_health_kills'', JInt (int (ps_total_health_kills s)))]"

definition as_pool_stats :: "json \<Rightarrow> pool_stats option" where
  "as_pool_stats = as_object (\<lambda>o1.
     do { i \<leftarrow> field_req o1 ''image'' as_str;
          a \<leftarrow> field_req o1 ''idle'' as_nat;
          b \<leftarrow> field_req o1 ''in_use'' as_nat;
          t \<leftarrow> field_req o1 ''total'' as_nat;
          mx \<leftarrow> field_req o1 ''max_size'' as_int;
          mn \<leftarrow> field_req o1 ''min_idle'' as_int;
          l \<leftarrow> field_or o1 ''total_leases'' as_nat 0;
          w \<leftarrow> field_or o1 ''total_lease_wait_ms'' as_int 0;
          k \<leftarrow> field_or o1 ''total_health_kills'' as_nat 0;
          Some \<lparr>ps_image = i, ps_idle = a, ps_in_use = b, ps_total = t, ps_max_size = mx, ps_min_idle = mn,
                ps_total_leases = l, ps_total_lease_wait_ms = w, ps_total_health_kills = k\<rparr> })"

definition list_entry_json :: "file_list_entry \<Rightarrow> json" where
  "list_entry_json e = JObj [(''name'', JStr (fle_name e)), (''path'', JStr (fle_path e)), (''is_dir'', JBool (fle_is_dir e)),
     (''size_bytes'', JInt (int (fle_size_bytes e))), (''modified_at'', time_json (fle_modified_at e))]"

definition as_list_entry :: "json \<Rightarrow> file_list_entry option" where
  "as_list_entry = as_object (\<lambda>o1.
     do { n \<leftarrow> field_req o1 ''name'' as_str;
          p \<leftarrow> field_req o1 ''path'' as_str;
          d \<leftarrow> field_req o1 ''is_dir'' as_bool;
          b \<leftarrow> field_req o1 ''size_bytes'' as_nat;
          m \<leftarrow> field_req o1 ''modified_at'' as_time;
          Some \<lparr>fle_name = n, fle_path = p, fle_is_dir = d, fle_size_bytes = b, fle_modified_at = m\<rparr> })"

record file_read_result =
  frr_path :: string
  frr_content :: ustr
  frr_offset :: int
  frr_limit :: "int option"
  frr_total_lines :: nat
  frr_truncated :: bool

definition read_result_json :: "file_read_result \<Rightarrow> json" where
  "read_result_json r = JObj [(''path'', JStr (frr_path r)), (''content'', JText (frr_content r)), (''offset'', JInt (frr_offset r)),
     (''limit'', opt_json JInt (frr_limit r)), (''total_lines'', JInt (int (frr_total_lines r))), (''truncated'', JBool (frr_truncated r))]"

definition as_read_result :: "json \<Rightarrow> file_read_result option" where
  "as_read_result = as_object (\<lambda>o1.
     do { p \<leftarrow> field_req o1 ''path'' as_str;
          c \<leftarrow> field_req o1 ''content'' as_text;
          off \<leftarrow> field_req o1 ''offset'' as_int;
          lm \<leftarrow> field_req o1 ''limit'' (as_opt as_int);
          t \<leftarrow> field_req o1 ''total_lines'' as_nat;
          tr \<leftarrow> field_req o1 ''truncated'' as_bool;
          Some \<lparr>frr_path = p, frr_content = c, frr_offset = off, frr_limit = lm, frr_total_lines = t, frr_truncated = tr\<rparr> })"

definition grep_match_json :: "grep_match \<Rightarrow> json" where
  "grep_match_json m = JObj [(''path'', JStr (gm_path m)), (''line'', JInt (int (gm_line m))), (''text'', JText (gm_text m))]"

definition as_grep_match :: "json \<Rightarrow> grep_match option" where
  "as_grep_match = as_object (\<lambda>o1.
     do { p \<leftarrow> field_req o1 ''path'' as_str;
          l \<leftarrow> field_req o1 ''line'' as_nat;
          t \<leftarrow> field_req o1 ''text'' as_text;
          Some \<lparr>gm_path = p, gm_line = l, gm_text = t\<rparr> })"

definition upload_item_json :: "upload_item \<Rightarrow> json" where
  "upload_item_json i = JObj [(''path'', JStr (up_path i)), (''content_b64'', JStr (up_content_b64 i))]"

definition as_upload_item :: "json \<Rightarrow> upload_item option" where
  "as_upload_item = as_object (\<lambda>o1.
     do { p \<leftarrow> field_req o1 ''path'' as_str;
          c \<leftarrow> field_req o1 ''content_b64'' as_str;
          Some \<lparr>up_path = p, up_content_b64 = c\<rparr> })"

section \<open>Requests\<close>

definition exec_request_json :: "exec_request \<Rightarrow> json" where
  "exec_request_json r = JObj [(''command'', list_json JStr (rq_command r)), (''shell'', JBool (rq_shell r)),
     (''env'', json_dict (rq_env r)), (''timeout_seconds'', opt_json JFloat (rq_timeout_seconds r)),
     (''max_output_bytes'', opt_json JInt (rq_max_output_bytes r)), (''idempotency_key'', json_opt_str (rq_idempotency_key r))]"

definition as_exec_request :: "json \<Rightarrow> exec_request option" where
  "as_exec_request = as_object (\<lambda>o1.
     do { c \<leftarrow> field_req o1 ''command'' (as_list as_str);
          sh \<leftarrow> field_or o1 ''shell'' as_bool False;
          e \<leftarrow> field_or o1 ''env'' as_dict [];
          t \<leftarrow> field_or o1 ''timeout_seconds'' as_opt_float None;
          m \<leftarrow> field_or o1 ''max_output_bytes'' (as_opt as_int) None;
          k \<leftarrow> field_or o1 ''idempotency_key'' as_opt_str None;
          Some \<lparr>rq_command = c, rq_shell = sh, rq_env = e, rq_timeout_seconds = t, rq_max_output_bytes = m,
                rq_idempotency_key = k\<rparr> })"

definition as_create_workspace :: "json \<Rightarrow> (workspace_spec \<times> string option \<times> dict) option" where
  "as_create_workspace = as_object (\<lambda>o1.
     do { s \<leftarrow> field_req o1 ''spec'' spec_of_json;
          n \<leftarrow> field_or o1 ''name'' as_opt_str None;
          m \<leftarrow> field_or o1 ''metadata'' as_dict [];
          Some (s, n, m) })"

definition as_file_write :: "json \<Rightarrow> (string \<times> ustr) option" where
  "as_file_write = as_object (\<lambda>o1.
     do { p \<leftarrow> field_req o1 ''path'' as_str; c \<leftarrow> field_req o1 ''content'' as_text; Some (p, c) })"

definition as_file_edit :: "json \<Rightarrow> (string \<times> ustr \<times> ustr \<times> bool) option" where
  "as_file_edit = as_object (\<lambda>o1.
     do { p \<leftarrow> field_req o1 ''path'' as_str;
          a \<leftarrow> field_req o1 ''old_string'' as_text;
          b \<leftarrow> field_req o1 ''new_string'' as_text;
          r \<leftarrow> field_or o1 ''replace_all'' as_bool False;
          Some (p, a, b, r) })"

definition as_snapshot_create :: "json \<Rightarrow> string option option" where
  "as_snapshot_create = as_object (\<lambda>o1. field_or o1 ''name'' as_opt_str None)"

definition as_snapshot_restore :: "json \<Rightarrow> (string option \<times> dict) option" where
  "as_snapshot_restore = as_object (\<lambda>o1.
     do { n \<leftarrow> field_or o1 ''name'' as_opt_str None; m \<leftarrow> field_or o1 ''metadata'' as_dict []; Some (n, m) })"

definition as_artifact_export :: "json \<Rightarrow> (string \<times> string option) option" where
  "as_artifact_export = as_object (\<lambda>o1.
     do { p \<leftarrow> field_req o1 ''path'' as_str; t \<leftarrow> field_or o1 ''content_type'' as_opt_str None; Some (p, t) })"

definition as_upload_request :: "json \<Rightarrow> upload_item list option" where
  "as_upload_request = as_object (\<lambda>o1. field_or o1 ''items'' (as_list as_upload_item) [])"

definition as_download_request :: "json \<Rightarrow> string list option" where
  "as_download_request = as_object (\<lambda>o1. field_or o1 ''paths'' (as_list as_str) [])"

section \<open>What is printed is read back\<close>

text \<open>A model whose times are times can be read back from its JSON form.\<close>

definition workspace_ok :: "workspace \<Rightarrow> bool" where
  "workspace_ok w \<longleftrightarrow> valid_datetime (ws_created_at w) \<and> valid_datetime (ws_updated_at w)"

definition opt_time_ok :: "datetime option \<Rightarrow> bool" where
  "opt_time_ok v \<longleftrightarrow> (case v of None \<Rightarrow> True | Some d \<Rightarrow> valid_datetime d)"

definition execution_ok :: "execution \<Rightarrow> bool" where
  "execution_ok x \<longleftrightarrow> opt_time_ok (ex_started_at x) \<and> opt_time_ok (ex_finished_at x)"

lemma as_opt_time_ok [simp]: "opt_time_ok v \<Longrightarrow> as_opt as_time (opt_json time_json v) = Some v"
  by (rule as_opt_time) (simp add: opt_time_ok_def)

lemma as_opt_float_json [simp]: "as_opt_float (opt_json JFloat v) = Some v"
  by (cases v) (simp_all add: opt_json_def)

lemma workspace_json_back [simp]: "workspace_ok w \<Longrightarrow> as_workspace (workspace_json w) = Some w"
  by (simp add: as_workspace_def workspace_json_def workspace_ok_def json_defs)

lemma execution_json_back [simp]: "execution_ok x \<Longrightarrow> as_execution (execution_json x) = Some x"
  by (simp add: as_execution_def execution_json_def execution_ok_def json_defs)

lemma execution_result_json_back [simp]: "as_execution_result (execution_result_json r) = Some r"
  by (simp add: as_execution_result_def execution_result_json_def json_defs)

lemma snapshot_json_back [simp]: "valid_datetime (snap_created_at s) \<Longrightarrow> as_snapshot (snapshot_json s) = Some s"
  by (simp add: as_snapshot_def snapshot_json_def json_defs)

lemma artifact_json_back [simp]: "valid_datetime (art_created_at a) \<Longrightarrow> as_artifact (artifact_json a) = Some a"
  by (simp add: as_artifact_def artifact_json_def json_defs)

lemma pool_stats_json_back [simp]: "as_pool_stats (pool_stats_json s) = Some s"
  by (simp add: as_pool_stats_def pool_stats_json_def json_defs)

lemma list_entry_json_back [simp]: "valid_datetime (fle_modified_at e) \<Longrightarrow> as_list_entry (list_entry_json e) = Some e"
  by (simp add: as_list_entry_def list_entry_json_def json_defs)

lemma read_result_json_back [simp]: "as_read_result (read_result_json r) = Some r"
  by (simp add: as_read_result_def read_result_json_def json_defs)

lemma grep_match_json_back [simp]: "as_grep_match (grep_match_json m) = Some m"
  by (simp add: as_grep_match_def grep_match_json_def json_defs)

lemma upload_item_json_back [simp]: "as_upload_item (upload_item_json i) = Some i"
  by (simp add: as_upload_item_def upload_item_json_def json_defs)

lemma exec_request_json_back [simp]: "as_exec_request (exec_request_json r) = Some r"
  by (simp add: as_exec_request_def exec_request_json_def json_defs)

end
