(* ===== verification/Http_Server.thy ===== *)
theory Http_Server
  imports Wire
begin

text \<open>
  The HTTP daemon: the exception handlers of \<open>forge/server/app.py\<close>, the state of
  \<open>forge/server/deps.py\<close> and every route of \<open>forge/server/routes\<close> but the event stream. A URL is
  given by the segments of its path. What the web framework does (choosing a route, choosing an
  exception handler) is a parameter whose contract is the locale \<open>web_framework\<close>; what the host
  supplies during one request (identifiers, clocks, the operating system, messages) is the record
  \<open>host\<close>.
\<close>

section \<open>State\<close>

record host =
  h_layout :: layout
  h_os :: os_stat
  h_compile :: "string \<Rightarrow> (ustr \<Rightarrow> bool) option"
  h_guess :: "string \<Rightarrow> string option"
  h_archiver :: archiver
  h_hex :: string
  h_now :: datetime
  h_later :: datetime
  h_exec :: exec_ctx
  h_message :: "exn \<Rightarrow> string"
  h_version :: string

record forge_state =
  sv_world :: world
  sv_pool :: pool

type_synonym 'a forge_op = "(forge_state, exn, 'a) op"

definition in_world :: "'a world_op \<Rightarrow> 'a forge_op" where
  "in_world m = focusM sv_world (\<lambda>w s. s\<lparr>sv_world := w\<rparr>) m"

definition in_stores :: "'a svc_op \<Rightarrow> 'a forge_op" where
  "in_stores m = in_world (focusM w_stores (\<lambda>x w. w\<lparr>w_stores := x\<rparr>) m)"

definition in_files :: "'a fs_op \<Rightarrow> 'a forge_op" where
  "in_files m = in_stores (on_fs m)"

section \<open>Requests and responses\<close>

datatype http_method = MGet | MPost | MPut | MDelete

record http_request =
  req_method :: http_method
  req_path :: "string list"
  req_query :: dict
  req_json :: "json option"

text \<open>The body of a stream is what was sent before it ended, or broke off.\<close>

datatype http_body = NoBody | JsonBody json | TextBody string | StreamBody bytes bool

record http_response =
  resp_status :: nat
  resp_body :: http_body

definition server_error :: http_response where
  "server_error = \<lparr>resp_status = 500, resp_body = TextBody ''Internal Server Error''\<rparr>"

definition json_response :: "nat \<Rightarrow> json \<Rightarrow> http_response" where
  "json_response st j = (if json_ok j then \<lparr>resp_status = st, resp_body = JsonBody j\<rparr> else server_error)"

definition unprocessable :: http_response where
  "unprocessable = json_response 422 (JObj [(''detail'', JArr [])])"

definition not_found :: http_response where
  "not_found = json_response 404 (JObj [(''detail'', JStr ''Not Found'')])"

section \<open>Exception handlers\<close>

definition exception_handlers :: "(exn \<times> nat \<times> string) list" where
  "exception_handlers =
     [(NotFoundError, 404, ''not_found''), (PathEscapeError, 400, ''path_escape''),
      (WorkspaceError, 400, ''workspace_error''), (ConflictError, 409, ''conflict''),
      (PoolExhaustedError, 503, ''pool_exhausted''), (SnapshotError, 400, ''snapshot_error''),
      (ArtifactError, 400, ''artifact_error'')]"

type_synonym find_handler = "(exn \<times> nat \<times> string) list \<Rightarrow> exn \<Rightarrow> (nat \<times> string) option"

definition error_response :: "find_handler \<Rightarrow> host \<Rightarrow> exn \<Rightarrow> http_response" where
  "error_response fh h e =
     (case fh exception_handlers e of
        None \<Rightarrow> server_error
      | Some (st, kind) \<Rightarrow> json_response st (JObj [(''error'', JStr kind), (''message'', JStr (h_message h e))]))"

section \<open>Answering\<close>

type_synonym handler = "forge_state \<Rightarrow> http_response \<times> forge_state"

definition refuse :: "http_response \<Rightarrow> handler" where
  "refuse r = (\<lambda>s. (r, s))"

definition answer :: "find_handler \<Rightarrow> host \<Rightarrow> nat \<Rightarrow> ('a \<Rightarrow> json) \<Rightarrow> 'a forge_op \<Rightarrow> handler" where
  "answer fh h st enc m = (\<lambda>s. case m s of
     (Inl e, s') \<Rightarrow> (error_response fh h e, s')
   | (Inr v, s') \<Rightarrow> (json_response st (enc v), s'))"

definition answer_empty :: "find_handler \<Rightarrow> host \<Rightarrow> unit forge_op \<Rightarrow> handler" where
  "answer_empty fh h m = (\<lambda>s. case m s of
     (Inl e, s') \<Rightarrow> (error_response fh h e, s')
   | (Inr _, s') \<Rightarrow> (\<lparr>resp_status = 204, resp_body = NoBody\<rparr>, s'))"

definition with_body :: "http_request \<Rightarrow> (json \<Rightarrow> 'a option) \<Rightarrow> ('a \<Rightarrow> handler) \<Rightarrow> handler" where
  "with_body rq dec k = (case Option.bind (req_json rq) dec of None \<Rightarrow> refuse unprocessable | Some v \<Rightarrow> k v)"

definition with_query :: "http_request \<Rightarrow> string \<Rightarrow> (string \<Rightarrow> handler) \<Rightarrow> handler" where
  "with_query rq name k = (case map_of (req_query rq) name of None \<Rightarrow> refuse unprocessable | Some v \<Rightarrow> k v)"

text \<open>An integer parameter with a default and a lower bound.\<close>

definition with_int :: "http_request \<Rightarrow> string \<Rightarrow> int option \<Rightarrow> int \<Rightarrow> (int option \<Rightarrow> handler) \<Rightarrow> handler" where
  "with_int rq name dflt lower k =
     (case map_of (req_query rq) name of
        None \<Rightarrow> k dflt
      | Some t \<Rightarrow> (case text_int t of
          Some i \<Rightarrow> (if lower \<le> i then k (Some i) else refuse unprocessable)
        | None \<Rightarrow> refuse unprocessable))"

section \<open>Workspace routes\<close>

definition route_create_workspace :: "find_handler \<Rightarrow> host \<Rightarrow> http_request \<Rightarrow> handler" where
  "route_create_workspace fh h rq = with_body rq as_create_workspace (\<lambda>(spec, name, md).
     answer fh h 201 workspace_json
       (in_stores (service_create (lay_workspaces (h_layout h)) (h_hex h) (h_now h) spec name (Some md))))"

definition route_list_workspaces :: "find_handler \<Rightarrow> host \<Rightarrow> http_request \<Rightarrow> handler" where
  "route_list_workspaces fh h rq = answer fh h 200 (list_json workspace_json) (in_stores (service_list None None))"

definition route_get_workspace :: "find_handler \<Rightarrow> host \<Rightarrow> string \<Rightarrow> http_request \<Rightarrow> handler" where
  "route_get_workspace fh h wid rq = answer fh h 200 workspace_json (in_stores (service_get wid))"

definition route_delete_workspace :: "find_handler \<Rightarrow> host \<Rightarrow> string \<Rightarrow> http_request \<Rightarrow> handler" where
  "route_delete_workspace fh h wid rq =
     answer_empty fh h (in_stores (service_delete (lay_workspaces (h_layout h)) wid (h_later h)))"

section \<open>File routes\<close>

abbreviation base_of :: "host \<Rightarrow> path" where
  "base_of h \<equiv> lay_workspaces (h_layout h)"

definition read_result :: "string \<Rightarrow> int \<Rightarrow> int option \<Rightarrow> ustr \<times> nat \<times> bool \<Rightarrow> file_read_result" where
  "read_result path offset lmt = (\<lambda>(content, total, truncated).
     \<lparr>frr_path = path, frr_content = content, frr_offset = offset, frr_limit = lmt, frr_total_lines = total,
      frr_truncated = truncated\<rparr>)"

definition route_ls :: "find_handler \<Rightarrow> host \<Rightarrow> string \<Rightarrow> http_request \<Rightarrow> handler" where
  "route_ls fh h wid rq =
     answer fh h 200 (list_json list_entry_json)
       (in_files (ls (h_os h) (base_of h) wid (case map_of (req_query rq) ''path'' of None \<Rightarrow> ''.'' | Some p \<Rightarrow> p)))"

definition route_read_file :: "find_handler \<Rightarrow> host \<Rightarrow> string \<Rightarrow> http_request \<Rightarrow> handler" where
  "route_read_file fh h wid rq = with_query rq ''path'' (\<lambda>path.
     with_int rq ''offset'' (Some 0) 0 (\<lambda>offset. with_int rq ''limit'' None 1 (\<lambda>lmt.
       answer fh h 200 read_result_json
         (bindM (in_files (read_file (base_of h) wid path (the offset)
             (Some (case lmt of Some n \<Rightarrow> n | None \<Rightarrow> 2000)) MAX_READ_BYTES))
           (\<lambda>r. retM (read_result path (the offset) lmt r))))))"

definition route_write_file :: "find_handler \<Rightarrow> host \<Rightarrow> string \<Rightarrow> http_request \<Rightarrow> handler" where
  "route_write_file fh h wid rq = with_body rq as_file_write (\<lambda>(path, content).
     answer_empty fh h (in_files (write_file (base_of h) wid path content)))"

definition replacements_json :: "nat \<Rightarrow> json" where
  "replacements_json n = JObj [(''replacements'', JInt (int n))]"

definition route_edit_file :: "find_handler \<Rightarrow> host \<Rightarrow> string \<Rightarrow> http_request \<Rightarrow> handler" where
  "route_edit_file fh h wid rq = with_body rq as_file_edit (\<lambda>(path, old_string, new_string, replace_all).
     answer fh h 200 replacements_json (in_files (edit_file (base_of h) wid path old_string new_string replace_all)))"

definition paths_json :: "string list \<Rightarrow> json" where
  "paths_json ps = JObj [(''paths'', list_json JStr ps)]"

definition route_glob_files :: "find_handler \<Rightarrow> host \<Rightarrow> string \<Rightarrow> http_request \<Rightarrow> handler" where
  "route_glob_files fh h wid rq = with_query rq ''pattern'' (\<lambda>pattern.
     answer fh h 200 paths_json (in_files (glob_files (base_of h) wid pattern)))"

definition matches_json :: "grep_match list \<Rightarrow> json" where
  "matches_json ms = JObj [(''matches'', list_json grep_match_json ms)]"

definition route_grep_files :: "find_handler \<Rightarrow> host \<Rightarrow> string \<Rightarrow> http_request \<Rightarrow> handler" where
  "route_grep_files fh h wid rq = with_query rq ''pattern'' (\<lambda>pattern.
     answer fh h 200 matches_json (in_files (grep_files (h_compile h) (base_of h) wid pattern
       (map_of (req_query rq) ''path_glob'') MAX_GREP_MATCHES)))"

definition route_delete_file :: "find_handler \<Rightarrow> host \<Rightarrow> string \<Rightarrow> http_request \<Rightarrow> handler" where
  "route_delete_file fh h wid rq = with_query rq ''path'' (\<lambda>path.
     answer_empty fh h (in_files (delete_path (base_of h) wid path)))"

definition written_json :: "string list \<Rightarrow> json" where
  "written_json ps = JObj [(''written'', list_json JStr ps)]"

definition items_json :: "upload_item list \<Rightarrow> json" where
  "items_json is = JObj [(''items'', list_json upload_item_json is)]"

definition route_upload :: "find_handler \<Rightarrow> host \<Rightarrow> string \<Rightarrow> http_request \<Rightarrow> handler" where
  "route_upload fh h wid rq = with_body rq as_upload_request (\<lambda>items.
     answer fh h 200 written_json (in_files (upload_files (base_of h) wid items)))"

definition route_download :: "find_handler \<Rightarrow> host \<Rightarrow> string \<Rightarrow> http_request \<Rightarrow> handler" where
  "route_download fh h wid rq = with_body rq as_download_request (\<lambda>paths.
     answer fh h 200 items_json (in_files (download_files (base_of h) wid paths)))"

definition route_download_one :: "find_handler \<Rightarrow> host \<Rightarrow> string \<Rightarrow> http_request \<Rightarrow> handler" where
  "route_download_one fh h wid rq = with_body rq (as_object Some) (\<lambda>body.
     case map_of body ''path'' of
       Some (JStr path) \<Rightarrow> answer fh h 200 (\<lambda>is. upload_item_json (hd is)) (in_files (download_files (base_of h) wid [path]))
     | _ \<Rightarrow> refuse (json_response 422 (JObj [(''detail'', JStr ''path is required'')])))"

section \<open>Execution, snapshot, artifact and pool routes\<close>

definition route_create_execution :: "find_handler \<Rightarrow> host \<Rightarrow> string \<Rightarrow> http_request \<Rightarrow> handler" where
  "route_create_execution fh h wid rq = with_body rq as_exec_request (\<lambda>r.
     answer fh h 200 execution_result_json (in_world (exec_request_op (h_exec h) wid r)))"

definition route_list_executions :: "find_handler \<Rightarrow> host \<Rightarrow> string \<Rightarrow> http_request \<Rightarrow> handler" where
  "route_list_executions fh h wid rq = answer fh h 200 (list_json execution_json) (in_world (exec_list wid))"

definition route_get_execution :: "find_handler \<Rightarrow> host \<Rightarrow> string \<Rightarrow> string \<Rightarrow> http_request \<Rightarrow> handler" where
  "route_get_execution fh h wid eid rq = answer fh h 200 execution_json (in_world (exec_get eid))"

definition route_create_snapshot :: "find_handler \<Rightarrow> host \<Rightarrow> string \<Rightarrow> http_request \<Rightarrow> handler" where
  "route_create_snapshot fh h wid rq = with_body rq as_snapshot_create (\<lambda>name.
     answer fh h 201 snapshot_json (in_stores (snapshot_create (h_archiver h) (h_layout h) (h_hex h) (h_now h) wid name)))"

definition route_list_snapshots :: "find_handler \<Rightarrow> host \<Rightarrow> string \<Rightarrow> http_request \<Rightarrow> handler" where
  "route_list_snapshots fh h wid rq = answer fh h 200 (list_json snapshot_json) (in_stores (snapshot_list wid))"

definition route_get_snapshot :: "find_handler \<Rightarrow> host \<Rightarrow> string \<Rightarrow> http_request \<Rightarrow> handler" where
  "route_get_snapshot fh h sid rq = answer fh h 200 snapshot_json (in_stores (snapshot_get sid))"

definition route_restore_snapshot :: "find_handler \<Rightarrow> host \<Rightarrow> string \<Rightarrow> http_request \<Rightarrow> handler" where
  "route_restore_snapshot fh h sid rq = with_body rq as_snapshot_restore (\<lambda>(name, md).
     answer fh h 201 workspace_json (in_stores (snapshot_restore (h_archiver h) (h_layout h) (h_hex h) (h_now h) (h_later h)
       sid name (Some md))))"

definition route_export_artifact :: "find_handler \<Rightarrow> host \<Rightarrow> string \<Rightarrow> http_request \<Rightarrow> handler" where
  "route_export_artifact fh h wid rq = with_body rq as_artifact_export (\<lambda>(path, content_type).
     answer fh h 201 artifact_json (in_stores (artifact_export (h_guess h) (h_layout h) (h_hex h) (h_now h) wid path content_type)))"

definition route_list_artifacts :: "find_handler \<Rightarrow> host \<Rightarrow> string \<Rightarrow> http_request \<Rightarrow> handler" where
  "route_list_artifacts fh h wid rq = answer fh h 200 (list_json artifact_json) (in_stores (artifact_list wid))"

definition route_get_artifact :: "find_handler \<Rightarrow> host \<Rightarrow> string \<Rightarrow> http_request \<Rightarrow> handler" where
  "route_get_artifact fh h aid rq = answer fh h 200 artifact_json (in_stores (artifact_get aid))"

text \<open>
  Headers are written in Latin-1. The response has been started when the reader of the artifact
  raises, so the client sees a stream that breaks off.
\<close>

definition header_ok :: "string \<Rightarrow> bool" where
  "header_ok v = (case utf8_decode (map (\<lambda>c. byte_of (of_char c)) v) of None \<Rightarrow> False | Some u \<Rightarrow> list_all (\<lambda>c. c < 256) u)"

definition media_type :: "artifact \<Rightarrow> string" where
  "media_type art = (case art_content_type art of Some t \<Rightarrow> (if t = [] then ''application/octet-stream'' else t)
     | None \<Rightarrow> ''application/octet-stream'')"

definition route_download_artifact :: "find_handler \<Rightarrow> host \<Rightarrow> string \<Rightarrow> http_request \<Rightarrow> handler" where
  "route_download_artifact fh h aid rq = (\<lambda>s. case in_stores (artifact_get aid) s of
     (Inl e, s1) \<Rightarrow> (error_response fh h e, s1)
   | (Inr art, s1) \<Rightarrow> (case in_stores (artifact_get aid) s1 of
       (Inl e, s2) \<Rightarrow> (error_response fh h e, s2)
     | (Inr row, s2) \<Rightarrow>
         if \<not> (header_ok (media_type art) \<and> header_ok (base_name (art_path art))) then (server_error, s2)
         else (case in_files (store_read (lay_artifacts (h_layout h)) aid (base_name (art_path row))) s2 of
             (Inl e, s3) \<Rightarrow> (\<lparr>resp_status = 200, resp_body = StreamBody [] False\<rparr>, s3)
           | (Inr cs, s3) \<Rightarrow> (\<lparr>resp_status = 200, resp_body = StreamBody (concat cs) True\<rparr>, s3))))"

definition pool_stats_op :: "string option \<Rightarrow> pool_stats list forge_op" where
  "pool_stats_op img = (\<lambda>s. (Inr (pool_stats_of img (sv_pool s)), s))"

definition route_pool_status :: "find_handler \<Rightarrow> host \<Rightarrow> http_request \<Rightarrow> handler" where
  "route_pool_status fh h rq = answer fh h 200 (list_json pool_stats_json) (pool_stats_op (map_of (req_query rq) ''image''))"

definition route_healthz :: "find_handler \<Rightarrow> host \<Rightarrow> http_request \<Rightarrow> handler" where
  "route_healthz fh h rq = answer fh h 200
     (\<lambda>stats. JObj [(''status'', JStr ''ok''), (''version'', JStr (h_version h)), (''pool'', list_json pool_stats_json stats)])
     (pool_stats_op None)"

section \<open>The application\<close>

text \<open>A path template: literal segments and parameters.\<close>

datatype seg = Lit string | Par

fun match_segs :: "seg list \<Rightarrow> string list \<Rightarrow> string list option" where
  "match_segs [] [] = Some []"
| "match_segs (Lit l # ts) (x # xs) = (if l = x then match_segs ts xs else None)"
| "match_segs (Par # ts) (x # xs) = map_option (Cons x) (match_segs ts xs)"
| "match_segs _ _ = None"

type_synonym endpoint = "find_handler \<Rightarrow> host \<Rightarrow> string list \<Rightarrow> http_request \<Rightarrow> handler"

definition route_table :: "((http_method \<times> seg list) \<times> endpoint) list" where
  "route_table =
     [((MGet, [Lit ''healthz'']), \<lambda>fh h ps. route_healthz fh h),
      ((MPost, [Lit ''workspaces'']), \<lambda>fh h ps. route_create_workspace fh h),
      ((MGet, [Lit ''workspaces'']), \<lambda>fh h ps. route_list_workspaces fh h),
      ((MGet, [Lit ''workspaces'', Par]), \<lambda>fh h ps. route_get_workspace fh h (hd ps)),
      ((MDelete, [Lit ''workspaces'', Par]), \<lambda>fh h ps. route_delete_workspace fh h (hd ps)),
      ((MGet, [Lit ''workspaces'', Par, Lit ''files'']), \<lambda>fh h ps. route_ls fh h (hd ps)),
      ((MGet, [Lit ''workspaces'', Par, Lit ''files'', Lit ''read'']), \<lambda>fh h ps. route_read_file fh h (hd ps)),
      ((MPut, [Lit ''workspaces'', Par, Lit ''files'', Lit ''write'']), \<lambda>fh h ps. route_write_file fh h (hd ps)),
      ((MPost, [Lit ''workspaces'', Par, Lit ''files'', Lit ''edit'']), \<lambda>fh h ps. route_edit_file fh h (hd ps)),
      ((MGet, [Lit ''workspaces'', Par, Lit ''files'', Lit ''glob'']), \<lambda>fh h ps. route_glob_files fh h (hd ps)),
      ((MGet, [Lit ''workspaces'', Par, Lit ''files'', Lit ''grep'']), \<lambda>fh h ps. route_grep_files fh h (hd ps)),
      ((MDelete, [Lit ''workspaces'', Par, Lit ''files'']), \<lambda>fh h ps. route_delete_file fh h (hd ps)),
      ((MPost, [Lit ''workspaces'', Par, Lit ''files'', Lit ''upload'']), \<lambda>fh h ps. route_upload fh h (hd ps)),
      ((MPost, [Lit ''workspaces'', Par, Lit ''files'', Lit ''download'']), \<lambda>fh h ps. route_download fh h (hd ps)),
      ((MPost, [Lit ''workspaces'', Par, Lit ''files'', Lit ''download-one'']), \<lambda>fh h ps. route_download_one fh h (hd ps)),
      ((MPost, [Lit ''workspaces'', Par, Lit ''executions'']), \<lambda>fh h ps. route_create_execution fh h (hd ps)),
      ((MGet, [Lit ''workspaces'', Par, Lit ''executions'']), \<lambda>fh h ps. route_list_executions fh h (hd ps)),
      ((MGet, [Lit ''workspaces'', Par, Lit ''executions'', Par]), \<lambda>fh h ps. route_get_execution fh h (hd ps) (ps ! 1)),
      ((MPost, [Lit ''workspaces'', Par, Lit ''snapshots'']), \<lambda>fh h ps. route_create_snapshot fh h (hd ps)),
      ((MGet, [Lit ''workspaces'', Par, Lit ''snapshots'']), \<lambda>fh h ps. route_list_snapshots fh h (hd ps)),
      ((MGet, [Lit ''snapshots'', Par]), \<lambda>fh h ps. route_get_snapshot fh h (hd ps)),
      ((MPost, [Lit ''snapshots'', Par, Lit ''restore'']), \<lambda>fh h ps. route_restore_snapshot fh h (hd ps)),
      ((MPost, [Lit ''workspaces'', Par, Lit ''artifacts'']), \<lambda>fh h ps. route_export_artifact fh h (hd ps)),
      ((MGet, [Lit ''workspaces'', Par, Lit ''artifacts'']), \<lambda>fh h ps. route_list_artifacts fh h (hd ps)),
      ((MGet, [Lit ''artifacts'', Par]), \<lambda>fh h ps. route_get_artifact fh h (hd ps)),
      ((MGet, [Lit ''artifacts'', Par, Lit ''content'']), \<lambda>fh h ps. route_download_artifact fh h (hd ps)),
      ((MGet, [Lit ''pool'', Lit ''status'']), \<lambda>fh h ps. route_pool_status fh h)]"

type_synonym pick_route = "(http_method \<times> seg list) list \<Rightarrow> http_method \<Rightarrow> string list \<Rightarrow> (nat \<times> string list) option"

definition serve :: "pick_route \<Rightarrow> find_handler \<Rightarrow> host \<Rightarrow> http_request \<Rightarrow> handler" where
  "serve pick fh h rq =
     (case pick (map fst route_table) (req_method rq) (req_path rq) of
        None \<Rightarrow> refuse not_found
      | Some (i, ps) \<Rightarrow> snd (route_table ! i) fh h ps rq)"

section \<open>The contract of the web framework\<close>

text \<open>
  A segment that is sent and received as it is: it needs no quoting and is no step of a relative
  path. For such a path the first route that fits is called, with the segments in the places of its
  parameters. What is called for any other path is a route of the table as well. An exception
  goes to the handler of the nearest class in its method resolution order.
\<close>

definition plain_segment :: "string \<Rightarrow> bool" where
  "plain_segment x \<longleftrightarrow> x \<noteq> [] \<and> x \<noteq> dot \<and> x \<noteq> dotdot \<and> name_ok x \<and> list_all (\<lambda>c. c \<notin> {slash, CHR ''?'', CHR ''#'', CHR ''%''}) x"

fun first_route :: "nat \<Rightarrow> (http_method \<times> seg list) list \<Rightarrow> http_method \<Rightarrow> string list \<Rightarrow> (nat \<times> string list) option" where
  "first_route i [] m url = None"
| "first_route i ((m', t) # tab) m url =
     (case (if m' = m then match_segs t url else None) of Some ps \<Rightarrow> Some (i, ps) | None \<Rightarrow> first_route (Suc i) tab m url)"

fun nearest_handler :: "(exn \<times> nat \<times> string) list \<Rightarrow> exn list \<Rightarrow> (nat \<times> string) option" where
  "nearest_handler tab [] = None"
| "nearest_handler tab (c # cs) = (case map_of tab c of Some r \<Rightarrow> Some r | None \<Rightarrow> nearest_handler tab cs)"

locale web_framework =
  fixes pick :: pick_route and fh :: find_handler
  assumes pick_first: "list_all plain_segment url \<Longrightarrow> first_route 0 tab m url = Some r \<Longrightarrow> pick tab m url = Some r"
    and pick_in_table: "pick tab m url = Some (i, ps) \<Longrightarrow> i < length tab"
    and handler_nearest: "fh hs e = nearest_handler hs (mro e)"
begin

lemma serve_route:
  assumes "list_all plain_segment (req_path rq)"
    and "first_route 0 (map fst route_table) (req_method rq) (req_path rq) = Some (i, ps)"
  shows "serve pick fh h rq = snd (route_table ! i) fh h ps rq"
  using pick_first [OF assms] by (simp add: serve_def)

end

definition mro_handler :: find_handler where
  "mro_handler tab e = nearest_handler tab (mro e)"

lemma first_route_in_table: "first_route k tab m url = Some (i, ps) \<Longrightarrow> k \<le> i \<and> i < k + length tab"
  by (induction tab arbitrary: k) (fastforce split: prod.splits option.splits if_splits)+

interpretation plain_web: web_framework "first_route 0" mro_handler
  using first_route_in_table by unfold_locales (fastforce simp: mro_handler_def)+

end
