(* ===== verification/Http_Client.thy ===== *)
theory Http_Client
  imports Http_Server
begin

text \<open>
  The two transports of the SDK: \<open>forge/client/http_client.py\<close>, which turns a call into a request
  and the response into a result, and \<open>forge/client/local_client.py\<close>, which calls the services in
  the process. Both work on the state of the services; \<open>srv\<close> is the daemon. A started
  \<open>LocalClient\<close> is modelled; before \<open>start\<close> its calls fail an assertion.
\<close>

section \<open>Exchanging a request\<close>

definition request_ok :: "http_request \<Rightarrow> bool" where
  "request_ok rq \<longleftrightarrow> list_all name_ok (req_path rq) \<and> list_all (\<lambda>q. name_ok (snd q)) (req_query rq) \<and>
     (case req_json rq of None \<Rightarrow> True | Some j \<Rightarrow> json_ok j)"

text \<open>A request that holds surrogates cannot be encoded.\<close>

definition send :: "(http_request \<Rightarrow> handler) \<Rightarrow> http_request \<Rightarrow> http_response forge_op" where
  "send srv rq = (\<lambda>s. if request_ok rq then (case srv rq s of (r, s') \<Rightarrow> (Inr r, s')) else (Inl UnicodeError, s))"

definition http_get :: "string list \<Rightarrow> dict \<Rightarrow> http_request" where
  "http_get p q = \<lparr>req_method = MGet, req_path = p, req_query = q, req_json = None\<rparr>"

definition http_post :: "string list \<Rightarrow> json \<Rightarrow> http_request" where
  "http_post p j = \<lparr>req_method = MPost, req_path = p, req_query = [], req_json = Some j\<rparr>"

definition http_put :: "string list \<Rightarrow> json \<Rightarrow> http_request" where
  "http_put p j = \<lparr>req_method = MPut, req_path = p, req_query = [], req_json = Some j\<rparr>"

definition http_delete :: "string list \<Rightarrow> dict \<Rightarrow> http_request" where
  "http_delete p q = \<lparr>req_method = MDelete, req_path = p, req_query = q, req_json = None\<rparr>"

section \<open>Reading the response\<close>

definition ERROR_MAP :: "(string \<times> exn) list" where
  "ERROR_MAP =
     [(''not_found'', NotFoundError), (''path_escape'', PathEscapeError), (''workspace_error'', WorkspaceError),
      (''conflict'', ConflictError), (''pool_exhausted'', PoolExhaustedError), (''snapshot_error'', SnapshotError),
      (''artifact_error'', ArtifactError)]"

text \<open>A body that is JSON but no object, or a kind that is no hashable value, breaks the client.\<close>

definition raise_error :: "http_response \<Rightarrow> exn" where
  "raise_error r = (case resp_body r of
     JsonBody (JObj payload) \<Rightarrow> (case map_of payload ''error'' of
         Some (JStr kind) \<Rightarrow> (case map_of ERROR_MAP kind of Some c \<Rightarrow> c | None \<Rightarrow> ForgeError)
       | Some (JArr js) \<Rightarrow> PyException
       | Some (JObj kvs) \<Rightarrow> PyException
       | _ \<Rightarrow> ForgeError)
   | JsonBody _ \<Rightarrow> PyException
   | _ \<Rightarrow> ForgeError)"

definition check_ok :: "nat list \<Rightarrow> http_response \<Rightarrow> exn + json" where
  "check_ok expect r =
     (if resp_status r \<in> set expect then
        (if resp_status r = 204 then Inr JNull
         else (case resp_body r of JsonBody j \<Rightarrow> Inr j | _ \<Rightarrow> Inl ValueError))
      else Inl (raise_error r))"

definition call_model :: "(http_request \<Rightarrow> handler) \<Rightarrow> http_request \<Rightarrow> (json \<Rightarrow> 'a option) \<Rightarrow> 'a forge_op" where
  "call_model srv rq dec = bindM (send srv rq) (\<lambda>r. liftR (bindR (check_ok [200, 201] r) (\<lambda>j. of_opt ValidationError (dec j))))"

definition call_raw :: "(http_request \<Rightarrow> handler) \<Rightarrow> http_request \<Rightarrow> (json \<Rightarrow> 'a option) \<Rightarrow> 'a forge_op" where
  "call_raw srv rq dec = bindM (send srv rq) (\<lambda>r. liftR (bindR (check_ok [200, 201] r) (\<lambda>j. of_opt PyException (dec j))))"

definition call_unit :: "(http_request \<Rightarrow> handler) \<Rightarrow> http_request \<Rightarrow> unit forge_op" where
  "call_unit srv rq = bindM (send srv rq) (\<lambda>r. liftR (bindR (check_ok [204] r) (\<lambda>_. Inr ())))"

definition item_of :: "string \<Rightarrow> (json \<Rightarrow> 'a option) \<Rightarrow> json \<Rightarrow> 'a option" where
  "item_of k dec = as_object (\<lambda>o1. field_req o1 k dec)"

section \<open>The HTTP client\<close>

type_synonym server = "http_request \<Rightarrow> handler"

definition create_body :: "workspace_spec \<Rightarrow> string option \<Rightarrow> dict \<Rightarrow> json" where
  "create_body spec name md = JObj [(''spec'', spec_to_json spec), (''name'', json_opt_str name), (''metadata'', json_dict md)]"

definition http_create_workspace :: "server \<Rightarrow> workspace_spec \<Rightarrow> string option \<Rightarrow> dict \<Rightarrow> workspace forge_op" where
  "http_create_workspace srv spec name md = call_model srv (http_post [''workspaces''] (create_body spec name md)) as_workspace"

definition http_get_workspace :: "server \<Rightarrow> string \<Rightarrow> workspace forge_op" where
  "http_get_workspace srv wid = call_model srv (http_get [''workspaces'', wid] []) as_workspace"

definition http_list_workspaces :: "server \<Rightarrow> workspace list forge_op" where
  "http_list_workspaces srv = call_model srv (http_get [''workspaces''] []) (as_list as_workspace)"

definition http_delete_workspace :: "server \<Rightarrow> string \<Rightarrow> unit forge_op" where
  "http_delete_workspace srv wid = call_unit srv (http_delete [''workspaces'', wid] [])"

definition http_ls :: "server \<Rightarrow> string \<Rightarrow> string \<Rightarrow> file_list_entry list forge_op" where
  "http_ls srv wid path = call_model srv (http_get [''workspaces'', wid, ''files''] [(''path'', path)]) (as_list as_list_entry)"

definition http_read :: "server \<Rightarrow> string \<Rightarrow> string \<Rightarrow> int \<Rightarrow> int option \<Rightarrow> file_read_result forge_op" where
  "http_read srv wid path offset lmt =
     (let params = [(''path'', path), (''offset'', int_text offset)] @
            (case lmt of None \<Rightarrow> [] | Some n \<Rightarrow> [(''limit'', int_text n)])
      in call_model srv (http_get [''workspaces'', wid, ''files'', ''read''] params) as_read_result)"

definition http_write :: "server \<Rightarrow> string \<Rightarrow> string \<Rightarrow> ustr \<Rightarrow> unit forge_op" where
  "http_write srv wid path content = call_unit srv (http_put [''workspaces'', wid, ''files'', ''write'']
     (JObj [(''path'', JStr path), (''content'', JText content)]))"

definition http_edit :: "server \<Rightarrow> string \<Rightarrow> string \<Rightarrow> ustr \<Rightarrow> ustr \<Rightarrow> bool \<Rightarrow> nat forge_op" where
  "http_edit srv wid path old_string new_string replace_all =
     call_raw srv (http_post [''workspaces'', wid, ''files'', ''edit'']
       (JObj [(''path'', JStr path), (''old_string'', JText old_string), (''new_string'', JText new_string),
         (''replace_all'', JBool replace_all)])) (item_of ''replacements'' as_nat)"

definition http_glob :: "server \<Rightarrow> string \<Rightarrow> string \<Rightarrow> string list forge_op" where
  "http_glob srv wid pattern =
     call_raw srv (http_get [''workspaces'', wid, ''files'', ''glob''] [(''pattern'', pattern)]) (item_of ''paths'' (as_list as_str))"

definition http_grep :: "server \<Rightarrow> string \<Rightarrow> string \<Rightarrow> string option \<Rightarrow> grep_match list forge_op" where
  "http_grep srv wid pattern path_glob =
     (let params = [(''pattern'', pattern)] @ (case path_glob of None \<Rightarrow> [] | Some g \<Rightarrow> [(''path_glob'', g)])
      in call_raw srv (http_get [''workspaces'', wid, ''files'', ''grep''] params) (item_of ''matches'' (as_list as_grep_match)))"

definition http_delete_file :: "server \<Rightarrow> string \<Rightarrow> string \<Rightarrow> unit forge_op" where
  "http_delete_file srv wid path = call_unit srv (http_delete [''workspaces'', wid, ''files''] [(''path'', path)])"

definition http_upload_files :: "server \<Rightarrow> string \<Rightarrow> upload_item list \<Rightarrow> string list forge_op" where
  "http_upload_files srv wid items =
     call_raw srv (http_post [''workspaces'', wid, ''files'', ''upload''] (JObj [(''items'', list_json upload_item_json items)]))
       (item_of ''written'' (as_list as_str))"

definition http_download_files :: "server \<Rightarrow> string \<Rightarrow> string list \<Rightarrow> upload_item list forge_op" where
  "http_download_files srv wid paths =
     call_raw srv (http_post [''workspaces'', wid, ''files'', ''download''] (JObj [(''paths'', list_json JStr paths)]))
       (item_of ''items'' (as_list as_upload_item))"

definition http_exec :: "server \<Rightarrow> string \<Rightarrow> exec_request \<Rightarrow> execution_result forge_op" where
  "http_exec srv wid r = call_model srv (http_post [''workspaces'', wid, ''executions''] (exec_request_json r)) as_execution_result"

definition http_list_executions :: "server \<Rightarrow> string \<Rightarrow> execution list forge_op" where
  "http_list_executions srv wid = call_model srv (http_get [''workspaces'', wid, ''executions''] []) (as_list as_execution)"

definition http_get_execution :: "server \<Rightarrow> string \<Rightarrow> string \<Rightarrow> execution forge_op" where
  "http_get_execution srv wid eid = call_model srv (http_get [''workspaces'', wid, ''executions'', eid] []) as_execution"

definition http_create_snapshot :: "server \<Rightarrow> string \<Rightarrow> string option \<Rightarrow> snapshot forge_op" where
  "http_create_snapshot srv wid name =
     call_model srv (http_post [''workspaces'', wid, ''snapshots''] (JObj [(''name'', json_opt_str name)])) as_snapshot"

definition http_list_snapshots :: "server \<Rightarrow> string \<Rightarrow> snapshot list forge_op" where
  "http_list_snapshots srv wid = call_model srv (http_get [''workspaces'', wid, ''snapshots''] []) (as_list as_snapshot)"

definition http_restore_snapshot :: "server \<Rightarrow> string \<Rightarrow> string option \<Rightarrow> dict \<Rightarrow> workspace forge_op" where
  "http_restore_snapshot srv sid name md =
     call_model srv (http_post [''snapshots'', sid, ''restore''] (JObj [(''name'', json_opt_str name), (''metadata'', json_dict md)]))
       as_workspace"

definition http_export_artifact :: "server \<Rightarrow> string \<Rightarrow> string \<Rightarrow> string option \<Rightarrow> artifact forge_op" where
  "http_export_artifact srv wid path content_type =
     call_model srv (http_post [''workspaces'', wid, ''artifacts'']
       (JObj [(''path'', JStr path), (''content_type'', json_opt_str content_type)])) as_artifact"

text \<open>The bytes of a stream read to its end; a stream that breaks off is an error of the transport.\<close>

definition http_read_artifact :: "server \<Rightarrow> string \<Rightarrow> bytes forge_op" where
  "http_read_artifact srv aid = bindM (send srv (http_get [''artifacts'', aid, ''content''] [])) (\<lambda>r.
     if resp_status r \<noteq> 200 then raiseM (raise_error r)
     else (case resp_body r of StreamBody b True \<Rightarrow> retM b | _ \<Rightarrow> raiseM TransportError))"

definition http_pool_status :: "server \<Rightarrow> string option \<Rightarrow> pool_stats list forge_op" where
  "http_pool_status srv img =
     (let params = (case img of None \<Rightarrow> [] | Some i \<Rightarrow> [(''image'', i)])
      in call_model srv (http_get [''pool'', ''status''] params) (as_list as_pool_stats))"

section \<open>The local client\<close>

definition local_create_workspace :: "host \<Rightarrow> workspace_spec \<Rightarrow> string option \<Rightarrow> dict \<Rightarrow> workspace forge_op" where
  "local_create_workspace h spec name md = in_stores (service_create (base_of h) (h_hex h) (h_now h) spec name (Some md))"

definition local_get_workspace :: "string \<Rightarrow> workspace forge_op" where
  "local_get_workspace wid = in_stores (service_get wid)"

definition local_list_workspaces :: "workspace list forge_op" where
  "local_list_workspaces = in_stores (service_list None None)"

definition local_delete_workspace :: "host \<Rightarrow> string \<Rightarrow> unit forge_op" where
  "local_delete_workspace h wid = in_stores (service_delete (base_of h) wid (h_later h))"

definition local_ls :: "host \<Rightarrow> string \<Rightarrow> string \<Rightarrow> file_list_entry list forge_op" where
  "local_ls h wid path = in_files (ls (h_os h) (base_of h) wid path)"

definition local_read :: "host \<Rightarrow> string \<Rightarrow> string \<Rightarrow> int \<Rightarrow> int option \<Rightarrow> file_read_result forge_op" where
  "local_read h wid path offset lmt =
     bindM (in_files (read_file (base_of h) wid path offset (Some (case lmt of Some n \<Rightarrow> n | None \<Rightarrow> 2000)) MAX_READ_BYTES))
       (\<lambda>r. retM (read_result path offset lmt r))"

definition local_write :: "host \<Rightarrow> string \<Rightarrow> string \<Rightarrow> ustr \<Rightarrow> unit forge_op" where
  "local_write h wid path content = in_files (write_file (base_of h) wid path content)"

definition local_edit :: "host \<Rightarrow> string \<Rightarrow> string \<Rightarrow> ustr \<Rightarrow> ustr \<Rightarrow> bool \<Rightarrow> nat forge_op" where
  "local_edit h wid path old_string new_string replace_all =
     in_files (edit_file (base_of h) wid path old_string new_string replace_all)"

definition local_glob :: "host \<Rightarrow> string \<Rightarrow> string \<Rightarrow> string list forge_op" where
  "local_glob h wid pattern = in_files (glob_files (base_of h) wid pattern)"

definition local_grep :: "host \<Rightarrow> string \<Rightarrow> string \<Rightarrow> string option \<Rightarrow> grep_match list forge_op" where
  "local_grep h wid pattern path_glob = in_files (grep_files (h_compile h) (base_of h) wid pattern path_glob MAX_GREP_MATCHES)"

definition local_delete_file :: "host \<Rightarrow> string \<Rightarrow> string \<Rightarrow> unit forge_op" where
  "local_delete_file h wid path = in_files (delete_path (base_of h) wid path)"

definition local_upload_files :: "host \<Rightarrow> string \<Rightarrow> upload_item list \<Rightarrow> string list forge_op" where
  "local_upload_files h wid items = in_files (upload_files (base_of h) wid items)"

definition local_download_files :: "host \<Rightarrow> string \<Rightarrow> string list \<Rightarrow> upload_item list forge_op" where
  "local_download_files h wid paths = in_files (download_files (base_of h) wid paths)"

definition local_exec :: "host \<Rightarrow> string \<Rightarrow> exec_request \<Rightarrow> execution_result forge_op" where
  "local_exec h wid r = in_world (exec_request_op (h_exec h) wid r)"

definition local_list_executions :: "string \<Rightarrow> execution list forge_op" where
  "local_list_executions wid = in_world (exec_list wid)"

definition local_get_execution :: "string \<Rightarrow> string \<Rightarrow> execution forge_op" where
  "local_get_execution wid eid = in_world (exec_get eid)"

definition local_create_snapshot :: "host \<Rightarrow> string \<Rightarrow> string option \<Rightarrow> snapshot forge_op" where
  "local_create_snapshot h wid name =
     in_stores (snapshot_create (h_archiver h) (h_layout h) (h_hex h) (h_now h) wid name)"

definition local_list_snapshots :: "string \<Rightarrow> snapshot list forge_op" where
  "local_list_snapshots wid = in_stores (snapshot_list wid)"

definition local_restore_snapshot :: "host \<Rightarrow> string \<Rightarrow> string option \<Rightarrow> dict \<Rightarrow> workspace forge_op" where
  "local_restore_snapshot h sid name md =
     in_stores (snapshot_restore (h_archiver h) (h_layout h) (h_hex h) (h_now h) (h_later h) sid name (Some md))"

definition local_export_artifact :: "host \<Rightarrow> string \<Rightarrow> string \<Rightarrow> string option \<Rightarrow> artifact forge_op" where
  "local_export_artifact h wid path content_type =
     in_stores (artifact_export (h_guess h) (h_layout h) (h_hex h) (h_now h) wid path content_type)"

definition local_read_artifact :: "host \<Rightarrow> string \<Rightarrow> bytes forge_op" where
  "local_read_artifact h aid = bindM (in_stores (artifact_read (h_layout h) aid)) (\<lambda>cs. retM (concat cs))"

definition local_pool_status :: "string option \<Rightarrow> pool_stats list forge_op" where
  "local_pool_status img = pool_stats_op img"

section \<open>One call of the transport protocol\<close>

text \<open>The methods of \<open>ForgeTransport\<close> (\<open>forge/client/sdk.py\<close>) with their arguments, and their results.\<close>

datatype call =
    CreateWorkspace workspace_spec "string option" dict
  | GetWorkspace string
  | ListWorkspaces
  | DeleteWorkspace string
  | Ls string string
  | Read string string int "int option"
  | Write string string ustr
  | Edit string string ustr ustr bool
  | Glob string string
  | Grep string string "string option"
  | DeleteFile string string
  | Upload string "upload_item list"
  | Download string "string list"
  | Exec string exec_request
  | ListExecutions string
  | GetExecution string string
  | CreateSnapshot string "string option"
  | ListSnapshots string
  | RestoreSnapshot string "string option" dict
  | ExportArtifact string string "string option"
  | PoolStatus "string option"

datatype reply =
    RUnit
  | RWorkspace workspace
  | RWorkspaces "workspace list"
  | REntries "file_list_entry list"
  | RRead file_read_result
  | RCount nat
  | RPaths "string list"
  | RMatches "grep_match list"
  | RItems "upload_item list"
  | RResult execution_result
  | RExecution execution
  | RExecutions "execution list"
  | RSnapshot snapshot
  | RSnapshots "snapshot list"
  | RArtifact artifact
  | RStats "pool_stats list"

definition mapM :: "('a \<Rightarrow> 'b) \<Rightarrow> ('s, 'e, 'a) op \<Rightarrow> ('s, 'e, 'b) op" where
  "mapM f m = bindM m (\<lambda>x. retM (f x))"

fun http_call :: "server \<Rightarrow> call \<Rightarrow> reply forge_op" where
  "http_call srv (CreateWorkspace spec name md) = mapM RWorkspace (http_create_workspace srv spec name md)"
| "http_call srv (GetWorkspace wid) = mapM RWorkspace (http_get_workspace srv wid)"
| "http_call srv ListWorkspaces = mapM RWorkspaces (http_list_workspaces srv)"
| "http_call srv (DeleteWorkspace wid) = mapM (\<lambda>_. RUnit) (http_delete_workspace srv wid)"
| "http_call srv (Ls wid path) = mapM REntries (http_ls srv wid path)"
| "http_call srv (Read wid path offset lmt) = mapM RRead (http_read srv wid path offset lmt)"
| "http_call srv (Write wid path content) = mapM (\<lambda>_. RUnit) (http_write srv wid path content)"
| "http_call srv (Edit wid path a b r) = mapM RCount (http_edit srv wid path a b r)"
| "http_call srv (Glob wid pattern) = mapM RPaths (http_glob srv wid pattern)"
| "http_call srv (Grep wid pattern g) = mapM RMatches (http_grep srv wid pattern g)"
| "http_call srv (DeleteFile wid path) = mapM (\<lambda>_. RUnit) (http_delete_file srv wid path)"
| "http_call srv (Upload wid items) = mapM RPaths (http_upload_files srv wid items)"
| "http_call srv (Download wid paths) = mapM RItems (http_download_files srv wid paths)"
| "http_call srv (Exec wid r) = mapM RResult (http_exec srv wid r)"
| "http_call srv (ListExecutions wid) = mapM RExecutions (http_list_executions srv wid)"
| "http_call srv (GetExecution wid eid) = mapM RExecution (http_get_execution srv wid eid)"
| "http_call srv (CreateSnapshot wid name) = mapM RSnapshot (http_create_snapshot srv wid name)"
| "http_call srv (ListSnapshots wid) = mapM RSnapshots (http_list_snapshots srv wid)"
| "http_call srv (RestoreSnapshot sid name md) = mapM RWorkspace (http_restore_snapshot srv sid name md)"
| "http_call srv (ExportArtifact wid path ct) = mapM RArtifact (http_export_artifact srv wid path ct)"
| "http_call srv (PoolStatus img) = mapM RStats (http_pool_status srv img)"

fun local_call :: "host \<Rightarrow> call \<Rightarrow> reply forge_op" where
  "local_call h (CreateWorkspace spec name md) = mapM RWorkspace (local_create_workspace h spec name md)"
| "local_call h (GetWorkspace wid) = mapM RWorkspace (local_get_workspace wid)"
| "local_call h ListWorkspaces = mapM RWorkspaces local_list_workspaces"
| "local_call h (DeleteWorkspace wid) = mapM (\<lambda>_. RUnit) (local_delete_workspace h wid)"
| "local_call h (Ls wid path) = mapM REntries (local_ls h wid path)"
| "local_call h (Read wid path offset lmt) = mapM RRead (local_read h wid path offset lmt)"
| "local_call h (Write wid path content) = mapM (\<lambda>_. RUnit) (local_write h wid path content)"
| "local_call h (Edit wid path a b r) = mapM RCount (local_edit h wid path a b r)"
| "local_call h (Glob wid pattern) = mapM RPaths (local_glob h wid pattern)"
| "local_call h (Grep wid pattern g) = mapM RMatches (local_grep h wid pattern g)"
| "local_call h (DeleteFile wid path) = mapM (\<lambda>_. RUnit) (local_delete_file h wid path)"
| "local_call h (Upload wid items) = mapM RPaths (local_upload_files h wid items)"
| "local_call h (Download wid paths) = mapM RItems (local_download_files h wid paths)"
| "local_call h (Exec wid r) = mapM RResult (local_exec h wid r)"
| "local_call h (ListExecutions wid) = mapM RExecutions (local_list_executions wid)"
| "local_call h (GetExecution wid eid) = mapM RExecution (local_get_execution wid eid)"
| "local_call h (CreateSnapshot wid name) = mapM RSnapshot (local_create_snapshot h wid name)"
| "local_call h (ListSnapshots wid) = mapM RSnapshots (local_list_snapshots wid)"
| "local_call h (RestoreSnapshot sid name md) = mapM RWorkspace (local_restore_snapshot h sid name md)"
| "local_call h (ExportArtifact wid path ct) = mapM RArtifact (local_export_artifact h wid path ct)"
| "local_call h (PoolStatus img) = mapM RStats (local_pool_status img)"

end
