(* ===== verification/Transport_Laws.thy ===== *)
theory Transport_Laws
  imports Http_Client
begin

text \<open>
  A call over HTTP against the same call in the process: what the client makes of each response of
  the daemon, and one law per way of answering. They are proved once, for every web framework that
  keeps its contract.
\<close>

section \<open>Names that need no care\<close>

lemma utf8_decode_ascii: "list_all (\<lambda>c. of_char c < (128 :: nat)) s \<Longrightarrow>
    utf8_decode (map (\<lambda>c. byte_of (of_char c)) s) = Some (map of_char s)"
proof (induction s)
  case Nil
  show ?case by (subst utf8_decode.simps) simp
next
  case (Cons c s)
  then show ?case by (subst utf8_decode.simps) simp
qed

lemma name_ok_ascii: "list_all (\<lambda>c. of_char c < (128 :: nat)) s \<Longrightarrow> name_ok s"
  by (simp add: name_ok_def utf8_decode_ascii)

lemma name_ok_words [simp]:
  "name_ok ''workspaces''" "name_ok ''files''" "name_ok ''read''" "name_ok ''write''" "name_ok ''edit''" "name_ok ''glob''"
  "name_ok ''grep''" "name_ok ''upload''" "name_ok ''download''" "name_ok ''executions''" "name_ok ''snapshots''"
  "name_ok ''restore''" "name_ok ''artifacts''" "name_ok ''content''" "name_ok ''pool''" "name_ok ''status''"
  by (simp_all add: name_ok_ascii)

lemma name_ok_keys [simp]:
  "name_ok ''path''" "name_ok ''old_string''" "name_ok ''new_string''" "name_ok ''replace_all''" "name_ok ''items''"
  "name_ok ''paths''" "name_ok ''content_b64''" "name_ok ''name''" "name_ok ''metadata''" "name_ok ''content_type''"
  "name_ok ''spec''" "name_ok ''error''" "name_ok ''message''" "name_ok ''detail''"
  by (simp_all add: name_ok_ascii)

lemma plain_words [simp]:
  "plain_segment ''workspaces''" "plain_segment ''files''" "plain_segment ''read''" "plain_segment ''write''"
  "plain_segment ''edit''" "plain_segment ''glob''" "plain_segment ''grep''" "plain_segment ''upload''"
  "plain_segment ''download''" "plain_segment ''executions''" "plain_segment ''snapshots''" "plain_segment ''restore''"
  "plain_segment ''artifacts''" "plain_segment ''content''" "plain_segment ''pool''" "plain_segment ''status''"
  by (simp_all add: plain_segment_def dot_def dotdot_def slash_def)

lemma plain_name [simp]: "plain_segment x \<Longrightarrow> name_ok x"
  by (simp add: plain_segment_def)

lemma digit_char_ascii: "digit_char c \<Longrightarrow> of_char c < (128 :: nat)"
  by (auto simp: digit_char_def digit_value_def Let_def split: if_splits)

lemma name_ok_int [simp]: "name_ok (int_text i)"
proof (rule name_ok_ascii)
  have "list_all (\<lambda>c. of_char c < (128 :: nat)) (nat_text n)" for n
    using nat_text_digits [of n] by (auto simp: list_all_iff digit_char_ascii)
  then show "list_all (\<lambda>c. of_char c < (128 :: nat)) (int_text i)" by (simp add: int_text_def)
qed

section \<open>Errors\<close>

text \<open>What a caller of the HTTP client sees of an exception raised in the daemon.\<close>

definition client_sees :: "host \<Rightarrow> exn \<Rightarrow> exn" where
  "client_sees h e = (if name_ok (h_message h e) \<and> e \<in> set (map snd ERROR_MAP) then e else ForgeError)"

lemma mro_eval:
  "mro PyException = [PyException]" "mro ForgeError = [ForgeError, PyException]" "mro ConfigError = [ConfigError, ForgeError, PyException]"
  "mro NotFoundError = [NotFoundError, ForgeError, PyException]" "mro ConflictError = [ConflictError, ForgeError, PyException]"
  "mro WorkspaceError = [WorkspaceError, ForgeError, PyException]"
  "mro PathEscapeError = [PathEscapeError, WorkspaceError, ForgeError, PyException]"
  "mro RuntimeDriverError = [RuntimeDriverError, ForgeError, PyException]"
  "mro ContainerStartError = [ContainerStartError, RuntimeDriverError, ForgeError, PyException]"
  "mro ExecTimeoutError = [ExecTimeoutError, RuntimeDriverError, ForgeError, PyException]"
  "mro PoolExhaustedError = [PoolExhaustedError, ForgeError, PyException]" "mro PoolClosedError = [PoolClosedError, ForgeError, PyException]"
  "mro SnapshotError = [SnapshotError, ForgeError, PyException]" "mro ArtifactError = [ArtifactError, ForgeError, PyException]"
  "mro ValueError = [ValueError, PyException]" "mro UnicodeError = [UnicodeError, ValueError, PyException]"
  "mro ValidationError = [ValidationError, ValueError, PyException]" "mro OSError = [OSError, PyException]"
  "mro TimeoutError = [TimeoutError, OSError, PyException]" "mro RuntimeError = [RuntimeError, PyException]"
  "mro IntegrityError = [IntegrityError, PyException]" "mro DockerError = [DockerError, PyException]"
  "mro TarError = [TarError, PyException]" "mro ZstdError = [ZstdError, PyException]" "mro TransportError = [TransportError, PyException]"
  by (simp_all add: mro.simps)

lemma nearest_cases:
  "nearest_handler exception_handlers (mro e) = map_of exception_handlers e"
  by (cases e) (simp_all add: exception_handlers_def mro_eval)

text \<open>The table of the server and the table of the client belong together.\<close>

lemma tables_agree:
  "map_of exception_handlers e = Some (st, kind) \<Longrightarrow> map_of ERROR_MAP kind = Some e \<and> name_ok kind \<and> st \<notin> {200, 201, 204}"
  by (auto simp: exception_handlers_def ERROR_MAP_def name_ok_ascii split: if_splits)

lemma mapped_iff: "e \<in> set (map snd ERROR_MAP) \<longleftrightarrow> map_of exception_handlers e \<noteq> None"
  by (auto simp: exception_handlers_def ERROR_MAP_def)

context web_framework
begin

lemma error_seen: "resp_status (error_response fh h e) \<notin> {200, 201, 204} \<and> raise_error (error_response fh h e) = client_sees h e"
proof (cases "map_of exception_handlers e")
  case None
  then show ?thesis using mapped_iff [of e]
    by (simp add: error_response_def handler_nearest nearest_cases server_error_def raise_error_def client_sees_def)
next
  case (Some r)
  then obtain st kind where r: "map_of exception_handlers e = Some (st, kind)" by (cases r) auto
  with tables_agree [OF r] mapped_iff [of e] show ?thesis
    by (simp add: error_response_def handler_nearest nearest_cases json_response_def server_error_def raise_error_def client_sees_def)
qed

end

section \<open>Mirrored operations\<close>

text \<open>
  An operation over HTTP mirrors one in the process: the state is the same afterwards; an exception
  is seen as above; a result that can be written as JSON is the same.
\<close>

definition mirrors :: "host \<Rightarrow> ('a \<Rightarrow> bool) \<Rightarrow> 'a forge_op \<Rightarrow> 'a forge_op \<Rightarrow> bool" where
  "mirrors h good remote here \<longleftrightarrow> (\<forall>s. case here s of
     (Inl e, s') \<Rightarrow> remote s = (Inl (client_sees h e), s')
   | (Inr v, s') \<Rightarrow> good v \<longrightarrow> remote s = (Inr v, s'))"

lemma mirrorsI:
  assumes "\<And>s e s'. here s = (Inl e, s') \<Longrightarrow> remote s = (Inl (client_sees h e), s')"
    and "\<And>s v s'. here s = (Inr v, s') \<Longrightarrow> good v \<Longrightarrow> remote s = (Inr v, s')"
  shows "mirrors h good remote here"
  using assms by (auto simp: mirrors_def split: prod.split sum.split)

lemma mirrors_mapM:
  "mirrors h (\<lambda>v. good (f v)) remote here \<Longrightarrow> mirrors h good (mapM f remote) (mapM f here)"
  by (fastforce simp: mirrors_def mapM_def bindM_apply retM_apply split: prod.splits sum.splits)

context web_framework
begin

abbreviation srv :: "host \<Rightarrow> server" where "srv h \<equiv> serve pick fh h"

lemma mirrors_model:
  assumes "request_ok rq" and "srv h rq = answer fh h st enc m" and "st \<in> {200, 201}"
    and "\<And>v. good v \<Longrightarrow> json_ok (enc v) \<and> dec (enc v) = Some v"
  shows "mirrors h good (call_model (srv h) rq dec) m"
  using assms error_seen [of h]
  by (intro mirrorsI) (auto simp: call_model_def send_def bindM_apply liftR_apply answer_def check_ok_def json_response_def)

lemma mirrors_raw:
  assumes "request_ok rq" and "srv h rq = answer fh h st enc m" and "st \<in> {200, 201}"
    and "\<And>v. good v \<Longrightarrow> json_ok (enc v) \<and> dec (enc v) = Some v"
  shows "mirrors h good (call_raw (srv h) rq dec) m"
  using assms error_seen [of h]
  by (intro mirrorsI) (auto simp: call_raw_def send_def bindM_apply liftR_apply answer_def check_ok_def json_response_def)

lemma mirrors_unit:
  assumes "request_ok rq" and "srv h rq = answer_empty fh h m"
  shows "mirrors h good (call_unit (srv h) rq) m"
  using assms error_seen [of h]
  by (intro mirrorsI) (auto simp: call_unit_def send_def bindM_apply liftR_apply answer_empty_def check_ok_def)

end

section \<open>What can be sent and answered\<close>

definition text_ok :: "ustr \<Rightarrow> bool" where "text_ok u \<longleftrightarrow> list_all scalar u"

definition opt_name_ok :: "string option \<Rightarrow> bool" where
  "opt_name_ok v \<longleftrightarrow> (case v of None \<Rightarrow> True | Some n \<Rightarrow> name_ok n)"

text \<open>
  Calls whose arguments can be sent: identifiers that need no quoting, texts without surrogates, and
  a window that the route accepts.
\<close>

fun sendable :: "call \<Rightarrow> bool" where
  "sendable (CreateWorkspace spec name md) \<longleftrightarrow> json_ok (create_body spec name md)"
| "sendable (GetWorkspace wid) \<longleftrightarrow> plain_segment wid"
| "sendable ListWorkspaces \<longleftrightarrow> True"
| "sendable (DeleteWorkspace wid) \<longleftrightarrow> plain_segment wid"
| "sendable (Ls wid path) \<longleftrightarrow> plain_segment wid \<and> name_ok path"
| "sendable (Read wid path offset lmt) \<longleftrightarrow> plain_segment wid \<and> name_ok path \<and> 0 \<le> offset \<and>
     (case lmt of None \<Rightarrow> True | Some n \<Rightarrow> 1 \<le> n)"
| "sendable (Write wid path content) \<longleftrightarrow> plain_segment wid \<and> name_ok path \<and> text_ok content"
| "sendable (Edit wid path a b r) \<longleftrightarrow> plain_segment wid \<and> name_ok path \<and> text_ok a \<and> text_ok b"
| "sendable (Glob wid pattern) \<longleftrightarrow> plain_segment wid \<and> name_ok pattern"
| "sendable (Grep wid pattern g) \<longleftrightarrow> plain_segment wid \<and> name_ok pattern \<and> opt_name_ok g"
| "sendable (DeleteFile wid path) \<longleftrightarrow> plain_segment wid \<and> name_ok path"
| "sendable (Upload wid items) \<longleftrightarrow> plain_segment wid \<and> list_all (\<lambda>i. name_ok (up_path i) \<and> name_ok (up_content_b64 i)) items"
| "sendable (Download wid paths) \<longleftrightarrow> plain_segment wid \<and> list_all name_ok paths"
| "sendable (Exec wid r) \<longleftrightarrow> plain_segment wid \<and> json_ok (exec_request_json r)"
| "sendable (ListExecutions wid) \<longleftrightarrow> plain_segment wid"
| "sendable (GetExecution wid eid) \<longleftrightarrow> plain_segment wid \<and> plain_segment eid"
| "sendable (CreateSnapshot wid name) \<longleftrightarrow> plain_segment wid \<and> opt_name_ok name"
| "sendable (ListSnapshots wid) \<longleftrightarrow> plain_segment wid"
| "sendable (RestoreSnapshot sid name md) \<longleftrightarrow> plain_segment sid \<and> opt_name_ok name \<and> json_ok (json_dict md)"
| "sendable (ExportArtifact wid path ct) \<longleftrightarrow> plain_segment wid \<and> name_ok path \<and> opt_name_ok ct"
| "sendable (PoolStatus img) \<longleftrightarrow> opt_name_ok img"

text \<open>Answers that can be written as JSON: no surrogates, and times that are times.\<close>

fun reply_ok :: "reply \<Rightarrow> bool" where
  "reply_ok RUnit \<longleftrightarrow> True"
| "reply_ok (RWorkspace w) \<longleftrightarrow> workspace_ok w \<and> json_ok (workspace_json w)"
| "reply_ok (RWorkspaces ws) \<longleftrightarrow> list_all (\<lambda>w. workspace_ok w \<and> json_ok (workspace_json w)) ws"
| "reply_ok (REntries es) \<longleftrightarrow> list_all (\<lambda>e. valid_datetime (fle_modified_at e) \<and> json_ok (list_entry_json e)) es"
| "reply_ok (RRead r) \<longleftrightarrow> json_ok (read_result_json r)"
| "reply_ok (RCount n) \<longleftrightarrow> True"
| "reply_ok (RPaths ps) \<longleftrightarrow> list_all name_ok ps"
| "reply_ok (RMatches ms) \<longleftrightarrow> list_all (\<lambda>m. json_ok (grep_match_json m)) ms"
| "reply_ok (RItems is) \<longleftrightarrow> list_all (\<lambda>i. json_ok (upload_item_json i)) is"
| "reply_ok (RResult r) \<longleftrightarrow> json_ok (execution_result_json r)"
| "reply_ok (RExecution x) \<longleftrightarrow> execution_ok x \<and> json_ok (execution_json x)"
| "reply_ok (RExecutions xs) \<longleftrightarrow> list_all (\<lambda>x. execution_ok x \<and> json_ok (execution_json x)) xs"
| "reply_ok (RSnapshot s) \<longleftrightarrow> valid_datetime (snap_created_at s) \<and> json_ok (snapshot_json s)"
| "reply_ok (RSnapshots ss) \<longleftrightarrow> list_all (\<lambda>s. valid_datetime (snap_created_at s) \<and> json_ok (snapshot_json s)) ss"
| "reply_ok (RArtifact a) \<longleftrightarrow> valid_datetime (art_created_at a) \<and> json_ok (artifact_json a)"
| "reply_ok (RStats ss) \<longleftrightarrow> list_all (\<lambda>s. json_ok (pool_stats_json s)) ss"

lemma json_ok_opt [simp]: "json_ok (json_opt_str v) \<longleftrightarrow> opt_name_ok v"
  by (cases v) (simp_all add: json_opt_str_def opt_name_ok_def)

lemma json_ok_list [simp]: "json_ok (list_json enc xs) \<longleftrightarrow> list_all (\<lambda>x. json_ok (enc x)) xs"
  by (simp add: list_json_def list_all_iff)

lemma json_ok_text [simp]: "json_ok (JText u) \<longleftrightarrow> text_ok u"
  by (simp add: text_ok_def)

declare json_ok.simps(2) [simp del]

lemma as_list_all: "list_all (\<lambda>x. dec (enc x) = Some x) xs \<Longrightarrow> as_list dec (list_json enc xs) = Some xs"
  by (rule as_list_json) (simp add: list_all_iff)

lemma as_list_models [simp]:
  "list_all (\<lambda>w. workspace_ok w \<and> P w) ws \<Longrightarrow> as_list as_workspace (list_json workspace_json ws) = Some ws"
  "list_all (\<lambda>e. valid_datetime (fle_modified_at e) \<and> Q e) es \<Longrightarrow> as_list as_list_entry (list_json list_entry_json es) = Some es"
  "list_all (\<lambda>x. execution_ok x \<and> R x) xs \<Longrightarrow> as_list as_execution (list_json execution_json xs) = Some xs"
  "list_all (\<lambda>s. valid_datetime (snap_created_at s) \<and> T s) ss \<Longrightarrow> as_list as_snapshot (list_json snapshot_json ss) = Some ss"
  by (auto intro!: as_list_json simp: list_all_iff)

lemma as_list_items [simp]:
  "as_list as_grep_match (list_json grep_match_json ms) = Some ms"
  "as_list as_upload_item (list_json upload_item_json is) = Some is"
  "as_list as_pool_stats (list_json pool_stats_json ps) = Some ps"
  by (auto intro!: as_list_json)

section \<open>Every call\<close>

lemmas request_shapes = http_get_def http_post_def http_put_def http_delete_def

lemma request_fields [simp]:
  "req_path (http_get p q) = p" "req_query (http_get p q) = q" "req_json (http_get p q) = None"
  "req_path (http_delete p q) = p" "req_query (http_delete p q) = q" "req_json (http_delete p q) = None"
  "req_path (http_post p j) = p" "req_query (http_post p j) = []" "req_json (http_post p j) = Some j"
  "req_path (http_put p j) = p" "req_query (http_put p j) = []" "req_json (http_put p j) = Some j"
  by (simp_all add: request_shapes)

context web_framework
begin

lemma serve_eval:
  assumes "list_all plain_segment (req_path rq)"
  shows "srv h rq = (case first_route 0 (map fst route_table) (req_method rq) (req_path rq) of
    None \<Rightarrow> srv h rq | Some r \<Rightarrow> snd (route_table ! fst r) fh h (snd r) rq)"
  using serve_route [OF assms] by (auto split: option.split)

lemma served_root:
  "srv h (http_post [''workspaces''] j) = route_create_workspace fh h (http_post [''workspaces''] j)"
  "srv h (http_get [''workspaces''] q) = route_list_workspaces fh h (http_get [''workspaces''] q)"
  "srv h (http_get [''pool'', ''status''] q) = route_pool_status fh h (http_get [''pool'', ''status''] q)"
  by (subst serve_eval; simp add: request_shapes route_table_def)+

lemma served_workspace:
  assumes "plain_segment wid"
  shows
  "srv h (http_get [''workspaces'', wid] q) = route_get_workspace fh h wid (http_get [''workspaces'', wid] q)"
  "srv h (http_delete [''workspaces'', wid] q) = route_delete_workspace fh h wid (http_delete [''workspaces'', wid] q)"
  "srv h (http_get [''workspaces'', wid, ''files''] q) = route_ls fh h wid (http_get [''workspaces'', wid, ''files''] q)"
  "srv h (http_get [''workspaces'', wid, ''files'', ''read''] q) = route_read_file fh h wid (http_get [''workspaces'', wid, ''files'', ''read''] q)"
  "srv h (http_put [''workspaces'', wid, ''files'', ''write''] j) = route_write_file fh h wid (http_put [''workspaces'', wid, ''files'', ''write''] j)"
  "srv h (http_post [''workspaces'', wid, ''files'', ''edit''] j) = route_edit_file fh h wid (http_post [''workspaces'', wid, ''files'', ''edit''] j)"
  "srv h (http_get [''workspaces'', wid, ''files'', ''glob''] q) = route_glob_files fh h wid (http_get [''workspaces'', wid, ''files'', ''glob''] q)"
  "srv h (http_get [''workspaces'', wid, ''files'', ''grep''] q) = route_grep_files fh h wid (http_get [''workspaces'', wid, ''files'', ''grep''] q)"
  "srv h (http_delete [''workspaces'', wid, ''files''] q) = route_delete_file fh h wid (http_delete [''workspaces'', wid, ''files''] q)"
  "srv h (http_post [''workspaces'', wid, ''files'', ''upload''] j) = route_upload fh h wid (http_post [''workspaces'', wid, ''files'', ''upload''] j)"
  "srv h (http_post [''workspaces'', wid, ''files'', ''download''] j) = route_download fh h wid (http_post [''workspaces'', wid, ''files'', ''download''] j)"
  "srv h (http_post [''workspaces'', wid, ''executions''] j) = route_create_execution fh h wid (http_post [''workspaces'', wid, ''executions''] j)"
  "srv h (http_get [''workspaces'', wid, ''executions''] q) = route_list_executions fh h wid (http_get [''workspaces'', wid, ''executions''] q)"
  "srv h (http_post [''workspaces'', wid, ''snapshots''] j) = route_create_snapshot fh h wid (http_post [''workspaces'', wid, ''snapshots''] j)"
  "srv h (http_get [''workspaces'', wid, ''snapshots''] q) = route_list_snapshots fh h wid (http_get [''workspaces'', wid, ''snapshots''] q)"
  "srv h (http_post [''workspaces'', wid, ''artifacts''] j) = route_export_artifact fh h wid (http_post [''workspaces'', wid, ''artifacts''] j)"
  using assms by (subst serve_eval; simp add: request_shapes route_table_def)+

lemma served_others:
  assumes "plain_segment x"
  shows
  "plain_segment y \<Longrightarrow> srv h (http_get [''workspaces'', x, ''executions'', y] q) = route_get_execution fh h x y (http_get [''workspaces'', x, ''executions'', y] q)"
  "srv h (http_post [''snapshots'', x, ''restore''] j) = route_restore_snapshot fh h x (http_post [''snapshots'', x, ''restore''] j)"
  "srv h (http_get [''artifacts'', x, ''content''] q) = route_download_artifact fh h x (http_get [''artifacts'', x, ''content''] q)"
  using assms by (subst serve_eval; simp add: request_shapes route_table_def)+


lemmas served = served_root served_workspace served_others

lemma mirrors_create: "sendable (CreateWorkspace spec name md) \<Longrightarrow>
    mirrors h (\<lambda>w. reply_ok (RWorkspace w)) (http_create_workspace (srv h) spec name md) (local_create_workspace h spec name md)"
  unfolding http_create_workspace_def
  by (rule mirrors_model [where st = 201 and enc = workspace_json])
    (auto simp: served route_create_workspace_def with_body_def  as_create_workspace_def create_body_def json_defs
      local_create_workspace_def request_ok_def)

lemma mirrors_get: "plain_segment wid \<Longrightarrow>
    mirrors h (\<lambda>w. reply_ok (RWorkspace w)) (http_get_workspace (srv h) wid) (local_get_workspace wid)"
  unfolding http_get_workspace_def
  by (rule mirrors_model [where st = 200 and enc = workspace_json])
    (auto simp: served route_get_workspace_def  local_get_workspace_def request_ok_def)

lemma mirrors_list: "mirrors h (\<lambda>ws. reply_ok (RWorkspaces ws)) (http_list_workspaces (srv h)) local_list_workspaces"
  unfolding http_list_workspaces_def
  by (rule mirrors_model [where st = 200 and enc = "list_json workspace_json"])
    (auto simp: served route_list_workspaces_def local_list_workspaces_def request_ok_def  list_all_iff)

lemma mirrors_delete: "plain_segment wid \<Longrightarrow>
    mirrors h good (http_delete_workspace (srv h) wid) (local_delete_workspace h wid)"
  unfolding http_delete_workspace_def
  by (rule mirrors_unit) (auto simp: served route_delete_workspace_def local_delete_workspace_def request_ok_def )

lemma mirrors_ls: "sendable (Ls wid path) \<Longrightarrow> mirrors h (\<lambda>es. reply_ok (REntries es)) (http_ls (srv h) wid path) (local_ls h wid path)"
  unfolding http_ls_def
  by (rule mirrors_model [where st = 200 and enc = "list_json list_entry_json"])
    (auto simp: served route_ls_def local_ls_def request_ok_def  list_all_iff)

lemma mirrors_read: "sendable (Read wid path offset lmt) \<Longrightarrow>
    mirrors h (\<lambda>r. reply_ok (RRead r)) (http_read (srv h) wid path offset lmt) (local_read h wid path offset lmt)"
  unfolding http_read_def Let_def
  by (rule mirrors_model [where st = 200 and enc = read_result_json])
    (auto simp: served route_read_file_def with_query_def with_int_def local_read_def request_ok_def  split: option.splits)

lemma mirrors_write: "sendable (Write wid path content) \<Longrightarrow>
    mirrors h good (http_write (srv h) wid path content) (local_write h wid path content)"
  unfolding http_write_def
  by (rule mirrors_unit)
    (auto simp: served route_write_file_def with_body_def as_file_write_def json_defs local_write_def request_ok_def )

lemma mirrors_edit: "sendable (Edit wid path a b r) \<Longrightarrow>
    mirrors h (\<lambda>n. reply_ok (RCount n)) (http_edit (srv h) wid path a b r) (local_edit h wid path a b r)"
  unfolding http_edit_def
  by (rule mirrors_raw [where st = 200 and enc = replacements_json])
    (auto simp: served route_edit_file_def with_body_def as_file_edit_def json_defs local_edit_def request_ok_def 
      replacements_json_def item_of_def name_ok_ascii)

lemma mirrors_glob: "sendable (Glob wid pattern) \<Longrightarrow>
    mirrors h (\<lambda>ps. reply_ok (RPaths ps)) (http_glob (srv h) wid pattern) (local_glob h wid pattern)"
  unfolding http_glob_def
  by (rule mirrors_raw [where st = 200 and enc = paths_json])
    (auto simp: served route_glob_files_def with_query_def local_glob_def request_ok_def  paths_json_def item_of_def
      json_defs)

lemma mirrors_grep: "sendable (Grep wid pattern g) \<Longrightarrow>
    mirrors h (\<lambda>ms. reply_ok (RMatches ms)) (http_grep (srv h) wid pattern g) (local_grep h wid pattern g)"
  unfolding http_grep_def Let_def
  by (rule mirrors_raw [where st = 200 and enc = matches_json])
    (auto simp: served route_grep_files_def with_query_def local_grep_def request_ok_def  matches_json_def item_of_def
      json_defs opt_name_ok_def name_ok_ascii split: option.splits)

lemma mirrors_delete_file: "sendable (DeleteFile wid path) \<Longrightarrow>
    mirrors h good (http_delete_file (srv h) wid path) (local_delete_file h wid path)"
  unfolding http_delete_file_def
  by (rule mirrors_unit) (auto simp: served route_delete_file_def with_query_def local_delete_file_def request_ok_def )

lemma mirrors_upload: "sendable (Upload wid items) \<Longrightarrow>
    mirrors h (\<lambda>ps. reply_ok (RPaths ps)) (http_upload_files (srv h) wid items) (local_upload_files h wid items)"
  unfolding http_upload_files_def
  by (rule mirrors_raw [where st = 200 and enc = written_json])
    (auto simp: served route_upload_def with_body_def as_upload_request_def local_upload_files_def request_ok_def 
      written_json_def item_of_def json_defs upload_item_json_def name_ok_ascii list_all_iff as_list_items [unfolded upload_item_json_def])

lemma mirrors_download: "sendable (Download wid paths) \<Longrightarrow>
    mirrors h (\<lambda>is. reply_ok (RItems is)) (http_download_files (srv h) wid paths) (local_download_files h wid paths)"
  unfolding http_download_files_def
  by (rule mirrors_raw [where st = 200 and enc = items_json])
    (auto simp: served route_download_def with_body_def as_download_request_def local_download_files_def request_ok_def 
      items_json_def item_of_def json_defs)

lemma mirrors_exec: "sendable (Exec wid r) \<Longrightarrow> mirrors h (\<lambda>x. reply_ok (RResult x)) (http_exec (srv h) wid r) (local_exec h wid r)"
  unfolding http_exec_def
  by (rule mirrors_model [where st = 200 and enc = execution_result_json])
    (auto simp: served route_create_execution_def with_body_def local_exec_def request_ok_def)

lemma mirrors_list_executions: "plain_segment wid \<Longrightarrow>
    mirrors h (\<lambda>xs. reply_ok (RExecutions xs)) (http_list_executions (srv h) wid) (local_list_executions wid)"
  unfolding http_list_executions_def
  by (rule mirrors_model [where st = 200 and enc = "list_json execution_json"])
    (auto simp: served route_list_executions_def local_list_executions_def request_ok_def list_all_iff)

lemma mirrors_get_execution: "sendable (GetExecution wid eid) \<Longrightarrow>
    mirrors h (\<lambda>x. reply_ok (RExecution x)) (http_get_execution (srv h) wid eid) (local_get_execution wid eid)"
  unfolding http_get_execution_def
  by (rule mirrors_model [where st = 200 and enc = execution_json])
    (auto simp: served route_get_execution_def local_get_execution_def request_ok_def)

lemma mirrors_create_snapshot: "sendable (CreateSnapshot wid name) \<Longrightarrow>
    mirrors h (\<lambda>x. reply_ok (RSnapshot x)) (http_create_snapshot (srv h) wid name) (local_create_snapshot h wid name)"
  unfolding http_create_snapshot_def
  by (rule mirrors_model [where st = 201 and enc = snapshot_json])
    (auto simp: served route_create_snapshot_def with_body_def as_snapshot_create_def json_defs local_create_snapshot_def request_ok_def)

lemma mirrors_list_snapshots: "plain_segment wid \<Longrightarrow>
    mirrors h (\<lambda>xs. reply_ok (RSnapshots xs)) (http_list_snapshots (srv h) wid) (local_list_snapshots wid)"
  unfolding http_list_snapshots_def
  by (rule mirrors_model [where st = 200 and enc = "list_json snapshot_json"])
    (auto simp: served route_list_snapshots_def local_list_snapshots_def request_ok_def list_all_iff)

lemma mirrors_restore: "sendable (RestoreSnapshot sid name md) \<Longrightarrow>
    mirrors h (\<lambda>w. reply_ok (RWorkspace w)) (http_restore_snapshot (srv h) sid name md) (local_restore_snapshot h sid name md)"
  unfolding http_restore_snapshot_def
  by (rule mirrors_model [where st = 201 and enc = workspace_json])
    (auto simp: served route_restore_snapshot_def with_body_def as_snapshot_restore_def json_defs local_restore_snapshot_def request_ok_def)

lemma mirrors_export: "sendable (ExportArtifact wid path ct) \<Longrightarrow>
    mirrors h (\<lambda>a. reply_ok (RArtifact a)) (http_export_artifact (srv h) wid path ct) (local_export_artifact h wid path ct)"
  unfolding http_export_artifact_def
  by (rule mirrors_model [where st = 201 and enc = artifact_json])
    (auto simp: served route_export_artifact_def with_body_def as_artifact_export_def json_defs local_export_artifact_def request_ok_def)

lemma mirrors_pool: "sendable (PoolStatus img) \<Longrightarrow>
    mirrors h (\<lambda>ss. reply_ok (RStats ss)) (http_pool_status (srv h) img) (local_pool_status img)"
  unfolding http_pool_status_def Let_def
  by (rule mirrors_model [where st = 200 and enc = "list_json pool_stats_json"])
    (auto simp: served route_pool_status_def local_pool_status_def request_ok_def opt_name_ok_def split: option.splits)

lemmas mirrors_all = mirrors_create mirrors_get mirrors_list mirrors_delete mirrors_ls mirrors_read mirrors_write mirrors_edit
  mirrors_glob mirrors_grep mirrors_delete_file mirrors_upload mirrors_download mirrors_exec mirrors_list_executions
  mirrors_get_execution mirrors_create_snapshot mirrors_list_snapshots mirrors_restore mirrors_export mirrors_pool

lemma mirrors_call: "sendable c \<Longrightarrow> mirrors h reply_ok (http_call (srv h) c) (local_call h c)"
  by (cases c; simp only: http_call.simps local_call.simps; rule mirrors_mapM; rule mirrors_all; simp)

text \<open>An artifact whose header can be written is downloaded as it is read in the process.\<close>

lemma download_mirrors:
  assumes "plain_segment aid"
    and "in_stores (artifact_get aid) s = (Inr a, s)" and "header_ok (media_type a)" and "header_ok (base_name (art_path a))"
    and "local_read_artifact h aid s = (Inr b, s')"
  shows "http_read_artifact (srv h) aid s = (Inr b, s')"
proof -
  let ?p = "[''artifacts'', aid, ''content'']"
  have r: "request_ok (http_get ?p [])" using assms(1) by (simp add: request_ok_def)
  have sp: "in_stores (artifact_read (h_layout h) aid) s =
      bindM (in_stores (artifact_get aid)) (\<lambda>row. in_files (store_read (lay_artifacts (h_layout h)) aid (base_name (art_path row)))) s"
    by (simp add: artifact_read_def artifact_get_def in_stores_def in_world_def in_files_def bindM_apply focusM_apply on_meta_def on_fs_def
        split: prod.split sum.split)
  from assms(2,5) obtain cs where c: "in_files (store_read (lay_artifacts (h_layout h)) aid (base_name (art_path a))) s = (Inr cs, s')"
    "b = concat cs"
    by (auto simp: local_read_artifact_def bindM_apply sp retM_apply split: prod.splits sum.splits)
  show ?thesis using assms(2-4) c r assms(1)
    by (simp add: http_read_artifact_def bindM_apply send_def served route_download_artifact_def retM_apply)
qed

end

end
