(* ===== verification/Sdk.thy ===== *)
theory Sdk
  imports Transport_Laws
begin

text \<open>
  The SDK (\<open>forge/client/sdk.py\<close>) and the LangChain backend on top of it
  (\<open>forge/langchain/sandbox.py\<close>). The protocol \<open>ForgeTransport\<close> is a record of operations, with the
  two clients as its instances; a \<open>WorkspaceHandle\<close> is its workspace. The event loop of the
  caller is a flag: whether one is running.
\<close>

section \<open>The transport protocol\<close>

record 's transport =
  t_create_workspace :: "workspace_spec \<Rightarrow> string option \<Rightarrow> dict \<Rightarrow> ('s, exn, workspace) op"
  t_get_workspace :: "string \<Rightarrow> ('s, exn, workspace) op"
  t_list_workspaces :: "('s, exn, workspace list) op"
  t_delete_workspace :: "string \<Rightarrow> ('s, exn, unit) op"
  t_ls :: "string \<Rightarrow> string \<Rightarrow> ('s, exn, file_list_entry list) op"
  t_read :: "string \<Rightarrow> string \<Rightarrow> int \<Rightarrow> int option \<Rightarrow> ('s, exn, file_read_result) op"
  t_write :: "string \<Rightarrow> string \<Rightarrow> ustr \<Rightarrow> ('s, exn, unit) op"
  t_edit :: "string \<Rightarrow> string \<Rightarrow> ustr \<Rightarrow> ustr \<Rightarrow> bool \<Rightarrow> ('s, exn, nat) op"
  t_glob :: "string \<Rightarrow> string \<Rightarrow> ('s, exn, string list) op"
  t_grep :: "string \<Rightarrow> string \<Rightarrow> string option \<Rightarrow> ('s, exn, grep_match list) op"
  t_delete_file :: "string \<Rightarrow> string \<Rightarrow> ('s, exn, unit) op"
  t_upload_files :: "string \<Rightarrow> upload_item list \<Rightarrow> ('s, exn, string list) op"
  t_download_files :: "string \<Rightarrow> string list \<Rightarrow> ('s, exn, upload_item list) op"
  t_exec :: "string \<Rightarrow> exec_request \<Rightarrow> ('s, exn, execution_result) op"
  t_list_executions :: "string \<Rightarrow> ('s, exn, execution list) op"
  t_get_execution :: "string \<Rightarrow> string \<Rightarrow> ('s, exn, execution) op"
  t_create_snapshot :: "string \<Rightarrow> string option \<Rightarrow> ('s, exn, snapshot) op"
  t_list_snapshots :: "string \<Rightarrow> ('s, exn, snapshot list) op"
  t_restore_snapshot :: "string \<Rightarrow> string option \<Rightarrow> dict \<Rightarrow> ('s, exn, workspace) op"
  t_export_artifact :: "string \<Rightarrow> string \<Rightarrow> string option \<Rightarrow> ('s, exn, artifact) op"
  t_read_artifact :: "string \<Rightarrow> ('s, exn, bytes) op"
  t_pool_status :: "string option \<Rightarrow> ('s, exn, pool_stats list) op"

definition http_transport :: "server \<Rightarrow> forge_state transport" where
  "http_transport srv =
     \<lparr>t_create_workspace = http_create_workspace srv, t_get_workspace = http_get_workspace srv,
      t_list_workspaces = http_list_workspaces srv, t_delete_workspace = http_delete_workspace srv, t_ls = http_ls srv,
      t_read = http_read srv, t_write = http_write srv, t_edit = http_edit srv, t_glob = http_glob srv, t_grep = http_grep srv,
      t_delete_file = http_delete_file srv, t_upload_files = http_upload_files srv, t_download_files = http_download_files srv,
      t_exec = http_exec srv, t_list_executions = http_list_executions srv, t_get_execution = http_get_execution srv,
      t_create_snapshot = http_create_snapshot srv, t_list_snapshots = http_list_snapshots srv,
      t_restore_snapshot = http_restore_snapshot srv, t_export_artifact = http_export_artifact srv,
      t_read_artifact = http_read_artifact srv, t_pool_status = http_pool_status srv\<rparr>"

definition local_transport :: "host \<Rightarrow> forge_state transport" where
  "local_transport h =
     \<lparr>t_create_workspace = local_create_workspace h, t_get_workspace = local_get_workspace,
      t_list_workspaces = local_list_workspaces, t_delete_workspace = local_delete_workspace h, t_ls = local_ls h,
      t_read = local_read h, t_write = local_write h, t_edit = local_edit h, t_glob = local_glob h, t_grep = local_grep h,
      t_delete_file = local_delete_file h, t_upload_files = local_upload_files h, t_download_files = local_download_files h,
      t_exec = local_exec h, t_list_executions = local_list_executions, t_get_execution = local_get_execution,
      t_create_snapshot = local_create_snapshot h, t_list_snapshots = local_list_snapshots,
      t_restore_snapshot = local_restore_snapshot h, t_export_artifact = local_export_artifact h,
      t_read_artifact = local_read_artifact h, t_pool_status = local_pool_status\<rparr>"

section \<open>Workspace handles\<close>

text \<open>\<open>WorkspaceHandle\<close> gives its id and its sub-resources to every call.\<close>

definition handle_id :: "workspace \<Rightarrow> string" where "handle_id ws = ws_id ws"

definition handle_spec :: "workspace \<Rightarrow> workspace_spec" where "handle_spec ws = ws_spec ws"

definition files_ls :: "'s transport \<Rightarrow> workspace \<Rightarrow> string option \<Rightarrow> ('s, exn, file_list_entry list) op" where
  "files_ls t ws path = t_ls t (ws_id ws) (case path of None \<Rightarrow> ''.'' | Some p \<Rightarrow> p)"

definition files_write :: "'s transport \<Rightarrow> workspace \<Rightarrow> string \<Rightarrow> ustr \<Rightarrow> ('s, exn, unit) op" where
  "files_write t ws path content = t_write t (ws_id ws) path content"

definition files_edit :: "'s transport \<Rightarrow> workspace \<Rightarrow> string \<Rightarrow> ustr \<Rightarrow> ustr \<Rightarrow> bool option \<Rightarrow> ('s, exn, nat) op" where
  "files_edit t ws path old new replace_all = t_edit t (ws_id ws) path old new (case replace_all of None \<Rightarrow> False | Some b \<Rightarrow> b)"

definition files_glob :: "'s transport \<Rightarrow> workspace \<Rightarrow> string \<Rightarrow> ('s, exn, string list) op" where
  "files_glob t ws pattern = t_glob t (ws_id ws) pattern"

definition files_grep :: "'s transport \<Rightarrow> workspace \<Rightarrow> string \<Rightarrow> string option \<Rightarrow> ('s, exn, grep_match list) op" where
  "files_grep t ws pattern path_glob = t_grep t (ws_id ws) pattern path_glob"

definition files_delete :: "'s transport \<Rightarrow> workspace \<Rightarrow> string \<Rightarrow> ('s, exn, unit) op" where
  "files_delete t ws path = t_delete_file t (ws_id ws) path"

definition files_read :: "'s transport \<Rightarrow> workspace \<Rightarrow> string \<Rightarrow> int option \<Rightarrow> int option \<Rightarrow> ('s, exn, file_read_result) op" where
  "files_read t ws path offset lmt = t_read t (ws_id ws) path (case offset of None \<Rightarrow> 0 | Some n \<Rightarrow> n) lmt"

definition files_upload :: "'s transport \<Rightarrow> workspace \<Rightarrow> string \<Rightarrow> bytes \<Rightarrow> ('s, exn, unit) op" where
  "files_upload t ws path content =
     bindM (t_upload_files t (ws_id ws) [\<lparr>up_path = path, up_content_b64 = b64encode content\<rparr>]) (\<lambda>_. retM ())"

text \<open>An answer without an item would be an \<open>IndexError\<close>; \<open>b64decode\<close> raises \<open>binascii.Error\<close>, a \<open>ValueError\<close>.\<close>

definition first_content :: "upload_item list \<Rightarrow> exn + bytes" where
  "first_content items = (case items of [] \<Rightarrow> Inl PyException | i # _ \<Rightarrow> of_opt ValueError (b64decode (up_content_b64 i)))"

definition files_download :: "'s transport \<Rightarrow> workspace \<Rightarrow> string \<Rightarrow> ('s, exn, bytes) op" where
  "files_download t ws path = bindM (t_download_files t (ws_id ws) [path]) (\<lambda>items. liftR (first_content items))"

definition executions_run ::
  "'s transport \<Rightarrow> workspace \<Rightarrow> string list \<Rightarrow> bool \<Rightarrow> dict option \<Rightarrow> rat option \<Rightarrow> int option \<Rightarrow> string option \<Rightarrow>
    ('s, exn, execution_result) op" where
  "executions_run t ws command shell env timeout max_out key =
     t_exec t (ws_id ws) \<lparr>rq_command = command, rq_shell = shell, rq_env = (case env of None \<Rightarrow> [] | Some e \<Rightarrow> e),
       rq_timeout_seconds = timeout, rq_max_output_bytes = max_out, rq_idempotency_key = key\<rparr>"

definition executions_list :: "'s transport \<Rightarrow> workspace \<Rightarrow> ('s, exn, execution list) op" where
  "executions_list t ws = t_list_executions t (ws_id ws)"

definition snapshots_create :: "'s transport \<Rightarrow> workspace \<Rightarrow> string option \<Rightarrow> ('s, exn, snapshot) op" where
  "snapshots_create t ws name = t_create_snapshot t (ws_id ws) name"

definition snapshots_list :: "'s transport \<Rightarrow> workspace \<Rightarrow> ('s, exn, snapshot list) op" where
  "snapshots_list t ws = t_list_snapshots t (ws_id ws)"

definition artifacts_export :: "'s transport \<Rightarrow> workspace \<Rightarrow> string \<Rightarrow> string option \<Rightarrow> ('s, exn, artifact) op" where
  "artifacts_export t ws path content_type = t_export_artifact t (ws_id ws) path content_type"

definition artifacts_read :: "'s transport \<Rightarrow> workspace \<Rightarrow> string \<Rightarrow> ('s, exn, bytes) op" where
  "artifacts_read t ws aid = t_read_artifact t aid"

definition handle_exec ::
  "'s transport \<Rightarrow> workspace \<Rightarrow> string list \<Rightarrow> bool \<Rightarrow> dict option \<Rightarrow> rat option \<Rightarrow> int option \<Rightarrow> string option \<Rightarrow>
    ('s, exn, execution_result) op" where
  "handle_exec t ws command shell env timeout max_out key = executions_run t ws command shell env timeout max_out key"

definition handle_delete :: "'s transport \<Rightarrow> workspace \<Rightarrow> ('s, exn, unit) op" where
  "handle_delete t ws = t_delete_workspace t (ws_id ws)"

definition workspaces_create ::
  "'s transport \<Rightarrow> string \<Rightarrow> string option \<Rightarrow> dict option \<Rightarrow> resource_limits option \<Rightarrow> string option \<Rightarrow> dict option \<Rightarrow>
    ('s, exn, workspace) op" where
  "workspaces_create t img wd env res name md =
     t_create_workspace t \<lparr>spec_image = img, spec_runtime = DockerRuntime, spec_working_dir = wd,
       spec_env = (case env of None \<Rightarrow> [] | Some e \<Rightarrow> e), spec_resources = (case res of None \<Rightarrow> default_limits | Some r \<Rightarrow> r)\<rparr>
       name (case md of None \<Rightarrow> [] | Some m \<Rightarrow> m)"

definition workspaces_get :: "'s transport \<Rightarrow> string \<Rightarrow> ('s, exn, workspace) op" where
  "workspaces_get t wid = t_get_workspace t wid"

definition workspaces_list :: "'s transport \<Rightarrow> ('s, exn, workspace list) op" where
  "workspaces_list t = t_list_workspaces t"

definition forge_pool_status :: "'s transport \<Rightarrow> string option \<Rightarrow> ('s, exn, pool_stats list) op" where
  "forge_pool_status t img = t_pool_status t img"

section \<open>The sandbox backend\<close>

record sandbox =
  sb_workspace :: workspace
  sb_max_output_bytes :: int
  sb_default_timeout :: int

definition new_sandbox :: "workspace \<Rightarrow> sandbox" where
  "new_sandbox ws = \<lparr>sb_workspace = ws, sb_max_output_bytes = 100000, sb_default_timeout = 120\<rparr>"

definition acreate :: "'s transport \<Rightarrow> string \<Rightarrow> string option \<Rightarrow> dict option \<Rightarrow> ('s, exn, sandbox) op" where
  "acreate t img name md = bindM (workspaces_create t img None None None name md) (\<lambda>ws. retM (new_sandbox ws))"

definition afrom_workspace :: "'s transport \<Rightarrow> string \<Rightarrow> ('s, exn, sandbox) op" where
  "afrom_workspace t wid = bindM (workspaces_get t wid) (\<lambda>ws. retM (new_sandbox ws))"

definition afrom_thread :: "'s transport \<Rightarrow> string \<Rightarrow> string \<Rightarrow> ('s, exn, sandbox) op" where
  "afrom_thread t thread img = acreate t img (Some (''thread-'' @ thread)) (Some [(''scope'', ''thread''), (''thread_id'', thread)])"

definition afrom_assistant :: "'s transport \<Rightarrow> string \<Rightarrow> string \<Rightarrow> ('s, exn, sandbox) op" where
  "afrom_assistant t assistant img =
     acreate t img (Some (''assistant-'' @ assistant)) (Some [(''scope'', ''assistant''), (''assistant_id'', assistant)])"

text \<open>The clause \<open>except (WorkspaceError, PathEscapeError)\<close>.\<close>

definition soft :: "exn \<Rightarrow> bool" where
  "soft e \<longleftrightarrow> is_instance e WorkspaceError \<or> is_instance e PathEscapeError"

lemma soft_iff: "soft e \<longleftrightarrow> e \<le> WorkspaceError"
proof -
  have "PathEscapeError \<le> WorkspaceError" unfolding less_eq_exn_def is_instance_def by (subst mro.simps) simp
  then show ?thesis by (auto simp: soft_def less_eq_exn_def intro: is_instance_trans)
qed

record execute_response =
  rp_output :: ustr
  rp_exit :: int
  rp_cut :: bool

definition aexecute :: "(exn \<Rightarrow> ustr) \<Rightarrow> 's transport \<Rightarrow> sandbox \<Rightarrow> string \<Rightarrow> int option \<Rightarrow> ('s, exn, execute_response) op" where
  "aexecute msg t sb command timeout =
     catchM (bindM (handle_exec t (sb_workspace sb) [''sh'', ''-c'', command] False None
         (Some (of_int (case timeout of None \<Rightarrow> sb_default_timeout sb | Some n \<Rightarrow> n))) (Some (sb_max_output_bytes sb)) None)
         (\<lambda>r. retM \<lparr>rp_output = er_output r, rp_exit = er_exit_code r, rp_cut = er_truncated r\<rparr>))
       soft (\<lambda>e. retM \<lparr>rp_output = msg e, rp_exit = 1, rp_cut = False\<rparr>)"

record upload_response =
  ur_path :: string
  ur_error :: "exn option"

record download_response =
  dr_path :: string
  dr_content :: "bytes option"
  dr_error :: "exn option"

text \<open>One file of a batch; the error is kept as the exception its text comes from.\<close>

definition upload_response_of :: "string list \<Rightarrow> exn + upload_response" where
  "upload_response_of written = (case written of [] \<Rightarrow> Inl PyException | p # _ \<Rightarrow> Inr \<lparr>ur_path = p, ur_error = None\<rparr>)"

definition aupload_one :: "'s transport \<Rightarrow> sandbox \<Rightarrow> string \<times> bytes \<Rightarrow> ('s, exn, upload_response) op" where
  "aupload_one t sb file =
     catchM (bindM (t_upload_files t (ws_id (sb_workspace sb)) [\<lparr>up_path = fst file, up_content_b64 = b64encode (snd file)\<rparr>])
         (\<lambda>written. liftR (upload_response_of written)))
       soft (\<lambda>e. retM \<lparr>ur_path = fst file, ur_error = Some e\<rparr>)"

fun aupload_files :: "'s transport \<Rightarrow> sandbox \<Rightarrow> (string \<times> bytes) list \<Rightarrow> ('s, exn, upload_response list) op" where
  "aupload_files t sb [] = retM []"
| "aupload_files t sb (f # fs) = bindM (aupload_one t sb f) (\<lambda>r. bindM (aupload_files t sb fs) (\<lambda>rs. retM (r # rs)))"

definition adownload_one :: "'s transport \<Rightarrow> sandbox \<Rightarrow> string \<Rightarrow> ('s, exn, download_response) op" where
  "adownload_one t sb path =
     catchM (bindM (t_download_files t (ws_id (sb_workspace sb)) [path])
         (\<lambda>items. bindM (liftR (first_content items)) (\<lambda>b. retM \<lparr>dr_path = path, dr_content = Some b, dr_error = None\<rparr>)))
       soft (\<lambda>e. retM \<lparr>dr_path = path, dr_content = None, dr_error = Some e\<rparr>)"

fun adownload_files :: "'s transport \<Rightarrow> sandbox \<Rightarrow> string list \<Rightarrow> ('s, exn, download_response list) op" where
  "adownload_files t sb [] = retM []"
| "adownload_files t sb (p # ps) = bindM (adownload_one t sb p) (\<lambda>r. bindM (adownload_files t sb ps) (\<lambda>rs. retM (r # rs)))"

text \<open>
  The synchronous methods run the asynchronous ones on an event loop of their own. When the thread
  has a running loop already they refuse, and nothing has been done then.
\<close>

definition run_sync :: "bool \<Rightarrow> ('s, exn, 'a) op \<Rightarrow> ('s, exn, 'a) op" where
  "run_sync loop_running coro = (if loop_running then raiseM RuntimeError else coro)"

definition sandbox_id :: "sandbox \<Rightarrow> string" where "sandbox_id sb = handle_id (sb_workspace sb)"

definition sandbox_execute ::
  "bool \<Rightarrow> (exn \<Rightarrow> ustr) \<Rightarrow> 's transport \<Rightarrow> sandbox \<Rightarrow> string \<Rightarrow> int option \<Rightarrow> ('s, exn, execute_response) op" where
  "sandbox_execute loop_running msg t sb command timeout = run_sync loop_running (aexecute msg t sb command timeout)"

definition sandbox_upload ::
  "bool \<Rightarrow> 's transport \<Rightarrow> sandbox \<Rightarrow> (string \<times> bytes) list \<Rightarrow> ('s, exn, upload_response list) op" where
  "sandbox_upload loop_running t sb files = run_sync loop_running (aupload_files t sb files)"

definition sandbox_download ::
  "bool \<Rightarrow> 's transport \<Rightarrow> sandbox \<Rightarrow> string list \<Rightarrow> ('s, exn, download_response list) op" where
  "sandbox_download loop_running t sb paths = run_sync loop_running (adownload_files t sb paths)"

lemma run_sync_outside [simp]: "run_sync False m = m"
  by (simp add: run_sync_def)

lemma run_sync_inside: "run_sync True m s = (Inl RuntimeError, s)"
  by (simp add: run_sync_def raiseM_apply)

section \<open>What the backend relies on\<close>

text \<open>
  The part of the transport protocol that moves files: what an upload puts into place, what it
  leaves alone, and what a download finds. A path is resolved by the service; \<open>holds\<close> says which
  bytes a resolved path holds, \<open>sent\<close> which paths the transport can carry.
\<close>

locale file_transport =
  fixes t :: "'s transport"
    and live :: "string \<Rightarrow> 's \<Rightarrow> bool"
    and sent :: "string \<Rightarrow> bool"
    and target :: "string \<Rightarrow> string \<Rightarrow> 's \<Rightarrow> exn + path"
    and holds :: "string \<Rightarrow> 's \<Rightarrow> path \<Rightarrow> bytes \<Rightarrow> bool"
  assumes upload_puts: "live wid s \<Longrightarrow> t_upload_files t wid [\<lparr>up_path = u, up_content_b64 = b64encode b\<rparr>] s = (Inr ps, s') \<Longrightarrow>
      sent u \<and> (\<exists>p q. target wid u s = Inr p \<and> holds wid s' p b \<and> ps = [q])"
    and upload_keeps: "live wid s \<Longrightarrow> t_upload_files t wid [i] s = (r, s') \<Longrightarrow> (case r of Inl e \<Rightarrow> soft e | Inr ps \<Rightarrow> True) \<Longrightarrow>
      live wid s' \<and> (\<forall>u. target wid u s' = target wid u s) \<and>
      (\<forall>p b. target wid (up_path i) s \<noteq> Inr p \<longrightarrow> holds wid s p b \<longrightarrow> holds wid s' p b)"
    and download_gets: "live wid s \<Longrightarrow> sent u \<Longrightarrow> target wid u s = Inr p \<Longrightarrow> holds wid s p b \<Longrightarrow>
      t_download_files t wid [u] s = (Inr [\<lparr>up_path = u, up_content_b64 = b64encode b\<rparr>], s)"
begin

lemma upload_download:
  assumes "live (ws_id ws) s" and "files_upload t ws u b s = (Inr (), s')"
  shows "files_download t ws u s' = (Inr b, s')"
proof -
  from assms(2) obtain ps where up: "t_upload_files t (ws_id ws) [\<lparr>up_path = u, up_content_b64 = b64encode b\<rparr>] s = (Inr ps, s')"
    by (auto simp: files_upload_def bindM_apply retM_apply split: prod.splits sum.splits)
  from upload_puts [OF assms(1) up] upload_keeps [OF assms(1) up]
  obtain p where "sent u" "target (ws_id ws) u s' = Inr p" "holds (ws_id ws) s' p b" "live (ws_id ws) s'" by auto
  with download_gets [of "ws_id ws" s' u p b] show ?thesis
    by (simp add: files_download_def bindM_apply liftR_apply first_content_def b64decode_b64encode)
qed

lemma aupload_one_step:
  assumes "live w s" and "w = ws_id (sb_workspace sb)" and "aupload_one t sb (u, b) s = (Inr r, s')"
  shows "live w s' \<and> (\<forall>v. target w v s' = target w v s)"
    and "ur_error r = None \<Longrightarrow> sent u \<and> (\<exists>p. target w u s = Inr p \<and> holds w s' p b)"
    and "target w u s \<noteq> Inr p \<Longrightarrow> holds w s p c \<Longrightarrow> holds w s' p c"
proof -
  let ?i = "\<lparr>up_path = u, up_content_b64 = b64encode b\<rparr>"
  obtain o1 s1 where up: "t_upload_files t w [?i] s = (o1, s1)" by force
  have k: "(case o1 of Inl e \<Rightarrow> soft e | Inr ps \<Rightarrow> True) \<and> s' = s1 \<and> (ur_error r = None \<longrightarrow> (\<exists>ps. o1 = Inr ps))"
  proof (cases o1)
    case (Inl e)
    with assms(2,3) up show ?thesis
      by (auto simp: aupload_one_def catchM_apply bindM_apply retM_apply split: if_splits)
  next
    case (Inr ps)
    with upload_puts [OF assms(1), of u b ps s1] up obtain q where "ps = [q]" by auto
    with Inr assms(2,3) up show ?thesis
      by (simp add: aupload_one_def catchM_apply bindM_apply liftR_apply upload_response_of_def)
  qed
  from upload_keeps [OF assms(1) up] k
  show "live w s' \<and> (\<forall>v. target w v s' = target w v s)"
    and "target w u s \<noteq> Inr p \<Longrightarrow> holds w s p c \<Longrightarrow> holds w s' p c" by auto
  show "ur_error r = None \<Longrightarrow> sent u \<and> (\<exists>p. target w u s = Inr p \<and> holds w s' p b)"
    using k upload_puts [OF assms(1)] up by blast
qed

lemma aupload_files_Cons:
  assumes "aupload_files t sb (f # fs) s = (Inr rs, s')"
  obtains r s1 rs' where "aupload_one t sb f s = (Inr r, s1)" and "aupload_files t sb fs s1 = (Inr rs', s')" and "rs = r # rs'"
  using assms by (auto simp: bindM_apply retM_apply split: prod.splits sum.splits)

lemma aupload_files_keep:
  assumes "live w s" and "w = ws_id (sb_workspace sb)" and "aupload_files t sb fs s = (Inr rs, s')"
  shows "live w s' \<and> (\<forall>v. target w v s' = target w v s) \<and>
    (\<forall>p c. (\<forall>f \<in> set fs. target w (fst f) s \<noteq> Inr p) \<longrightarrow> holds w s p c \<longrightarrow> holds w s' p c)"
  using assms(1,3)
proof (induction fs arbitrary: s rs)
  case Nil
  then show ?case by (simp add: retM_apply)
next
  case (Cons f fs)
  from aupload_files_Cons [OF Cons.prems(2)] obtain r s1 rs' where
    one: "aupload_one t sb (fst f, snd f) s = (Inr r, s1)" and more: "aupload_files t sb fs s1 = (Inr rs', s')" by (metis prod.collapse)
  from Cons.IH [OF _ more] aupload_one_step(1,3) [OF Cons.prems(1) assms(2) one] show ?case by simp
qed

lemma batch_returns:
  assumes "live w s" and "w = ws_id (sb_workspace sb)" and "aupload_files t sb (xs @ (u, b) # ys) s = (Inr rs, s')"
    and "ur_error (rs ! length xs) = None" and "\<forall>f \<in> set ys. target w (fst f) s \<noteq> target w u s"
  shows "adownload_files t sb [u] s' = (Inr [\<lparr>dr_path = u, dr_content = Some b, dr_error = None\<rparr>], s')"
  using assms(1,3,4,5)
proof (induction xs arbitrary: s rs)
  case Nil
  from aupload_files_Cons [OF Nil.prems(2) [unfolded append_Nil]] obtain r s1 rs' where
    one: "aupload_one t sb (u, b) s = (Inr r, s1)" and more: "aupload_files t sb ys s1 = (Inr rs', s')" and "rs = r # rs'" by blast
  with Nil.prems(3) aupload_one_step(1,2) [OF Nil.prems(1) assms(2) one] obtain p where
    p: "sent u" "target w u s = Inr p" "holds w s1 p b" "live w s1" "\<forall>v. target w v s1 = target w v s" by auto
  with aupload_files_keep [OF p(4) assms(2) more] Nil.prems(4) have "live w s'" "target w u s' = Inr p" "holds w s' p b" by auto
  with download_gets p(1) have "t_download_files t w [u] s' = (Inr [\<lparr>up_path = u, up_content_b64 = b64encode b\<rparr>], s')" by blast
  then show ?case using assms(2)
    by (simp add: adownload_one_def catchM_apply bindM_apply liftR_apply retM_apply first_content_def b64decode_b64encode)
next
  case (Cons f xs)
  from aupload_files_Cons [OF Cons.prems(2) [unfolded append_Cons]] obtain r s1 rs' where
    one: "aupload_one t sb (fst f, snd f) s = (Inr r, s1)" and more: "aupload_files t sb (xs @ (u, b) # ys) s1 = (Inr rs', s')"
    and "rs = r # rs'" by (metis prod.collapse)
  with aupload_one_step(1) [OF Cons.prems(1) assms(2) one] Cons.prems(3,4) Cons.IH [OF _ more] show ?case by simp
qed

end

end
