(* ===== verification/Sdk_Laws.thy ===== *)
theory Sdk_Laws
  imports Sdk Files_Laws
begin

text \<open>
  Both transports move files the way the backend relies on: the local client by the laws of the file
  service, the HTTP client because the daemon answers with what the service returns.
\<close>

section \<open>The local client\<close>

definition fs_of :: "forge_state \<Rightarrow> fs" where
  "fs_of s = st_fs (w_stores (sv_world s))"

definition put_fs :: "fs \<Rightarrow> forge_state \<Rightarrow> forge_state" where
  "put_fs f s = s\<lparr>sv_world := (sv_world s)\<lparr>w_stores := (w_stores (sv_world s))\<lparr>st_fs := f\<rparr>\<rparr>\<rparr>"

lemma in_files_apply: "in_files m s = (case m (fs_of s) of (r, f) \<Rightarrow> (r, put_fs f s))"
  by (simp add: in_files_def in_stores_def in_world_def on_fs_def focusM_apply fs_of_def put_fs_def split: prod.split)

lemma fs_of_put [simp]: "fs_of (put_fs f s) = f" "put_fs (fs_of s) s = s"
  by (simp_all add: fs_of_def put_fs_def)

definition live_root :: "host \<Rightarrow> string \<Rightarrow> forge_state \<Rightarrow> bool" where
  "live_root h wid s \<longleftrightarrow> root_of (base_of h) wid (fs_of s) \<noteq> None"

definition resolves :: "host \<Rightarrow> string \<Rightarrow> string \<Rightarrow> forge_state \<Rightarrow> exn + path" where
  "resolves h wid u s = fst (resolve_user (base_of h) wid u (fs_of s))"

definition holds_file :: "host \<Rightarrow> string \<Rightarrow> forge_state \<Rightarrow> path \<Rightarrow> bytes \<Rightarrow> bool" where
  "holds_file h wid s p b \<longleftrightarrow> look (fs_of s) p = Some (File b) \<and>
     (\<forall>r. root_of (base_of h) wid (fs_of s) = Some r \<longrightarrow> \<not> in_meta_dir r p)"

lemma mkdir_p_error: "fst (mkdir_p p f) = Inl e \<Longrightarrow> e = OSError"
proof -
  have "mkdirs d ns f = Inl e \<Longrightarrow> e = OSError" for d ns
    by (induction d ns f rule: mkdirs.induct) (auto split: option.splits node.splits)
  then show "fst (mkdir_p p f) = Inl e \<Longrightarrow> e = OSError" by (auto simp: mkdir_p_def split: sum.splits)
qed

lemma soft_OSError [simp]: "\<not> soft OSError" "\<not> soft UnicodeError" "\<not> soft ForgeError"
  by (simp_all add: soft_def is_instance_def mro_eval)

lemma upload_one_soft:
  assumes "upload_one base wid i f = (Inl e, g)" and "soft e"
  shows "g = f"
proof (cases rule: any_jail.check_cases [of base wid "up_path i" f])
  case (refused e')
  with assms show ?thesis by (simp add: upload_one_def bindM_apply)
next
  case (granted p r)
  have w: "write_bytes p b f' = (Inl x, g') \<Longrightarrow> x = OSError" for b f' x g'
    by (auto simp: write_bytes_def split: if_splits option.splits node.splits)
  from granted assms mkdir_p_error [of "butlast p" f] w show ?thesis
    by (auto simp: upload_one_def bindM_apply raiseM_apply retM_apply workspace_root_root_of dest!: w split: if_splits option.splits prod.splits sum.splits)
qed

lemma local_upload_apply:
  "local_upload_files h wid items s = (case upload_files (base_of h) wid items (fs_of s) of (r, f) \<Rightarrow> (r, put_fs f s))"
  by (simp add: local_upload_files_def in_files_apply)

lemma local_download_apply:
  "local_download_files h wid us s = (case download_files (base_of h) wid us (fs_of s) of (r, f) \<Rightarrow> (r, put_fs f s))"
  by (simp add: local_download_files_def in_files_apply)

lemma upload_files_one: "upload_files base wid [i] f = (case upload_one base wid i f of
    (Inl e, g) \<Rightarrow> (Inl e, g) | (Inr p, g) \<Rightarrow> (Inr [p], g))"
  by (simp add: bindM_apply retM_apply split: prod.split sum.split)

lemma local_upload_puts:
  assumes "local_upload_files h wid [\<lparr>up_path = u, up_content_b64 = b64encode b\<rparr>] s = (Inr ps, s')"
  shows "\<exists>p q. resolves h wid u s = Inr p \<and> holds_file h wid s' p b \<and> ps = [q]"
proof -
  let ?i = "\<lparr>up_path = u, up_content_b64 = b64encode b\<rparr>"
  from assms obtain q g where one: "upload_one (base_of h) wid ?i (fs_of s) = (Inr q, g)" "ps = [q]" "s' = put_fs g s"
    by (auto simp: local_upload_apply upload_files_one simp del: upload_files.simps split: prod.splits sum.splits)
  from one(1) obtain p r c where p: "resolve_user (base_of h) wid u (fs_of s) = (Inr p, fs_of s)" "root_of (base_of h) wid (fs_of s) = Some r"
    "\<not> in_meta_dir r p" "b64decode (b64encode b) = Some c" "look g p = Some (File c)"
    by (rule upload_one_Inr) simp
  have "grows (fs_of s) g" using upload_one_grows [of "fs_of s" "base_of h" wid ?i] one(1) by simp
  from root_of_grows [OF this p(2)] p one show ?thesis by (simp add: resolves_def holds_file_def b64decode_b64encode)
qed

lemma local_upload_keeps:
  assumes "live_root h wid s" and "local_upload_files h wid [i] s = (r, s')" and "case r of Inl e \<Rightarrow> soft e | Inr ps \<Rightarrow> True"
  shows "live_root h wid s' \<and> (\<forall>u. resolves h wid u s' = resolves h wid u s) \<and>
    (\<forall>p b. resolves h wid (up_path i) s \<noteq> Inr p \<longrightarrow> holds_file h wid s p b \<longrightarrow> holds_file h wid s' p b)"
proof (cases r)
  case (Inl e)
  with assms(2,3) have "s' = s"
    using upload_one_soft [of "base_of h" wid i "fs_of s" e]
    by (auto simp: local_upload_apply upload_files_one simp del: upload_files.simps split: prod.splits sum.splits)
  with assms(1) show ?thesis by simp
next
  case (Inr ps)
  with assms(2) obtain q g where one: "upload_one (base_of h) wid i (fs_of s) = (Inr q, g)" and s': "s' = put_fs g s"
    by (auto simp: local_upload_apply upload_files_one simp del: upload_files.simps split: prod.splits sum.splits)
  have gr: "grows (fs_of s) g" using upload_one_grows [of "fs_of s" "base_of h" wid i] one by simp
  from one obtain p r where p: "resolve_user (base_of h) wid (up_path i) (fs_of s) = (Inr p, fs_of s)"
    "root_of (base_of h) wid (fs_of s) = Some r" and k: "\<And>q n. q \<noteq> p \<Longrightarrow> look (fs_of s) q = Some n \<Longrightarrow> look g q = Some n"
    by (rule upload_one_Inr) blast
  from resolve_user_stable [OF gr p(2)] root_of_grows [OF gr p(2)] p k s' show ?thesis
    by (auto simp: live_root_def resolves_def holds_file_def)
qed

lemma local_download_gets:
  assumes "live_root h wid s" and "resolves h wid u s = Inr p" and "holds_file h wid s p b"
  shows "local_download_files h wid [u] s = (Inr [\<lparr>up_path = u, up_content_b64 = b64encode b\<rparr>], s)"
proof -
  from assms(1) obtain r where r: "root_of (base_of h) wid (fs_of s) = Some r" by (auto simp: live_root_def)
  have "resolve_user (base_of h) wid u (fs_of s) = (Inr p, fs_of s)"
    using assms(2) any_jail.check_state [of "base_of h" wid u "fs_of s"]
    by (cases "resolve_user (base_of h) wid u (fs_of s)") (simp add: resolves_def)
  from resolve_for_read_allowed [OF this r] assms(3) r show ?thesis
    by (simp add: local_download_apply download_one_def bindM_apply retM_apply holds_file_def node_at_def)
qed

lemma transport_files [simp]:
  "t_upload_files (local_transport h) = local_upload_files h" "t_download_files (local_transport h) = local_download_files h"
  "t_upload_files (http_transport srv) = http_upload_files srv" "t_download_files (http_transport srv) = http_download_files srv"
  by (simp_all add: local_transport_def http_transport_def)

interpretation local_files: file_transport "local_transport h" "live_root h" "\<lambda>u. True" "resolves h" "holds_file h" for h
proof (unfold_locales, goal_cases)
  case (1 wid s u b ps s')
  then show ?case using local_upload_puts by simp
next
  case (2 wid s i r s')
  then show ?case using local_upload_keeps by (simp del: not_None_eq)
next
  case (3 wid s u p b)
  then show ?case using local_download_gets by simp
qed

section \<open>The HTTP client\<close>

lemma b64_char_ascii: "n < 64 \<Longrightarrow> of_char (b64_char n) < (128 :: nat)"
  by (simp add: b64_char_def) arith

lemma name_ok_b64: "name_ok (b64encode b)"
proof (rule name_ok_ascii)
  have u: "unat (x :: 8 word) < 256" for x by (rule unat_byte_less)
  show "list_all (\<lambda>c. of_char c < (128 :: nat)) (b64encode b)"
  proof (induction b rule: b64encode.induct)
    case (2 a)
    then show ?case using u [of a] by (simp add: b64_char_ascii less_mult_imp_div_less)
  next
    case (3 a b)
    then show ?case using u [of a] u [of b] by (simp add: b64_char_ascii less_mult_imp_div_less)
  next
    case (4 a b c bs)
    then show ?case using u [of a] u [of b] u [of c] by (simp add: b64_char_ascii less_mult_imp_div_less)
  qed simp
qed

context web_framework
begin

text \<open>A call that came back, or was refused for its path, is the call in the process.\<close>

lemma raw_inverts:
  assumes "srv h rq = answer fh h st enc m" and "st \<in> {200, 201}" and "\<And>v. dec (enc v) = Some v"
    and "call_raw (srv h) rq dec s = (r, s')" and "case r of Inl e \<Rightarrow> soft e | Inr v \<Rightarrow> True"
  shows "request_ok rq \<and> m s = (r, s')"
proof (cases "request_ok rq")
  case False
  with assms(4,5) show ?thesis by (auto simp: call_raw_def send_def bindM_apply)
next
  case True
  obtain o1 s1 where m: "m s = (o1, s1)" by force
  show ?thesis
  proof (cases o1)
    case (Inl e)
    with True m assms error_seen [of h e] show ?thesis
      by (auto simp: call_raw_def send_def bindM_apply liftR_apply answer_def check_ok_def client_sees_def split: if_splits)
  next
    case (Inr v)
    show ?thesis
    proof (cases "json_ok (enc v)")
      case True
      with \<open>request_ok rq\<close> Inr m assms show ?thesis
        by (auto simp: call_raw_def send_def bindM_apply liftR_apply answer_def check_ok_def json_response_def)
    next
      case False
      with True Inr m assms show ?thesis
        by (auto simp: call_raw_def send_def bindM_apply liftR_apply answer_def check_ok_def json_response_def server_error_def
            raise_error_def)
    qed
  qed
qed

lemma remote_upload:
  assumes "plain_segment wid" and "http_upload_files (srv h) wid items s = (r, s')" and "case r of Inl e \<Rightarrow> soft e | Inr ps \<Rightarrow> True"
  shows "list_all (\<lambda>i. name_ok (up_path i)) items \<and> local_upload_files h wid items s = (r, s')"
proof -
  let ?rq = "http_post [''workspaces'', wid, ''files'', ''upload''] (JObj [(''items'', list_json upload_item_json items)])"
  have "srv h ?rq = answer fh h 200 written_json (local_upload_files h wid items)"
    using assms(1) by (simp add: served route_upload_def with_body_def as_upload_request_def json_defs as_object_def local_upload_files_def)
  from raw_inverts [OF this _ _ assms(2) [unfolded http_upload_files_def] assms(3)]
  show ?thesis
    by (simp add: written_json_def item_of_def json_defs request_ok_def upload_item_json_def list_all_iff)
qed

end

sublocale web_framework \<subseteq> remote: file_transport "http_transport (serve pick fh h)" "\<lambda>wid s. plain_segment wid \<and> live_root h wid s"
  name_ok "resolves h" "holds_file h" for h
proof (unfold_locales, goal_cases)
  case (1 wid s u b ps s')
  then show ?case using remote_upload [of wid h _ s "Inr ps" s'] local_upload_puts [of h wid u b s ps s'] by force
next
  case (2 wid s i r s')
  then show ?case using remote_upload [of wid h "[i]" s r s'] local_upload_keeps [of h wid s i r s'] by simp
next
  case (3 wid s u p b)
  then have l: "local_download_files h wid [u] s = (Inr [\<lparr>up_path = u, up_content_b64 = b64encode b\<rparr>], s)"
    by (intro local_download_gets) simp_all
  have "mirrors h (\<lambda>is. reply_ok (RItems is)) (http_download_files (serve pick fh h) wid [u]) (local_download_files h wid [u])"
    using 3 by (intro mirrors_download) simp
  with l 3 show ?case
    by (auto simp: mirrors_def upload_item_json_def name_ok_b64 dest!: spec [of _ s])
qed

context web_framework
begin

lemmas remote_batch = remote.batch_returns

end

end
