(* ===== verification/Json_Text.thy ===== *)
theory Json_Text
  imports Wire "HOL-Library.AList"
begin

text \<open>
  JSON as text: \<open>json.dumps\<close> with its defaults (ASCII only, a blank after commas and colons) and
  \<open>json.loads\<close>, as the event stream uses them. A text is its list of code points. Floats, which no
  event holds, are left out. What \<open>dumps\<close> writes, \<open>loads\<close> reads back.
\<close>

abbreviation lit :: "string \<Rightarrow> ustr" where "lit s \<equiv> map of_char s"

section \<open>Printing\<close>

definition hex_digit :: "nat \<Rightarrow> nat" where
  "hex_digit n = (if n < 10 then 48 + n else 87 + n)"

definition unit_escape :: "nat \<Rightarrow> ustr" where
  "unit_escape n = [92, 117, hex_digit (n div 4096), hex_digit (n div 256 mod 16), hex_digit (n div 16 mod 16), hex_digit (n mod 16)]"

definition escape_char :: "nat \<Rightarrow> ustr" where
  "escape_char c =
     (if c = 34 then [92, 34] else if c = 92 then [92, 92] else if c = 10 then [92, 110]
      else if c = 13 then [92, 114] else if c = 9 then [92, 116] else if c = 12 then [92, 102]
      else if c = 8 then [92, 98] else if 32 \<le> c \<and> c \<le> 126 then [c]
      else if c < 65536 then unit_escape c
      else unit_escape (55296 + (c - 65536) div 1024) @ unit_escape (56320 + (c - 65536) mod 1024))"

definition quoted :: "ustr \<Rightarrow> ustr" where
  "quoted u = 34 # concat (map escape_char u) @ [34]"

text \<open>The code points of a name; bytes that are no UTF-8 stand for no text.\<close>

definition name_points :: "string \<Rightarrow> ustr option" where
  "name_points s = utf8_decode (map (\<lambda>c. byte_of (of_char c)) s)"

definition str_text :: "string \<Rightarrow> ustr" where
  "str_text s = (case name_points s of None \<Rightarrow> [] | Some u \<Rightarrow> quoted u)"

fun dumps :: "json \<Rightarrow> ustr" and dumps_more :: "json list \<Rightarrow> ustr" and dumps_members :: "(string \<times> json) list \<Rightarrow> ustr" where
  "dumps JNull = lit ''null''"
| "dumps (JBool b) = (if b then lit ''true'' else lit ''false'')"
| "dumps (JInt i) = lit (int_text i)"
| "dumps (JFloat q) = []"
| "dumps (JStr s) = str_text s"
| "dumps (JText u) = quoted u"
| "dumps (JArr []) = lit ''[]''"
| "dumps (JArr (x # xs)) = 91 # dumps x @ dumps_more xs"
| "dumps (JObj []) = lit ''{}''"
| "dumps (JObj ((k, v) # kvs)) = 123 # str_text k @ lit '': '' @ dumps v @ dumps_members kvs"
| "dumps_more [] = [93]"
| "dumps_more (x # xs) = lit '', '' @ dumps x @ dumps_more xs"
| "dumps_members [] = [125]"
| "dumps_members ((k, v) # kvs) = lit '', '' @ str_text k @ lit '': '' @ dumps v @ dumps_members kvs"

section \<open>Reading\<close>

definition json_space :: "nat \<Rightarrow> bool" where
  "json_space c \<longleftrightarrow> c = 32 \<or> c = 9 \<or> c = 10 \<or> c = 13"

definition skip :: "ustr \<Rightarrow> ustr" where "skip = dropWhile json_space"

definition hex_value :: "nat \<Rightarrow> nat option" where
  "hex_value c = (if 48 \<le> c \<and> c \<le> 57 then Some (c - 48) else if 97 \<le> c \<and> c \<le> 102 then Some (c - 87)
     else if 65 \<le> c \<and> c \<le> 70 then Some (c - 55) else None)"

fun read_unit :: "ustr \<Rightarrow> (nat \<times> ustr) option" where
  "read_unit (a # b # c # d # r) =
     (case (hex_value a, hex_value b, hex_value c, hex_value d) of
        (Some w, Some x, Some y, Some z) \<Rightarrow> Some (4096 * w + 256 * x + 16 * y + z, r)
      | _ \<Rightarrow> None)"
| "read_unit _ = None"

text \<open>The second half of a surrogate pair, if it follows.\<close>

definition read_low :: "nat \<Rightarrow> ustr \<Rightarrow> nat \<times> ustr" where
  "read_low n r =
     (if prefix [92, 117] r then
        (case read_unit (drop 2 r) of
           Some (m, r') \<Rightarrow> (if 56320 \<le> m \<and> m \<le> 57343 then (65536 + 1024 * (n - 55296) + (m - 56320), r') else (n, r))
         | None \<Rightarrow> (n, r))
      else (n, r))"

fun read_escape :: "ustr \<Rightarrow> (nat \<times> ustr) option" where
  "read_escape [] = None"
| "read_escape (e # r) =
     (if e = 34 \<or> e = 92 \<or> e = 47 then Some (e, r)
      else if e = 98 then Some (8, r) else if e = 102 then Some (12, r) else if e = 110 then Some (10, r)
      else if e = 114 then Some (13, r) else if e = 116 then Some (9, r)
      else if e = 117 then (case read_unit r of None \<Rightarrow> None
        | Some (n, r1) \<Rightarrow> Some (if 55296 \<le> n \<and> n \<le> 56319 then read_low n r1 else (n, r1)))
      else None)"

lemma read_unit_shorter: "read_unit s = Some (n, r) \<Longrightarrow> length r < length s"
  by (induction s rule: read_unit.induct) (auto split: option.splits)

lemma read_low_shorter: "length (snd (read_low n r)) \<le> length r"
  using read_unit_shorter [of "drop 2 r"] by (fastforce simp: read_low_def split: option.splits)

lemma read_escape_shorter: "read_escape s = Some (c, r) \<Longrightarrow> length r < length s"
proof (induction s rule: read_escape.induct)
  case (2 e r')
  then show ?case
    using read_low_shorter read_unit_shorter
    by (auto split: if_splits option.splits) (metis order_le_less_trans less_Suc_eq snd_conv)+
qed simp

text \<open>A string after its opening quote.\<close>

function read_string :: "ustr \<Rightarrow> (ustr \<times> ustr) option" where
  "read_string [] = None"
| "read_string (c # cs) =
     (if c = 34 then Some ([], cs)
      else if c = 92 then (case read_escape cs of None \<Rightarrow> None
        | Some (p, r) \<Rightarrow> map_option (\<lambda>(u, r'). (p # u, r')) (read_string r))
      else if c < 32 then None
      else map_option (\<lambda>(u, r'). (c # u, r')) (read_string cs))"
  by pat_completeness auto
termination
  by (relation "measure length") (auto dest: read_escape_shorter)

declare read_string.simps(2) [simp del]

definition mk_str :: "ustr \<Rightarrow> json" where
  "mk_str u = (case utf8_encode u of Some bs \<Rightarrow> JStr (map (\<lambda>b. char_of (unat b)) bs) | None \<Rightarrow> JText u)"

definition is_digit :: "nat \<Rightarrow> bool" where "is_digit c \<longleftrightarrow> 48 \<le> c \<and> c \<le> 57"

text \<open>The digits of a number: a zero stands alone. A fraction or an exponent would make it a float.\<close>

definition read_digits :: "ustr \<Rightarrow> (nat \<times> ustr) option" where
  "read_digits s =
     (let ds = (if s \<noteq> [] \<and> hd s = 48 then [48] else takeWhile is_digit s); r = drop (length ds) s in
      if ds = [] \<or> (r \<noteq> [] \<and> hd r \<in> {46, 69, 101}) then None
      else map_option (\<lambda>n. (n, r)) (num_from 0 (map char_of ds)))"

definition read_number :: "ustr \<Rightarrow> (json \<times> ustr) option" where
  "read_number s = (case s of [] \<Rightarrow> None
     | c # cs \<Rightarrow> (if c = 45 then map_option (\<lambda>(n, r). (JInt (- int n), r)) (read_digits cs)
                 else map_option (\<lambda>(n, r). (JInt (int n), r)) (read_digits s)))"

definition read_word :: "string \<Rightarrow> json \<Rightarrow> ustr \<Rightarrow> (json \<times> ustr) option" where
  "read_word w j s = (if prefix (lit w) s then Some (j, drop (length w) s) else None)"

definition read_key :: "ustr \<Rightarrow> (string \<times> ustr) option" where
  "read_key s = (case skip s of [] \<Rightarrow> None | c # cs \<Rightarrow>
     (if c \<noteq> 34 then None
      else (case read_string cs of None \<Rightarrow> None
        | Some (u, r) \<Rightarrow> (case (mk_str u, skip r) of
            (JStr k, d # ds) \<Rightarrow> (if d = 58 then Some (k, ds) else None)
          | _ \<Rightarrow> None))))"

text \<open>A key that comes again replaces the value of the first.\<close>

definition keep_last :: "(string \<times> json) list \<Rightarrow> (string \<times> json) list" where
  "keep_last ms = fold (\<lambda>(k, v). AList.update k v) ms []"

text \<open>The fuel bounds the nesting and the number of members; the length of the text is enough.\<close>

fun read_value :: "nat \<Rightarrow> ustr \<Rightarrow> (json \<times> ustr) option"
  and read_more :: "nat \<Rightarrow> ustr \<Rightarrow> (json list \<times> ustr) option"
  and read_members :: "nat \<Rightarrow> ustr \<Rightarrow> ((string \<times> json) list \<times> ustr) option" where
  "read_value 0 s = None"
| "read_value (Suc n) s =
     (case skip s of [] \<Rightarrow> None
      | c # cs \<Rightarrow>
          if c = 34 then map_option (\<lambda>(u, r). (mk_str u, r)) (read_string cs)
          else if c = 91 then
            (if skip cs \<noteq> [] \<and> hd (skip cs) = 93 then Some (JArr [], tl (skip cs))
             else do { (j, r) \<leftarrow> read_value n cs; (js, r') \<leftarrow> read_more n r; Some (JArr (j # js), r') })
          else if c = 123 then
            (if skip cs \<noteq> [] \<and> hd (skip cs) = 125 then Some (JObj [], tl (skip cs))
             else do { (k, r) \<leftarrow> read_key cs; (j, r1) \<leftarrow> read_value n r; (ms, r') \<leftarrow> read_members n r1; Some (JObj (keep_last ((k, j) # ms)), r') })
          else if c = 110 then read_word ''null'' JNull (c # cs)
          else if c = 116 then read_word ''true'' (JBool True) (c # cs)
          else if c = 102 then read_word ''false'' (JBool False) (c # cs)
          else read_number (c # cs))"
| "read_more 0 s = None"
| "read_more (Suc n) s =
     (case skip s of [] \<Rightarrow> None
      | c # cs \<Rightarrow>
          if c = 93 then Some ([], cs)
          else if c = 44 then do { (j, r) \<leftarrow> read_value n cs; (js, r') \<leftarrow> read_more n r; Some (j # js, r') }
          else None)"
| "read_members 0 s = None"
| "read_members (Suc n) s =
     (case skip s of [] \<Rightarrow> None
      | c # cs \<Rightarrow>
          if c = 125 then Some ([], cs)
          else if c = 44 then
            do { (k, r) \<leftarrow> read_key cs; (j, r1) \<leftarrow> read_value n r; (ms, r') \<leftarrow> read_members n r1; Some ((k, j) # ms, r') }
          else None)"

definition loads :: "ustr \<Rightarrow> json option" where
  "loads s = (case read_value (Suc (length s)) s of
     Some (j, r) \<Rightarrow> (if skip r = [] then Some j else None) | None \<Rightarrow> None)"

section \<open>What is printed is read back\<close>

lemma hex_value_digit [simp]: "n < 16 \<Longrightarrow> hex_value (hex_digit n) = Some n"
  by (simp add: hex_value_def hex_digit_def)

lemma hex_sum: "4096 * (n div 4096) + 256 * (n div 256 mod 16) + 16 * (n div 16 mod 16) + n mod 16 = (n :: nat)"
proof -
  define a b d where "a = n div 16" and "b = a div 16" and "d = b div 16"
  have "n div 256 mod 16 = b mod 16" "n div 4096 = d" "n div 16 mod 16 = a mod 16" by (simp_all add: a_def b_def d_def flip: div_mult2_eq)
  moreover have "n = 16 * a + n mod 16" "a = 16 * b + a mod 16" "b = 16 * d + b mod 16"
    unfolding a_def b_def d_def by simp_all
  ultimately show ?thesis by linarith
qed

lemma read_unit_escape: "n < 65536 \<Longrightarrow> read_unit (drop 2 (unit_escape n) @ r) = Some (n, r)"
  using hex_sum [of n] by (simp add: unit_escape_def less_mult_imp_div_less)

lemma unit_escape_head: "unit_escape n = 92 # 117 # drop 2 (unit_escape n)"
  by (simp add: unit_escape_def)

lemma read_escape_unit: "n < 65536 \<Longrightarrow> read_escape (117 # drop 2 (unit_escape n) @ r) =
    Some (if 55296 \<le> n \<and> n \<le> 56319 then read_low n r else (n, r))"
  by (simp add: read_unit_escape)

lemma read_string_unit: "n < 65536 \<Longrightarrow> \<not> (55296 \<le> n \<and> n \<le> 56319) \<Longrightarrow>
    read_string (unit_escape n @ r) = map_option (\<lambda>(u, r'). (n # u, r')) (read_string r)"
  by (subst unit_escape_head) (auto simp: read_string.simps(2) read_escape_unit simp del: read_escape.simps)

lemma read_string_pair:
  assumes "65536 \<le> c" and "c \<le> 1114111"
  shows "read_string (unit_escape (55296 + (c - 65536) div 1024) @ unit_escape (56320 + (c - 65536) mod 1024) @ r) =
    map_option (\<lambda>(u, r'). (c # u, r')) (read_string r)"
proof -
  let ?a = "(c - 65536) div 1024" and ?b = "(c - 65536) mod 1024"
  have a: "?a < 1024" using assms(2) by (simp add: less_mult_imp_div_less)
  have b: "?b < 1024" by simp
  have "65536 + 1024 * ?a + ?b = c" using assms(1) mult_div_mod_eq [of 1024 "c - 65536"] by linarith
  then have "read_low (55296 + ?a) (unit_escape (56320 + ?b) @ r) = (c, r)"
    using read_unit_escape [of "56320 + ?b" r] b unfolding read_low_def
    by (subst (1 2) unit_escape_head) simp
  then show ?thesis using a
    by (subst (1) unit_escape_head) (simp add: read_string.simps(2) read_escape_unit del: read_escape.simps)
qed

lemma read_string_escape:
  assumes "scalar c"
  shows "read_string (escape_char c @ r) = map_option (\<lambda>(u, r'). (c # u, r')) (read_string r)"
proof -
  consider "c \<in> {34, 92, 10, 13, 9, 12, 8}" | "c \<notin> {34, 92, 10, 13, 9, 12, 8}" "32 \<le> c" "c \<le> 126"
    | "c \<notin> {34, 92, 10, 13, 9, 12, 8}" "\<not> (32 \<le> c \<and> c \<le> 126)" "c < 65536" | "65536 \<le> c" by fastforce
  then show ?thesis
  proof cases
    case 4
    with assms show ?thesis by (simp add: escape_char_def scalar_def read_string_pair)
  next
    case 3
    then have "escape_char c = unit_escape c" by (auto simp: escape_char_def)
    with 3 assms show ?thesis by (auto simp: scalar_def read_string_unit)
  qed (auto simp: escape_char_def read_string.simps(2))
qed

lemma read_string_quoted: "list_all scalar u \<Longrightarrow> read_string (concat (map escape_char u) @ 34 # r) = Some (u, r)"
  by (induction u) (simp_all add: read_string_escape read_string.simps(2))

text \<open>The bytes of a name that is the UTF-8 form of a text.\<close>

definition text_name :: "string \<Rightarrow> bool" where
  "text_name s \<longleftrightarrow> (case name_points s of None \<Rightarrow> False | Some u \<Rightarrow> utf8_encode u = Some (map (\<lambda>c. byte_of (of_char c)) s))"

lemma char_byte [simp]: "char_of (unat (byte_of (of_char c))) = c"
  by simp

lemma text_nameE:
  assumes "text_name s"
  obtains u where "str_text s = 34 # concat (map escape_char u) @ [34]" and "list_all scalar u" and "mk_str u = JStr s"
proof -
  from assms obtain u where u: "name_points s = Some u" "utf8_encode u = Some (map (\<lambda>c. byte_of (of_char c)) s)"
    by (auto simp: text_name_def split: option.splits)
  then have "list_all scalar u" by (simp add: utf8_encode_def split: if_splits)
  with u show ?thesis by (intro that [of u]) (simp_all add: str_text_def quoted_def mk_str_def comp_def)
qed

text \<open>Numbers: what follows must not belong to them.\<close>

definition stops :: "ustr \<Rightarrow> bool" where
  "stops r \<longleftrightarrow> r = [] \<or> (\<not> is_digit (hd r) \<and> hd r \<notin> {46, 69, 101})"

lemma nat_text_zero [simp]: "nat_text 0 = [digit 0]"
  by (subst nat_text.simps) simp

lemma nat_text_lead: "0 < n \<Longrightarrow> hd (nat_text n) \<noteq> digit 0"
proof (induction n rule: nat_text.induct)
  case (1 n)
  then show ?case by (subst nat_text.simps) auto
qed

lemma digit_points: "digit_char c \<Longrightarrow> is_digit (of_char c)"
  by (auto simp: digit_char_def digit_value_def is_digit_def Let_def split: if_splits)

lemma lit_digits: "list_all is_digit (lit (nat_text n))"
  using nat_text_digits [of n] by (auto simp: list_all_iff digit_points)

lemma takeWhile_stops: "list_all is_digit u \<Longrightarrow> stops r \<Longrightarrow> takeWhile is_digit (u @ r) = u"
  by (induction u) (auto simp: stops_def takeWhile_eq_Nil_iff)

lemma chars_of_lit [simp]: "map char_of (lit s) = s"
  by (induction s) simp_all

lemma read_digits_text:
  assumes "stops r"
  shows "read_digits (lit (nat_text n) @ r) = Some (n, r)"
proof (cases "n = 0")
  case True
  then show ?thesis using assms by (auto simp: read_digits_def stops_def of_char_digit digit_value_def)
next
  case False
  obtain c cs where n: "nat_text n = c # cs" by (cases "nat_text n") auto
  with False nat_text_lead [of n] have "c \<noteq> digit 0" by simp
  moreover have "char_of (of_char c :: nat) = c" by simp
  ultimately have "of_char c \<noteq> (48 :: nat)" by (metis add.right_neutral digit_def)
  moreover have "takeWhile is_digit (lit (nat_text n) @ r) = lit (nat_text n)" by (rule takeWhile_stops [OF lit_digits assms])
  ultimately show ?thesis using n assms num_from_nat_text [of n]
    by (auto simp: read_digits_def Let_def stops_def comp_def)
qed

lemma read_number_text: "stops r \<Longrightarrow> read_number (lit (int_text i) @ r) = Some (JInt i, r)"
proof (cases "i < 0")
  case True
  assume "stops r"
  with True show ?thesis using read_digits_text [of r "nat (- i)"] by (simp add: read_number_def int_text_def)
next
  case False
  assume s: "stops r"
  obtain c cs where n: "nat_text (nat i) = c # cs" by (cases "nat_text (nat i)") auto
  then have "is_digit (of_char c)" using lit_digits [of "nat i"] by simp
  then have "of_char c \<noteq> (45 :: nat)" by (auto simp: is_digit_def)
  with False s n read_digits_text [OF s, of "nat i"] show ?thesis by (simp add: read_number_def int_text_def)
qed

lemma int_text_head: "\<exists>c cs. lit (int_text i) = c # cs \<and> (c = 45 \<or> is_digit c)"
proof (cases "i < 0")
  case True
  then show ?thesis by (simp add: int_text_def)
next
  case False
  with lit_digits [of "nat i"] show ?thesis by (cases "nat_text (nat i)") (simp_all add: int_text_def)
qed

section \<open>Values\<close>

fun plain_json :: "json \<Rightarrow> bool" where
  "plain_json (JFloat q) \<longleftrightarrow> False"
| "plain_json (JText u) \<longleftrightarrow> False"
| "plain_json (JStr s) \<longleftrightarrow> text_name s"
| "plain_json (JArr xs) \<longleftrightarrow> list_all plain_json xs"
| "plain_json (JObj kvs) \<longleftrightarrow> distinct (map fst kvs) \<and> list_all (\<lambda>kv. text_name (fst kv) \<and> plain_json (snd kv)) kvs"
| "plain_json _ \<longleftrightarrow> True"

lemma update_new: "k \<notin> fst ` set d \<Longrightarrow> AList.update k v d = d @ [(k, v)]"
  by (induction d) auto

lemma keep_last_onto: "distinct (map fst (d @ ms)) \<Longrightarrow> fold (\<lambda>(k, v). AList.update k v) ms d = d @ ms"
  by (induction ms arbitrary: d) (auto simp: update_new)

lemma keep_last_distinct: "distinct (map fst ms) \<Longrightarrow> keep_last ms = ms"
  using keep_last_onto [of "[]" ms] by (simp add: keep_last_def)

lemma skip_cons: "\<not> json_space c \<Longrightarrow> skip (c # cs) = c # cs"
  by (simp add: skip_def)

lemma skip_blank [simp]: "skip (32 # s) = skip s" "skip [] = []"
  by (simp_all add: skip_def json_space_def)

lemma dumps_head:
  assumes "plain_json j"
  obtains c cs where "dumps j = c # cs" and "\<not> json_space c" and "c \<noteq> 93" and "c \<noteq> 125"
proof (cases j)
  case (JInt i)
  with int_text_head [of i] that show ?thesis by (auto simp: json_space_def is_digit_def)
next
  case (JStr s)
  with assms that show ?thesis by (auto elim!: text_nameE simp: json_space_def)
next
  case (JArr xs)
  with that show ?thesis by (cases xs) (auto simp: json_space_def)
next
  case (JObj kvs)
  with that show ?thesis by (cases kvs) (auto simp: json_space_def)
next
  case (JBool b)
  with that show ?thesis by (cases b) (auto simp: json_space_def)
qed (use assms that in \<open>auto simp: json_space_def split: if_splits\<close>)

lemma skip_dumps: "plain_json j \<Longrightarrow> skip (dumps j @ r) = dumps j @ r"
  by (erule dumps_head) (simp add: skip_cons)

lemma read_key_text:
  assumes "text_name k"
  shows "read_key (str_text k @ lit '': '' @ r) = Some (k, 32 # r)"
proof -
  from assms obtain u where u: "str_text k = 34 # concat (map escape_char u) @ [34]" "list_all scalar u" "mk_str u = JStr k"
    by (rule text_nameE)
  then show ?thesis using read_string_quoted [of u "lit '': '' @ r"]
    by (simp add: read_key_def skip_cons json_space_def)
qed

lemma read_blank [simp]: "read_value n (32 # s) = read_value n s" "read_key (32 # s) = read_key s"
  by (cases n) (simp_all add: read_key_def)

lemma stops_rest [simp]: "stops []" "stops (dumps_more xs @ r)" "stops (dumps_members kvs @ r)"
  by (cases xs; auto simp: stops_def is_digit_def; fail | cases kvs; auto simp: stops_def is_digit_def; fail | simp add: stops_def)+

text \<open>Enough fuel is more than the length of the text.\<close>

lemma read_dumps:
  "plain_json j \<Longrightarrow> stops r \<Longrightarrow> length (dumps j) < n \<Longrightarrow> read_value n (dumps j @ r) = Some (j, r)"
  "list_all plain_json js \<Longrightarrow> length (dumps_more js) < n \<Longrightarrow> read_more n (dumps_more js @ r) = Some (js, r)"
  "list_all (\<lambda>kv. text_name (fst kv) \<and> plain_json (snd kv)) ms \<Longrightarrow> length (dumps_members ms) < n \<Longrightarrow>
    read_members n (dumps_members ms @ r) = Some (ms, r)"
proof (induction j and js and ms arbitrary: n r and n r and n r rule: dumps_dumps_more_dumps_members.induct)
  case 1
  then show ?case by (cases n) (auto simp: skip_def json_space_def read_word_def)
next
  case (2 b)
  then show ?case by (cases n) (auto simp: skip_def json_space_def read_word_def split: if_splits)
next
  case (3 i)
  obtain c cs where c: "lit (int_text i) = c # cs" "c = 45 \<or> is_digit c" using int_text_head [of i] by auto
  then have "skip (lit (int_text i) @ r) = lit (int_text i) @ r" "c \<notin> {34, 91, 123, 110, 116, 102}"
    by (auto simp: skip_def json_space_def is_digit_def)
  with 3 c read_number_text [of r i] show ?case by (cases n) (auto simp: c(1))
next
  case (5 s)
  then obtain u where u: "str_text s = 34 # concat (map escape_char u) @ [34]" "list_all scalar u" "mk_str u = JStr s"
    by (auto elim: text_nameE)
  with 5 read_string_quoted [OF u(2), of r] show ?case by (cases n) (auto simp: skip_cons json_space_def)
next
  case 7
  then show ?case by (cases n) (auto simp: skip_def json_space_def)
next
  case (8 x xs)
  from 8(3) have x: "plain_json x" "list_all plain_json xs" by simp_all
  obtain c cs where c: "dumps x = c # cs" "\<not> json_space c" "c \<noteq> 93" "c \<noteq> 125" by (rule dumps_head [OF x(1)])
  show ?case
  proof (cases n)
    case (Suc m)
    with 8 x have "read_value m (dumps x @ dumps_more xs @ r) = Some (x, dumps_more xs @ r)"
      "read_more m (dumps_more xs @ r) = Some (xs, r)" by simp_all
    with Suc c show ?thesis by (simp add: skip_cons json_space_def)
  qed (use 8 in simp)
next
  case 9
  then show ?case by (cases n) (auto simp: skip_def json_space_def)
next
  case (10 k v kvs)
  from 10(3) have x: "plain_json v" "text_name k" "list_all (\<lambda>kv. text_name (fst kv) \<and> plain_json (snd kv)) kvs"
    "distinct (map fst ((k, v) # kvs))" by simp_all
  show ?case
  proof (cases n)
    case (Suc m)
    with 10 x have "read_value m (32 # dumps v @ dumps_members kvs @ r) = Some (v, dumps_members kvs @ r)"
      "read_members m (dumps_members kvs @ r) = Some (kvs, r)" by simp_all
    moreover obtain u where "str_text k = 34 # u" using x(2) by (auto elim: text_nameE)
    then have "skip (str_text k @ s) = str_text k @ s" "str_text k @ s \<noteq> []" "hd (str_text k @ s) = 34" for s
      by (simp_all add: skip_cons json_space_def)
    ultimately show ?thesis using Suc x(4) read_key_text [OF x(2), of "dumps v @ dumps_members kvs @ r"]
      by (simp add: skip_cons json_space_def keep_last_distinct)
  qed (use 10 in simp)
next
  case 11
  then show ?case by (cases n) (auto simp: skip_def json_space_def)
next
  case (12 x xs)
  show ?case
  proof (cases n)
    case (Suc m)
    with 12 have "read_value m (dumps x @ dumps_more xs @ r) = Some (x, dumps_more xs @ r)"
      "read_more m (dumps_more xs @ r) = Some (xs, r)" by simp_all
    with Suc show ?thesis by (simp add: skip_cons json_space_def)
  qed (use 12 in simp)
next
  case 13
  then show ?case by (cases n) (auto simp: skip_def json_space_def)
next
  case (14 k v kvs)
  then have x: "text_name k" by simp
  show ?case
  proof (cases n)
    case (Suc m)
    with 14 have "read_value m (32 # dumps v @ dumps_members kvs @ r) = Some (v, dumps_members kvs @ r)"
      "read_members m (dumps_members kvs @ r) = Some (kvs, r)" by simp_all
    with Suc read_key_text [OF x, of "dumps v @ dumps_members kvs @ r"] show ?thesis
      by (simp add: skip_cons json_space_def)
  qed (use 14 in simp)
qed simp_all

theorem loads_dumps: "plain_json j \<Longrightarrow> loads (dumps j) = Some j"
  using read_dumps(1) [of j "[]" "Suc (length (dumps j))"] by (simp add: loads_def)

text \<open>What is printed is ASCII without control characters, so it holds no line break.\<close>

definition printable :: "nat \<Rightarrow> bool" where "printable c \<longleftrightarrow> 32 \<le> c \<and> c \<le> 126"

lemma printable_hex [simp]: "n < 16 \<Longrightarrow> printable (hex_digit n)"
  by (auto simp: printable_def hex_digit_def)

lemma printable_unit: "n < 65536 \<Longrightarrow> list_all printable (unit_escape n)"
  by (simp add: unit_escape_def less_mult_imp_div_less) (simp add: printable_def)

lemma printable_escape:
  assumes "scalar c"
  shows "list_all printable (escape_char c)"
proof (cases "c < 65536")
  case True
  then show ?thesis using printable_unit [OF True] by (simp add: escape_char_def) (simp add: printable_def)
next
  case False
  have "c - 65536 < 1024 * 1024" using assms False by (auto simp: scalar_def)
  then have "(c - 65536) div 1024 < 1024" by (rule less_mult_imp_div_less)
  moreover have "(c - 65536) mod 1024 < 1024" by simp
  ultimately show ?thesis using False by (simp add: escape_char_def printable_unit)
qed

lemma printable_quoted: "list_all scalar u \<Longrightarrow> list_all printable (concat (map escape_char u))"
  by (induction u) (simp_all add: printable_escape)

lemma printable_name: "text_name s \<Longrightarrow> list_all printable (str_text s)"
  by (erule text_nameE) (simp add: printable_quoted, simp add: printable_def)

lemma printable_int: "list_all printable (lit (int_text i))"
proof -
  have "list_all printable (lit (nat_text n))" for n
    using lit_digits [of n] by (auto simp: list_all_iff is_digit_def printable_def)
  then show ?thesis by (simp add: int_text_def) (simp add: printable_def)
qed

lemma printable_dumps:
  "plain_json j \<Longrightarrow> list_all printable (dumps j)"
  "list_all plain_json js \<Longrightarrow> list_all printable (dumps_more js)"
  "list_all (\<lambda>kv. text_name (fst kv) \<and> plain_json (snd kv)) ms \<Longrightarrow> list_all printable (dumps_members ms)"
  by (induction j and js and ms rule: dumps_dumps_more_dumps_members.induct)
    (simp_all add: printable_name printable_int, simp_all add: printable_def)

end
