(* ===== verification/Event_Stream.thy ===== *)
theory Event_Stream
  imports Json_Text Event_Bus Transport_Laws
begin

text \<open>
  The stream of events over HTTP: the route \<open>stream_events\<close> of \<open>forge/server/routes/executions.py\<close>,
  which writes each event of a subscription as one frame, and \<open>subscribe\<close> of
  \<open>forge/client/http_client.py\<close>, which takes the frames from the text as it arrives, in chunks that
  are cut anywhere.
\<close>

section \<open>Events as JSON\<close>

fun payload_json :: "payload_value \<Rightarrow> json" where
  "payload_json (PvStr s) = JStr s"
| "payload_json (PvInt i) = JInt i"
| "payload_json (PvBool b) = JBool b"

fun as_payload :: "json \<Rightarrow> payload_value option" where
  "as_payload (JStr s) = Some (PvStr s)"
| "as_payload (JInt i) = Some (PvInt i)"
| "as_payload (JBool b) = Some (PvBool b)"
| "as_payload _ = None"

definition event_json :: "forge_event \<Rightarrow> json" where
  "event_json ev = JObj [(''kind'', JStr (ev_kind ev)), (''ts'', time_json (ev_ts ev)),
     (''workspace_id'', json_opt_str (ev_workspace_id ev)), (''execution_id'', json_opt_str (ev_execution_id ev)),
     (''payload'', JObj (map (\<lambda>(k, v). (k, payload_json v)) (ev_payload ev)))]"

fun payload_items :: "(string \<times> json) list \<Rightarrow> (string \<times> payload_value) list option" where
  "payload_items [] = Some []"
| "payload_items ((k, j) # kvs) = do { v \<leftarrow> as_payload j; ms \<leftarrow> payload_items kvs; Some ((k, v) # ms) }"

definition as_event :: "json \<Rightarrow> forge_event option" where
  "as_event = as_object (\<lambda>o1.
     do { k \<leftarrow> field_req o1 ''kind'' as_str;
          t \<leftarrow> field_req o1 ''ts'' as_time;
          w \<leftarrow> field_or o1 ''workspace_id'' as_opt_str None;
          e \<leftarrow> field_or o1 ''execution_id'' as_opt_str None;
          p \<leftarrow> field_or o1 ''payload'' (as_object payload_items) [];
          Some \<lparr>ev_kind = k, ev_ts = t, ev_workspace_id = w, ev_execution_id = e, ev_payload = p\<rparr> })"

section \<open>The server\<close>

definition points :: "string \<Rightarrow> ustr" where
  "points k = (case name_points k of None \<Rightarrow> [] | Some u \<Rightarrow> u)"

definition sse_lines :: "forge_event \<Rightarrow> ustr" where
  "sse_lines ev = lit ''event: '' @ points (ev_kind ev) @ [10] @ lit ''data: '' @ dumps (event_json ev)"

definition sse_frame :: "forge_event \<Rightarrow> ustr" where
  "sse_frame ev = sse_lines ev @ [10, 10]"

section \<open>The client\<close>

text \<open>Splitting the buffer at the first blank line, if there is one.\<close>

fun cut_frame :: "ustr \<Rightarrow> (ustr \<times> ustr) option" where
  "cut_frame (x # y # zs) =
     (if x = 10 \<and> y = 10 then Some ([], zs) else map_option (\<lambda>(a, b). (x # a, b)) (cut_frame (y # zs)))"
| "cut_frame _ = None"

lemma cut_frame_shorter: "cut_frame s = Some (a, b) \<Longrightarrow> length b < length s"
  by (induction s arbitrary: a b rule: cut_frame.induct) (fastforce split: if_splits)+

function frames :: "ustr \<Rightarrow> ustr list \<times> ustr" where
  "frames buf = (case cut_frame buf of None \<Rightarrow> ([], buf)
     | Some (raw, rest) \<Rightarrow> (raw # fst (frames rest), snd (frames rest)))"
  by pat_completeness auto
termination
  by (relation "measure length") (auto dest: cut_frame_shorter)

declare frames.simps [simp del]

definition data_line :: "ustr \<Rightarrow> bool" where
  "data_line l \<longleftrightarrow> prefix (lit ''data: '') l"

text \<open>A line of data: its JSON, as an event.\<close>

definition line_event :: "ustr \<Rightarrow> exn + forge_event" where
  "line_event l = (case loads (drop 6 l) of
     None \<Rightarrow> Inl ValueError | Some j \<Rightarrow> of_opt ValidationError (as_event j))"

definition frame_events :: "ustr \<Rightarrow> (exn + forge_event) list" where
  "frame_events raw = map line_event (filter data_line (splitlines raw))"

fun sse_items :: "ustr \<Rightarrow> ustr list \<Rightarrow> (exn + forge_event) list" where
  "sse_items buf [] = []"
| "sse_items buf (c # cs) =
     (case frames (buf @ c) of (raws, rest) \<Rightarrow> concat (map frame_events raws) @ sse_items rest cs)"

text \<open>The first line that is no event raises, which ends the stream.\<close>

fun until_error :: "('e + 'a) list \<Rightarrow> ('e + 'a) list" where
  "until_error [] = []"
| "until_error (Inl e # xs) = [Inl e]"
| "until_error (Inr x # xs) = Inr x # until_error xs"

definition sse_read :: "ustr \<Rightarrow> ustr list \<Rightarrow> (exn + forge_event) list" where
  "sse_read buf cs = until_error (sse_items buf cs)"

lemma until_error_map: "until_error (map Inr evs) = map Inr evs"
  by (induction evs) simp_all

lemma until_error_Inr: "prefix xs (map Inr evs) \<Longrightarrow> until_error xs = xs"
  by (auto simp: prefix_def map_eq_append_conv until_error_map)

section \<open>Chunks do not matter\<close>

lemma cut_frame_append: "cut_frame a = Some (raw, rest) \<Longrightarrow> cut_frame (a @ b) = Some (raw, rest @ b)"
  by (induction a arbitrary: raw rest rule: cut_frame.induct) (auto split: if_splits)

lemma frames_append:
  "frames (a @ b) = (fst (frames a) @ fst (frames (snd (frames a) @ b)), snd (frames (snd (frames a) @ b)))"
proof (induction a rule: frames.induct)
  case (1 a)
  show ?case
  proof (cases "cut_frame a")
    case None
    then show ?thesis by (subst (2 3 5) frames.simps) simp
  next
    case (Some p)
    obtain raw rest where p: "p = (raw, rest)" by (cases p)
    with Some have c: "cut_frame a = Some (raw, rest)" by simp
    from 1 [OF Some [unfolded p]] have ih: "frames (rest @ b) =
      (fst (frames rest) @ fst (frames (snd (frames rest) @ b)), snd (frames (snd (frames rest) @ b)))" by simp
    have "frames a = (raw # fst (frames rest), snd (frames rest))" using c by (subst frames.simps) simp
    moreover have "frames (a @ b) = (raw # fst (frames (rest @ b)), snd (frames (rest @ b)))"
      using cut_frame_append [OF c] by (subst frames.simps) simp
    ultimately show ?thesis using ih by simp
  qed
qed

lemma frames_rest: "cut_frame (snd (frames s)) = None"
proof (induction s rule: frames.induct)
  case (1 s)
  then show ?case by (subst frames.simps) (auto split: option.split)
qed

lemma sse_items_chunks:
  "cut_frame buf = None \<Longrightarrow> sse_items buf cs = concat (map frame_events (fst (frames (buf @ concat cs))))"
proof (induction cs arbitrary: buf)
  case Nil
  then show ?case by (subst frames.simps) simp
next
  case (Cons c cs)
  obtain raws rest where f: "frames (buf @ c) = (raws, rest)" by (cases "frames (buf @ c)")
  then have "cut_frame rest = None" using frames_rest [of "buf @ c"] by simp
  from Cons.IH [OF this] f frames_append [of "buf @ c" "concat cs"] show ?case by simp
qed

section \<open>Every event arrives\<close>

definition ascii :: "string \<Rightarrow> bool" where
  "ascii s \<longleftrightarrow> list_all (\<lambda>c. of_char c < (128 :: nat)) s"

lemma text_name_ascii: "ascii s \<Longrightarrow> text_name s"
proof -
  assume a: "ascii s"
  then have "name_points s = Some (lit s)" by (simp add: ascii_def name_points_def utf8_decode_ascii)
  moreover have "utf8_encode (lit s) = Some (map (\<lambda>c. byte_of (of_char c)) s)"
    using a by (induction s) (auto simp: ascii_def utf8_encode_def scalar_def utf8_char_def split: if_splits)
  ultimately show ?thesis by (simp add: text_name_def)
qed

lemma ascii_digits: "list_all digit_char s \<Longrightarrow> ascii s"
  by (auto simp: ascii_def list_all_iff digit_char_ascii)

lemma ascii_append [simp]: "ascii (s @ t) \<longleftrightarrow> ascii s \<and> ascii t" "ascii (c # s) \<longleftrightarrow> of_char c < (128 :: nat) \<and> ascii s" "ascii []"
  by (simp_all add: ascii_def)

lemma ascii_pad [simp]: "ascii (pad k n)"
proof (rule ascii_digits)
  show "list_all digit_char (pad k n)" by (induction k arbitrary: n) auto
qed

lemma ascii_time: "ascii (time_text d)"
proof -
  have "ascii (iso_offset z)" for z by (simp add: iso_offset_def split: option.split)
  then show ?thesis by (simp add: time_text_def isoformat_def)
qed

text \<open>Events that can be written: their names are texts, and their kind is one line.\<close>

fun payload_ok :: "payload_value \<Rightarrow> bool" where
  "payload_ok (PvStr s) = text_name s"
| "payload_ok _ = True"

definition opt_text_name :: "string option \<Rightarrow> bool" where
  "opt_text_name v \<longleftrightarrow> (case v of None \<Rightarrow> True | Some s \<Rightarrow> text_name s)"

definition event_ok :: "forge_event \<Rightarrow> bool" where
  "event_ok ev \<longleftrightarrow> text_name (ev_kind ev) \<and> list_all (\<lambda>c. \<not> line_break c) (points (ev_kind ev)) \<and> valid_datetime (ev_ts ev) \<and>
     opt_text_name (ev_workspace_id ev) \<and> opt_text_name (ev_execution_id ev) \<and>
     distinct (map fst (ev_payload ev)) \<and> list_all (\<lambda>kv. text_name (fst kv) \<and> payload_ok (snd kv)) (ev_payload ev)"

lemma plain_opt: "opt_text_name v \<Longrightarrow> plain_json (json_opt_str v)"
  by (cases v) (simp_all add: opt_text_name_def json_opt_str_def)

lemma plain_payload: "payload_ok v \<Longrightarrow> plain_json (payload_json v)"
  by (cases v) simp_all

lemma plain_event: "event_ok ev \<Longrightarrow> plain_json (event_json ev)"
  using ascii_time [of "ev_ts ev"]
  by (auto simp: event_ok_def event_json_def time_json_def text_name_ascii plain_opt plain_payload comp_def case_prod_beta list_all_iff)

lemma payload_items_json: "payload_items (map (\<lambda>(k, v). (k, payload_json v)) p) = Some p"
proof (induction p)
  case (Cons kv p)
  then show ?case by (cases kv; cases "snd kv") auto
qed simp

lemma as_event_json: "event_ok ev \<Longrightarrow> as_event (event_json ev) = Some ev"
  by (simp add: as_event_def event_json_def event_ok_def json_defs payload_items_json)

lemma take_line_break: "list_all (\<lambda>c. \<not> line_break c) u \<Longrightarrow> take_line (u @ 10 # v) = (u @ [10], v)"
  by (induction u) (auto simp: line_break_def)

lemma take_line_last: "list_all (\<lambda>c. \<not> line_break c) v \<Longrightarrow> take_line v = (v, [])"
  by (induction v) (auto simp: line_break_def)

lemma splitlines_two:
  assumes u: "list_all (\<lambda>c. \<not> line_break c) u" and v: "list_all (\<lambda>c. \<not> line_break c) v" "v \<noteq> []"
  shows "splitlines (u @ 10 # v) = [u, v]"
proof -
  have "splitlines_keep (u @ 10 # v) = [u @ [10], v]"
    using take_line_break [OF u, of v] take_line_last [OF v(1)] v(2) by (subst splitlines_keep.simps, subst splitlines_keep.simps) (simp add: splitlines_keep.simps)
  moreover have "strip_break (u @ [10]) = u"
  proof (cases "u = []")
    case False
    with u have "\<not> line_break (last u)" by (simp add: list_all_iff)
    then have "last u \<noteq> 13" by (auto simp: line_break_def)
    then show ?thesis by (simp add: strip_break_def line_break_def)
  qed (simp add: strip_break_def line_break_def)
  moreover have "strip_break v = v"
  proof -
    have "\<not> line_break (last v)" using v by (simp add: list_all_iff)
    moreover from this have "last v \<noteq> 10" by (auto simp: line_break_def)
    ultimately show ?thesis by (simp add: strip_break_def)
  qed
  ultimately show ?thesis by (simp add: splitlines_def)
qed

lemma cut_frame_at: "cut_frame (u @ [10]) = None \<Longrightarrow> cut_frame (u @ 10 # 10 # r) = Some (u, r)"
proof (induction u)
  case (Cons x u)
  then show ?case by (cases u) (auto split: if_splits)
qed simp

lemma cut_frame_two:
  assumes "10 \<notin> set a" and "10 \<notin> set b" and "b \<noteq> []"
  shows "cut_frame (a @ 10 # b @ [10]) = None"
proof -
  have b: "10 \<notin> set c \<Longrightarrow> cut_frame (c @ [10]) = None" for c
  proof (induction c)
    case (Cons x c)
    then show ?case by (cases c) auto
  qed simp
  have "cut_frame (10 # b @ [10]) = None" using b [OF assms(2)] assms(2,3) by (cases b) auto
  with assms(1) show ?thesis
  proof (induction a)
    case (Cons x a)
    then show ?case by (cases a) auto
  qed simp
qed

lemma no_break_ten: "list_all (\<lambda>c. \<not> line_break c) u \<Longrightarrow> 10 \<notin> set u"
  by (auto simp: list_all_iff line_break_def)

lemma printable_no_break: "list_all printable u \<Longrightarrow> list_all (\<lambda>c. \<not> line_break c) u"
  by (auto simp: list_all_iff printable_def line_break_def)

lemma frame_of_event:
  assumes "event_ok ev"
  shows "cut_frame (sse_frame ev @ r) = Some (sse_lines ev, r)" and "frame_events (sse_lines ev) = [Inr ev]"
proof -
  let ?a = "lit ''event: '' @ points (ev_kind ev)" and ?b = "lit ''data: '' @ dumps (event_json ev)"
  have l: "sse_lines ev = ?a @ 10 # ?b" by (simp add: sse_lines_def)
  have a: "list_all (\<lambda>c. \<not> line_break c) ?a" using assms by (simp add: event_ok_def) (simp add: line_break_def)
  have "list_all printable ?b" using printable_dumps(1) [OF plain_event [OF assms]] by simp (simp add: printable_def)
  then have b: "list_all (\<lambda>c. \<not> line_break c) ?b" by (rule printable_no_break)
  show "cut_frame (sse_frame ev @ r) = Some (sse_lines ev, r)"
    using cut_frame_at [of "sse_lines ev" r] cut_frame_two [OF no_break_ten [OF a] no_break_ten [OF b]] by (simp add: sse_frame_def l)
  have "loads (drop 6 ?b) = Some (event_json ev)" using loads_dumps [OF plain_event [OF assms]] by simp
  then have "line_event ?b = Inr ev" using as_event_json [OF assms] by (simp add: line_event_def)
  then show "frame_events (sse_lines ev) = [Inr ev]"
    using splitlines_two [OF a b] by (simp add: l frame_events_def data_line_def)
qed

lemma frames_of_events:
  assumes "list_all event_ok evs"
  shows "frames (concat (map sse_frame evs)) = (map sse_lines evs, [])"
  using assms
proof (induction evs)
  case Nil
  show ?case by (subst frames.simps) simp
next
  case (Cons ev evs)
  then show ?case using frame_of_event(1) [of ev] by (subst frames.simps) simp
qed

lemma stream_read:
  assumes "list_all event_ok evs" and "prefix (concat cs) (concat (map sse_frame evs))"
  shows "prefix (sse_read [] cs) (map Inr evs)" and "concat cs = concat (map sse_frame evs) \<Longrightarrow> sse_read [] cs = map Inr evs"
proof -
  have c: "concat (map frame_events (map sse_lines evs)) = map Inr evs"
    using assms(1) frame_of_event(2) by (induction evs) simp_all
  have r: "sse_items [] cs = concat (map frame_events (fst (frames (concat cs))))" using sse_items_chunks [of "[]" cs] by simp
  from assms(2) obtain t where "concat (map sse_frame evs) = concat cs @ t" by (auto simp: prefix_def)
  with frames_append [of "concat cs" t] frames_of_events [OF assms(1)]
  have "fst (frames (concat cs)) @ fst (frames (snd (frames (concat cs)) @ t)) = map sse_lines evs" by simp
  then have "prefix (fst (frames (concat cs))) (map sse_lines evs)" by (metis prefixI)
  then obtain zs where z: "map sse_lines evs = fst (frames (concat cs)) @ zs" by (auto simp: prefix_def)
  have "map Inr evs = sse_items [] cs @ concat (map frame_events zs)" unfolding c [symmetric] r z by simp
  then have p: "prefix (sse_items [] cs) (map Inr evs)" by (metis prefixI)
  from until_error_Inr [OF p] have same: "sse_read [] cs = sse_items [] cs" by (simp add: sse_read_def)
  show "prefix (sse_read [] cs) (map Inr evs)" unfolding same by (rule p)
  show "concat cs = concat (map sse_frame evs) \<Longrightarrow> sse_read [] cs = map Inr evs"
    using same c r frames_of_events [OF assms(1)] by simp
qed

section \<open>A remote subscription\<close>

text \<open>The subscription the route opens, and what it has written after a run of the bus.\<close>

definition stream_events :: "string \<Rightarrow> bus \<Rightarrow> nat \<times> bus" where
  "stream_events wid b = subscribe None (Some wid) None b"

definition stream_body :: "nat \<Rightarrow> bus_op list \<Rightarrow> bus \<Rightarrow> ustr" where
  "stream_body n xs b = concat (map sse_frame (received n xs b))"

definition published :: "bus_op list \<Rightarrow> forge_event list" where
  "published xs = concat (map (\<lambda>x. case x of Publish ev \<Rightarrow> [ev] | _ \<Rightarrow> []) xs)"

lemma received_published:
  assumes "bus_ok b" and "stream_events wid b = (n, b')" and "Close n \<notin> set xs"
  shows "subseq (received n xs b') (filter (\<lambda>ev. ev_workspace_id ev = Some wid) (published xs))"
proof -
  from find_new_sub [OF assms(1) assms(2) [unfolded stream_events_def]] obtain s where
    s: "find_sub n b' = Some s" "sub_queue s = []" "sub_lost s = 0" "sub_match s = ev_match None (Some wid) None" by blast
  have "sub_match s = (\<lambda>ev. ev_workspace_id ev = Some wid)" using s(4) by (intro ext) (auto simp: ev_match_def)
  then have "wanted s xs = filter (\<lambda>ev. ev_workspace_id ev = Some wid) (published xs)" by (simp add: wanted_def published_def)
  with bus_delivery [OF s(1-3) assms(3)] show ?thesis
    using subseq_order.trans [OF list_emb_prefix [OF subseq_order.refl]] by fastforce
qed

end
