(* ===== verification/Transport_Props.thy ===== *)
theory Transport_Props
  imports Sdk_Laws Event_Stream Files_Props Meta_Props
begin

text \<open>
  The properties of the daemon as its clients see it: calls over HTTP against calls in the process,
  errors, the event stream, and the files of a sandbox.
\<close>

section \<open>Concrete inputs\<close>

definition demo_host :: host where
  "demo_host =
     \<lparr>h_layout = \<lparr>lay_workspaces = demo_base, lay_snapshots = [''data'', ''snapshots''], lay_artifacts = [''data'', ''artifacts'']\<rparr>,
      h_os = (\<lambda>p. (0, demo_time)), h_compile = (\<lambda>p. None), h_guess = (\<lambda>n. None),
      h_archiver = \<lparr>ar_pack = (\<lambda>ms. []), ar_unpack = (\<lambda>b. ([], None))\<rparr>, h_hex = ''ab'', h_now = demo_time, h_later = demo_time,
      h_exec = \<lparr>xc_base = demo_base, xc_hex = ''cd'', xc_event_ts = (\<lambda>k. demo_time), xc_started = demo_time, xc_finished = demo_time,
        xc_duration_ms = 0, xc_error_text = (\<lambda>e. ''failed''), xc_run = (\<lambda>e w c d t m. Inl DockerError)\<rparr>,
      h_message = (\<lambda>e. ''failed''), h_version = ''1''\<rparr>"

definition demo_state :: forge_state where
  "demo_state = \<lparr>sv_world = \<lparr>w_stores = \<lparr>st_meta = demo_store, st_fs = demo_fs\<rparr>, w_bus = new_bus 256\<rparr>, sv_pool = new_pool (make_config (Some [''data'']) None [] None (\<lambda>i. None))\<rparr>"

section \<open>Calls\<close>

text \<open>C34: A call over HTTP is the call in the process: for each method of the transport protocol, and
  every web framework that keeps its contract, the services end in the same state and the result is
  the same, when the arguments and the result can be written as JSON; an exception of a class the
  client knows arrives as that class, any other as a \<open>ForgeError\<close>.\<close>

theorem remote_call_is_local_call:
  assumes "web_framework pick fh" and "sendable c" and "local_call h c s = (r, s')" and "\<forall>v. r = Inr v \<longrightarrow> reply_ok v"
  shows "http_call (serve pick fh h) c s = (case r of Inl e \<Rightarrow> Inl (client_sees h e) | Inr v \<Rightarrow> Inr v, s')"
  using web_framework.mirrors_call [OF assms(1,2), of h] assms(3,4)
  by (auto simp: mirrors_def split: sum.split dest!: spec [of _ s])

lemma demo_plain [simp]: "plain_segment ''w1''" "plain_segment ''w9''"
  by (simp_all add: plain_segment_def name_ok_ascii dot_def dotdot_def slash_def)

lemma demo_get_ws: "get_workspace ''w1'' demo_store = (Inr (demo_ws ''w1''), demo_store)"
  by (simp add: demo_store_eval get_workspace_apply migrate_def empty_db_def tbl_find_def workspace_row_def demo_ws_def
      row_to_workspace_def op_simps required_ts_isoformat parse_workspace_status_str [of WsReady, simplified])

lemma demo_get_local: "local_get_workspace ''w1'' demo_state = (Inr (demo_ws ''w1''), demo_state)"
  using demo_get_ws by (simp add: local_get_workspace_def service_get_def in_stores_def in_world_def on_meta_def focusM_apply demo_state_def)

lemma demo_reply_ok: "reply_ok (RWorkspace (demo_ws ''w1''))"
proof -
  have "valid_datetime demo_time" using demo_time_ok by (simp add: ts_ok_def)
  then show ?thesis using ascii_time [of demo_time]
    by (simp add: workspace_ok_def demo_ws_def workspace_json_def spec_to_json_def limits_to_json_def default_spec_def default_limits_def
        json_dict_def time_json_def opt_name_ok_def name_ok_ascii ascii_def)
qed

theorem remote_call_is_local_call_witness:
  "http_call (serve (first_route 0) mro_handler demo_host) (GetWorkspace ''w1'') demo_state =
     (Inr (RWorkspace (demo_ws ''w1'')), demo_state)"
proof -
  have l: "local_call demo_host (GetWorkspace ''w1'') demo_state = (Inr (RWorkspace (demo_ws ''w1'')), demo_state)"
    using demo_get_local by (simp add: mapM_def bindM_apply retM_apply)
  from demo_reply_ok demo_plain remote_call_is_local_call [OF plain_web.web_framework_axioms _ l] show ?thesis by simp
qed


lemma demo_get_missing: "get_workspace ''w9'' demo_store = (Inl NotFoundError, demo_store)"
  by (simp add: demo_store_eval get_workspace_apply migrate_def empty_db_def tbl_find_def workspace_row_def demo_ws_def)


section \<open>Events\<close>

text \<open>C36: A remote subscriber reads the events of its workspace: however the stream of the daemon is cut
  into chunks, the client takes from what has arrived the events the subscription was given, in
  their order, none twice and none damaged, and all of them once everything has arrived; they are
  events published for that workspace, in the order of publication.\<close>

theorem remote_subscriber_reads_events:
  assumes "bus_ok b" and "stream_events wid b = (n, b')" and "Close n \<notin> set xs" and "list_all event_ok (published xs)"
    and "prefix (concat cs) (stream_body n xs b')"
  shows "prefix (sse_read [] cs) (map Inr (received n xs b')) \<and>
    (concat cs = stream_body n xs b' \<longrightarrow> sse_read [] cs = map Inr (received n xs b')) \<and>
    subseq (received n xs b') (filter (\<lambda>ev. ev_workspace_id ev = Some wid) (published xs))"
proof -
  note sub = received_published [OF assms(1-3)]
  then have "list_all event_ok (received n xs b')"
    using assms(4) by (auto simp: list_all_iff elim!: list_emb_set [OF sub])
  from stream_read [OF this] assms(5) sub show ?thesis by (simp add: stream_body_def)
qed

definition remote_event :: forge_event where
  "remote_event = \<lparr>ev_kind = ''execution.queued'', ev_ts = demo_time, ev_workspace_id = Some ''w1'', ev_execution_id = Some ''ex_1'',
     ev_payload = [(''exit_code'', PvInt 0)]\<rparr>"

theorem remote_subscriber_reads_events_witness:
  "\<exists>n b'. stream_events ''w1'' (new_bus 256) = (n, b') \<and>
     sse_read [] [take 9 (stream_body n [Publish remote_event, Receive 0] b'), drop 9 (stream_body n [Publish remote_event, Receive 0] b')] =
       [Inr remote_event]"
proof -
  let ?b = "snd (stream_events ''w1'' (new_bus 256))" and ?xs = "[Publish remote_event, Receive 0]"
  have s: "stream_events ''w1'' (new_bus 256) = (0, ?b)" by (simp add: stream_events_def subscribe_def new_bus_def)
  have r: "received 0 ?xs ?b = [remote_event]"
    by (simp add: stream_events_def new_bus_def subscribe_def publish_def deliver_def sub_match_def ev_match_def offer_def put_nowait_def
        next_event_def find_sub_def take_event_def remote_event_def)
  have "name_points ''execution.queued'' = Some (lit ''execution.queued'')"
    using utf8_decode_ascii [of "''execution.queued''"] by (simp add: name_points_def)
  then have "event_ok remote_event" using demo_time_ok
    by (simp add: event_ok_def remote_event_def text_name_ascii ascii_def points_def line_break_def opt_text_name_def ts_ok_def)
  then have "list_all event_ok (published ?xs)" by (simp add: published_def)
  from remote_subscriber_reads_events [OF _ s _ this, of "[take 9 (stream_body 0 ?xs ?b), drop 9 (stream_body 0 ?xs ?b)]"] r s
  show ?thesis by (intro exI [of _ 0] exI [of _ ?b]) (simp add: bus_ok_def new_bus_def)
qed

section \<open>Files of a sandbox\<close>

text \<open>C37: The files of a sandbox over HTTP come back: in a batch of uploads, some of which may be refused,
  each file that was reported as written is downloaded with exactly its bytes, unless a later file of
  the batch has a path that leads to the same place. This holds through the backend, the HTTP
  client, the routes and the file service.\<close>

theorem sandbox_files_come_back:
  assumes "web_framework pick fh" and "plain_segment (ws_id (sb_workspace sb))" and "live_root h (ws_id (sb_workspace sb)) s"
    and "aupload_files (http_transport (serve pick fh h)) sb (xs @ (u, b) # ys) s = (Inr rs, s')"
    and "ur_error (rs ! length xs) = None"
    and "\<forall>f \<in> set ys. resolves h (ws_id (sb_workspace sb)) (fst f) s \<noteq> resolves h (ws_id (sb_workspace sb)) u s"
  shows "adownload_files (http_transport (serve pick fh h)) sb [u] s' =
    (Inr [\<lparr>dr_path = u, dr_content = Some b, dr_error = None\<rparr>], s')"
  using web_framework.remote_batch [OF assms(1)] assms(2-6) by blast


definition demo_sandbox :: sandbox where "demo_sandbox = new_sandbox (demo_ws ''w1'')"

theorem sandbox_files_come_back_witness:
  "\<exists>s'. adownload_files (http_transport (serve (first_route 0) mro_handler demo_host)) demo_sandbox [''b.bin''] s' =
     (Inr [\<lparr>dr_path = ''b.bin'', dr_content = Some [0, 1], dr_error = None\<rparr>], s')"
proof -
  let ?srv = "serve (first_route 0) mro_handler demo_host" and ?i = "\<lparr>up_path = ''b.bin'', up_content_b64 = b64encode [0, 1]\<rparr>"
  have i: "?i = demo_item" by (simp add: demo_item_def) code_simp
  have w: "ws_id (sb_workspace demo_sandbox) = ''w1''" by (simp add: demo_sandbox_def new_sandbox_def demo_ws_def)
  have f: "fs_of demo_state = demo_fs" by (simp add: fs_of_def demo_state_def)
  have b: "base_of demo_host = demo_base" by (simp add: demo_host_def)
  obtain t where t: "upload_files demo_base ''w1'' [demo_item] demo_fs = (Inr [''b.bin''], t)" using demo_upload by blast
  let ?s1 = "put_fs t demo_state"
  have l: "local_upload_files demo_host ''w1'' [?i] demo_state = (Inr [''b.bin''], ?s1)"
    unfolding i by (simp add: local_upload_apply b f t del: upload_files.simps)
  have "sendable (Upload ''w1'' [?i])" by (simp add: name_ok_ascii name_ok_b64 del: b64encode.simps)
  from plain_web.mirrors_upload [OF this, of demo_host] l have "http_upload_files ?srv ''w1'' [?i] demo_state = (Inr [''b.bin''], ?s1)"
    by (auto simp: mirrors_def name_ok_ascii dest!: spec [of _ demo_state])
  then have up: "aupload_files (http_transport ?srv) demo_sandbox ([] @ (''b.bin'', [0, 1]) # []) demo_state =
      (Inr [\<lparr>ur_path = ''b.bin'', ur_error = None\<rparr>], ?s1)"
    by (simp add: aupload_one_def w bindM_apply catchM_apply retM_apply liftR_apply upload_response_of_def)
  have "live_root demo_host ''w1'' demo_state" using demo_root by (simp add: live_root_def b f)
  with sandbox_files_come_back [OF plain_web.web_framework_axioms _ _ up] w show ?thesis by (intro exI [of _ ?s1]) simp
qed

end
