(* ===== verification/Cli.thy ===== *)
theory Cli
  imports Sdk_Laws Event_Stream
begin

text \<open>
  The command line (\<open>forge/cli.py\<close>): each command as an operation over a transport, the terminal it
  prints to and the files of the machine it runs on. Names of local files are real paths. What a
  command prints is kept as code points, before the terminal encodes it.
\<close>

section \<open>The terminal\<close>

record 's console =
  con_forge :: 's
  con_files :: fs
  con_out :: ustr

definition remote :: "('s, exn, 'a) op \<Rightarrow> ('s console, exn, 'a) op" where
  "remote m = focusM con_forge (\<lambda>x c. c\<lparr>con_forge := x\<rparr>) m"

definition disk :: "'a fs_op \<Rightarrow> ('s console, exn, 'a) op" where
  "disk m = focusM con_files (\<lambda>x c. c\<lparr>con_files := x\<rparr>) m"

text \<open>\<open>sys.stdout.write\<close>, and \<open>typer.echo\<close>, which ends the line.\<close>

definition put :: "ustr \<Rightarrow> ('s console, exn, unit) op" where
  "put u = (\<lambda>c. (Inr (), c\<lparr>con_out := con_out c @ u\<rparr>))"

definition echo :: "ustr \<Rightarrow> ('s console, exn, unit) op" where
  "echo line = put (line @ [10])"

fun echo_all :: "ustr list \<Rightarrow> ('s console, exn, unit) op" where
  "echo_all [] = retM ()"
| "echo_all (u # us) = bindM (echo u) (\<lambda>_. echo_all us)"

section \<open>Lines\<close>

definition columns :: "ustr list \<Rightarrow> ustr" where
  "columns us = (case us of [] \<Rightarrow> [] | u # vs \<Rightarrow> u @ concat (map (\<lambda>v. 9 # v) vs))"

definition count_text :: "nat \<Rightarrow> ustr" where
  "count_text n = lit (nat_text n)"

text \<open>\<open>x or '-'\<close> and \<open>{n:>10}\<close>.\<close>

definition or_dash :: "string option \<Rightarrow> ustr" where
  "or_dash v = (case v of None \<Rightarrow> lit ''-'' | Some n \<Rightarrow> if n = [] then lit ''-'' else points n)"

definition right10 :: "nat \<Rightarrow> ustr" where
  "right10 n = replicate (10 - length (nat_text n)) 32 @ count_text n"

definition workspace_line :: "workspace \<Rightarrow> ustr" where
  "workspace_line w = columns [points (ws_id w), lit (workspace_status_str (ws_status w)), points (spec_image (ws_spec w)), or_dash (ws_name w)]"

definition entry_line :: "file_list_entry \<Rightarrow> ustr" where
  "entry_line e = lit (if fle_is_dir e then ''d'' else ''-'') @ [32] @ right10 (fle_size_bytes e) @ [32] @ points (fle_path e)"

definition snapshot_line :: "snapshot \<Rightarrow> ustr" where
  "snapshot_line s = columns [points (snap_id s), lit (int_text (snap_size_bytes s)), or_dash (snap_name s)]"

definition stats_line :: "pool_stats \<Rightarrow> ustr" where
  "stats_line s = columns [points (ps_image s), lit ''idle='' @ count_text (ps_idle s), lit ''in_use='' @ count_text (ps_in_use s),
     lit ''total='' @ count_text (ps_total s), lit ''max='' @ lit (int_text (ps_max_size s)),
     lit ''leases='' @ count_text (ps_total_leases s), lit ''kills='' @ count_text (ps_total_health_kills s)]"

text \<open>\<open>json.dumps\<close> with an indentation of two.\<close>

definition new_line :: "nat \<Rightarrow> ustr" where
  "new_line n = 10 # replicate n 32"

fun pretty :: "nat \<Rightarrow> json \<Rightarrow> ustr" and pretty_more :: "nat \<Rightarrow> json list \<Rightarrow> ustr"
  and pretty_members :: "nat \<Rightarrow> (string \<times> json) list \<Rightarrow> ustr" where
  "pretty n (JArr (x # xs)) = 91 # new_line (n + 2) @ pretty (n + 2) x @ pretty_more n xs"
| "pretty n (JObj ((k, v) # kvs)) = 123 # new_line (n + 2) @ str_text k @ lit '': '' @ pretty (n + 2) v @ pretty_members n kvs"
| "pretty n j = dumps j"
| "pretty_more n [] = new_line n @ [93]"
| "pretty_more n (x # xs) = 44 # new_line (n + 2) @ pretty (n + 2) x @ pretty_more n xs"
| "pretty_members n [] = new_line n @ [125]"
| "pretty_members n ((k, v) # kvs) = 44 # new_line (n + 2) @ str_text k @ lit '': '' @ pretty (n + 2) v @ pretty_members n kvs"

section \<open>Commands\<close>

definition cli_version :: "string \<Rightarrow> ('s console, exn, unit) op" where
  "cli_version v = echo (points v)"

definition cli_health :: "'s transport \<Rightarrow> ('s console, exn, unit) op" where
  "cli_health t = bindM (remote (forge_pool_status t None)) (\<lambda>stats. echo (pretty 0 (list_json pool_stats_json stats)))"

definition cli_workspace_create :: "'s transport \<Rightarrow> string \<Rightarrow> string option \<Rightarrow> ('s console, exn, unit) op" where
  "cli_workspace_create t img name = bindM (remote (workspaces_create t img None None None name None)) (\<lambda>ws. echo (points (ws_id ws)))"

definition cli_workspace_list :: "'s transport \<Rightarrow> ('s console, exn, unit) op" where
  "cli_workspace_list t = bindM (remote (workspaces_list t)) (\<lambda>rows. echo_all (map workspace_line rows))"

text \<open>Most commands begin by fetching the workspace.\<close>

definition with_workspace :: "'s transport \<Rightarrow> string \<Rightarrow> (workspace \<Rightarrow> ('s console, exn, 'a) op) \<Rightarrow> ('s console, exn, 'a) op" where
  "with_workspace t wid k = bindM (remote (workspaces_get t wid)) k"

definition cli_workspace_delete :: "'s transport \<Rightarrow> string \<Rightarrow> ('s console, exn, unit) op" where
  "cli_workspace_delete t wid = with_workspace t wid (\<lambda>ws. remote (handle_delete t ws))"

definition cli_files_read :: "'s transport \<Rightarrow> string \<Rightarrow> string \<Rightarrow> ('s console, exn, unit) op" where
  "cli_files_read t wid path = with_workspace t wid (\<lambda>ws. bindM (remote (files_read t ws path None None)) (\<lambda>r. put (frr_content r)))"

text \<open>\<open>src.read_text(encoding="utf-8")\<close>.\<close>

definition read_text :: "path \<Rightarrow> ustr fs_op" where
  "read_text p = (\<lambda>f. (case node_at f p of
     Some (File b) \<Rightarrow> (case utf8_decode b of None \<Rightarrow> Inl UnicodeError | Some u \<Rightarrow> Inr (translate_newlines u))
   | _ \<Rightarrow> Inl OSError, f))"

definition cli_files_write :: "'s transport \<Rightarrow> string \<Rightarrow> string \<Rightarrow> path \<Rightarrow> ('s console, exn, unit) op" where
  "cli_files_write t wid path src =
     with_workspace t wid (\<lambda>ws. bindM (disk (read_text src)) (\<lambda>content. remote (files_write t ws path content)))"

definition cli_files_ls :: "'s transport \<Rightarrow> string \<Rightarrow> string option \<Rightarrow> ('s console, exn, unit) op" where
  "cli_files_ls t wid path = with_workspace t wid (\<lambda>ws. bindM (remote (files_ls t ws path)) (\<lambda>es. echo_all (map entry_line es)))"

definition cli_exec :: "'s transport \<Rightarrow> string \<Rightarrow> string list \<Rightarrow> bool \<Rightarrow> rat \<Rightarrow> ('s console, exn, int) op" where
  "cli_exec t wid command shell timeout =
     with_workspace t wid (\<lambda>ws. bindM (remote (handle_exec t ws command shell None (Some timeout) None None))
       (\<lambda>r. bindM (put (er_output r)) (\<lambda>_. retM (er_exit_code r))))"

definition cli_snapshot_create :: "'s transport \<Rightarrow> string \<Rightarrow> string option \<Rightarrow> ('s console, exn, unit) op" where
  "cli_snapshot_create t wid name =
     with_workspace t wid (\<lambda>ws. bindM (remote (snapshots_create t ws name)) (\<lambda>s. echo (points (snap_id s))))"

definition cli_snapshot_list :: "'s transport \<Rightarrow> string \<Rightarrow> ('s console, exn, unit) op" where
  "cli_snapshot_list t wid =
     with_workspace t wid (\<lambda>ws. bindM (remote (snapshots_list t ws)) (\<lambda>ss. echo_all (map snapshot_line ss)))"

definition cli_snapshot_restore :: "'s transport \<Rightarrow> string \<Rightarrow> string option \<Rightarrow> ('s console, exn, unit) op" where
  "cli_snapshot_restore t sid name = bindM (remote (t_restore_snapshot t sid name [])) (\<lambda>ws. echo (points (ws_id ws)))"

definition cli_artifact_export :: "'s transport \<Rightarrow> string \<Rightarrow> string \<Rightarrow> ('s console, exn, unit) op" where
  "cli_artifact_export t wid path =
     with_workspace t wid (\<lambda>ws. bindM (remote (artifacts_export t ws path None)) (\<lambda>a. echo (points (art_id a))))"

text \<open>The HTTP client sends the request of a stream when its first piece is asked for, after the output file has been opened.\<close>

definition cli_artifact_download :: "'s transport \<Rightarrow> string \<Rightarrow> path \<Rightarrow> ('s console, exn, unit) op" where
  "cli_artifact_download t aid output =
     bindM (disk (write_bytes output [])) (\<lambda>_. bindM (remote (t_read_artifact t aid)) (\<lambda>b. disk (write_bytes output b)))"

definition cli_pool_status :: "'s transport \<Rightarrow> string option \<Rightarrow> ('s console, exn, unit) op" where
  "cli_pool_status t img = bindM (remote (forge_pool_status t img)) (\<lambda>stats. echo_all (map stats_line stats))"

section \<open>The program\<close>

datatype command =
    Version string
  | Health
  | WorkspaceCreate string "string option"
  | WorkspaceList
  | WorkspaceDelete string
  | FilesRead string string
  | FilesWrite string string path
  | FilesLs string "string option"
  | RunCommand string "string list" bool rat
  | SnapshotCreate string "string option"
  | SnapshotList string
  | SnapshotRestore string "string option"
  | ArtifactExport string string
  | ArtifactDownload string path
  | PoolStatusOf "string option"

definition quiet :: "('s console, exn, unit) op \<Rightarrow> ('s console, exn, int) op" where
  "quiet m = bindM m (\<lambda>_. retM 0)"

fun run_command :: "'s transport \<Rightarrow> command \<Rightarrow> ('s console, exn, int) op" where
  "run_command t (Version v) = quiet (cli_version v)"
| "run_command t Health = quiet (cli_health t)"
| "run_command t (WorkspaceCreate img name) = quiet (cli_workspace_create t img name)"
| "run_command t WorkspaceList = quiet (cli_workspace_list t)"
| "run_command t (WorkspaceDelete wid) = quiet (cli_workspace_delete t wid)"
| "run_command t (FilesRead wid path) = quiet (cli_files_read t wid path)"
| "run_command t (FilesWrite wid path src) = quiet (cli_files_write t wid path src)"
| "run_command t (FilesLs wid path) = quiet (cli_files_ls t wid path)"
| "run_command t (RunCommand wid cmd shell timeout) = cli_exec t wid cmd shell timeout"
| "run_command t (SnapshotCreate wid name) = quiet (cli_snapshot_create t wid name)"
| "run_command t (SnapshotList wid) = quiet (cli_snapshot_list t wid)"
| "run_command t (SnapshotRestore sid name) = quiet (cli_snapshot_restore t sid name)"
| "run_command t (ArtifactExport wid path) = quiet (cli_artifact_export t wid path)"
| "run_command t (ArtifactDownload aid output) = quiet (cli_artifact_download t aid output)"
| "run_command t (PoolStatusOf img) = quiet (cli_pool_status t img)"

text \<open>An exception that nobody catches ends the program with status 1.\<close>

definition forge_cli :: "'s transport \<Rightarrow> command \<Rightarrow> 's console \<Rightarrow> int \<times> 's console" where
  "forge_cli t cmd c = (case run_command t cmd c of (Inl e, c') \<Rightarrow> (1, c') | (Inr n, c') \<Rightarrow> (n, c'))"

end
