(* ===== verification/Cli_Laws.thy ===== *)
theory Cli_Laws
  imports Cli Workspace_Laws
begin

text \<open>
  A command does not notice which transport it has: two runs that agree call by call print the same
  and end alike. The lemmas follow the command's chain of calls with the relation \<open>agree\<close>.
\<close>

section \<open>Runs that agree\<close>

text \<open>Both succeed with the same value, or both raise, with the same console.\<close>

definition agree :: "'s console \<Rightarrow> ('s console, exn, 'a) op \<Rightarrow> ('s console, exn, 'a) op \<Rightarrow> bool" where
  "agree c m n \<longleftrightarrow> (case n c of
     (Inl e, c') \<Rightarrow> (\<exists>e'. m c = (Inl e', c'))
   | (Inr v, c') \<Rightarrow> m c = (Inr v, c'))"

named_theorems agree_intros

lemma agree_refl [agree_intros]: "agree c m m"
  by (auto simp: agree_def split: prod.split sum.split)

lemma agree_bind:
  assumes "agree c m n" and "\<And>v c'. n c = (Inr v, c') \<Longrightarrow> agree c' (f v) (g v)"
  shows "agree c (bindM m f) (bindM n g)"
  using assms by (fastforce simp: agree_def bindM_apply split: prod.splits sum.splits)

lemma agree_remote:
  assumes "mirrors h good m n" and "\<And>v s'. n (con_forge c) = (Inr v, s') \<Longrightarrow> good v"
  shows "agree c (remote m) (remote n)"
  using assms by (auto simp: agree_def mirrors_def remote_def focusM_apply split: prod.splits sum.splits dest!: spec [of _ "con_forge c"])

lemma agree_quiet: "agree c m n \<Longrightarrow> agree c (quiet m) (quiet n)"
  unfolding quiet_def by (rule agree_bind, assumption, rule agree_refl)

lemma agree_cli:
  "agree c (run_command t cmd) (run_command t' cmd) \<Longrightarrow> forge_cli t cmd c = forge_cli t' cmd c"
  by (auto simp: agree_def forge_cli_def split: prod.splits sum.splits)

section \<open>Fetching the workspace\<close>

lemma local_get_workspace_fetched:
  assumes "local_get_workspace wid s = (Inr ws, s')"
  shows "s' = s \<and> ws_id ws = wid"
proof -
  let ?m = "st_meta (w_stores (sv_world s))"
  from assms obtain m where m: "get_workspace wid ?m = (Inr ws, m)" and s': "s' = s\<lparr>sv_world := (sv_world s)\<lparr>w_stores := (w_stores (sv_world s))\<lparr>st_meta := m\<rparr>\<rparr>\<rparr>"
    by (auto simp: local_get_workspace_def service_get_def in_stores_def in_world_def on_meta_def focusM_apply split: prod.splits)
  from get_workspace_known [OF m] have k: "m = ?m" "ms_open ?m" by auto
  from m k(2) obtain r where r: "tbl_find wr_id wid (t_workspaces (migrate (ms_file ?m))) = Some r" "row_to_workspace r = Inr ws"
    by (auto simp: get_workspace_apply split: option.splits)
  from r(1) have "wr_id r = wid" by (auto simp: tbl_find_def dest: find_SomeD)
  with r(2) k(1) s' show ?thesis by (auto simp: row_to_workspace_def bindR_Inr_iff)
qed

text \<open>The calls of a command, in the order it makes them.\<close>

fun command_calls :: "'s console \<Rightarrow> command \<Rightarrow> call list" where
  "command_calls c (Version v) = []"
| "command_calls c Health = [PoolStatus None]"
| "command_calls c (WorkspaceCreate img name) =
     [CreateWorkspace \<lparr>spec_image = img, spec_runtime = DockerRuntime, spec_working_dir = None, spec_env = [], spec_resources = default_limits\<rparr> name []]"
| "command_calls c WorkspaceList = [ListWorkspaces]"
| "command_calls c (WorkspaceDelete wid) = [GetWorkspace wid, DeleteWorkspace wid]"
| "command_calls c (FilesRead wid path) = [GetWorkspace wid, Read wid path 0 None]"
| "command_calls c (FilesWrite wid path src) = GetWorkspace wid #
     (case fst (read_text src (con_files c)) of Inl e \<Rightarrow> [] | Inr content \<Rightarrow> [Write wid path content])"
| "command_calls c (FilesLs wid path) = [GetWorkspace wid, Ls wid (case path of None \<Rightarrow> ''.'' | Some p \<Rightarrow> p)]"
| "command_calls c (RunCommand wid cmd shell timeout) = [GetWorkspace wid,
     Exec wid \<lparr>rq_command = cmd, rq_shell = shell, rq_env = [], rq_timeout_seconds = Some timeout, rq_max_output_bytes = None, rq_idempotency_key = None\<rparr>]"
| "command_calls c (SnapshotCreate wid name) = [GetWorkspace wid, CreateSnapshot wid name]"
| "command_calls c (SnapshotList wid) = [GetWorkspace wid, ListSnapshots wid]"
| "command_calls c (SnapshotRestore sid name) = [RestoreSnapshot sid name []]"
| "command_calls c (ArtifactExport wid path) = [GetWorkspace wid, ExportArtifact wid path None]"
| "command_calls c (ArtifactDownload aid output) = []"
| "command_calls c (PoolStatusOf img) = [PoolStatus img]"

definition answers_ok :: "host \<Rightarrow> forge_state \<Rightarrow> call \<Rightarrow> bool" where
  "answers_ok h s c \<longleftrightarrow> sendable c \<and> (\<forall>v. fst (local_call h c s) = Inr v \<longrightarrow> reply_ok v)"

lemma answers_okD: "answers_ok h s c \<Longrightarrow> sendable c" "answers_ok h s c \<Longrightarrow> local_call h c s = (Inr v, s') \<Longrightarrow> reply_ok v"
  by (auto simp: answers_ok_def)

lemma mapM_Inr [simp]: "m s = (Inr v, s') \<Longrightarrow> mapM f m s = (Inr (f v), s')"
  by (simp add: mapM_def bindM_apply retM_apply)

lemma http_ops [simp]:
  "t_create_workspace (http_transport server) = http_create_workspace server"
  "t_get_workspace (http_transport server) = http_get_workspace server"
  "t_list_workspaces (http_transport server) = http_list_workspaces server"
  "t_delete_workspace (http_transport server) = http_delete_workspace server"
  "t_ls (http_transport server) = http_ls server"
  "t_read (http_transport server) = http_read server"
  "t_write (http_transport server) = http_write server"
  "t_exec (http_transport server) = http_exec server"
  "t_create_snapshot (http_transport server) = http_create_snapshot server"
  "t_list_snapshots (http_transport server) = http_list_snapshots server"
  "t_restore_snapshot (http_transport server) = http_restore_snapshot server"
  "t_export_artifact (http_transport server) = http_export_artifact server"
  "t_pool_status (http_transport server) = http_pool_status server"
  by (simp_all add: http_transport_def)

lemma local_ops [simp]:
  "t_create_workspace (local_transport h) = local_create_workspace h"
  "t_get_workspace (local_transport h) = local_get_workspace"
  "t_list_workspaces (local_transport h) = local_list_workspaces"
  "t_delete_workspace (local_transport h) = local_delete_workspace h"
  "t_ls (local_transport h) = local_ls h"
  "t_read (local_transport h) = local_read h"
  "t_write (local_transport h) = local_write h"
  "t_exec (local_transport h) = local_exec h"
  "t_create_snapshot (local_transport h) = local_create_snapshot h"
  "t_list_snapshots (local_transport h) = local_list_snapshots"
  "t_restore_snapshot (local_transport h) = local_restore_snapshot h"
  "t_export_artifact (local_transport h) = local_export_artifact h"
  "t_pool_status (local_transport h) = local_pool_status"
  by (simp_all add: local_transport_def)

section \<open>Over the daemon and in the process\<close>

context web_framework
begin

lemma agree_workspace:
  assumes "answers_ok h (con_forge c) (GetWorkspace wid)"
    and "\<And>ws. ws_id ws = wid \<Longrightarrow> agree c (f ws) (g ws)"
  shows "agree c (with_workspace (http_transport (srv h)) wid f) (with_workspace (local_transport h) wid g)"
  unfolding with_workspace_def
proof (rule agree_bind)
  let ?get = "remote (workspaces_get (local_transport h) wid)"
  from answers_okD(1) [OF assms(1)] have p: "plain_segment wid" by simp
  show "agree c (remote (workspaces_get (http_transport (srv h)) wid)) ?get"
    using answers_okD(2) [OF assms(1)]
    by (auto intro!: agree_remote [OF mirrors_get [OF p]] simp: workspaces_get_def)
  show "agree c' (f ws) (g ws)" if "?get c = (Inr ws, c')" for ws c'
  proof -
    from that obtain s' where "local_get_workspace wid (con_forge c) = (Inr ws, s')" "c' = c\<lparr>con_forge := s'\<rparr>"
      by (auto simp: remote_def focusM_apply workspaces_get_def split: prod.splits)
    with local_get_workspace_fetched [of wid "con_forge c" ws s'] assms(2) show ?thesis by auto
  qed
qed

lemma agree_call:
  assumes "answers_ok h (con_forge c) call" and "mirrors h (\<lambda>v. reply_ok (wrap v)) m n" and "local_call h call = mapM wrap n"
  shows "agree c (remote m) (remote n)"
  using answers_okD(2) [OF assms(1)] by (intro agree_remote [OF assms(2)]) (simp add: assms(3))

lemma agree_answer:
  assumes "answers_ok h (con_forge c) call" and "mirrors h (\<lambda>v. reply_ok (wrap v)) m n" and "local_call h call = mapM wrap n"
  shows "agree c (bindM (remote m) f) (bindM (remote n) f)"
  by (rule agree_bind [OF agree_call [OF assms] agree_refl])

lemmas sdk_calls = forge_pool_status_def workspaces_create_def workspaces_list_def handle_delete_def
  files_read_def files_write_def files_ls_def handle_exec_def executions_run_def snapshots_create_def snapshots_list_def artifacts_export_def

lemma agree_pool:
  assumes "answers_ok h (con_forge c) (PoolStatus img)"
  shows "agree c (bindM (remote (forge_pool_status (http_transport (srv h)) img)) f) (bindM (remote (forge_pool_status (local_transport h) img)) f)"
  using agree_answer [OF assms mirrors_pool [OF answers_okD(1) [OF assms]], of f] by (simp add: sdk_calls)

lemma agree_command:
  assumes "\<forall>call \<in> set (command_calls c cmd). answers_ok h (con_forge c) call" and "\<forall>aid output. cmd \<noteq> ArtifactDownload aid output"
  shows "agree c (run_command (http_transport (srv h)) cmd) (run_command (local_transport h) cmd)"
proof (cases cmd)
  case (Version v)
  then show ?thesis by (simp add: agree_refl)
next
  case Health
  with assms(1) show ?thesis by (simp add: cli_health_def agree_quiet agree_pool)
next
  case (PoolStatusOf img)
  with assms(1) show ?thesis by (simp add: cli_pool_status_def agree_quiet agree_pool)
next
  case (WorkspaceCreate img name)
  with assms(1) have a: "answers_ok h (con_forge c) (hd (command_calls c cmd))" by simp
  note b = a [unfolded WorkspaceCreate command_calls.simps list.sel]
  show ?thesis by (simp add: WorkspaceCreate cli_workspace_create_def sdk_calls agree_quiet agree_answer [OF b mirrors_create [OF answers_okD(1) [OF b]]])
next
  case WorkspaceList
  with assms(1) have a: "answers_ok h (con_forge c) ListWorkspaces" by simp
  then show ?thesis by (simp add: WorkspaceList cli_workspace_list_def sdk_calls agree_quiet agree_answer [OF a mirrors_list])
next
  case (ArtifactDownload aid out)
  with assms(2) show ?thesis by simp
next
  case (SnapshotRestore sid name)
  with assms(1) have a: "answers_ok h (con_forge c) (RestoreSnapshot sid name [])" by simp
  then show ?thesis
    by (simp add: SnapshotRestore cli_snapshot_restore_def sdk_calls agree_quiet agree_answer [OF a mirrors_restore [OF answers_okD(1) [OF a]]])
next
  case (WorkspaceDelete wid)
  with assms(1) have g: "answers_ok h (con_forge c) (GetWorkspace wid)" and a: "answers_ok h (con_forge c) (DeleteWorkspace wid)" by simp_all
  from answers_okD(1) [OF a] have "plain_segment wid" by simp
  then show ?thesis
    by (simp add: WorkspaceDelete cli_workspace_delete_def agree_quiet agree_workspace [OF g] sdk_calls agree_call [OF a mirrors_delete])
next
  case (FilesRead wid path)
  with assms(1) have g: "answers_ok h (con_forge c) (GetWorkspace wid)" and a: "answers_ok h (con_forge c) (Read wid path 0 None)" by simp_all
  then show ?thesis
    by (simp add: FilesRead cli_files_read_def agree_quiet agree_workspace [OF g] sdk_calls agree_answer [OF a mirrors_read [OF answers_okD(1) [OF a]]])
next
  case (FilesWrite wid path src)
  with assms(1) have g: "answers_ok h (con_forge c) (GetWorkspace wid)" by simp
  have w: "agree c (bindM (disk (read_text src)) (\<lambda>u. remote (http_write (srv h) wid path u)))
      (bindM (disk (read_text src)) (\<lambda>u. remote (local_write h wid path u)))"
  proof (rule agree_bind [OF agree_refl])
    fix u c'
    assume r: "disk (read_text src) c = (Inr u, c')"
    then have u: "fst (read_text src (con_files c)) = Inr u" "c' = c"
      by (auto simp: disk_def focusM_apply read_text_def)
    with FilesWrite assms(1) have a: "answers_ok h (con_forge c) (Write wid path u)" by simp
    show "agree c' (remote (http_write (srv h) wid path u)) (remote (local_write h wid path u))"
      unfolding u(2) by (rule agree_call [OF a mirrors_write [OF answers_okD(1) [OF a]]]) simp
  qed
  then show ?thesis
    by (simp add: FilesWrite cli_files_write_def agree_quiet agree_workspace [OF g] sdk_calls)
next
  case (FilesLs wid path)
  with assms(1) have g: "answers_ok h (con_forge c) (GetWorkspace wid)"
    and a: "answers_ok h (con_forge c) (Ls wid (case path of None \<Rightarrow> ''.'' | Some p \<Rightarrow> p))" by simp_all
  then show ?thesis
    by (simp add: FilesLs cli_files_ls_def agree_quiet agree_workspace [OF g] sdk_calls agree_answer [OF a mirrors_ls [OF answers_okD(1) [OF a]]])
next
  case (RunCommand wid tokens shell timeout)
  let ?r = "\<lparr>rq_command = tokens, rq_shell = shell, rq_env = [], rq_timeout_seconds = Some timeout, rq_max_output_bytes = None, rq_idempotency_key = None\<rparr>"
  from RunCommand assms(1) have g: "answers_ok h (con_forge c) (GetWorkspace wid)" and a: "answers_ok h (con_forge c) (Exec wid ?r)" by simp_all
  show ?thesis
    by (simp add: RunCommand cli_exec_def agree_workspace [OF g] sdk_calls agree_answer [OF a mirrors_exec [OF answers_okD(1) [OF a]]])
next
  case (SnapshotCreate wid name)
  with assms(1) have g: "answers_ok h (con_forge c) (GetWorkspace wid)" and a: "answers_ok h (con_forge c) (CreateSnapshot wid name)" by simp_all
  then show ?thesis
    by (simp add: SnapshotCreate cli_snapshot_create_def agree_quiet agree_workspace [OF g] sdk_calls agree_answer [OF a mirrors_create_snapshot [OF answers_okD(1) [OF a]]])
next
  case (SnapshotList wid)
  with assms(1) have g: "answers_ok h (con_forge c) (GetWorkspace wid)" and a: "answers_ok h (con_forge c) (ListSnapshots wid)" by simp_all
  from answers_okD(1) [OF a] have "plain_segment wid" by simp
  then show ?thesis
    by (simp add: SnapshotList cli_snapshot_list_def agree_quiet agree_workspace [OF g] sdk_calls agree_answer [OF a mirrors_list_snapshots])
next
  case (ArtifactExport wid path)
  with assms(1) have g: "answers_ok h (con_forge c) (GetWorkspace wid)" and a: "answers_ok h (con_forge c) (ExportArtifact wid path None)" by simp_all
  then show ?thesis
    by (simp add: ArtifactExport cli_artifact_export_def agree_quiet agree_workspace [OF g] sdk_calls agree_answer [OF a mirrors_export [OF answers_okD(1) [OF a]]])
qed

end

section \<open>Copying a file and printing it\<close>

lemma forge_cli_zero: "forge_cli t cmd c = (0, c') \<longleftrightarrow> run_command t cmd c = (Inr 0, c')"
  by (auto simp: forge_cli_def split: prod.split sum.split)

lemma quiet_zero: "quiet m c = (Inr 0, c') \<longleftrightarrow> m c = (Inr (), c')"
  by (auto simp: quiet_def bindM_apply retM_apply split: prod.split sum.split)

lemma remote_apply: "remote m c = (case m (con_forge c) of (r, s) \<Rightarrow> (r, c\<lparr>con_forge := s\<rparr>))"
  by (simp add: remote_def focusM_apply)

lemma local_write_apply: "local_write h wid path u s = (case write_file (base_of h) wid path u (fs_of s) of (r, f) \<Rightarrow> (r, put_fs f s))"
  by (simp add: local_write_def in_files_apply)

lemma local_get_put_fs [simp]: "fst (local_get_workspace wid (put_fs f s)) = fst (local_get_workspace wid s)"
  by (simp add: local_get_workspace_def service_get_def in_stores_def in_world_def on_meta_def focusM_apply put_fs_def split: prod.split)

lemma local_copy:
  assumes "forge_cli (local_transport h) (FilesWrite wid path src) c = (0, c1)" and "fst (read_text src (con_files c)) = Inr u"
  obtains ws g where "local_get_workspace wid (con_forge c) = (Inr ws, con_forge c)" and "ws_id ws = wid"
    and "write_file (base_of h) wid path u (fs_of (con_forge c)) = (Inr (), g)" and "c1 = c\<lparr>con_forge := put_fs g (con_forge c)\<rparr>"
proof -
  from assms(2) have r: "disk (read_text src) c = (Inr u, c)" by (auto simp: disk_def focusM_apply read_text_def)
  from assms(1) obtain ws s1 where ws: "local_get_workspace wid (con_forge c) = (Inr ws, s1)"
    and rest: "bindM (disk (read_text src)) (\<lambda>u. remote (local_write h (ws_id ws) path u)) (c\<lparr>con_forge := s1\<rparr>) = (Inr (), c1)"
    by (auto simp: forge_cli_zero quiet_zero cli_files_write_def with_workspace_def workspaces_get_def files_write_def bindM_apply remote_apply
        split: prod.splits sum.splits)
  from local_get_workspace_fetched [OF ws] have k: "s1 = con_forge c" "ws_id ws = wid" by auto
  with rest r have "remote (local_write h wid path u) c = (Inr (), c1)" by (simp add: bindM_apply)
  then obtain g where "write_file (base_of h) wid path u (fs_of (con_forge c)) = (Inr (), g)" "c1 = c\<lparr>con_forge := put_fs g (con_forge c)\<rparr>"
    by (auto simp: remote_apply local_write_apply split: prod.splits)
  with that ws k show ?thesis by blast
qed

lemma local_print:
  assumes "local_get_workspace wid (con_forge c) = (Inr ws, con_forge c)" and "ws_id ws = wid"
    and "read_file (base_of h) wid path 0 (Some 2000) MAX_READ_BYTES (fs_of (con_forge c)) = (Inr (text, n, trunc), fs_of (con_forge c))"
  shows "local_read h wid path 0 None (con_forge c) = (Inr (read_result path 0 None (text, n, trunc)), con_forge c)"
    and "forge_cli (local_transport h) (FilesRead wid path) c = (0, c\<lparr>con_out := con_out c @ text\<rparr>)"
proof -
  show r: "local_read h wid path 0 None (con_forge c) = (Inr (read_result path 0 None (text, n, trunc)), con_forge c)"
    using assms(3) by (simp add: local_read_def bindM_apply in_files_apply retM_apply)
  show "forge_cli (local_transport h) (FilesRead wid path) c = (0, c\<lparr>con_out := con_out c @ text\<rparr>)"
    using assms(1,2) r by (simp add: forge_cli_zero quiet_zero cli_files_read_def with_workspace_def workspaces_get_def files_read_def
        bindM_apply remote_apply put_def read_result_def)
qed

definition printed :: "ustr \<Rightarrow> ustr" where
  "printed u = concat (take 2000 (splitlines_keep u))"

lemma read_window_2000: "read_window 0 (Some 2000) u = Inr (printed u, length (splitlines_keep u), 2000 < length (splitlines_keep u))"
  by (simp add: read_window_def slice_def Let_def printed_def)

lemma text_ok_printed: "text_ok u \<Longrightarrow> text_ok (printed u)"
proof -
  have "set (concat (take 2000 (splitlines_keep u))) \<subseteq> set (concat (splitlines_keep u))" by (auto dest: in_set_takeD)
  then show "text_ok u \<Longrightarrow> text_ok (printed u)" by (auto simp: printed_def text_ok_def concat_splitlines_keep list_all_iff)
qed

context web_framework
begin

lemma copy_then_print:
  assumes get: "answers_ok h (con_forge c) (GetWorkspace wid)" and path: "name_ok path"
    and src: "fst (read_text src (con_files c)) = Inr u" and clean: "text_ok u" and nul: "0 \<notin> set u"
    and size: "int (length (the (utf8_encode u))) \<le> MAX_READ_BYTES"
    and copied: "forge_cli (http_transport (srv h)) (FilesWrite wid path src) c = (0, c1)"
  shows "forge_cli (http_transport (srv h)) (FilesRead wid path) c1 = (0, c1\<lparr>con_out := con_out c1 @ printed u\<rparr>)"
proof -
  from answers_okD(1) [OF get] have plain: "plain_segment wid" by simp
  have "answers_ok h (con_forge c) (Write wid path u)" using plain path clean
    by (auto simp: answers_ok_def mapM_def bindM_apply retM_apply split: prod.splits sum.splits)
  with get src have "forge_cli (http_transport (srv h)) (FilesWrite wid path src) c = forge_cli (local_transport h) (FilesWrite wid path src) c"
    by (intro agree_cli agree_command) simp_all
  with copied local_copy [OF _ src, of h wid path c1] obtain ws g where
    ws: "local_get_workspace wid (con_forge c) = (Inr ws, con_forge c)" "ws_id ws = wid" and
    g: "write_file (base_of h) wid path u (fs_of (con_forge c)) = (Inr (), g)" and
    c1: "c1 = c\<lparr>con_forge := put_fs g (con_forge c)\<rparr>" by metis
  from ws(1) local_get_put_fs [of wid g "con_forge c"] have "fst (local_get_workspace wid (con_forge c1)) = Inr ws" by (simp add: c1)
  with local_get_workspace_fetched [of wid "con_forge c1" ws] have ws1: "local_get_workspace wid (con_forge c1) = (Inr ws, con_forge c1)"
    by (metis prod.collapse)
  have r: "read_file (base_of h) wid path 0 (Some 2000) MAX_READ_BYTES (fs_of (con_forge c1)) =
      (Inr (printed u, length (splitlines_keep u), 2000 < length (splitlines_keep u)), fs_of (con_forge c1))"
    using read_window_after_write [OF g nul size] by (simp add: c1 read_window_2000)
  note here = local_print [OF ws1 ws(2) r]
  have "answers_ok h (con_forge c1) (GetWorkspace wid)" "answers_ok h (con_forge c1) (Read wid path 0 None)"
    using get ws ws1 here(1) plain path text_ok_printed [OF clean]
    by (simp_all add: answers_ok_def mapM_def bindM_apply retM_apply read_result_json_def read_result_def opt_json_def name_ok_ascii)
  then have "forge_cli (http_transport (srv h)) (FilesRead wid path) c1 = forge_cli (local_transport h) (FilesRead wid path) c1"
    by (intro agree_cli agree_command) simp_all
  with here(2) show ?thesis by simp
qed

end

end
