(* ===== verification/Files_Sync.thy ===== *)
theory Files_Sync
  imports Files_Props Artifact_Laws
begin

text \<open>
  File operations leave directories and rows of workspaces in step: what they create has the names
  of real paths, and what they change lies inside one workspace, whose directory stays.
\<close>

section \<open>Names of new paths\<close>

definition tidy :: "fs \<Rightarrow> fs \<Rightarrow> bool" where
  "tidy f g \<longleftrightarrow> (\<forall>p. look g p \<noteq> None \<longrightarrow> look f p \<noteq> None \<or> list_all proper_name p)"

lemma tidy_refl [simp]: "tidy f f"
  by (simp add: tidy_def)

lemma tidy_trans: "tidy f g \<Longrightarrow> tidy g h \<Longrightarrow> tidy f h"
  by (meson tidy_def)

lemma tidy_proper: "proper_fs f \<Longrightarrow> wf_fs g \<Longrightarrow> tidy f g \<Longrightarrow> proper_fs g"
  by (auto simp: proper_fs_iff tidy_def)

lemma tidy_bind:
  "tidy f (snd (m f)) \<Longrightarrow> (\<And>x g. m f = (Inr x, g) \<Longrightarrow> tidy g (snd (k x g))) \<Longrightarrow> tidy f (snd (bindM m k f))"
  by (auto simp: op_simps split: prod.split sum.split intro: tidy_trans)

lemma tidy_set_node: "p \<noteq> [] \<Longrightarrow> list_all proper_name p \<Longrightarrow> tidy f (set_node p n f)"
  by (simp add: tidy_def)

lemma tidy_del_node: "p \<noteq> [] \<Longrightarrow> tidy f (del_node p f)"
  by (simp add: tidy_def)

lemma tidy_mkdir_p: "list_all proper_name p \<Longrightarrow> tidy f (snd (mkdir_p p f))"
  using mkdir_p_Inr [of p f] by (cases "mkdir_p p f") (auto simp: tidy_def mkdir_p_def prefix_def split: sum.splits if_splits)

lemma tidy_write_bytes: "list_all proper_name p \<Longrightarrow> tidy f (snd (write_bytes p b f))"
  by (auto simp: write_bytes_def tidy_set_node split: option.split node.split)

lemma tidy_write_text: "list_all proper_name p \<Longrightarrow> tidy f (snd (write_text p s f))"
  by (auto simp: write_text_def raiseM_apply intro!: tidy_write_bytes tidy_bind split: option.split)

lemma tidy_simple: "tidy f (snd (retM x f))" "tidy f (snd (raiseM e f))" "tidy f (snd (liftR r f))"
  by (simp_all add: op_simps)

lemma tidy_removals: "tidy f (snd (unlink p f))" "tidy f (snd (rmdir p f))"
  by (cases "p = []"; auto simp: unlink_def rmdir_def tidy_del_node split: option.split node.split)+

section \<open>Paths of users\<close>

definition plain_path :: "path \<Rightarrow> bool" where
  "plain_path p \<longleftrightarrow> list_all (\<lambda>n. slash \<notin> set n) p"

lemma proper_plain: "list_all proper_name p \<Longrightarrow> plain_path p"
  by (auto simp: plain_path_def list_all_iff proper_name_def)

lemma resolve_user_proper:
  assumes b: "plain_path base" and r: "resolve_user base wid u f = (Inr p, g)"
  shows "g = f \<and> list_all proper_name p"
proof -
  from r have g: "g = f" using any_jail.check_state [of base wid u f] by simp
  from r obtain rd where rd: "workspace_root base wid f = (Inr rd, f)" and p: "p = resolve_path f (rd @ pure_parts u)"
    by (auto simp: resolve_user_def bindM_apply workspace_root_apply raiseM_apply retM_apply ensure_within_def split: if_splits prod.splits sum.splits)
  from rd have v: "valid_workspace_id wid" and rd': "rd = resolve_path f (base @ [wid])" by (auto simp: workspace_root_apply split: if_splits)
  have "plain_path (base @ [wid])" using b v by (auto simp: plain_path_def valid_workspace_id_def)
  then have "list_all proper_name rd" unfolding rd' plain_path_def by (rule resolve_path_proper)
  then have "list_all (\<lambda>n. slash \<notin> set n) (rd @ pure_parts u)"
    using proper_plain [of rd] by (auto simp: plain_path_def pure_parts_def list_all_iff dest: split_on_parts)
  from resolve_path_proper [OF this] p g show ?thesis by simp
qed

lemma proper_butlast: "list_all proper_name p \<Longrightarrow> list_all proper_name (butlast p)"
  by (auto simp: list_all_iff dest: in_set_butlastD)

lemma resolve_state [simp]: "snd (resolve_user base wid u f) = f" "snd (resolve_for_read base wid u f) = f"
  using any_jail.check_state [of base wid u f] read_jail.check_state [of base wid u f] by simp_all

lemma tidy_write_file: "plain_path base \<Longrightarrow> tidy f (snd (write_file base wid u c f))"
  unfolding write_file_def
  by (rule tidy_bind, simp, rule tidy_bind, simp)
    (auto dest!: resolve_user_proper intro!: tidy_bind tidy_mkdir_p tidy_write_text proper_butlast simp: raiseM_apply)

lemma resolve_for_read_user: "resolve_for_read base wid u f = (Inr p, g) \<Longrightarrow> resolve_user base wid u f = (Inr p, f)"
  by (cases rule: any_jail.check_cases [of base wid u f])
    (auto simp: resolve_for_read_def bindM_apply raiseM_apply retM_apply split: prod.splits sum.splits if_splits)

lemma tidy_edit_file:
  assumes "plain_path base"
  shows "tidy f (snd (edit_file base wid u old new al f))"
proof -
  have w: "tidy g (snd (bindM (write_text p s) (\<lambda>_. retM k) g))" if "list_all proper_name p" for p s g and k :: nat
    using that by (intro tidy_bind tidy_write_text tidy_simple)
  have l: "snd (bindM (liftR x) k g) = (case x of Inl e \<Rightarrow> g | Inr y \<Rightarrow> snd (k y g))"
    for x :: "exn + ustr \<times> nat" and k :: "ustr \<times> nat \<Rightarrow> nat fs_op" and g
    by (simp add: op_simps split: sum.split)
  show ?thesis unfolding edit_file_def
    by (rule tidy_bind, simp)
      (auto dest!: resolve_for_read_user resolve_user_proper [OF assms] simp: l w split: option.split node.split sum.split)
qed

lemma tidy_delete_path: "tidy f (snd (delete_path base wid u f))"
  unfolding delete_path_def
  by (rule tidy_bind, simp, rule tidy_bind, simp)
    (auto simp: raiseM_apply catchM_apply tidy_removals split: prod.split sum.split intro: tidy_trans; metis tidy_removals snd_conv)

lemma tidy_upload_one: "plain_path base \<Longrightarrow> tidy f (snd (upload_one base wid i f))"
  unfolding upload_one_def
  by (rule tidy_bind, simp, rule tidy_bind, simp)
    (auto dest!: resolve_user_proper intro!: tidy_bind tidy_mkdir_p tidy_write_bytes proper_butlast simp: raiseM_apply retM_apply split: option.split)

lemma tidy_upload_files: "plain_path base \<Longrightarrow> tidy f (snd (upload_files base wid is f))"
  by (induction "is" arbitrary: f) (auto simp: tidy_simple intro!: tidy_bind tidy_upload_one)

lemma tidy_file_op: "plain_path base \<Longrightarrow> tidy f (run_file_op base wid x f)"
  by (cases x) (simp_all add: tidy_write_file tidy_edit_file tidy_delete_path tidy_upload_files)

section \<open>Directories and rows\<close>

text \<open>Without a directory of its own a workspace refuses every file operation.\<close>

lemma run_file_op_refused:
  assumes "root_of base wid f = None"
  shows "run_file_op base wid x f = f"
proof -
  have r: "\<exists>e. resolve_user base wid u f = (Inl e, f)" "\<exists>e. resolve_for_read base wid u f = (Inl e, f)" for u
    using any_jail.check_cases [of base wid u f] read_jail.check_cases [of base wid u f] assms by (metis option.distinct(1))+
  have "\<exists>e. upload_one base wid i f = (Inl e, f)" for i
    using r(1) [of "up_path i"] by (auto simp: upload_one_def bindM_apply)
  then have one: "\<exists>e. upload_one base wid i f = (Inl e, f)" for i .
  have u: "snd (upload_files base wid items f) = f" for items
  proof (cases items)
    case (Cons i more)
    with one [of i] show ?thesis by (auto simp: bindM_apply)
  qed (simp add: retM_apply)
  show ?thesis
  proof (cases x)
    case (OpWrite w c)
    then show ?thesis using r(1) [of w] by (auto simp: write_file_def bindM_apply)
  next
    case (OpEdit w old new al)
    then show ?thesis using r(2) [of w] by (auto simp: edit_file_def bindM_apply)
  next
    case (OpDelete w)
    then show ?thesis using r(1) [of w] by (auto simp: delete_path_def bindM_apply)
  qed (simp add: u)
qed

lemma workspace_root_real:
  assumes f: "proper_fs f" "look f base = Some Dir" and v: "valid_workspace_id wid"
    and l: "\<And>t. look f (base @ [wid]) \<noteq> Some (Link t)" and r: "root_of base wid f = Some r"
  shows "r = base @ [wid]"
proof -
  have "look f q \<noteq> Some (Link t)" if "prefix q (base @ [wid])" for q t
    using that f(2) prefix_dir [of f base q] f(1) l [of t] by (cases "q = base") (auto simp: proper_fs_def strict_prefix_def prefix_snoc)
  moreover have "list_all proper_name (base @ [wid])"
    using look_proper [OF f(1), of base] f(2) v by (auto simp: valid_workspace_id_def proper_name_def)
  ultimately have "resolve_path f (base @ [wid]) = base @ [wid]"
    using realpath_plain [of "base @ [wid]" f "[]" Map.empty] by (simp add: resolve_path_def)
  with r show ?thesis by (auto simp: root_of_def workspace_root_apply split: if_splits)
qed

lemma file_op_sync:
  assumes sync: "in_sync base s"
  shows "in_sync base (s\<lparr>st_fs := run_file_op base wid x (st_fs s)\<rparr>)"
proof (cases "root_of base wid (st_fs s)")
  case None
  with sync show ?thesis by (simp add: run_file_op_refused)
next
  case (Some r)
  let ?f = "st_fs s" and ?g = "run_file_op base wid x (st_fs s)"
  from sync have f: "proper_fs ?f" "look ?f base = Some Dir" and
    rows: "\<And>w. valid_workspace_id w \<Longrightarrow> look ?f (base @ [w]) = (if w \<in> row_ids (st_meta s) then Some Dir else None)"
    by (auto simp: in_sync_def)
  from Some have v: "valid_workspace_id wid" by (auto simp: root_of_def workspace_root_apply split: if_splits)
  have r: "r = base @ [wid]" by (rule workspace_root_real [OF f v _ Some]) (simp add: rows [OF v])
  have wf: "wf_fs ?f" using f(1) by (simp add: proper_fs_def)
  note one = run_file_op_inside [OF wf Some, of x]
  have "plain_path base" using look_proper [OF f(1), of base] f(2) by (intro proper_plain) simp
  then have "proper_fs ?g" using tidy_proper [OF f(1) conjunct1 [OF one]] tidy_file_op by blast
  moreover have "look ?g base = Some Dir" using one f(2) unfolding r inside_def by (auto dest: spec [of _ base])
  moreover have "look ?g (base @ [w]) = look ?f (base @ [w])" for w
  proof (cases "w = wid")
    case True
    with root_of_dir [OF Some] root_of_dir [OF run_file_op_root [OF Some, of x]] show ?thesis by (simp add: r)
  next
    case False
    then have "\<not> prefix r (base @ [w])" unfolding r by (rule other_workspace)
    with one show ?thesis by (simp add: inside_def)
  qed
  ultimately show ?thesis using rows by (simp add: in_sync_def)
qed

end
