(* ===== verification/Daemon.thy ===== *)
theory Daemon
  imports Http_Server Snapshot_Roundtrip Files_Sync
begin

text \<open>
  The entry of the daemon (\<open>forge/daemon.py\<close>), the layout of its data directory (\<open>forge/config.py\<close>)
  and the wiring of the services when it starts and stops (the lifespan of \<open>forge/server/app.py\<close> and
  \<open>start\<close> and \<open>close\<close> of \<open>forge/client/local_client.py\<close>). Starting and stopping the pool are steps of
  the pool itself.
\<close>

section \<open>Configuration\<close>

text \<open>
  \<open>_build_config\<close>. The data root is given as text, resolved by the operating system. A \<open>Path\<close> is
  always true, that of the empty text too, so the last alternative, no data root, is never taken.
\<close>

definition build_config ::
  "(string \<Rightarrow> path) \<Rightarrow> string option \<Rightarrow> path \<Rightarrow> string option \<Rightarrow> string \<Rightarrow> int \<Rightarrow> int \<Rightarrow> int \<Rightarrow> int \<Rightarrow> forge_config" where
  "build_config resolve env_root home data_root img pool_min_idle pool_max pool_idle_ttl exec_timeout =
     (let pool = default_pool_config\<lparr>pc_image := img, pc_min_idle := pool_min_idle, pc_max_size := pool_max,
        pc_idle_ttl_seconds := pool_idle_ttl, pc_exec_timeout_seconds := exec_timeout\<rparr>;
      base = (case data_root of Some d \<Rightarrow> Some (resolve d)
              | None \<Rightarrow> Some (resolve (case env_root of None \<Rightarrow> [] | Some e \<Rightarrow> e)))
      in make_config base (map_option resolve env_root) home (Some pool) (\<lambda>i. None))"

lemma daemon_ignores_home:
  "fc_data_root (build_config resolve None home None img a b ttl limit_s) = resolve []"
  by (simp add: build_config_def make_config_def Let_def)

lemma build_config_pool:
  "pool_config_for (build_config resolve e home d img a b ttl limit_s) i =
    default_pool_config\<lparr>pc_image := i, pc_min_idle := a, pc_max_size := b, pc_idle_ttl_seconds := ttl, pc_exec_timeout_seconds := limit_s\<rparr>"
  by (simp add: build_config_def make_config_def pool_config_for_def Let_def)

section \<open>Layout\<close>

definition ensure_layout :: "forge_config \<Rightarrow> unit fs_op" where
  "ensure_layout c =
     bindM (mkdir_p (fc_data_root c)) (\<lambda>_. bindM (mkdir_p (workspaces_root c)) (\<lambda>_.
     bindM (mkdir_p (snapshots_root c)) (\<lambda>_. bindM (mkdir_p (artifacts_root c)) (\<lambda>_.
       mkdir_p (butlast (fc_meta_db_path c))))))"

definition load_config ::
  "path option \<Rightarrow> path option \<Rightarrow> path \<Rightarrow> pool_config option \<Rightarrow> (string \<Rightarrow> pool_config option) \<Rightarrow> forge_config fs_op" where
  "load_config given env_root home default_pool per_image =
     (let c = make_config given env_root home default_pool per_image in bindM (ensure_layout c) (\<lambda>_. retM c))"

text \<open>The stores below the data root.\<close>

definition layout_of :: "forge_config \<Rightarrow> layout" where
  "layout_of c = \<lparr>lay_workspaces = workspaces_root c, lay_snapshots = snapshots_root c, lay_artifacts = artifacts_root c\<rparr>"

section \<open>The options of the daemon\<close>

text \<open>
  \<open>serve\<close>: an option that is given comes before the variable of the environment, that before the
  default. The text of options and variables has been parsed; a variable that is empty counts as
  unset, but for the data root, whose variable \<open>_build_config\<close> reads once more itself.
\<close>

record serve_options =
  so_host :: "string option"
  so_port :: "int option"
  so_data_root :: "string option"
  so_image :: "string option"
  so_pool_min_idle :: "int option"
  so_pool_max :: "int option"
  so_pool_idle_ttl :: "int option"
  so_exec_timeout :: "int option"

definition setting :: "(serve_options \<Rightarrow> 'a option) \<Rightarrow> serve_options \<Rightarrow> serve_options \<Rightarrow> 'a \<Rightarrow> 'a" where
  "setting field flags envs fallback = (case field flags of Some v \<Rightarrow> v | None \<Rightarrow> (case field envs of Some v \<Rightarrow> v | None \<Rightarrow> fallback))"

definition serve_data_root :: "serve_options \<Rightarrow> string option \<Rightarrow> string option" where
  "serve_data_root flags env_root =
     (case so_data_root flags of Some d \<Rightarrow> Some d | None \<Rightarrow> (case env_root of Some (x # xs) \<Rightarrow> Some (x # xs) | _ \<Rightarrow> None))"

definition serve_config :: "(string \<Rightarrow> path) \<Rightarrow> path \<Rightarrow> serve_options \<Rightarrow> serve_options \<Rightarrow> forge_config" where
  "serve_config resolve home flags envs =
     build_config resolve (so_data_root envs) home (serve_data_root flags (so_data_root envs))
       (setting so_image flags envs DEFAULT_IMAGE) (setting so_pool_min_idle flags envs 1) (setting so_pool_max flags envs 8)
       (setting so_pool_idle_ttl flags envs 600) (setting so_exec_timeout flags envs 120)"

definition serve_address :: "serve_options \<Rightarrow> serve_options \<Rightarrow> string \<times> int" where
  "serve_address flags envs = (setting so_host flags envs ''127.0.0.1'', setting so_port flags envs 8787)"

definition no_options :: serve_options where
  "no_options = \<lparr>so_host = None, so_port = None, so_data_root = None, so_image = None, so_pool_min_idle = None,
     so_pool_max = None, so_pool_idle_ttl = None, so_exec_timeout = None\<rparr>"

text \<open>Without options the daemon listens where the command line looks for it, and keeps one idle environment at most.\<close>

definition DEFAULT_URL :: string where "DEFAULT_URL = ''http://127.0.0.1:8787''"

lemma default_url_of_daemon:
  "(case serve_address no_options no_options of (host, port) \<Rightarrow> ''http://'' @ host @ '':'' @ int_text port) = DEFAULT_URL"
proof -
  have "nat_text 8787 = ''8787''" by ((subst nat_text.simps, simp add: digit_def)+) code_simp
  then show ?thesis by (simp add: serve_address_def setting_def no_options_def DEFAULT_URL_def int_text_def)
qed

lemma serve_config_data_root:
  "fc_data_root (serve_config resolve home flags envs) =
    resolve (case so_data_root flags of Some d \<Rightarrow> d | None \<Rightarrow> (case so_data_root envs of Some e \<Rightarrow> e | None \<Rightarrow> []))"
  by (simp add: serve_config_def serve_data_root_def build_config_def make_config_def Let_def split: option.split list.split)

lemma serve_config_pool:
  "pc_min_idle (pool_config_for (serve_config resolve home flags envs) i) = setting so_pool_min_idle flags envs 1 \<and>
   pc_max_size (pool_config_for (serve_config resolve home flags envs) i) = setting so_pool_max flags envs 8"
  by (simp add: serve_config_def build_config_pool)

section \<open>Starting and stopping\<close>

text \<open>
  The services on the database found in the file of the metastore, just before the pool is started.
\<close>

definition wire_services :: "forge_config \<Rightarrow> db option \<Rightarrow> fs \<Rightarrow> forge_state" where
  "wire_services c file f =
     \<lparr>sv_world = \<lparr>w_stores = \<lparr>st_meta = snd (connect \<lparr>ms_memory = False, ms_open = False, ms_file = file\<rparr>), st_fs = f\<rparr>,
                  w_bus = new_bus default_queue_size\<rparr>,
      sv_pool = new_pool c\<rparr>"

definition start_services :: "forge_config \<Rightarrow> db option \<Rightarrow> forge_state fs_op" where
  "start_services c file = bindM (ensure_layout c) (\<lambda>_ f. (Inr (wire_services c file f), f))"

text \<open>After the pool has been shut down the metastore is closed; its file stays.\<close>

definition stop_services :: "forge_state \<Rightarrow> forge_state" where
  "stop_services s = snd (in_stores (on_meta close_store) s)"

text \<open>
  The in-process client makes the layout when it is constructed. It starts its services once; before
  that every method fails an assertion.
\<close>

type_synonym local_client = "forge_state option"

definition local_new :: "forge_config \<Rightarrow> local_client fs_op" where
  "local_new c = bindM (ensure_layout c) (\<lambda>_. retM None)"

definition local_start :: "forge_config \<Rightarrow> db option \<Rightarrow> local_client \<Rightarrow> local_client fs_op" where
  "local_start c file l = (\<lambda>f. (Inr (Some (case l of Some s \<Rightarrow> s | None \<Rightarrow> wire_services c file f)), f))"

definition local_use :: "'a forge_op \<Rightarrow> local_client \<Rightarrow> (exn + 'a) \<times> local_client" where
  "local_use m l = (case l of None \<Rightarrow> (Inl PyException, None) | Some s \<Rightarrow> (case m s of (r, s') \<Rightarrow> (r, Some s')))"

lemma local_start_once: "local_start c file l f = (Inr l', f) \<Longrightarrow> local_start c file' l' f' = (Inr l', f')"
  by (auto simp: local_start_def)

text \<open>
  \<open>async with Forge(...)\<close> starts a transport that can be started, and closes it at the end. A closed
  client counts as started: it cannot be opened again, and its metastore refuses every call.
\<close>

definition forge_enter :: "('l \<Rightarrow> 'l fs_op) option \<Rightarrow> 'l \<Rightarrow> 'l fs_op" where
  "forge_enter start l = (case start of None \<Rightarrow> retM l | Some go \<Rightarrow> go l)"

definition local_close :: "local_client \<Rightarrow> local_client" where
  "local_close l = map_option stop_services l"

lemma entered_client_serves:
  assumes "forge_enter (Some (local_start c file)) l f = (Inr l', g)"
  shows "\<exists>s. l' = Some s \<and> local_use m l' = (case m s of (r, s') \<Rightarrow> (r, Some s'))"
  using assms by (auto simp: forge_enter_def local_start_def local_use_def split: option.splits)

lemma closed_client_stays_closed:
  assumes "forge_enter (Some (local_start c file)) (local_close (Some s)) f = (Inr l', g)"
  shows "fst (local_use (in_stores (on_meta (bindM conn m))) l') = Inl ConfigError"
  using assms
  by (auto simp: forge_enter_def local_start_def local_close_def local_use_def stop_services_def in_stores_def in_world_def
      on_meta_def focusM_apply bindM_apply close_store_def conn_def)

lemma local_client_starts_like_daemon:
  "bindM (local_new c) (local_start c file) f =
    (case start_services c file f of (Inl e, g) \<Rightarrow> (Inl e, g) | (Inr s, g) \<Rightarrow> (Inr (Some s), g))"
  by (simp add: local_new_def local_start_def start_services_def bindM_apply retM_apply split: prod.split sum.split)

section \<open>The data directory\<close>

definition standard :: "forge_config \<Rightarrow> bool" where
  "standard c \<longleftrightarrow> fc_meta_db_path c = fc_data_root c @ [''meta.db''] \<and> list_all proper_name (fc_data_root c)"

lemma make_config_standard:
  "list_all proper_name home \<Longrightarrow> pred_option (list_all proper_name) given \<Longrightarrow> pred_option (list_all proper_name) env_root \<Longrightarrow>
    standard (make_config given env_root home pool per_image)"
  by (auto simp: standard_def make_config_def Let_def proper_name_def dot_def dotdot_def slash_def split: option.splits)

definition below_layout :: "forge_config \<Rightarrow> path \<Rightarrow> bool" where
  "below_layout c q \<longleftrightarrow> prefix q (workspaces_root c) \<or> prefix q (snapshots_root c) \<or> prefix q (artifacts_root c)"

lemma ensure_layout_steps:
  assumes "standard c" and "ensure_layout c f = (Inr (), g)"
  obtains f1 f2 f3 f4 where "mkdir_p (fc_data_root c) f = (Inr (), f1)" and "mkdir_p (workspaces_root c) f1 = (Inr (), f2)"
    and "mkdir_p (snapshots_root c) f2 = (Inr (), f3)" and "mkdir_p (artifacts_root c) f3 = (Inr (), f4)" and "mkdir_p (fc_data_root c) f4 = (Inr (), g)"
  using assms by (auto simp: ensure_layout_def standard_def elim!: bindM_InrE)

lemma ensure_layout_look:
  assumes "standard c" and "ensure_layout c f = (Inr (), g)"
  shows "look g q = (if below_layout c q then Some Dir else look f q)"
proof -
  obtain f1 f2 f3 f4 where s: "mkdir_p (fc_data_root c) f = (Inr (), f1)" "mkdir_p (workspaces_root c) f1 = (Inr (), f2)"
    "mkdir_p (snapshots_root c) f2 = (Inr (), f3)" "mkdir_p (artifacts_root c) f3 = (Inr (), f4)" "mkdir_p (fc_data_root c) f4 = (Inr (), g)"
    by (rule ensure_layout_steps [OF assms])
  have "prefix q (fc_data_root c) \<Longrightarrow> prefix q (workspaces_root c)" by (simp add: workspaces_root_def)
  then show ?thesis
    by (auto simp: below_layout_def mkdir_p_Inr [OF s(1)] mkdir_p_Inr [OF s(2)] mkdir_p_Inr [OF s(3)] mkdir_p_Inr [OF s(4)] mkdir_p_Inr [OF s(5)])
qed

lemma mkdir_p_wf: "wf_fs f \<Longrightarrow> mkdir_p p f = (Inr (), g) \<Longrightarrow> wf_fs g"
  using mkdir_p_frame [of f "[]" p] by simp

lemma ensure_layout_proper:
  assumes c: "standard c" and f: "proper_fs f" and e: "ensure_layout c f = (Inr (), g)"
  shows "proper_fs g"
proof -
  have names: "list_all proper_name q" if "below_layout c q" for q
  proof -
    have "list_all proper_name (workspaces_root c)" "list_all proper_name (snapshots_root c)" "list_all proper_name (artifacts_root c)"
      using c by (simp_all add: standard_def workspaces_root_def snapshots_root_def artifacts_root_def proper_name_def dot_def dotdot_def slash_def)
    with that show ?thesis by (auto simp: below_layout_def prefix_def)
  qed
  have "wf_fs g" using f ensure_layout_steps [OF c e] mkdir_p_wf by (metis proper_fs_def)
  with f names ensure_layout_look [OF c e] show ?thesis by (auto simp: proper_fs_iff split: if_splits)
qed

text \<open>Nothing stands in the way of the layout when its paths are free or directories.\<close>

definition room_for_layout :: "forge_config \<Rightarrow> fs \<Rightarrow> bool" where
  "room_for_layout c f \<longleftrightarrow> wf_fs f \<and> (\<forall>q. below_layout c q \<longrightarrow> look f q \<in> {None, Some Dir})"

lemma mkdir_p_room:
  assumes "room_for_layout c f" and "below_layout c p"
  obtains g where "mkdir_p p f = (Inr (), g)" and "room_for_layout c g"
proof -
  have "below_layout c q" if "prefix q p" for q using assms(2) that by (auto simp: below_layout_def)
  with assms mkdir_p_clear [of f p] that show ?thesis by (fastforce simp: room_for_layout_def)
qed

lemma ensure_layout_succeeds:
  assumes c: "standard c" and f: "room_for_layout c f"
  obtains g where "ensure_layout c f = (Inr (), g)"
proof -
  have b: "below_layout c (fc_data_root c)" "below_layout c (workspaces_root c)" "below_layout c (snapshots_root c)"
    "below_layout c (artifacts_root c)" by (simp_all add: below_layout_def workspaces_root_def)
  obtain f1 where 1: "mkdir_p (fc_data_root c) f = (Inr (), f1)" "room_for_layout c f1" by (rule mkdir_p_room [OF f b(1)])
  obtain f2 where 2: "mkdir_p (workspaces_root c) f1 = (Inr (), f2)" "room_for_layout c f2" by (rule mkdir_p_room [OF 1(2) b(2)])
  obtain f3 where 3: "mkdir_p (snapshots_root c) f2 = (Inr (), f3)" "room_for_layout c f3" by (rule mkdir_p_room [OF 2(2) b(3)])
  obtain f4 where 4: "mkdir_p (artifacts_root c) f3 = (Inr (), f4)" "room_for_layout c f4" by (rule mkdir_p_room [OF 3(2) b(4)])
  obtain g where "mkdir_p (fc_data_root c) f4 = (Inr (), g)" by (rule mkdir_p_room [OF 4(2) b(1)])
  with 1 2 3 4 c have "ensure_layout c f = (Inr (), g)" by (simp add: ensure_layout_def standard_def bindM_apply)
  then show ?thesis by (rule that)
qed

lemma layout_apart:
  "apart (workspaces_root c) (snapshots_root c)" "apart (workspaces_root c) (artifacts_root c)" "apart (snapshots_root c) (artifacts_root c)"
  by (simp_all add: apart_def workspaces_root_def snapshots_root_def artifacts_root_def)

lemma no_workspace_in_layout: "\<not> below_layout c (workspaces_root c @ [wid])"
  by (auto simp: below_layout_def workspaces_root_def snapshots_root_def artifacts_root_def)

section \<open>Restarting\<close>

text \<open>A restart finds the database and the file system the last run left.\<close>

abbreviation stores_of :: "forge_state \<Rightarrow> stores" where "stores_of s \<equiv> w_stores (sv_world s)"

definition restart_services :: "forge_config \<Rightarrow> forge_state \<Rightarrow> (exn + forge_state) \<times> fs" where
  "restart_services c s = start_services c (ms_file (st_meta (stores_of (stop_services s)))) (st_fs (stores_of (stop_services s)))"

lemma start_services_Inr:
  assumes "start_services c file f = (Inr s, g)"
  shows "ensure_layout c f = (Inr (), g) \<and> st_fs (stores_of s) = g \<and> w_bus (sv_world s) = new_bus default_queue_size \<and> sv_pool s = new_pool c \<and>
    ms_open (st_meta (stores_of s)) \<and> \<not> ms_memory (st_meta (stores_of s)) \<and> migrate (ms_file (st_meta (stores_of s))) = migrate file"
  using assms by (auto simp: start_services_def wire_services_def bindM_apply connect_def migrate_def split: prod.splits sum.splits)

lemma start_sync:
  assumes c: "standard c" and f: "proper_fs f" and s: "start_services c file f = (Inr s, g)"
    and rows: "\<And>wid. valid_workspace_id wid \<Longrightarrow>
      look f (workspaces_root c @ [wid]) = (if wid \<in> wr_id ` set (t_workspaces (migrate file)) then Some Dir else None)"
  shows "in_sync (workspaces_root c) (stores_of s)"
proof -
  note i = start_services_Inr [OF s]
  then have e: "ensure_layout c f = (Inr (), g)" by simp
  have "look g (workspaces_root c) = Some Dir" by (simp add: ensure_layout_look [OF c e] below_layout_def)
  with i rows ensure_layout_proper [OF c f e] show ?thesis
    by (simp add: in_sync_def row_ids_def ensure_layout_look [OF c e] no_workspace_in_layout)
qed

lemma stop_services_file: "\<not> ms_memory (st_meta (stores_of s)) \<Longrightarrow>
    migrate (ms_file (st_meta (stores_of (stop_services s)))) = migrate (ms_file (st_meta (stores_of s))) \<and>
    st_fs (stores_of (stop_services s)) = st_fs (stores_of s)"
  by (simp add: stop_services_def in_stores_def in_world_def on_meta_def focusM_apply close_store_def)

text \<open>No operation changes what kind of database the metastore has.\<close>

lemma keeps_on_meta [keeps_intros]: "keeps g m \<Longrightarrow> keeps (\<lambda>s. g (st_meta s)) (on_meta m)"
  by (auto simp: keeps_def on_meta_def focusM_apply split: prod.split) (metis snd_conv)

lemma keeps_on_fs [keeps_intros]: "keeps (\<lambda>s. g (st_meta s)) (on_fs m)"
  by (simp add: keeps_def on_fs_def focusM_apply split: prod.split)

lemma keeps_conn [keeps_intros]: "keeps ms_memory conn" "keeps ms_memory (commit d)"
  by (simp_all add: keeps_def conn_def commit_def)

lemma keeps_meta [keeps_intros]:
  "keeps ms_memory (create_workspace w)" "keeps ms_memory (get_workspace wid)" "keeps ms_memory (list_workspaces sel lmt)"
  "keeps ms_memory (update_workspace_status wid str now)" "keeps ms_memory (delete_workspace wid)"
proof -
  show "keeps ms_memory (create_workspace w)" unfolding create_workspace_def integrity_def
    by (auto intro!: keeps_intros split: option.split)
  show "keeps ms_memory (get_workspace wid)" "keeps ms_memory (list_workspaces sel lmt)" by (simp_all add: keeps_def)
  show "keeps ms_memory (update_workspace_status wid str now)" "keeps ms_memory (delete_workspace wid)"
    unfolding update_workspace_status_def delete_workspace_def by (auto intro!: keeps_intros)
qed

end
