(* ===== verification/Steady.thy ===== *)
theory Steady
  imports Files_Sync
begin

text \<open>
  Workspace directories and rows through the services that work inside a workspace or beside them:
  extraction of archives, logs of executions, snapshots and artifacts. Directories of workspaces
  hold no symbolic links here; through a link the host would be led out of the workspace.
\<close>

section \<open>Directories without links\<close>

definition linkless :: "path \<Rightarrow> fs \<Rightarrow> bool" where
  "linkless d f \<longleftrightarrow> (\<forall>q t. prefix d q \<longrightarrow> look f q \<noteq> Some (Link t))"

definition rooms :: "path \<Rightarrow> string set \<Rightarrow> fs \<Rightarrow> bool" where
  "rooms base ids f \<longleftrightarrow> proper_fs f \<and> look f base = Some Dir \<and> linkless base f \<and>
     (\<forall>wid. valid_workspace_id wid \<longrightarrow> look f (base @ [wid]) = (if wid \<in> ids then Some Dir else None))"

definition settled :: "path \<Rightarrow> stores \<Rightarrow> bool" where
  "settled base s \<longleftrightarrow> in_sync base s \<and> linkless base (st_fs s)"

lemma settled_iff: "settled base s \<longleftrightarrow> rooms base (row_ids (st_meta s)) (st_fs s)"
  by (auto simp: settled_def in_sync_def rooms_def)

lemma linkless_link_of: "linkless d f \<longleftrightarrow> (\<forall>q. prefix d q \<longrightarrow> link_of f q = None)"
  by (auto simp: linkless_def link_of_def split: option.split node.split)

lemma linkless_grows: "grows f g \<Longrightarrow> linkless d g = linkless d f"
  by (simp add: linkless_link_of grows_def)

lemma rooms_outside:
  assumes "rooms base ids f" and "proper_fs g" and "\<And>q. prefix base q \<Longrightarrow> look g q = look f q"
  shows "rooms base ids g"
  using assms by (simp add: rooms_def linkless_def)

text \<open>What works inside the directory \<open>d\<close> and neither removes nor links.\<close>

definition fills :: "path \<Rightarrow> fs \<Rightarrow> fs \<Rightarrow> bool" where
  "fills d f g \<longleftrightarrow> wf_fs g \<and> tidy f g \<and> grows f g \<and> same_outside d f g"

lemma fills_refl: "wf_fs f \<Longrightarrow> fills d f f"
  by (simp add: fills_def)

lemma fills_trans: "fills d f g \<Longrightarrow> fills d g h \<Longrightarrow> fills d f h"
  unfolding fills_def by (meson grows_trans same_outside_trans tidy_trans)

lemma fills_proper: "proper_fs f \<Longrightarrow> fills d f g \<Longrightarrow> proper_fs g"
  unfolding fills_def by (blast intro: tidy_proper)

lemma fills_dir: "fills d f g \<Longrightarrow> look f p = Some Dir \<Longrightarrow> look g p = Some Dir"
  by (simp add: fills_def grows_def)

lemma fills_mkdir_p:
  "wf_fs f \<Longrightarrow> look f d = Some Dir \<Longrightarrow> prefix d p \<Longrightarrow> list_all proper_name p \<Longrightarrow> fills d f (snd (mkdir_p p f))"
  using mkdir_p_frame [of f d p] by (simp add: fills_def tidy_mkdir_p grows_mkdir_p)

lemma fills_write_bytes:
  "wf_fs f \<Longrightarrow> prefix d p \<Longrightarrow> list_all proper_name p \<Longrightarrow> fills d f (snd (write_bytes p b f))"
  using write_bytes_frame [of f d p b] by (simp add: fills_def tidy_write_bytes grows_write_bytes)

lemma fills_write_text:
  "wf_fs f \<Longrightarrow> prefix d p \<Longrightarrow> list_all proper_name p \<Longrightarrow> fills d f (snd (write_text p s f))"
  using write_text_frame [of f d p s] by (simp add: fills_def tidy_write_text grows_write_text)

lemma rooms_fills:
  assumes r: "rooms base ids f" and w: "wid \<in> ids" "valid_workspace_id wid" and g: "fills (base @ [wid]) f g"
  shows "rooms base ids g"
proof -
  have "proper_fs f" using r by (simp add: rooms_def)
  then have "proper_fs g" by (rule fills_proper [OF _ g])
  moreover have "linkless base g" using r g linkless_grows by (auto simp: rooms_def fills_def)
  moreover have "look g base = Some Dir" using r fills_dir [OF g] by (simp add: rooms_def)
  moreover have "look g (base @ [v]) = look f (base @ [v])" if "valid_workspace_id v" for v
  proof (cases "v = wid")
    case True
    with r w fills_dir [OF g, of "base @ [wid]"] show ?thesis by (simp add: rooms_def)
  next
    case False
    with g other_workspace [of v wid base] show ?thesis by (simp add: fills_def same_outside_def)
  qed
  ultimately show ?thesis using r by (simp add: rooms_def)
qed

section \<open>Extracting an archive\<close>

lemma mkdirs_there:
  "(\<And>q. strict_prefix d q \<Longrightarrow> prefix q (d @ ns) \<Longrightarrow> look f q = Some Dir) \<Longrightarrow> mkdirs d ns f = Inr f"
proof (induction d ns f rule: mkdirs.induct)
  case (2 d n ns f)
  have l: "look f (d @ [n]) = Some Dir" by (rule "2.prems") (simp_all add: strict_prefix_def)
  have "mkdirs (d @ [n]) ns f = Inr f"
    by (rule "2.IH"(2) [OF l refl]) (rule "2.prems", auto simp: strict_prefix_def prefix_def)
  with l show ?case by simp
qed simp

lemma mkdir_p_there: "wf_fs f \<Longrightarrow> look f p = Some Dir \<Longrightarrow> mkdir_p p f = (Inr (), f)"
proof -
  assume f: "wf_fs f" "look f p = Some Dir"
  have "look f q = Some Dir" if "prefix q p" for q
    using that f prefix_dir [of f p q] by (cases "q = p") (auto simp: strict_prefix_def)
  with mkdirs_there [of "[]" p f] show ?thesis by (simp add: mkdir_p_def)
qed

text \<open>The resolution of a path goes on from that of its parent, whatever links have been met there.\<close>

lemma realpath_append:
  "\<exists>x seen'. realpath False f seen w1 p = Some x \<and> realpath False f seen (w1 @ w2) p = realpath False f seen' w2 x"
proof (induction "False" f seen w1 p rule: realpath.induct)
  case (3 f seen n rest p)
  let ?q = "p @ [n]"
  show ?case
  proof (cases "n = [] \<or> n = dot \<or> n = dotdot")
    case True
    with 3(1,2) show ?thesis by auto
  next
    case False
    then have ns: "\<not> (n = [] \<or> n = dot)" "n \<noteq> dotdot" by auto
    have f: "\<not> (False \<and> look f p \<noteq> Some Dir)" by simp
    show ?thesis
    proof (cases "look f ?q")
      case None
      from 3(3) [OF f ns refl None] None ns show ?thesis by simp
    next
      case (Some x)
      show ?thesis
      proof (cases x)
        case Dir
        from 3(4) [OF f ns refl Some Dir] Some Dir ns show ?thesis by simp
      next
        case (File b)
        from 3(5) [OF f ns refl Some File] Some File ns show ?thesis by simp
      next
        case (Link t)
        show ?thesis
        proof (cases "seen ?q")
          case None
          from 3(6) [OF f ns refl Some Link None] Some Link None ns show ?thesis by (simp add: Let_def)
        next
          case (Some v)
          then show ?thesis
            using 3(7) [OF f ns refl \<open>look f ?q = Some x\<close> Link Some] 3(8) [OF f ns refl \<open>look f ?q = Some x\<close> Link Some]
              \<open>look f ?q = Some x\<close> Link ns by (cases v) auto
        qed
      qed
    qed
  qed
qed auto

lemma resolve_snoc:
  assumes "n \<noteq> []" and "n \<noteq> dot"
  shows "resolve_path f (p @ [n]) =
      (if n = dotdot then butlast (resolve_path f p) else resolve_path f p @ [n]) \<or>
    (n \<noteq> dotdot \<and> link_of f (resolve_path f p @ [n]) \<noteq> None)"
proof -
  obtain seen where s: "realpath False f Map.empty (map Part p @ [Part n]) [] = realpath False f seen [Part n] (resolve_path f p)"
    using realpath_append [of f Map.empty "map Part p" "[]" "[Part n]"] resolve_path_Some [of f p] by auto
  then have "Some (resolve_path f (p @ [n])) = realpath False f seen [Part n] (resolve_path f p)"
    using resolve_path_Some [of f "p @ [n]"] by simp
  with assms show ?thesis by (cases "n = dotdot"; cases "link_of f (resolve_path f p @ [n])") (simp_all add: realpath_link_of del: realpath.simps(3))
qed

lemma resolve_parent:
  assumes wf: "wf_fs f" and d: "look f d = Some Dir" and n: "n \<noteq> []" "n \<noteq> dot" and p: "prefix d (resolve_path f (p @ [n]))"
  shows "prefix d (resolve_path f p) \<or> look f (resolve_path f p) = Some Dir"
proof (cases "link_of f (resolve_path f p @ [n]) = None \<or> n = dotdot")
  case False
  then have "look f (resolve_path f p @ [n]) \<noteq> None" by (auto simp: link_of_def split: option.splits)
  with wf_fsD [OF wf, of "resolve_path f p @ [n]"] show ?thesis by auto
next
  case True
  show ?thesis
  proof (cases "n = dotdot")
    case True
    with p resolve_snoc [OF n, of f p] have "prefix d (butlast (resolve_path f p))" by simp
    then show ?thesis using prefixeq_butlast prefix_order.trans by blast
  next
    case False
    with p True resolve_snoc [OF n, of f p] have "prefix d (resolve_path f p @ [n])" by simp
    then show ?thesis using wf_fsD [OF wf d] by (auto simp: prefix_snoc)
  qed
qed

lemma member_parts_plain: "n \<in> set (member_parts m) \<Longrightarrow> n \<noteq> [] \<and> n \<noteq> dot \<and> slash \<notin> set n"
  by (auto simp: member_parts_def pure_parts_def split: tar_member.splits dest: split_on_parts)

lemma extract_member_fills:
  assumes f: "proper_fs f" "look f d = Some Dir"
  shows "fills d f (snd (extract_member d m f))"
proof -
  let ?p = "d @ member_parts m"
  have wf: "wf_fs f" using f(1) by (simp add: proper_fs_def)
  have dp: "list_all (\<lambda>n. slash \<notin> set n) d" using look_proper [OF f(1), of d] f(2) by (simp add: proper_no_slash)
  have pl: "list_all (\<lambda>n. slash \<notin> set n) ?p" using dp member_parts_plain by (auto simp: list_all_iff)
  then have pp: "list_all proper_name (resolve_path f ?p)" by (rule resolve_path_proper)
  show ?thesis
  proof (cases "prefix d (resolve_path f ?p)")
    case False
    then show ?thesis by (simp add: extract_member_def real_resolve [OF f] Let_def fills_refl [OF wf])
  next
    case True
    note inside = this
    show ?thesis
    proof (cases m)
      case (TarDir n)
      with inside fills_mkdir_p [OF wf f(2) inside pp] show ?thesis
        by (simp add: extract_member_def real_resolve [OF f] Let_def at_path_def)
    next
      case (TarFile n b)
      let ?x = "resolve_path f (butlast ?p)"
      have up: "prefix d ?x \<or> look f ?x = Some Dir"
      proof (cases "member_parts m = []")
        case True
        have b: "look f (butlast d) = Some Dir" using wf_fsD [OF wf f(2)] by (cases "d = []") simp_all
        with True real_resolve [OF f(1) b] show ?thesis by simp
      next
        case False
        then have "?p = butlast ?p @ [last (member_parts m)]" by (simp add: butlast_append)
        with inside have "prefix d (resolve_path f (butlast ?p @ [last (member_parts m)]))" by simp
        moreover have "last (member_parts m) \<noteq> [] \<and> last (member_parts m) \<noteq> dot" using member_parts_plain [of "last (member_parts m)" m] False by simp
        ultimately show ?thesis using resolve_parent [OF wf f(2)] by blast
      qed
      have xp: "list_all proper_name ?x"
        using pl by (intro resolve_path_proper) (metis list_all_iff in_set_butlastD)
      have g: "fills d f (snd (mkdir_p ?x f))"
        using up fills_mkdir_p [OF wf f(2) _ xp] mkdir_p_there [OF wf, of ?x] fills_refl [OF wf] by auto
      then have gw: "wf_fs (snd (mkdir_p ?x f))" unfolding fills_def by (rule conjunct1)
      have "link_of f = link_of (snd (mkdir_p ?x f))" using grows_mkdir_p [of f ?x] unfolding grows_def by (rule conjunct1)
      from resolve_same_links [OF this, symmetric] have same: "resolve_path (snd (mkdir_p ?x f)) ?p = resolve_path f ?p" .
      have w: "fills d f (snd (write_bytes (resolve_path (snd (mkdir_p ?x f)) ?p) b (snd (mkdir_p ?x f))))"
        unfolding same by (rule fills_trans [OF g fills_write_bytes [OF gw inside pp]])
      have x: "extract_member d m f = bindM (at_path mkdir_p (butlast ?p)) (\<lambda>_. at_path (\<lambda>q. write_bytes q b) ?p) f"
        using TarFile inside by (simp add: extract_member_def real_resolve [OF f] Let_def)
      show ?thesis unfolding x
        by (cases "mkdir_p ?x f"; cases "fst (mkdir_p ?x f)") (use g w in \<open>simp_all add: at_path_def bindM_apply\<close>)
    qed
  qed
qed

lemma extract_all_fills: "proper_fs f \<Longrightarrow> look f d = Some Dir \<Longrightarrow> fills d f (snd (extract_all d ms f))"
proof (induction ms arbitrary: f)
  case Nil
  then show ?case by (simp add: retM_apply fills_refl proper_fs_def)
next
  case (Cons m ms)
  note one = extract_member_fills [OF Cons.prems, of m]
  from Cons.IH [OF fills_proper [OF Cons.prems(1) one] fills_dir [OF one Cons.prems(2)]] one show ?case
    by (auto simp: bindM_apply split: prod.split sum.split intro: fills_trans)
qed

lemma store_restore_fills:
  assumes f: "proper_fs f" "look f d = Some Dir"
  shows "fills d f (snd (store_restore ar sroot sid d f))"
proof -
  have wf: "wf_fs f" using f(1) by (simp add: proper_fs_def)
  have "fills d f (snd (read_archive ar raw d f))" for raw
    using extract_all_fills [OF f, of "fst (ar_unpack ar raw)"]
    by (auto simp: read_archive_def bindM_apply retM_apply raiseM_apply split: prod.split sum.split option.split)
  then show ?thesis using fills_refl [OF wf]
    by (auto simp: store_restore_def catchM_apply raiseM_apply split: option.split node.split prod.split sum.split)
      (metis snd_conv)+
qed

section \<open>Beside the workspaces\<close>

definition beside :: "path \<Rightarrow> fs \<Rightarrow> fs \<Rightarrow> bool" where
  "beside base f g \<longleftrightarrow> wf_fs g \<and> tidy f g \<and> (\<forall>q. prefix base q \<longrightarrow> look g q = look f q)"

lemma beside_refl: "wf_fs f \<Longrightarrow> beside base f f"
  by (simp add: beside_def)

lemma beside_trans: "beside base f g \<Longrightarrow> beside base g h \<Longrightarrow> beside base f h"
  unfolding beside_def by (metis tidy_trans)

lemma beside_wf: "beside base f g \<Longrightarrow> wf_fs g"
  by (simp add: beside_def)

lemma beside_bind:
  assumes "beside base f (snd (m f))" and "\<And>x g. m f = (Inr x, g) \<Longrightarrow> beside base f g \<Longrightarrow> beside base g (snd (k x g))"
  shows "beside base f (snd (bindM m k f))"
proof (cases "m f")
  case (Pair r g)
  with assms(1) have g: "beside base f g" by simp
  show ?thesis
  proof (cases r)
    case (Inl e)
    with g Pair show ?thesis by (simp add: bindM_apply)
  next
    case (Inr x)
    with assms(2) [of x g] g Pair beside_trans [OF g] show ?thesis by (simp add: bindM_apply)
  qed
qed

lemma rooms_beside: "rooms base ids f \<Longrightarrow> beside base f g \<Longrightarrow> rooms base ids g"
  using tidy_proper [of f g] rooms_outside [of base ids f g] unfolding rooms_def beside_def by blast

lemma apart_prefix: "apart a b \<Longrightarrow> prefix b q \<Longrightarrow> \<not> prefix a q"
  using prefix_same_cases [of a q b] by (auto simp: apart_def)

lemma same_outside_beside: "apart base d \<Longrightarrow> same_outside d f g \<Longrightarrow> wf_fs g \<Longrightarrow> tidy f g \<Longrightarrow> beside base f g"
  using apart_prefix [of base d] by (auto simp: beside_def same_outside_def)

lemma beside_write_bytes:
  assumes "wf_fs f" and "apart base d" and "list_all proper_name p" and "prefix d p"
  shows "beside base f (snd (write_bytes p b f))"
  using write_bytes_frame [OF assms(1,4)] assms by (intro same_outside_beside [OF assms(2)] tidy_write_bytes) auto

lemma beside_rmtree:
  assumes "wf_fs f" and "apart base d" and "prefix d p"
  shows "beside base f (snd (rmtree p f))"
proof -
  have "tidy f (snd (rmtree p f))"
    using look_filter_keys [of "\<lambda>q. \<not> prefix p q" f] by (auto simp: tidy_def rmtree_def)
  with rmtree_frame [OF assms(1,3)] show ?thesis by (intro same_outside_beside [OF assms(2)]) auto
qed

lemma beside_mkdir_p:
  assumes "wf_fs f" and "apart base p" and "list_all proper_name p"
  shows "beside base f (snd (mkdir_p p f))"
proof -
  have "look (snd (mkdir_p p f)) q = look f q" if "prefix base q" for q
  proof -
    have "\<not> prefix q p" using that assms(2) prefix_order.trans by (auto simp: apart_def)
    then show ?thesis using mkdir_p_Inr [of p f "snd (mkdir_p p f)" q]
      by (cases "mkdir_p p f") (auto simp: mkdir_p_def split: sum.splits)
  qed
  moreover have "wf_fs (snd (mkdir_p p f))" using mkdir_p_frame [of f "[]" p] assms(1) by simp
  ultimately show ?thesis using tidy_mkdir_p [OF assms(3)] by (simp add: beside_def)
qed

lemma beside_unlink:
  assumes "wf_fs f" and "apart base d" and "prefix d p"
  shows "beside base f (snd (unlink p f))"
  using unlink_frame [OF assms(1,3)] by (intro same_outside_beside [OF assms(2)] tidy_removals) auto

lemma store_delete_beside:
  assumes "wf_fs f" and "apart base sroot"
  shows "beside base f (snd (store_delete sroot sid f))"
  using beside_unlink [OF assms, of "archive_path sroot sid"] beside_refl [OF assms(1)]
  by (simp add: store_delete_def archive_path_def)

lemma catch_raise_state: "snd (catchM m P (\<lambda>_. raiseM e) f) = snd (m f)"
  by (auto simp: catchM_apply raiseM_apply split: prod.split sum.split)

lemma store_snapshot_beside:
  assumes f: "wf_fs f" "apart base sroot" "list_all proper_name sroot" and hex: "slash \<notin> set hex"
  shows "beside base f (snd (store_snapshot ar sroot hex now wid p name parent f))"
proof -
  have "list_all proper_name (archive_path sroot (snapshot_id hex))"
    using f(3) archive_name_proper [OF hex] by (simp add: archive_path_name)
  from beside_write_bytes [OF f(1,2) this] beside_refl [OF f(1)]
  have "beside base f (snd (write_archive ar p (archive_path sroot (snapshot_id hex)) f))"
    by (simp add: write_archive_def archive_path_def Let_def)
  then have w: "beside base f (snd (catchM (write_archive ar p (archive_path sroot (snapshot_id hex)))
      (\<lambda>e. is_instance e OSError) (\<lambda>_. raiseM SnapshotError) f))" by (simp add: catch_raise_state)
  show ?thesis unfolding store_snapshot_def Let_def
    by (rule beside_bind, rule w) (auto dest: beside_wf intro: beside_refl split: option.split node.split)
qed

lemma remove_tree_beside:
  assumes "wf_fs f" and "apart base d" and "prefix d p"
  shows "beside base f (snd (remove_tree p f))"
  using beside_rmtree [OF assms] by (auto simp: remove_tree_def catchM_apply retM_apply split: prod.split sum.split)

lemma store_export_beside:
  assumes f: "wf_fs f" "apart base aroot" "list_all proper_name aroot" and hex: "slash \<notin> set hex"
    and src: "proper_name (last source)"
  shows "beside base f (snd (store_export guess aroot hex now wid source rel ct f))"
proof -
  let ?d = "aroot @ [artifact_id hex]" and ?t = "aroot @ [artifact_id hex, last source]"
  have "proper_name (artifact_id hex)"
    using hex by (auto simp: artifact_id_def proper_name_def dot_def dotdot_def slash_def dest: in_set_takeD)
  with f(3) src have pn: "list_all proper_name ?d" "list_all proper_name ?t" by simp_all
  have ap: "apart base ?d" using apart_below [OF f(2), of "[]" "[artifact_id hex]"] by simp
  have m: "beside base f (snd (mkdir_new ?d f))"
    using beside_mkdir_p [OF f(1) ap pn(1)] beside_refl [OF f(1)] by (simp add: mkdir_new_def)
  have c: "beside base g (snd (copy_file source ?t g))" if "wf_fs g" for g
    using beside_write_bytes [OF that f(2) pn(2)] beside_refl [OF that]
    by (auto simp: copy_file_def split: option.split node.split)
  have h: "beside base g (snd (bindM (remove_tree ?d) (\<lambda>_. raiseM ArtifactError :: unit fs_op) g))" if "wf_fs g" for g
    by (rule beside_bind, rule remove_tree_beside [OF that f(2)]) (auto simp: raiseM_apply dest: beside_wf intro: beside_refl)
  have x: "beside base g (snd (catchM (copy_file source ?t) (\<lambda>e. is_instance e OSError)
      (\<lambda>_. bindM (remove_tree ?d) (\<lambda>_. raiseM ArtifactError)) g))" if "wf_fs g" for g
  proof -
    obtain r g' where cp: "copy_file source ?t g = (r, g')" by force
    with c [OF that] have g': "beside base g g'" by simp
    from beside_trans [OF g' h [OF beside_wf [OF g']]] g' cp show ?thesis by (simp add: catchM_apply split: sum.split)
  qed
  have "beside base f (snd (bindM (mkdir_new ?d) (\<lambda>_. bindM (catchM (copy_file source ?t) (\<lambda>e. is_instance e OSError)
      (\<lambda>_. bindM (remove_tree ?d) (\<lambda>_. raiseM ArtifactError))) (\<lambda>_ g.
       case stat_node g ?t of
         Some (File b) \<Rightarrow> (Inr (art b), g)
       | _ \<Rightarrow> (Inl OSError, g))) f))" for art :: "bytes \<Rightarrow> artifact"
    by (rule beside_bind, rule m, rule beside_bind, rule x, erule beside_wf)
      (auto dest: beside_wf intro: beside_refl split: option.split node.split)
  then show ?thesis using beside_refl [OF f(1)] by (simp add: store_export_def Let_def)
qed

end
