(* ===== verification/Service_Sync.thy ===== *)
theory Service_Sync
  imports Steady Exec_Runs
begin

text \<open>
  Every operation of the services leaves the workspaces settled: a directory without links for
  every row, a row for every directory. What an operation needs of the rows and what it has found
  out about them when it returns is its triple.
\<close>

section \<open>Triples\<close>

definition steady ::
  "path \<Rightarrow> (string set \<Rightarrow> bool) \<Rightarrow> 'a svc_op \<Rightarrow> ('a \<Rightarrow> string set \<Rightarrow> bool) \<Rightarrow> bool" where
  "steady base P m Q \<longleftrightarrow> (\<forall>s. settled base s \<longrightarrow> P (row_ids (st_meta s)) \<longrightarrow>
     settled base (snd (m s)) \<and> (\<forall>x. fst (m s) = Inr x \<longrightarrow> Q x (row_ids (st_meta (snd (m s))))))"

abbreviation keeps_settled :: "path \<Rightarrow> 'a svc_op \<Rightarrow> bool" where
  "keeps_settled base m \<equiv> steady base (\<lambda>ids. True) m (\<lambda>x ids. True)"

lemma steadyD:
  "steady base P m Q \<Longrightarrow> settled base s \<Longrightarrow> P (row_ids (st_meta s)) \<Longrightarrow> m s = (r, s') \<Longrightarrow>
    settled base s' \<and> (\<forall>x. r = Inr x \<longrightarrow> Q x (row_ids (st_meta s')))"
  by (auto simp: steady_def dest: spec [of _ s])

lemma steady_ret: "(\<And>ids. P ids \<Longrightarrow> Q x ids) \<Longrightarrow> steady base P (retM x) Q"
  by (simp add: steady_def retM_apply)

lemma steady_raise: "steady base P (raiseM e) Q"
  by (simp add: steady_def raiseM_apply)

lemma steady_False: "(\<And>ids. \<not> P ids) \<Longrightarrow> steady base P m Q"
  by (simp add: steady_def)

lemma steady_conseq:
  "steady base P m Q \<Longrightarrow> (\<And>ids. P' ids \<Longrightarrow> P ids) \<Longrightarrow> (\<And>x ids. Q x ids \<Longrightarrow> Q' x ids) \<Longrightarrow> steady base P' m Q'"
  by (auto simp: steady_def)

lemma steady_bind:
  assumes "steady base P m R" and "\<And>x. steady base (R x) (k x) Q"
  shows "steady base P (bindM m k) Q"
  unfolding steady_def
proof (intro allI impI)
  fix s assume s: "settled base s" "P (row_ids (st_meta s))"
  obtain r s' where m: "m s = (r, s')" by force
  note one = steadyD [OF assms(1) s m]
  show "settled base (snd (bindM m k s)) \<and>
      (\<forall>y. fst (bindM m k s) = Inr y \<longrightarrow> Q y (row_ids (st_meta (snd (bindM m k s)))))"
  proof (cases r)
    case (Inl e)
    with one m show ?thesis by (simp add: bindM_apply)
  next
    case (Inr x)
    with one have "settled base s'" "R x (row_ids (st_meta s'))" by auto
    from steadyD [OF assms(2) this, of "fst (k x s')" "snd (k x s')"] m Inr show ?thesis by (simp add: bindM_apply)
  qed
qed

lemma steady_catch:
  assumes "steady base P m Q" and "\<And>e. steady base (\<lambda>ids. True) (h e) Q"
  shows "steady base P (catchM m M h) Q"
  unfolding steady_def
proof (intro allI impI)
  fix s assume s: "settled base s" "P (row_ids (st_meta s))"
  obtain r s' where m: "m s = (r, s')" by force
  note one = steadyD [OF assms(1) s m]
  show "settled base (snd (catchM m M h s)) \<and>
      (\<forall>y. fst (catchM m M h s) = Inr y \<longrightarrow> Q y (row_ids (st_meta (snd (catchM m M h s)))))"
  proof (cases r)
    case (Inl e)
    with one steadyD [OF assms(2) conjunct1 [OF one], of e "fst (h e s')" "snd (h e s')"] m show ?thesis
      by (simp add: catchM_apply)
  next
    case (Inr x)
    with one m show ?thesis by (simp add: catchM_apply)
  qed
qed

text \<open>An operation of the metastore that makes and removes no workspace, and one of the file system.\<close>

lemma steady_on_meta:
  assumes "\<And>m. row_ids (snd (g m)) = row_ids m" and "\<And>m x. P (row_ids m) \<Longrightarrow> fst (g m) = Inr x \<Longrightarrow> Q x (row_ids m)"
  shows "steady base P (on_meta g) Q"
  using assms by (simp add: steady_def settled_iff on_meta_def focusM_apply split: prod.split) (metis fst_conv snd_conv)

lemma steady_on_fs:
  assumes "\<And>ids f. rooms base ids f \<Longrightarrow> P ids \<Longrightarrow> rooms base ids (snd (g f)) \<and> (\<forall>x. fst (g f) = Inr x \<longrightarrow> Q x ids)"
  shows "steady base P (on_fs g) Q"
  using assms by (simp add: steady_def settled_iff on_fs_def focusM_apply split: prod.split) (metis fst_conv snd_conv)

lemma steady_on_fs_beside:
  assumes "\<And>f. wf_fs f \<Longrightarrow> beside base f (snd (g f))" and "\<And>f x. fst (g f) = Inr x \<Longrightarrow> R x"
  shows "steady base P (on_fs g) (\<lambda>x ids. P ids \<and> R x)"
proof (rule steady_on_fs)
  fix ids f assume r: "rooms base ids f" "P ids"
  then have "wf_fs f" by (simp add: rooms_def proper_fs_def)
  from rooms_beside [OF r(1) assms(1) [OF this]] assms(2) r(2) show
    "rooms base ids (snd (g f)) \<and> (\<forall>x. fst (g f) = Inr x \<longrightarrow> P ids \<and> R x)" by simp
qed

lemma steady_on_fs_reads:
  assumes "\<And>f. snd (g f) = f"
  shows "steady base P (on_fs g) (\<lambda>x. P)"
  using assms by (intro steady_on_fs) simp

text \<open>Inside the directory of a workspace that has a row.\<close>

lemma steady_on_fs_fills:
  assumes "valid_workspace_id wid"
    and "\<And>f. proper_fs f \<Longrightarrow> linkless (base @ [wid]) f \<Longrightarrow> look f (base @ [wid]) = Some Dir \<Longrightarrow> fills (base @ [wid]) f (snd (g f))"
  shows "steady base (\<lambda>ids. wid \<in> ids) (on_fs g) (\<lambda>x ids. wid \<in> ids)"
proof (rule steady_on_fs)
  fix ids f assume r: "rooms base ids f" "wid \<in> ids"
  with assms(1) have "proper_fs f" "linkless base f" "look f (base @ [wid]) = Some Dir" by (simp_all add: rooms_def)
  moreover from this(2) have "linkless (base @ [wid]) f" unfolding linkless_def by (metis append_prefixD)
  ultimately have "fills (base @ [wid]) f (snd (g f))" by (intro assms(2))
  from rooms_fills [OF r assms(1) this] r(2)
  show "rooms base ids (snd (g f)) \<and> (\<forall>x. fst (g f) = Inr x \<longrightarrow> wid \<in> ids)" by simp
qed

lemma steady_ws_path: "steady base P (on_fs (ws_path b wid)) (\<lambda>p ids. P ids \<and> p = b @ [wid] \<and> valid_workspace_id wid)"
  by (rule steady_on_fs) (simp add: ws_path_def validate_workspace_id_def retM_apply raiseM_apply)

section \<open>Workspaces\<close>

lemma service_get_steady: "steady base P (service_get wid) (\<lambda>w ids. P ids \<and> wid \<in> ids)"
  unfolding service_get_def
proof (rule steady_on_meta)
  fix m w assume "P (row_ids m)" "fst (get_workspace wid m) = Inr w"
  then have "get_workspace wid m = (Inr w, m)" using get_workspace_state [of wid m] by (cases "get_workspace wid m") simp
  with get_workspace_known show "P (row_ids m) \<and> wid \<in> row_ids m" using \<open>P (row_ids m)\<close> by blast
qed simp

lemma service_create_steady: "steady base P (service_create base hex now spec name md) (\<lambda>w ids. ws_id w \<in> ids)"
  unfolding steady_def
proof (intro allI impI)
  fix s assume s: "settled base s"
  then have "in_sync base s" "linkless base (st_fs s)" by (simp_all add: settled_def)
  with service_create_sync [of base s hex now spec name md]
  show "settled base (snd (service_create base hex now spec name md s)) \<and>
      (\<forall>x. fst (service_create base hex now spec name md s) = Inr x \<longrightarrow>
        ws_id x \<in> row_ids (st_meta (snd (service_create base hex now spec name md s))))"
    by (cases "fst (service_create base hex now spec name md s)") (auto simp: settled_def linkless_def)
qed

lemma service_delete_steady: "keeps_settled base (service_delete base wid now)"
  unfolding steady_def
proof (intro allI impI)
  fix s assume s: "settled base s"
  then have "in_sync base s" "linkless base (st_fs s)" by (simp_all add: settled_def)
  with service_delete_sync [of base s wid now]
  show "settled base (snd (service_delete base wid now s)) \<and>
      (\<forall>x. fst (service_delete base wid now s) = Inr x \<longrightarrow> True)"
    by (cases "fst (service_delete base wid now s)") (auto simp: settled_def linkless_def)
qed

lemma service_list_steady: "keeps_settled base (service_list sel lmt)"
  unfolding service_list_def by (rule steady_on_meta) simp_all

section \<open>Files\<close>

lemma run_file_op_links: "look (run_file_op base wid x f) q = Some (Link t) \<Longrightarrow> look f q = Some (Link t)"
proof -
  assume a: "look (run_file_op base wid x f) q = Some (Link t)"
  have g: "link_of g = link_of f \<Longrightarrow> look g q = Some (Link t) \<Longrightarrow> look f q = Some (Link t)" for g
    by (drule fun_cong [of _ _ q]) (auto simp: link_of_def split: option.splits node.splits)
  have d: "look g q = Some (Link t) \<Longrightarrow> look f q = Some (Link t)" if "g = f \<or> (\<exists>p. p \<noteq> [] \<and> g = del_node p f)" for g
    using that by (auto split: if_splits)
  have u: "snd (unlink p f) = f \<or> (\<exists>p'. p' \<noteq> [] \<and> snd (unlink p f) = del_node p' f)" for p
    by (cases "p = []") (auto simp: unlink_def split: option.split node.split)
  have r: "snd (rmdir p f) = f \<or> (\<exists>p'. p' \<noteq> [] \<and> snd (rmdir p f) = del_node p' f)" for p
    by (auto simp: rmdir_def)
  have del: "snd (delete_path base wid u f) = f \<or> (\<exists>p'. p' \<noteq> [] \<and> snd (delete_path base wid u f) = del_node p' f)" for u
  proof (cases rule: any_jail.check_cases [of base wid u f])
    case (granted p r')
    with u [of p] r [of p] show ?thesis
      by (auto simp: delete_path_def bindM_apply workspace_root_root_of raiseM_apply catchM_apply split: prod.split sum.split)
  qed (simp add: delete_path_def bindM_apply)
  show ?thesis
  proof (cases x)
    case (OpWrite u c)
    with a g [of "snd (write_file base wid u c f)"] write_file_grows [of f base wid u c] show ?thesis by (simp add: grows_def)
  next
    case (OpEdit u old new al)
    with a g [of "snd (edit_file base wid u old new al f)"] edit_file_grows [of f base wid u old new al] show ?thesis by (simp add: grows_def)
  next
    case (OpDelete u)
    with a d [OF del, of u] show ?thesis by simp
  next
    case (OpUpload items)
    with a g [of "snd (upload_files base wid items f)"] upload_files_grows [of f base wid items] show ?thesis by (simp add: grows_def)
  qed
qed

lemma steady_file_op:
  assumes "\<And>f. snd (g f) = run_file_op base wid x f"
  shows "keeps_settled base (on_fs g)"
  unfolding steady_def
proof (intro allI impI)
  fix s assume "settled base s"
  then have s: "in_sync base s" "linkless base (st_fs s)" by (simp_all add: settled_def)
  have "snd (on_fs g s) = s\<lparr>st_fs := run_file_op base wid x (st_fs s)\<rparr>"
    using assms [of "st_fs s"] by (cases "g (st_fs s)") (simp add: on_fs_def focusM_apply)
  with file_op_sync [OF s(1), of wid x] s(2) run_file_op_links [of base wid x "st_fs s"]
  show "settled base (snd (on_fs g s)) \<and> (\<forall>y. fst (on_fs g s) = Inr y \<longrightarrow> True)"
    by (auto simp: settled_def linkless_def)
qed

lemma file_services_steady:
  "keeps_settled base (on_fs (write_file base wid u c))" "keeps_settled base (on_fs (edit_file base wid u old new al))"
  "keeps_settled base (on_fs (delete_path base wid u))" "keeps_settled base (on_fs (upload_files base wid items))"
  by (rule steady_file_op [of _ base wid "OpWrite u c"], simp)
    (rule steady_file_op [of _ base wid "OpEdit u old new al"], simp,
     rule steady_file_op [of _ base wid "OpDelete u"], simp,
     rule steady_file_op [of _ base wid "OpUpload items"], simp)

section \<open>Snapshots\<close>

definition layout_ok :: "layout \<Rightarrow> bool" where
  "layout_ok lay \<longleftrightarrow> apart (lay_workspaces lay) (lay_snapshots lay) \<and> apart (lay_workspaces lay) (lay_artifacts lay) \<and>
     list_all proper_name (lay_snapshots lay) \<and> list_all proper_name (lay_artifacts lay)"

lemma create_rows [simp]:
  "row_ids (snd (create_snapshot x m)) = row_ids m"
  "row_ids (snd (create_artifact a m)) = row_ids m"
  "row_ids (snd (create_execution e m)) = row_ids m"
  "row_ids (snd (update_execution eid fs m)) = row_ids m"
proof -
  show "row_ids (snd (create_snapshot x m)) = row_ids m" by (rule create_snapshot_rows)
  show "row_ids (snd (create_artifact a m)) = row_ids m"
    by (cases "ms_open m"; cases "artifact_row a")
      (auto simp: create_artifact_def op_simps integrity_apply row_ids_def insert_art_def split: option.splits if_splits)
  show "row_ids (snd (create_execution e m)) = row_ids m"
    by (cases "ms_open m"; cases "execution_row e")
      (auto simp: create_execution_def op_simps integrity_apply row_ids_def insert_ex_def split: option.splits if_splits)
  show "row_ids (snd (update_execution eid fs m)) = row_ids m"
    by (cases "ms_open m"; cases "set_columns fs") (auto simp: update_execution_def op_simps row_ids_def)
qed

lemma snapshot_create_steady:
  assumes "layout_ok lay" and "slash \<notin> set hex"
  shows "keeps_settled (lay_workspaces lay) (snapshot_create ar lay hex now wid name)"
proof -
  note ap = assms(1) [unfolded layout_ok_def]
  have st: "steady (lay_workspaces lay) (\<lambda>ids. True)
      (on_fs (store_snapshot ar (lay_snapshots lay) hex now w p name None)) (\<lambda>x ids. True)" for w p
    by (rule steady_conseq [OF steady_on_fs_beside [where R = "\<lambda>x. True" and P = "\<lambda>ids. True"]])
      (use ap assms(2) store_snapshot_beside in blast)+
  have de: "steady (lay_workspaces lay) (\<lambda>ids. True) (on_fs (store_delete (lay_snapshots lay) sid)) (\<lambda>x ids. True)" for sid
    by (rule steady_conseq [OF steady_on_fs_beside [where R = "\<lambda>x. True" and P = "\<lambda>ids. True"]])
      (use ap store_delete_beside in blast)+
  show ?thesis unfolding snapshot_create_def
    by (rule steady_bind, rule service_get_steady, rule steady_bind, rule steady_ws_path, rule steady_bind,
        rule steady_conseq, rule st, simp, assumption, rule steady_bind [where R = "\<lambda>_ ids. True"],
        rule steady_catch, rule steady_on_meta, simp, simp, rule steady_bind, rule de, rule steady_raise, rule steady_ret, simp)
qed

lemma ensure_dir_empty_rooms:
  assumes r: "rooms base ids f" and w: "wid \<in> ids" "valid_workspace_id wid"
  shows "rooms base ids (snd (ensure_dir_empty (base @ [wid]) f))"
proof (cases "ensure_dir_empty (base @ [wid]) f")
  case (Pair v g)
  let ?d = "base @ [wid]"
  have d: "look f ?d = Some Dir" and pf: "proper_fs f" using r w by (auto simp: rooms_def)
  have "entries f ?d \<noteq> [] \<Longrightarrow> \<exists>h. mkdir_new ?d (snd (rmtree ?d f)) = (Inr (), h)"
  proof -
    have l: "look (snd (rmtree ?d f)) q = (if prefix ?d q then None else look f q)" for q using rmtree_look [OF _ d] by simp
    have "look (snd (rmtree ?d f)) q \<in> {None, Some Dir}" if "prefix q ?d" for q
      using that l [of q] d prefix_dir [of f ?d q] pf by (cases "q = ?d") (auto simp: proper_fs_def strict_prefix_def)
    with mkdir_p_clear [of "snd (rmtree ?d f)" ?d] rmtree_frame [of f ?d ?d] pf l [of ?d]
    show "\<exists>h. mkdir_new ?d (snd (rmtree ?d f)) = (Inr (), h)" by (auto simp: mkdir_new_def proper_fs_def)
  qed
  with Pair d have "v = Inr ()" by (auto simp: ensure_dir_empty_def bindM_apply rmtree_def split: if_splits)
  with empty_dir [OF pf d _ Pair [unfolded \<open>v = Inr ()\<close>]] have g: "proper_fs g"
      "\<And>q. look g q = (if strict_prefix ?d q then None else look f q)" by auto
  have "\<not> strict_prefix ?d base" "\<And>v. \<not> strict_prefix ?d (base @ [v])" by (auto simp: strict_prefix_def prefix_def)
  with r g Pair show ?thesis by (simp add: rooms_def linkless_def)
qed

lemma forge_meta_fills:
  assumes f: "proper_fs f" "linkless d f" "look f d = Some Dir" and ns: "list_all proper_name ns"
  shows "resolve_path f (d @ ns) = d @ ns" and "list_all proper_name (d @ ns)"
proof -
  show p: "list_all proper_name (d @ ns)" using look_proper [OF f(1), of d] f(3) ns by simp
  show "resolve_path f (d @ ns) = d @ ns"
  proof (rule resolve_plain [OF p])
    fix q t assume q: "prefix q (d @ ns)"
    show "look f q \<noteq> Some (Link t)"
    proof (cases "prefix d q")
      case True
      with f(2) show ?thesis by (simp add: linkless_def)
    next
      case False
      with q have "strict_prefix q d" by (metis prefix_order.le_less prefix_same_cases prefixI)
      with prefix_dir [of f d q] f show ?thesis by (auto simp: proper_fs_def)
    qed
  qed
qed

lemma forge_names: "list_all proper_name [''.forge'', ''exec'']"
  by (simp add: proper_name_def dot_def dotdot_def slash_def)

lemma at_forge_meta_fills:
  assumes f: "proper_fs f" "linkless d f" "look f d = Some Dir"
  shows "fills d f (snd (at_path mkdir_p (d @ [''.forge'', ''exec'']) f))"
proof -
  have "wf_fs f" using f(1) by (simp add: proper_fs_def)
  with fills_mkdir_p [OF this f(3), of "d @ [''.forge'', ''exec'']"] forge_meta_fills [OF f forge_names] show ?thesis
    by (simp add: at_path_def)
qed

lemma snapshot_restore_steady:
  assumes "layout_ok lay"
  shows "keeps_settled (lay_workspaces lay) (snapshot_restore ar lay hex now later sid name md)"
proof -
  let ?b = "lay_workspaces lay"
  let ?K = "\<lambda>wid (x::unit) ids. wid \<in> ids"
  have e: "steady ?b (\<lambda>ids. wid \<in> ids) (on_fs (ensure_dir_empty (?b @ [wid]))) (?K wid)" if "valid_workspace_id wid" for wid
    by (rule steady_on_fs) (simp add: ensure_dir_empty_rooms that)
  have t: "steady ?b (\<lambda>ids. wid \<in> ids) (on_fs (store_restore ar (lay_snapshots lay) sid (?b @ [wid]))) (?K wid)"
    if "valid_workspace_id wid" for wid
    by (rule steady_on_fs_fills [OF that]) (rule store_restore_fills)
  have m: "steady ?b (\<lambda>ids. wid \<in> ids) (on_fs (ensure_forge_meta (?b @ [wid]))) (?K wid)" if "valid_workspace_id wid" for wid
    unfolding ensure_forge_meta_def by (rule steady_on_fs_fills [OF that]) (rule at_forge_meta_fills)
  have c: "steady ?b (\<lambda>ids. wid \<in> ids) (catchM (on_fs (store_restore ar (lay_snapshots lay) sid (?b @ [wid])))
       (\<lambda>e. is_instance e SnapshotError) (\<lambda>e. bindM (service_delete ?b w later) (\<lambda>_. raiseM e))) (?K wid)"
    if "valid_workspace_id wid" for wid w
    by (rule steady_catch [OF t [OF that]], rule steady_bind, rule service_delete_steady, rule steady_raise)
  have rest: "steady ?b (\<lambda>ids. wid \<in> ids \<and> p = ?b @ [wid] \<and> valid_workspace_id wid)
      (bindM (on_fs (ensure_dir_empty p)) (\<lambda>_.
       bindM (catchM (on_fs (store_restore ar (lay_snapshots lay) sid p)) (\<lambda>e. is_instance e SnapshotError)
         (\<lambda>e. bindM (service_delete ?b wid later) (\<lambda>_. raiseM e))) (\<lambda>_.
       bindM (on_fs (ensure_forge_meta p)) (\<lambda>_. retM w)))) (\<lambda>x ids. True)" for wid p and w :: workspace
  proof (cases "p = ?b @ [wid] \<and> valid_workspace_id wid")
    case True
    then have v: "valid_workspace_id wid" by simp
    have "steady ?b (\<lambda>ids. wid \<in> ids) (bindM (on_fs (ensure_dir_empty (?b @ [wid]))) (\<lambda>_.
       bindM (catchM (on_fs (store_restore ar (lay_snapshots lay) sid (?b @ [wid]))) (\<lambda>e. is_instance e SnapshotError)
         (\<lambda>e. bindM (service_delete ?b wid later) (\<lambda>_. raiseM e))) (\<lambda>_.
       bindM (on_fs (ensure_forge_meta (?b @ [wid]))) (\<lambda>_. retM w)))) (\<lambda>x ids. True)"
      by (rule steady_bind, rule e [OF v], rule steady_bind, rule c [OF v], rule steady_bind, rule m [OF v], rule steady_ret, simp)
    with True show ?thesis by simp
  next
    case False
    then show ?thesis by (intro steady_False) blast
  qed
  show ?thesis unfolding snapshot_restore_def
    by (rule steady_bind [where R = "\<lambda>x ids. True"], rule steady_on_meta, simp, simp, rule steady_bind, rule service_get_steady,
        rule steady_bind, rule service_create_steady, rule steady_bind, rule steady_ws_path, rule rest)
qed

section \<open>Artifacts\<close>

lemma export_source_reads: "snd (export_source base wid path f) = f"
  by (simp add: export_source_def ws_path_def validate_workspace_id_def bindM_apply retM_apply raiseM_apply Let_def)

lemma export_source_names:
  assumes "list_all (\<lambda>n. slash \<notin> set n) base" and "fst (export_source base wid path f) = Inr (src, rel)"
  shows "proper_name (last src)"
proof -
  from assms(2) have src: "src = resolve_path f (join_path (resolve_path f (base @ [wid])) path)" "path_is_file src f"
    and v: "valid_workspace_id wid"
    by (auto simp: export_source_def ws_path_def validate_workspace_id_def bindM_apply retM_apply raiseM_apply Let_def split: if_splits)
  from v assms(1) have "list_all (\<lambda>n. slash \<notin> set n) (base @ [wid])" by (simp add: valid_workspace_id_def)
  from proper_no_slash [OF resolve_path_proper [OF this]]
  have "list_all (\<lambda>n. slash \<notin> set n) (join_path (resolve_path f (base @ [wid])) path)"
    by (auto simp: join_path_def pure_parts_def list_all_iff dest: split_on_parts)
  then have "list_all proper_name src" unfolding src(1) by (rule resolve_path_proper)
  moreover have "src \<noteq> []" using src(2) by (auto simp: path_is_file_def stat_node_def follow_def node_at_def)
  ultimately show ?thesis by (simp add: list_all_iff)
qed

lemma artifact_export_steady:
  assumes "layout_ok lay" and base: "list_all (\<lambda>n. slash \<notin> set n) (lay_workspaces lay)" and hex: "slash \<notin> set hex"
  shows "keeps_settled (lay_workspaces lay) (artifact_export guess lay hex now wid path content_type)"
proof -
  let ?b = "lay_workspaces lay"
  note ap = assms(1) [unfolded layout_ok_def]
  have src: "steady ?b P (on_fs (export_source ?b wid path)) (\<lambda>x ids. proper_name (last (fst x)))" for P
  proof (rule steady_on_fs)
    fix ids f assume "rooms ?b ids f"
    then show "rooms ?b ids (snd (export_source ?b wid path f)) \<and>
        (\<forall>x. fst (export_source ?b wid path f) = Inr x \<longrightarrow> proper_name (last (fst x)))"
      using export_source_names [OF base, of wid path f] by (auto simp: export_source_reads)
  qed
  have put: "steady ?b (\<lambda>ids. True)
      (bindM (on_fs (store_export guess (lay_artifacts lay) hex now wid c rel content_type)) (\<lambda>art.
       bindM (catchM (on_meta (create_artifact art)) (\<lambda>e. is_instance e PyException)
         (\<lambda>e. bindM (on_fs (store_remove (lay_artifacts lay) (art_id art))) (\<lambda>_. raiseM e))) (\<lambda>_. retM art))) (\<lambda>x ids. True)"
    if c: "proper_name (last c)" for c rel
  proof -
    have ex: "keeps_settled ?b (on_fs (store_export guess (lay_artifacts lay) hex now wid c rel content_type))"
      by (rule steady_conseq [OF steady_on_fs_beside [where R = "\<lambda>x. True" and P = "\<lambda>ids. True"]])
        (use ap store_export_beside [OF _ _ _ hex c] in blast)+
    have "beside ?b f (snd (store_remove (lay_artifacts lay) aid f))" if "wf_fs f" for f aid
      using remove_tree_beside [OF that, of ?b "lay_artifacts lay"] beside_refl [OF that] ap by (simp add: store_remove_def)
    then have rm: "keeps_settled ?b (on_fs (store_remove (lay_artifacts lay) aid))" for aid
      by (intro steady_conseq [OF steady_on_fs_beside [where R = "\<lambda>x. True" and P = "\<lambda>ids. True"]]) simp_all
    show ?thesis
      by (rule steady_bind, rule ex, rule steady_bind [where R = "\<lambda>_ ids. True"], rule steady_catch, rule steady_on_meta,
          simp, simp, rule steady_bind, rule rm, rule steady_raise, rule steady_ret, simp)
  qed
  have "steady ?b (\<lambda>ids. proper_name (last (fst x))) ((\<lambda>(c, rel).
      bindM (on_fs (store_export guess (lay_artifacts lay) hex now wid c rel content_type)) (\<lambda>art.
       bindM (catchM (on_meta (create_artifact art)) (\<lambda>e. is_instance e PyException)
         (\<lambda>e. bindM (on_fs (store_remove (lay_artifacts lay) (art_id art))) (\<lambda>_. raiseM e))) (\<lambda>_. retM art))) x) (\<lambda>x ids. True)" for x
    using put [of "fst x" "snd x"] by (cases "proper_name (last (fst x))") (auto simp: case_prod_beta steady_False)
  then show ?thesis unfolding artifact_export_def
    by (intro steady_bind [OF service_get_steady steady_bind [OF src]])
qed

section \<open>Executions\<close>

lemma spill_fills:
  assumes f: "proper_fs f" "linkless (base @ [wid]) f" "look f (base @ [wid]) = Some Dir"
    and v: "valid_workspace_id wid" and eid: "slash \<notin> set eid"
  shows "fills (base @ [wid]) f (snd (spill_overflow base wid eid output f))"
proof -
  let ?d = "base @ [wid]" and ?names = "[''.forge'', ''exec'', spill_name eid]"
  obtain r g where g: "at_path mkdir_p (?d @ [''.forge'', ''exec'']) f = (r, g)" by force
  with at_forge_meta_fills [OF f] have one: "fills ?d f g" by simp
  then have pg: "proper_fs g" "linkless ?d g" "look g ?d = Some Dir"
    using fills_proper [OF f(1)] f(2) fills_dir [OF _ f(3)] linkless_grows [of f g] by (auto simp: fills_def)
  then have wg: "wf_fs g" by (simp add: proper_fs_def)
  have "list_all proper_name ?names"
    using eid by (auto simp: spill_name_def proper_name_def dot_def dotdot_def slash_def)
  note two = forge_meta_fills [OF pg this]
  have "fills ?d g (snd (at_path (\<lambda>p. write_text p output) (?d @ ?names) g))"
    unfolding at_path_def two(1) using fills_write_text [OF wg _ two(2), of ?d] by simp
  then have "fills ?d f (snd (at_path (\<lambda>p. write_text p output) (?d @ ?names) g))" by (rule fills_trans [OF one])
  with one g v show ?thesis
    by (cases "at_path (\<lambda>p. write_text p output) (?d @ ?names) g")
      (auto simp: spill_overflow_def ws_path_def validate_workspace_id_def FORGE_META_DIR_def bindM_apply retM_apply split: sum.split)
qed

text \<open>A step of a request makes and removes no workspace, and only the end of one writes a file.\<close>

definition files_of :: "world \<Rightarrow> fs" where
  "files_of w = st_fs (w_stores w)"

lemma keeps_after: "(\<And>x. keeps g (k x)) \<Longrightarrow> g (snd (bindM m k s)) = g (snd (m s))"
  by (cases "m s") (auto simp: bindM_apply keeps_def split: sum.split)

lemma keeps_await: "keeps g m \<Longrightarrow> g (snd (await m w)) = g w"
  by (cases "m w") (auto simp: await_def dest: keepsD split: sum.split)

lemma await_files: "files_of (snd (await m w)) = files_of (snd (m w))"
  by (simp add: await_def split: prod.split sum.split)

lemma files_keeps [keeps_intros]:
  "keeps files_of (in_meta m)" "keeps files_of (publish_event c kind wid payload)"
  by (simp_all add: keeps_def files_of_def in_meta_def on_meta_def focusM_apply publish_event_def split: prod.split)

lemma files_keeps_read [keeps_intros]: "(\<And>f. snd (m f) = f) \<Longrightarrow> keeps files_of (in_fs m)"
  by (auto simp: keeps_def files_of_def in_fs_def on_fs_def focusM_apply split: prod.split) (metis snd_conv)

lemma result_from_terminal_reads: "snd (result_from_terminal base wid x f) = f"
  by (auto simp: result_from_terminal_def bindM_apply catchM_apply retM_apply raiseM_apply ws_path_def
      validate_workspace_id_def read_text_def split: option.splits node.splits)

lemma find_cached_files: "keeps files_of (find_cached c wid rq)"
  unfolding find_cached_def
  by (auto intro!: keeps_intros result_from_terminal_reads split: option.split)

lemma finish_ok_files: "files_of (snd (finish_ok c wid r w)) = files_of (snd (spill_of c wid r w))"
  unfolding finish_ok_def spill_of_def Let_def by (intro keeps_after keeps_intros)

lemma exec_step_files:
  "files_of (snd (exec_step c wid rq k w)) =
    (case k of AtFinish (Inr r) \<Rightarrow> files_of (snd (spill_of c wid r w)) | _ \<Rightarrow> files_of w)"
proof (cases "(c, wid, rq, k, w)" rule: exec_step.cases)
  case (1 c' wid' rq' w')
  then show ?thesis by (simp add: keeps_await keeps_intros)
next
  case (2 c' wid' rq' ws w')
  then show ?thesis using find_cached_files by (simp add: keeps_await keeps_bind)
next
  case (3 c' wid' rq' ws w')
  then show ?thesis by (simp add: keeps_await keeps_intros queue_execution_def)
next
  case (4 c' wid' rq' ws w')
  then show ?thesis by (simp add: keeps_await keeps_intros mark_running_def)
next
  case (6 c' wid' rq' e w')
  then show ?thesis by (simp add: keeps_await keeps_intros finish_failed_def)
next
  case (7 c' wid' rq' r w')
  have "keeps files_of (\<lambda>w. (Inr (ExecDone (Inr res)) :: exn + exec_pc, w))" for res by (simp add: keeps_def)
  with 7 show ?thesis by (simp add: await_files keeps_after finish_ok_files)
qed simp_all

lemma exec_step_rows: "row_ids (meta_of (snd (exec_step c wid rq k w))) = row_ids (meta_of w)"
  by (cases "(c, wid, rq, k, w)" rule: exec_step.cases)
    (auto simp: exec_step_meta after_call_def simp del: exec_step.simps split: sum.split)

text \<open>What is known of the workspace of a request that has found it.\<close>

fun has_found :: "exec_pc \<Rightarrow> bool" where
  "has_found AtGet = False"
| "has_found (ExecDone r) = False"
| "has_found k = True"

definition request_settled :: "path \<Rightarrow> string \<Rightarrow> exec_pc \<Rightarrow> world \<Rightarrow> bool" where
  "request_settled base wid k w \<longleftrightarrow>
     settled base (w_stores w) \<and> (has_found k \<longrightarrow> wid \<in> row_ids (meta_of w))"

lemma in_fs_files: "files_of (snd (in_fs m w)) = snd (m (files_of w))"
  by (simp add: files_of_def in_fs_def on_fs_def focusM_apply split: prod.split)

lemma spill_of_files:
  "files_of (snd (spill_of c wid r w)) =
    (if er_truncated r then snd (spill_overflow (xc_base c) wid (exec_id c) (er_output r) (files_of w)) else files_of w)"
  by (simp add: spill_of_def keeps_after in_fs_files retM_apply)

lemma exec_step_settled:
  assumes s: "request_settled (xc_base c) wid k w" and hex: "slash \<notin> set (xc_hex c)"
    and k: "exec_step c wid rq k w = (k', w')"
  shows "request_settled (xc_base c) wid k' w'"
proof -
  let ?b = "xc_base c"
  have r: "rooms ?b (row_ids (meta_of w)) (files_of w)" and known: "has_found k \<Longrightarrow> wid \<in> row_ids (meta_of w)"
    using s by (simp_all add: request_settled_def settled_iff meta_of_def files_of_def)
  have rows: "row_ids (meta_of w') = row_ids (meta_of w)" using exec_step_rows [of c wid rq k w] k by simp
  have "rooms ?b (row_ids (meta_of w)) (files_of w')"
  proof (cases "\<exists>res. k = AtFinish (Inr res) \<and> er_truncated res \<and> valid_workspace_id wid")
    case True
    then obtain res where res: "k = AtFinish (Inr res)" "er_truncated res" and v: "valid_workspace_id wid" by blast
    from known res have w: "wid \<in> row_ids (meta_of w)" by simp
    have "slash \<notin> set (exec_id c)" using hex by (auto simp: exec_id_def slash_def dest: in_set_takeD)
    moreover have "proper_fs (files_of w)" "linkless (?b @ [wid]) (files_of w)" "look (files_of w) (?b @ [wid]) = Some Dir"
      using r w v unfolding rooms_def linkless_def by (metis append_prefixD)+
    ultimately have "fills (?b @ [wid]) (files_of w) (files_of w')"
      using exec_step_files [of c wid rq k w] k res spill_fills [of "files_of w" ?b wid, OF _ _ _ v] by (simp add: spill_of_files)
    then show ?thesis by (rule rooms_fills [OF r w v])
  next
    case False
    then have "files_of w' = files_of w"
      using exec_step_files [of c wid rq k w] k
      by (auto simp: spill_of_files spill_overflow_def ws_path_def validate_workspace_id_def bindM_apply raiseM_apply
          split: exec_pc.splits sum.splits)
    with r show ?thesis by simp
  qed
  moreover have "wid \<in> row_ids (meta_of w)" if "has_found k'"
  proof (cases "has_found k")
    case False
    with that k have "k = AtGet" by (cases k) auto
    with that k get_workspace_known [of wid "meta_of w"] show ?thesis
      by (auto simp: await_bind in_meta_apply split: prod.splits sum.splits)
  qed (rule known)
  ultimately show ?thesis
    using rows by (simp add: request_settled_def settled_iff meta_of_def files_of_def)
qed

lemma exec_from_settled:
  "request_settled (xc_base c) wid k w \<Longrightarrow> slash \<notin> set (xc_hex c) \<Longrightarrow> settled (xc_base c) (w_stores (snd (exec_from c wid rq k w)))"
proof (induction c wid rq k w rule: exec_from.induct)
  case (1 c wid rq k w)
  show ?case
  proof (cases "\<exists>r. k = ExecDone r")
    case True
    with "1.prems" show ?thesis by (subst exec_from.simps) (auto simp: request_settled_def)
  next
    case False
    from exec_step_settled [OF "1.prems"] have
      "request_settled (xc_base c) wid (fst (exec_step c wid rq k w)) (snd (exec_step c wid rq k w))" by (metis prod.collapse)
    with False "1.IH" "1.prems"(2) show ?thesis by (subst exec_from.simps) (cases k; simp del: exec_step.simps)
  qed
qed

lemma exec_request_settled:
  "settled (xc_base c) (w_stores w) \<Longrightarrow> slash \<notin> set (xc_hex c) \<Longrightarrow>
    settled (xc_base c) (w_stores (snd (exec_request_op c wid rq w)))"
  unfolding exec_request_op_def by (intro exec_from_settled) (simp_all add: request_settled_def)

text \<open>
  A workspace may be deleted while a command of it runs. The log of an output that was cut off is then
  written all the same, and makes the directory again, which no row names.
\<close>

lemma late_log_revives_workspace:
  assumes s: "settled (xc_base c) (w_stores w)" and v: "valid_workspace_id wid" and gone: "wid \<notin> row_ids (meta_of w)"
    and res: "er_truncated res" and k: "exec_step c wid rq (AtFinish (Inr res)) w = (k', w')"
  shows "look (files_of w') (xc_base c @ [wid]) = Some Dir \<and> wid \<notin> row_ids (meta_of w')"
proof -
  let ?b = "xc_base c" and ?f = "files_of w"
  let ?p = "?b @ [wid, ''.forge'', ''exec'']"
  have r: "rooms ?b (row_ids (meta_of w)) ?f" using s by (simp add: settled_iff meta_of_def files_of_def)
  then have f: "proper_fs ?f" "linkless ?b ?f" "look ?f ?b = Some Dir" and none: "look ?f (?b @ [wid]) = None"
    using v gone by (simp_all add: rooms_def)
  have wf: "wf_fs ?f" using f(1) by (simp add: proper_fs_def)
  have "list_all proper_name [wid, ''.forge'', ''exec'']" using v forge_names by (simp add: valid_workspace_id_def proper_name_def)
  note at = forge_meta_fills(1) [OF f this]
  have "look ?f q \<in> {None, Some Dir}" if "prefix q ?p" for q
  proof (cases "prefix (?b @ [wid]) q")
    case True
    with nothing_below [OF wf none] show ?thesis by simp
  next
    case False
    with that have "prefix q ?b" by (auto simp: prefix_append prefix_Cons)
    with f(3) prefix_dir [OF wf, of ?b q] show ?thesis by (cases "q = ?b") (auto simp: strict_prefix_def)
  qed
  from mkdir_p_clear [OF wf this] obtain g where g: "mkdir_p ?p ?f = (Inr (), g)" by blast
  have d: "look g (?b @ [wid]) = Some Dir" using mkdir_p_Inr [OF g, of "?b @ [wid]"] by simp
  have "look (snd (write_text p t g)) (?b @ [wid]) = Some Dir" for p t
    using grows_write_text [of g p t] d by (simp add: grows_def)
  then have "look (snd (spill_overflow ?b wid (exec_id c) (er_output res) ?f)) (?b @ [wid]) = Some Dir"
    using g at v
    by (auto simp: spill_overflow_def ws_path_def validate_workspace_id_def FORGE_META_DIR_def at_path_def bindM_apply retM_apply
        split: prod.split sum.split) (metis snd_conv)+
  then have "look (files_of w') (?b @ [wid]) = Some Dir"
    using exec_step_files [of c wid rq "AtFinish (Inr res)" w] k res by (simp add: spill_of_files)
  with gone exec_step_rows [of c wid rq "AtFinish (Inr res)" w] k show ?thesis by simp
qed

end
