(* ===== verification/Requests.thy ===== *)
theory Requests
  imports Daemon Service_Sync Http_Client
begin

text \<open>
  The daemon as a whole, one request at a time: whatever requests it is sent, whatever calls the
  in-process client makes, and whatever the commands do in the directories of their workspaces (short
  of symbolic links), directories and rows of workspaces stay in step through every restart.
\<close>

section \<open>Operations of the daemon\<close>

definition daemon_ok :: "forge_config \<Rightarrow> forge_state \<Rightarrow> bool" where
  "daemon_ok c s \<longleftrightarrow> settled (workspaces_root c) (stores_of s) \<and> \<not> ms_memory (st_meta (stores_of s))"

definition sound :: "forge_config \<Rightarrow> 'a forge_op \<Rightarrow> bool" where
  "sound c m \<longleftrightarrow> (\<forall>s. daemon_ok c s \<longrightarrow> daemon_ok c (snd (m s)))"

text \<open>What a request or a call is served with: the trees of the configuration, and identifiers that are names.\<close>

definition host_ok :: "forge_config \<Rightarrow> host \<Rightarrow> bool" where
  "host_ok c h \<longleftrightarrow> h_layout h = layout_of c \<and> xc_base (h_exec h) = workspaces_root c \<and>
     slash \<notin> set (h_hex h) \<and> slash \<notin> set (xc_hex (h_exec h))"

lemma soundD: "sound c m \<Longrightarrow> daemon_ok c s \<Longrightarrow> m s = (r, s') \<Longrightarrow> daemon_ok c s'"
  by (auto simp: sound_def dest: spec [of _ s])

lemma sound_ret: "sound c (retM x)"
  by (simp add: sound_def retM_apply)

lemma sound_bind: "sound c m \<Longrightarrow> (\<And>x. sound c (k x)) \<Longrightarrow> sound c (bindM m k)"
  by (auto simp: sound_def bindM_apply split: prod.split sum.split dest: soundD)

lemma sound_stores:
  assumes "keeps_settled (workspaces_root c) m" and "keeps (\<lambda>s. ms_memory (st_meta s)) m"
  shows "sound c (in_stores m)"
  unfolding sound_def
proof (intro allI impI)
  fix s assume s: "daemon_ok c s"
  obtain r st where m: "m (stores_of s) = (r, st)" by force
  from steadyD [OF assms(1) _ _ m] keepsD [OF assms(2) m] s m show "daemon_ok c (snd (in_stores m s))"
    by (simp add: daemon_ok_def in_stores_def in_world_def focusM_apply)
qed

lemma sound_files: "keeps_settled (workspaces_root c) (on_fs g) \<Longrightarrow> sound c (in_files g)"
  unfolding in_files_def by (intro sound_stores keeps_intros)

lemma sound_files_reads: "(\<And>f. snd (g f) = f) \<Longrightarrow> sound c (in_files g)"
  by (rule sound_files, rule steady_conseq [OF steady_on_fs_reads]) simp_all

lemma sound_meta_reads:
  assumes "\<And>m. snd (g m) = m"
  shows "sound c (in_stores (on_meta g))"
  using assms by (intro sound_stores steady_on_meta keeps_on_meta) (simp_all add: keeps_def)

section \<open>The services\<close>

lemma meta_memory [keeps_intros]:
  "keeps ms_memory (create_snapshot x)" "keeps ms_memory (create_artifact a)"
  "keeps ms_memory (create_execution e)" "keeps ms_memory (update_execution eid fs)"
  unfolding create_snapshot_def create_artifact_def create_execution_def update_execution_def integrity_def
  by (auto intro!: keeps_intros split: option.split)

lemma services_memory [keeps_intros]:
  "keeps (\<lambda>s. ms_memory (st_meta s)) (service_create base hex now spec name md)"
  "keeps (\<lambda>s. ms_memory (st_meta s)) (service_delete base wid now)"
  "keeps (\<lambda>s. ms_memory (st_meta s)) (service_get wid)"
  "keeps (\<lambda>s. ms_memory (st_meta s)) (service_list sel lmt)"
  unfolding service_create_def service_delete_def service_get_def service_list_def Let_def by (intro keeps_intros)+

lemma get_snapshot_memory [keeps_intros]: "keeps ms_memory (get_snapshot sid)"
  by (simp add: keeps_def)

lemma archives_memory [keeps_intros]:
  "keeps (\<lambda>s. ms_memory (st_meta s)) (snapshot_create ar lay hex now wid name)"
  "keeps (\<lambda>s. ms_memory (st_meta s)) (snapshot_restore ar lay hex now later sid name md)"
  unfolding snapshot_create_def snapshot_restore_def by (intro keeps_intros)+

lemma artifact_memory [keeps_intros]:
  "keeps (\<lambda>s. ms_memory (st_meta s)) (artifact_export guess lay hex now wid path ct)"
proof -
  have "keeps (\<lambda>s. ms_memory (st_meta s)) ((\<lambda>(p, rel). bindM (on_fs (store_export guess (lay_artifacts lay) hex now wid p rel ct)) (\<lambda>art.
     bindM (catchM (on_meta (create_artifact art)) (\<lambda>e. is_instance e PyException)
       (\<lambda>e. bindM (on_fs (store_remove (lay_artifacts lay) (art_id art))) (\<lambda>_. raiseM e))) (\<lambda>_. retM art))) x)" for x
    by (cases x) (auto intro!: keeps_intros)
  then show ?thesis unfolding artifact_export_def by (intro keeps_intros)
qed

lemma workspace_services_sound:
  "sound c (in_stores (service_create (workspaces_root c) hex now spec name md))"
  "sound c (in_stores (service_delete (workspaces_root c) wid now))"
  "sound c (in_stores (service_get wid))" "sound c (in_stores (service_list sel lmt))"
  by (rule sound_stores, rule steady_conseq [OF service_create_steady [where P = "\<lambda>ids. True"]], simp_all add: keeps_intros)
    (intro sound_stores service_delete_steady service_list_steady steady_conseq [OF service_get_steady [where P = "\<lambda>ids. True"]] keeps_intros;
     simp)+

lemma get_row_state [simp]:
  "snd (get_execution eid m) = m" "snd (list_executions wid m) = m" "snd (list_snapshots wid m) = m"
  "snd (get_artifact aid m) = m" "snd (list_artifacts wid m) = m"
  by (cases "ms_open m"; auto simp: get_execution_def list_executions_def list_snapshots_def get_artifact_def list_artifacts_def op_simps
      split: option.split sum.split)+

lemma layout_of_ok:
  assumes "standard c"
  shows "layout_ok (layout_of c)" and "lay_workspaces (layout_of c) = workspaces_root c"
    and "list_all (\<lambda>n. slash \<notin> set n) (workspaces_root c)"
  using assms layout_apart [of c]
  by (auto simp: layout_ok_def layout_of_def standard_def workspaces_root_def snapshots_root_def artifacts_root_def proper_name_def
      dot_def dotdot_def slash_def list_all_iff)

lemma archive_services_sound:
  assumes c: "standard c" and hex: "slash \<notin> set hex"
  shows "sound c (in_stores (snapshot_create ar (layout_of c) hex now wid name))"
    and "sound c (in_stores (snapshot_restore ar (layout_of c) hex now later sid name md))"
    and "sound c (in_stores (artifact_export guess (layout_of c) hex now wid path ct))"
  using snapshot_create_steady [OF layout_of_ok(1) [OF c] hex] snapshot_restore_steady [OF layout_of_ok(1) [OF c]]
    artifact_export_steady [OF layout_of_ok(1) [OF c] _ hex] layout_of_ok(2,3) [OF c]
  by (auto intro!: sound_stores keeps_intros)

lemma snapshot_reads_sound:
  "sound c (in_stores (snapshot_get sid))" "sound c (in_stores (snapshot_list wid))"
  "sound c (in_stores (artifact_get aid))" "sound c (in_stores (artifact_list wid))"
  unfolding snapshot_get_def snapshot_list_def artifact_get_def artifact_list_def by (simp_all add: sound_meta_reads)

lemma exec_step_memory: "ms_memory (meta_of (snd (exec_step x wid rq k w))) = ms_memory (meta_of w)"
  using meta_memory(3,4)
  by (cases "(x, wid, rq, k, w)" rule: exec_step.cases)
    (auto simp: exec_step_meta after_call_def keeps_def simp del: exec_step.simps split: sum.split)

lemma exec_from_memory: "ms_memory (meta_of (snd (exec_from x wid rq k w))) = ms_memory (meta_of w)"
proof (induction x wid rq k w rule: exec_from.induct)
  case (1 x wid rq k w)
  then show ?case
    by (subst exec_from.simps) (cases k; simp add: exec_step_memory del: exec_step.simps)
qed

lemma executions_sound:
  assumes "xc_base x = workspaces_root c" and "slash \<notin> set (xc_hex x)"
  shows "sound c (in_world (exec_request_op x wid r))"
  unfolding sound_def
proof (intro allI impI)
  fix s assume s: "daemon_ok c s"
  with exec_request_settled [of x "sv_world s" wid r] exec_from_memory [of x wid r AtGet "sv_world s"] assms
  show "daemon_ok c (snd (in_world (exec_request_op x wid r) s))"
    by (cases "exec_request_op x wid r (sv_world s)")
      (simp add: daemon_ok_def in_world_def focusM_apply exec_request_op_def meta_of_def)
qed

lemma in_meta_reads_sound: "(\<And>m. snd (g m) = m) \<Longrightarrow> sound c (in_world (in_meta g))"
  using sound_meta_reads [of g c] by (simp add: in_stores_def in_meta_def)

lemma executions_read_sound: "sound c (in_world (exec_list wid))" "sound c (in_world (exec_get eid))"
  unfolding exec_list_def exec_get_def by (rule in_meta_reads_sound, simp)+

text \<open>Reading leaves the file system as it is.\<close>

lemma keeps_resolve [keeps_intros]:
  "keeps (\<lambda>f. f) (resolve_for_read base wid u)" "keeps (\<lambda>f. f) (workspace_root base wid)"
  by (simp_all add: keeps_def)

lemma file_reads [keeps_intros]:
  "keeps (\<lambda>f. f) (ls os base wid u)" "keeps (\<lambda>f. f) (read_file base wid u off lmt mx)"
  "keeps (\<lambda>f. f) (glob_files base wid pat)" "keeps (\<lambda>f. f) (grep_files rx base wid pat g n)"
  "keeps (\<lambda>f. f) (download_one base wid u)" "keeps (\<lambda>f. f) (store_read aroot aid name)"
proof -
  show "keeps (\<lambda>f. f) (ls os base wid u)" unfolding ls_def
    by (intro keeps_intros) (simp add: keeps_def bindM_apply liftR_apply workspace_root_apply raiseM_apply)
  show "keeps (\<lambda>f. f) (read_file base wid u off lmt mx)" "keeps (\<lambda>f. f) (download_one base wid u)"
    unfolding read_file_def download_one_def by (intro keeps_intros; simp add: keeps_def split: option.split node.split)+
  show "keeps (\<lambda>f. f) (glob_files base wid pat)" "keeps (\<lambda>f. f) (grep_files rx base wid pat g n)" "keeps (\<lambda>f. f) (store_read aroot aid name)"
    unfolding glob_files_def grep_files_def store_read_def
    by (auto intro!: keeps_intros simp: keeps_def [of _ "\<lambda>f. (x f, f)" for x] split: option.split)
      (simp add: keeps_def split: option.split node.split)
qed

lemma keeps_downloads [keeps_intros]: "keeps (\<lambda>f. f) (download_files base wid us)"
  by (induction us) (auto intro!: keeps_intros)

lemma file_reads_sound:
  "sound c (in_files (ls os base wid u))" "sound c (in_files (read_file base wid u off lmt mx))"
  "sound c (in_files (glob_files base wid pat))" "sound c (in_files (grep_files rx base wid pat g n))"
  "sound c (in_files (download_files base wid us))" "sound c (in_files (store_read aroot aid name))"
  using file_reads keeps_downloads by (auto simp: keeps_def intro!: sound_files_reads)

section \<open>Routes\<close>

definition serves :: "forge_config \<Rightarrow> handler \<Rightarrow> bool" where
  "serves c route \<longleftrightarrow> (\<forall>s. daemon_ok c s \<longrightarrow> daemon_ok c (snd (route s)))"

lemma serves_refuse: "serves c (refuse r)"
  by (simp add: serves_def refuse_def)

lemma serves_answer: "sound c m \<Longrightarrow> serves c (answer fh h st enc m)"
  by (auto simp: serves_def answer_def dest: soundD split: prod.split sum.split)

lemma serves_answer_empty: "sound c m \<Longrightarrow> serves c (answer_empty fh h m)"
  by (auto simp: serves_def answer_empty_def dest: soundD split: prod.split sum.split)

lemma serves_with_body: "(\<And>v. serves c (k v)) \<Longrightarrow> serves c (with_body rq dec k)"
  by (simp add: with_body_def serves_refuse split: option.split)

lemma serves_with_query: "(\<And>v. serves c (k v)) \<Longrightarrow> serves c (with_query rq name k)"
  by (simp add: with_query_def serves_refuse split: option.split)

lemma serves_with_int: "(\<And>v. serves c (k v)) \<Longrightarrow> serves c (with_int rq name dflt lower k)"
  by (simp add: with_int_def serves_refuse split: option.split)

lemmas serves_intros = serves_refuse serves_answer serves_answer_empty serves_with_body serves_with_query serves_with_int

lemma pool_stats_sound: "sound c (pool_stats_op img)"
  by (simp add: sound_def pool_stats_op_def)

lemma file_writes_sound:
  "sound c (in_files (write_file (workspaces_root c) wid u t))"
  "sound c (in_files (edit_file (workspaces_root c) wid u old new al))"
  "sound c (in_files (delete_path (workspaces_root c) wid u))"
  "sound c (in_files (upload_files (workspaces_root c) wid items))"
  by (rule sound_files, rule file_services_steady)+

lemmas services_sound = workspace_services_sound archive_services_sound snapshot_reads_sound executions_sound executions_read_sound
  file_reads_sound file_writes_sound pool_stats_sound

lemma host_paths:
  assumes "host_ok c h"
  shows "h_layout h = layout_of c" and "base_of h = workspaces_root c" and "lay_artifacts (h_layout h) = artifacts_root c"
  using assms by (simp_all add: host_ok_def layout_of_def)

lemma download_artifact_serves: "serves c (route_download_artifact fh h aid rq)"
proof -
  have a: "in_stores (artifact_get aid) s = (r, s') \<Longrightarrow> daemon_ok c s \<Longrightarrow> daemon_ok c s'" for s r s'
    using soundD [OF snapshot_reads_sound(3)] by blast
  have b: "in_files (store_read p aid name) s = (r, s') \<Longrightarrow> daemon_ok c s \<Longrightarrow> daemon_ok c s'" for p name s r s'
    using soundD [OF file_reads_sound(6)] by blast
  show ?thesis unfolding serves_def route_download_artifact_def
    by (simp split: prod.split sum.split) (blast intro: a b)
qed

text \<open>Every route, and every call of the in-process client.\<close>

lemma routes_serve:
  assumes c: "standard c" and h: "host_ok c h"
  shows "list_all (\<lambda>r. \<forall>ps. serves c (snd r fh h ps rq)) route_table"
proof -
  have x: "xc_base (h_exec h) = workspaces_root c" "slash \<notin> set (xc_hex (h_exec h))" "slash \<notin> set (h_hex h)"
    using h by (simp_all add: host_ok_def)
  note sv = services_sound [where c = c] archive_services_sound [OF c x(3)] executions_sound [OF x(1,2)]
  note bodies = route_healthz_def route_create_workspace_def route_list_workspaces_def route_get_workspace_def route_delete_workspace_def
    route_ls_def route_read_file_def route_write_file_def route_edit_file_def route_glob_files_def route_grep_files_def route_delete_file_def
    route_upload_def route_download_def route_download_one_def route_create_execution_def route_list_executions_def route_get_execution_def
    route_create_snapshot_def route_list_snapshots_def route_get_snapshot_def route_restore_snapshot_def route_export_artifact_def
    route_list_artifacts_def route_get_artifact_def route_pool_status_def
  show ?thesis
    unfolding route_table_def
    by (simp add: download_artifact_serves)
      (auto simp: bodies host_paths [OF h] layout_of_ok(2) [OF c] simp del: download_files.simps
        intro!: serves_intros sv sound_bind sound_ret split: option.split json.split)
qed

lemma calls_sound:
  assumes c: "standard c" and h: "host_ok c h"
  shows "sound c (local_call h x)"
proof -
  have hx: "xc_base (h_exec h) = workspaces_root c" "slash \<notin> set (xc_hex (h_exec h))" "slash \<notin> set (h_hex h)"
    using h by (simp_all add: host_ok_def)
  note sv = services_sound [where c = c] archive_services_sound [OF c hx(3)] executions_sound [OF hx(1,2)]
  note bodies = local_create_workspace_def local_get_workspace_def local_list_workspaces_def local_delete_workspace_def local_ls_def
    local_read_def local_write_def local_edit_def local_glob_def local_grep_def local_delete_file_def local_upload_files_def
    local_download_files_def local_exec_def local_list_executions_def local_get_execution_def local_create_snapshot_def
    local_list_snapshots_def local_restore_snapshot_def local_export_artifact_def local_pool_status_def
  show ?thesis
    by (cases x) (auto simp: bodies mapM_def host_paths [OF h] layout_of_ok(2) [OF c] simp del: download_files.simps
        intro!: sv sound_bind sound_ret)
qed

lemma serve_sound:
  assumes c: "standard c" and h: "host_ok c h" and web: "web_framework pick fh" and s: "daemon_ok c s"
  shows "daemon_ok c (snd (serve pick fh h rq s))"
proof (cases "pick (map fst route_table) (req_method rq) (req_path rq)")
  case None
  with s show ?thesis by (simp add: serve_def refuse_def)
next
  case (Some r)
  obtain i ps where r: "r = (i, ps)" by force
  from web_framework.pick_in_table [OF web Some [unfolded r]] have "route_table ! i \<in> set route_table" by simp
  with routes_serve [OF c h, of fh rq] have "serves c (snd (route_table ! i) fh h ps rq)" by (auto simp: list_all_iff)
  with s Some r show ?thesis by (simp add: serve_def serves_def)
qed

section \<open>Runs of the daemon\<close>

text \<open>
  What a command does between two requests: anything in the directory of a workspace that exists,
  but for removing that directory and for making links.
\<close>

definition works_in :: "path \<Rightarrow> fs \<Rightarrow> fs \<Rightarrow> bool" where
  "works_in d f g \<longleftrightarrow> proper_fs g \<and> same_outside d f g \<and> look g d = Some Dir \<and> linkless d g"

definition set_files :: "fs \<Rightarrow> forge_state \<Rightarrow> forge_state" where
  "set_files g s = s\<lparr>sv_world := (sv_world s)\<lparr>w_stores := (stores_of s)\<lparr>st_fs := g\<rparr>\<rparr>\<rparr>"

text \<open>
  A first start on a host that has no workspaces yet; then requests and calls, one at a time, commands,
  whatever becomes of the pool and of subscriptions, and restarts.
\<close>

inductive daemon_run :: "forge_config \<Rightarrow> forge_state \<Rightarrow> bool" for c where
  boot: "proper_fs f \<Longrightarrow> look f (workspaces_root c) = None \<Longrightarrow> start_services c None f = (Inr s, g) \<Longrightarrow> daemon_run c s"
| request: "daemon_run c s \<Longrightarrow> host_ok c h \<Longrightarrow> web_framework pick fh \<Longrightarrow> daemon_run c (snd (serve pick fh h rq s))"
| call: "daemon_run c s \<Longrightarrow> host_ok c h \<Longrightarrow> daemon_run c (snd (local_call h x s))"
| command: "daemon_run c s \<Longrightarrow> wid \<in> row_ids (st_meta (stores_of s)) \<Longrightarrow> valid_workspace_id wid \<Longrightarrow>
    works_in (workspaces_root c @ [wid]) (st_fs (stores_of s)) g \<Longrightarrow> daemon_run c (set_files g s)"
| other: "daemon_run c s \<Longrightarrow> stores_of s' = stores_of s \<Longrightarrow> daemon_run c s'"
| restart: "daemon_run c s \<Longrightarrow> restart_services c s = (Inr s', g) \<Longrightarrow> daemon_run c s'"

lemma rooms_works_in:
  assumes r: "rooms base ids f" and w: "wid \<in> ids" "valid_workspace_id wid" and g: "works_in (base @ [wid]) f g"
  shows "rooms base ids g"
proof -
  have out: "look g q = look f q" if "\<not> prefix (base @ [wid]) q" for q using g that by (simp add: works_in_def same_outside_def)
  have "look g base = Some Dir" using r out [of base] by (auto simp: rooms_def dest: prefix_length_le)
  moreover have "look g (base @ [v]) = look f (base @ [v])" if "valid_workspace_id v" for v
    using r w g out [of "base @ [v]"] other_workspace [of v wid base] by (cases "v = wid") (simp_all add: rooms_def works_in_def)
  moreover have "linkless base g" using r g out unfolding rooms_def linkless_def works_in_def by metis
  ultimately show ?thesis using r g by (simp add: rooms_def works_in_def)
qed

lemma start_settled:
  assumes c: "standard c" and s: "start_services c file f = (Inr s, g)" and sync: "in_sync (workspaces_root c) (stores_of s)"
    and f: "linkless (workspaces_root c) f"
  shows "daemon_ok c s"
proof -
  note i = start_services_Inr [OF s]
  have "linkless (workspaces_root c) g"
    using f ensure_layout_look [OF c conjunct1 [OF i]] by (simp add: linkless_def)
  with i sync show ?thesis by (simp add: daemon_ok_def settled_def)
qed

lemma daemon_run_ok:
  assumes c: "standard c" and "daemon_run c s"
  shows "daemon_ok c s"
  using assms(2)
proof (induction rule: daemon_run.induct)
  case (boot f s g)
  have none: "look f q = None" if "prefix (workspaces_root c) q" for q
    using nothing_below [of f "workspaces_root c"] boot(1,2) that by (simp add: proper_fs_def)
  have "in_sync (workspaces_root c) (stores_of s)"
    using none by (intro start_sync [OF c boot(1,3)]) (simp add: migrate_def empty_db_def)
  with start_settled [OF c boot(3)] none show ?case by (simp add: linkless_def)
next
  case (request s h pick fh rq)
  then show ?case by (intro serve_sound [OF c])
next
  case (call s h x)
  from soundD [OF calls_sound [OF c call.hyps(2)] call.IH] show ?case by (metis prod.collapse)
next
  case (command s wid g)
  then show ?case
    using rooms_works_in [of "workspaces_root c" "row_ids (st_meta (stores_of s))" "st_fs (stores_of s)" wid g]
    by (simp add: daemon_ok_def settled_iff set_files_def)
next
  case (other s s')
  then show ?case by (simp add: daemon_ok_def)
next
  case (restart s s' g)
  let ?stopped = "stores_of (stop_services s)"
  note ok = restart.IH [unfolded daemon_ok_def settled_def]
  note db = stop_services_file [OF conjunct2 [OF ok]]
  from restart.hyps(2) have start: "start_services c (ms_file (st_meta ?stopped)) (st_fs (stores_of s)) = (Inr s', g)"
    by (simp add: restart_services_def db)
  from ok have "proper_fs (st_fs (stores_of s))" by (simp add: in_sync_def)
  from start_sync [OF c this start] have "in_sync (workspaces_root c) (stores_of s')"
    using ok db by (simp add: in_sync_def row_ids_def)
  with start_settled [OF c start] ok show ?case by simp
qed

end
