(* ===== verification/Entry_Props.thy ===== *)
theory Entry_Props
  imports Cli_Laws Requests Transport_Props
begin

text \<open>
  The properties of the two programs of the package: the command line, and the daemon with its data
  directory.
\<close>

section \<open>The command line\<close>


definition demo_console :: "forge_state console" where
  "demo_console = \<lparr>con_forge = demo_state, con_files = [([''x''], File [120, 10])], con_out = []\<rparr>"

lemma demo_pool_status: "local_pool_status None demo_state = (Inr [], demo_state)"
  by (simp add: local_pool_status_def pool_stats_op_def pool_stats_of_def demo_state_def new_pool_def)


text \<open>C39: A text file that has been copied into a workspace with \<open>forge files write\<close> is printed by
  \<open>forge files read\<close>: through the command line, the client, the daemon and the file service, and
  whatever encoding steps lie between, exactly its first 2000 lines come out, with the line ends of
  the text the command read.\<close>

theorem copied_file_is_printed:
  assumes "web_framework pick fh" and "answers_ok h (con_forge c) (GetWorkspace wid)" and "name_ok path"
    and "fst (read_text src (con_files c)) = Inr u" and "text_ok u" and "0 \<notin> set u"
    and "int (length (the (utf8_encode u))) \<le> MAX_READ_BYTES"
    and "forge_cli (http_transport (serve pick fh h)) (FilesWrite wid path src) c = (0, c1)"
  shows "forge_cli (http_transport (serve pick fh h)) (FilesRead wid path) c1 =
    (0, c1\<lparr>con_out := con_out c1 @ concat (take 2000 (splitlines_keep u))\<rparr>)"
  using web_framework.copy_then_print [OF assms] by (simp add: printed_def)

lemma demo_get_answer: "answers_ok demo_host demo_state (GetWorkspace ''w1'')"
  using demo_get_local demo_reply_ok by (simp add: answers_ok_def mapM_def bindM_apply retM_apply)

theorem copied_file_is_printed_witness:
  "\<exists>c1. forge_cli (http_transport (serve (first_route 0) mro_handler demo_host)) (FilesRead ''w1'' ''d/b.txt'') c1 =
     (0, c1\<lparr>con_out := con_out c1 @ [120, 10]\<rparr>)"
proof -
  let ?t = "http_transport (serve (first_route 0) mro_handler demo_host)" and ?cmd = "FilesWrite ''w1'' ''d/b.txt'' [''x'']"
  have u: "fst (read_text [''x''] (con_files demo_console)) = Inr [120, 10]"
    by (simp add: read_text_def demo_console_def node_at_def look_def utf8_decode.simps)
  have s: "con_forge demo_console = demo_state" by (simp add: demo_console_def)
  have "answers_ok demo_host demo_state (Write ''w1'' ''d/b.txt'' [120, 10])"
    by (auto simp: answers_ok_def mapM_def bindM_apply retM_apply text_ok_def scalar_def name_ok_ascii split: prod.splits sum.splits)
  then have "forge_cli ?t ?cmd demo_console = forge_cli (local_transport demo_host) ?cmd demo_console"
    using demo_get_answer u s by (intro agree_cli plain_web.agree_command) simp_all
  moreover obtain g where g: "write_file demo_base ''w1'' ''d/b.txt'' [120, 10] demo_fs = (Inr (), g)" using demo_write by blast
  have "fs_of demo_state = demo_fs" "base_of demo_host = demo_base" by (simp_all add: fs_of_def demo_state_def demo_host_def)
  with g have "local_write demo_host ''w1'' ''d/b.txt'' [120, 10] demo_state = (Inr (), put_fs g demo_state)"
    by (simp add: local_write_apply)
  with u s demo_get_local have "\<exists>c1. forge_cli (local_transport demo_host) ?cmd demo_console = (0, c1)"
    by (auto simp: forge_cli_zero quiet_zero cli_files_write_def with_workspace_def workspaces_get_def files_write_def bindM_apply
        remote_apply disk_def focusM_apply demo_ws_def read_text_def split: prod.splits)
  ultimately obtain c1 where "forge_cli ?t ?cmd demo_console = (0, c1)" by auto
  from copied_file_is_printed [OF plain_web.web_framework_axioms _ _ u _ _ _ this] demo_get_answer s
  show ?thesis by (intro exI [of _ c1]) (simp add: name_ok_ascii text_ok_def scalar_def utf8_encode_def utf8_char_def MAX_READ_BYTES_def splitlines_keep.simps line_break_def)
qed

section \<open>The daemon\<close>

text \<open>C40: However the daemon is driven, a directory stands below its root of workspaces for exactly the ids that
  have a row in its database, and the trees of workspaces, snapshots and artifacts never overlap: whatever HTTP
  requests it is sent one after the other (whatever the framework makes of them: each route of the table, malformed requests and
  raised errors included), whatever the in-process client calls, whatever archives are restored, whatever the commands
  do in the directories of their workspaces short of links, and however often it is restarted.\<close>

theorem restarts_stay_in_sync:
  assumes "standard c" and "daemon_run c s"
  shows "in_sync (workspaces_root c) (w_stores (sv_world s)) \<and> apart (workspaces_root c) (snapshots_root c) \<and>
    apart (workspaces_root c) (artifacts_root c) \<and> apart (snapshots_root c) (artifacts_root c)"
  using daemon_run_ok [OF assms] layout_apart by (simp add: daemon_ok_def settled_def)

theorem restarts_stay_in_sync_witness:
  "\<exists>c h s. look (st_fs (stores_of s)) (artifacts_root c) = Some Dir \<and>
     (\<forall>rq. in_sync (workspaces_root c) (stores_of (snd (serve (first_route 0) mro_handler h rq s))))"
proof -
  let ?c = "make_config (Some [''srv'', ''forge'']) None [''home''] None (\<lambda>i. None)" and ?f = "[([''srv''], Dir)]"
  have c: "standard ?c" by (intro make_config_standard) (simp_all add: proper_name_def dot_def dotdot_def slash_def)
  have "proper_fs ?f" by (simp add: proper_fs_def wf_fs_def look_def proper_name_def dot_def dotdot_def slash_def)
  moreover have "room_for_layout ?c ?f"
    by (auto simp: room_for_layout_def wf_fs_def look_def)
  then obtain g where "ensure_layout ?c ?f = (Inr (), g)" by (rule ensure_layout_succeeds [OF c])
  then obtain s where s: "start_services ?c None ?f = (Inr s, g)" by (simp add: start_services_def bindM_apply)
  moreover have "look ?f (workspaces_root ?c) = None" by (simp add: look_def workspaces_root_def make_config_def Let_def)
  ultimately have "daemon_run ?c s" by (intro daemon_run.boot)
  let ?h = "demo_host\<lparr>h_layout := layout_of ?c, h_exec := (h_exec demo_host)\<lparr>xc_base := workspaces_root ?c\<rparr>\<rparr>"
  have "host_ok ?c ?h" by (simp add: host_ok_def demo_host_def slash_def)
  from daemon_run.request [OF \<open>daemon_run ?c s\<close> this plain_web.web_framework_axioms]
  have "in_sync (workspaces_root ?c) (stores_of (snd (serve (first_route 0) mro_handler ?h rq s)))" for rq
    using restarts_stay_in_sync [OF c] by blast
  moreover have "look (st_fs (stores_of s)) (artifacts_root ?c) = Some Dir"
    using start_services_Inr [OF s] ensure_layout_look [OF c, of ?f g "artifacts_root ?c"] by (simp add: below_layout_def)
  ultimately show ?thesis by blast
qed

end
