(* ===== verification/Spec2Isabelle.thy ===== *)
theory Spec2Isabelle
  imports Pool_Props Search_Props Exec_Props Service_Props Runtime_Props Archive_Props Transport_Props Entry_Props
begin

text \<open>
  Forge, a workspace runtime for agents: a model of the Python package under \<open>src/src/forge\<close> and the
  theorems that make it correct.

  \<^bold>\<open>The program.\<close> A daemon keeps \<^emph>\<open>workspaces\<close>: a directory on the host and a row in a SQLite metastore. Files of a
  workspace are read and written through a service that confines every path to the directory.
  Commands run in containers that are not tied to a workspace: a pool leases one for each command,
  with all workspaces mounted. Every request for a command has a row that records its status; its
  events go to subscribers over a bus. A workspace can be saved as a snapshot and restored into a new
  one, and files can be exported as artifacts. Clients call the services over HTTP or in the process,
  through one SDK, on which a LangChain backend and a command line are built.

  \<^bold>\<open>Conventions.\<close> A method is an operation of type \<open>('s, 'e, 'a) op\<close> of the theory Prelude: from the state of its object to a
  result or an exception, and the state in both cases. Exceptions are the datatype of Errors with
  the class hierarchy of the source (the order of the type), so that \<open>except\<close> clauses take what they
  take in Python. Coroutines that interleave (the pool, requests for commands) are transition systems
  with one step from \<open>await\<close> to \<open>await\<close>. Identifiers, clocks and outcomes of the outside world are
  arguments. Names and identifiers are strings of the bytes of their UTF-8, texts whose encoding matters are
  lists of code points (\<open>ustr\<close>), contents of files lists of bytes.

  \<^bold>\<open>The theories\<close>, in the order in which they build on one another:
  \<^item> Prelude, Py_Text, Iso_Time: operations with exceptions; UTF-8, line ends, substrings and Base64; ISO times.
  \<^item> Errors (\<open>errors.py\<close>), Models (\<open>models.py\<close>, \<open>config.py\<close>): the classes, enumerations and records.
  \<^item> Tables, Meta_Store, Meta_Laws, Meta_Runs, Meta_Props (\<open>storage/meta_store.py\<close>,
    \<open>storage/migrations.py\<close>): tables with primary keys (locale \<open>record_table\<close>), the schema with its
    unique indexes and foreign keys, every method; the invariant of the schema over any sequence of
    calls; round trips; the cascade of a deletion.
  \<^item> Fs, Glob, Workspace_Store, Files, Files_Search, Files_Laws, Files_Props, Search_Props
    (\<open>storage/workspace_store.py\<close>, \<open>services/workspace_service.py\<close>, \<open>services/files_service.py\<close>): a
    host file system with symbolic links; path resolution (locale \<open>path_jail\<close>); each operation;
    confinement, round trips, and glob and grep against specifications as sets.
  \<^item> Workspace_Laws, Service_Props: directories and rows stay in step.
  \<^item> Pool, Pool_Inv, Pool_Safety, Pool_Bounds, Pool_Props, Pool_Cancel (\<open>pool/container_pool.py\<close>):
    the pool as a transition system over sessions, warm-up, reaper and shutdown; exclusive leases, size, slots
    and shutdown; runs in which the reaper leases an environment twice or loses it; sessions that are cancelled.
  \<^item> Docker_Driver, Docker_Laws (\<open>drivers/docker_driver.py\<close>): the driver over a Docker client
    that is a parameter; what is left behind when a creation fails, and what of an output is kept.
  \<^item> Driver, Driver_Pool, Forge_Run, Runtime_Props (\<open>drivers/base.py\<close>, \<open>pool/lease.py\<close>): the protocols of drivers and
    sessions as records of operations, with the Docker driver and the pooled session as instances; the
    pool over a driver that keeps to the contract of the locale \<open>pool_driver\<close>; the script that every command
    is run by, on the file system of its container; from the call of a session to the directory of
    the host its command runs in.
  \<^item> Event_Bus (\<open>events/bus.py\<close>): bounded queues that drop what does not fit (locale \<open>bounded_fifo\<close>).
  \<^item> Execution, Exec_Runs, Exec_Replay, Exec_Props (\<open>services/execution_service.py\<close>): a request as a
    coroutine; any number of them interleaved; idempotency keys, status, replay.
  \<^item> Snapshots, Artifacts, Snapshot_Laws, Snapshot_Roundtrip, Artifact_Laws, Archive_Props
    (\<open>storage/snapshot_store.py\<close>, \<open>storage/artifact_store.py\<close> and their services): restoring gives the
    tree back, an artifact reads back as the file.
  \<^item> Wire, Http_Server (\<open>server/app.py\<close>, \<open>server/deps.py\<close>, \<open>server/routes\<close>): the models as JSON, the
    exception handlers, every route; routing is the contract of the locale \<open>web_framework\<close>.
  \<^item> Http_Client, Transport_Laws (\<open>client/http_client.py\<close>, \<open>client/local_client.py\<close>): both clients; a call
    over HTTP mirrors the call in the process.
  \<^item> Json_Text, Event_Stream (\<open>stream_events\<close> of \<open>server/routes/executions.py\<close>, \<open>subscribe\<close> of the HTTP
    client): JSON as text and the stream of events, in chunks.
  \<^item> Sdk, Sdk_Laws, Transport_Props (\<open>client/sdk.py\<close>, \<open>langchain/sandbox.py\<close>): the transport protocol
    with both clients as instances; the backend on the contract of the locale \<open>file_transport\<close>, which
    the local client gives and the web framework carries over (a sublocale).
  \<^item> Cli, Cli_Laws, Daemon, Entry_Props (\<open>cli.py\<close>, \<open>daemon.py\<close>, \<open>config.py\<close>, the lifespan of
    \<open>server/app.py\<close>): the commands, the data directory, starting and restarting.
  \<^item> Files_Sync, Steady, Service_Sync, Requests: what file operations, archives, artifacts and logs do to the
    directories of workspaces; triples over the services; runs of the daemon over requests, calls, commands and restarts.

  \<^bold>\<open>How they fit.\<close> The state of the daemon is one record, \<open>forge_state\<close>: the metastore and the file system
  (\<open>stores\<close>), the bus beside them (\<open>world\<close>), and the pool. Services act on the part they own, by
  \<open>focusM\<close>. The invariant of the workspace service (\<open>in_sync\<close>) is established by the first start of the daemon,
  kept by every route, every call of the in-process client, by commands that make no symbolic links and by restarts, and
  is what the round trip of snapshots assumes. The equality of calls over HTTP and in the process carries the laws of the
  services to the clients: the properties of the sandbox and of the command line are proved in the process and hold over HTTP. The Docker driver keeps to the
  contract the pool relies on, so the pool's properties hold over it, and the directory that \<open>in_sync\<close>
  promises for a workspace is the one its commands run in.

  \<^bold>\<open>Termination.\<close> Loops are total functions with a measure: links that have not been met yet for path resolution,
  the depth of the tree for walks, the length of the text for decoders, splitting and framing. Reading
  JSON has fuel, more than the length of the text, and what the printer writes is read with it
  (\<open>loads_dumps\<close>). Coroutines have no fuel: a request ends after at most six of its steps, an
  undisturbed shutdown after a number of steps given by the pool.

  \<^bold>\<open>Parameters.\<close> The Docker client and the streams of its executions; the program \<open>ln\<close> of a container's image; the archive format of snapshots;
  regular expressions of grep; the guess of a content type; sizes and times of files; the choice of a
  route and of an exception handler; identifiers, clocks and the texts of exceptions; resolving a path
  given to the daemon.

  \<^bold>\<open>Not modelled.\<close> Cancellation of a coroutine by its caller, but for that of a session of the pool (Pool_Cancel); the
  interval between two passes of the reaper, which may come at any time; the connection, the timeouts and the closing of
  the HTTP client; quoting of path segments (identifiers of the program need none); parsing the text of command
  lines and options; logging; running the web server and its generated documentation; floating point
  rounding (timeouts and limits are rationals); names the host refuses (a null byte, too many characters) and the
  64 bits of SQLite's integers; calls of the workspace, file, snapshot and artifact services that interleave (those of the
  pool and requests for commands do); constructors that only store their arguments; examples, tests and package files.
\<close>

end
